(* ===== verification/Prelude.thy ===== *)
theory Prelude
  imports Main "HOL-Library.State_Monad"
begin

text \<open>
  What the components share: the lemma collections of the development, the state monad's
  loops and the rules that push a relation between the state before and the state after
  through a computation, and the 64-bit wrap-around of Go's \<^verbatim>\<open>int64\<close>.
\<close>

section \<open>Lemma collections\<close>

named_theorems run_simps \<open>equations that run one operation of the state monad\<close>
named_theorems go_defs \<open>definitions of the Go standard library that evaluation unfolds\<close>

section \<open>The state monad\<close>

abbreviation ret :: "'a \<Rightarrow> ('s, 'a) state" where
  "ret \<equiv> State_Monad.return"

definition gets :: "('s \<Rightarrow> 'a) \<Rightarrow> ('s, 'a) state" where
  "gets f = State (\<lambda>s. (f s, s))"

definition modify :: "('s \<Rightarrow> 's) \<Rightarrow> ('s, unit) state" where
  "modify f = State (\<lambda>s. ((), f s))"

lemma run_gets [simp, run_simps]: "run_state (gets f) s = (f s, s)"
  by (simp add: gets_def)

lemma run_modify [simp, run_simps]: "run_state (modify f) s = ((), f s)"
  by (simp add: modify_def)

text \<open>\<^verbatim>\<open>if cond { body }\<close> and \<^verbatim>\<open>for _, x := range xs { body }\<close>.\<close>

definition when_do :: "bool \<Rightarrow> ('s, unit) state \<Rightarrow> ('s, unit) state" where
  "when_do b m = (if b then m else ret ())"

primrec for_each :: "('a \<Rightarrow> ('s, unit) state) \<Rightarrow> 'a list \<Rightarrow> ('s, unit) state" where
  "for_each f [] = ret ()"
| "for_each f (x # xs) = do { f x; for_each f xs }"

lemma run_when [simp, run_simps]:
  "run_state (when_do b m) s = (if b then run_state m s else ((), s))"
  by (simp add: when_do_def)

lemma for_each_append: "for_each f (xs @ ys) = do { for_each f xs; for_each f ys }"
  by (induction xs) simp_all

text \<open>
  \<^verbatim>\<open>x, err := m; if err != nil { return err }\<close>: a computation that fails with an error
  stops the ones after it. The state keeps what was done before the failure.
\<close>

definition try_do :: "('s, 'e + 'a) state \<Rightarrow> ('a \<Rightarrow> ('s, 'e + 'b) state) \<Rightarrow> ('s, 'e + 'b) state" where
  "try_do m f = do { r \<leftarrow> m; case r of Inl e \<Rightarrow> ret (Inl e) | Inr x \<Rightarrow> f x }"

primrec try_each :: "('a \<Rightarrow> ('s, 'e + 'b) state) \<Rightarrow> 'a list \<Rightarrow> ('s, 'e + 'b list) state" where
  "try_each f [] = ret (Inr [])"
| "try_each f (x # xs) = try_do (f x) (\<lambda>y. try_do (try_each f xs) (\<lambda>ys. ret (Inr (y # ys))))"

lemma run_try_do [run_simps]:
  "run_state (try_do m f) s =
     (case run_state m s of (Inl e, t) \<Rightarrow> (Inl e, t) | (Inr x, t) \<Rightarrow> run_state (f x) t)"
  by (simp add: try_do_def split: prod.split sum.split)

lemma try_do_Inr:
  assumes "run_state (try_do m f) s = (Inr y, u)"
  obtains x t where "run_state m s = (Inr x, t)" and "run_state (f x) t = (Inr y, u)"
  using assms by (auto simp: run_try_do split: prod.splits sum.splits)

lemma try_each_Inr:
  assumes "run_state (try_each f xs) s = (Inr ys, t)"
    and "\<And>x y s t. x \<in> set xs \<Longrightarrow> run_state (f x) s = (Inr y, t) \<Longrightarrow> P x y"
  shows "list_all2 P xs ys"
  using assms
proof (induction xs arbitrary: s ys)
  case Nil
  then show ?case by simp
next
  case (Cons x xs)
  from Cons.prems(1) obtain y u where y: "run_state (f x) s = (Inr y, u)"
    and rest: "run_state (try_do (try_each f xs) (\<lambda>ys. ret (Inr (y # ys)))) u = (Inr ys, t)"
    by (auto elim: try_do_Inr)
  from rest obtain zs where zs: "run_state (try_each f xs) u = (Inr zs, t)" and "ys = y # zs"
    by (auto elim: try_do_Inr)
  with y show ?case using Cons.IH [OF zs] Cons.prems(2) by auto
qed

section \<open>Relations between the state before and the state after\<close>

text \<open>
  A property of a whole workflow ("a recorded failure is never overwritten", "the trace
  only grows") is a reflexive and transitive relation between the state before and the
  state after. Every primitive keeps it, and so does every composition.
\<close>

locale state_preorder =
  fixes R :: "'s \<Rightarrow> 's \<Rightarrow> bool"
  assumes R_refl: "R s s"
    and R_trans: "R s t \<Longrightarrow> R t u \<Longrightarrow> R s u"
begin

lemma io_return: "state_io_rel R (ret x)"
  by (simp add: state_io_rel_def R_refl)

lemma io_gets: "state_io_rel R (gets f)"
  by (simp add: state_io_rel_def R_refl)

lemma io_modify: "(\<And>s. R s (f s)) \<Longrightarrow> state_io_rel R (modify f)"
  by (simp add: state_io_rel_def)

lemma io_bind:
  assumes "state_io_rel R m" and "\<And>x. state_io_rel R (f x)"
  shows "state_io_rel R (State_Monad.bind m f)"
  using assms unfolding state_io_rel_def
  by (auto split: prod.splits) (metis R_trans snd_conv)

lemma io_if: "(b \<Longrightarrow> state_io_rel R m) \<Longrightarrow> (\<not> b \<Longrightarrow> state_io_rel R n) \<Longrightarrow> state_io_rel R (if b then m else n)"
  by simp

lemma io_when: "(b \<Longrightarrow> state_io_rel R m) \<Longrightarrow> state_io_rel R (when_do b m)"
  by (simp add: when_do_def io_return)

lemma io_for_each: "(\<And>x. x \<in> set xs \<Longrightarrow> state_io_rel R (f x)) \<Longrightarrow> state_io_rel R (for_each f xs)"
  by (induction xs) (auto intro: io_return io_bind)

lemma io_option:
  "state_io_rel R m \<Longrightarrow> (\<And>x. y = Some x \<Longrightarrow> state_io_rel R (f x)) \<Longrightarrow>
   state_io_rel R (case y of None \<Rightarrow> m | Some x \<Rightarrow> f x)"
  by (cases y) auto

lemma io_sum:
  "(\<And>e. y = Inl e \<Longrightarrow> state_io_rel R (f e)) \<Longrightarrow> (\<And>x. y = Inr x \<Longrightarrow> state_io_rel R (g x)) \<Longrightarrow>
   state_io_rel R (case y of Inl e \<Rightarrow> f e | Inr x \<Rightarrow> g x)"
  by (cases y) auto

lemma io_prod: "(\<And>a b. y = (a, b) \<Longrightarrow> state_io_rel R (f a b)) \<Longrightarrow> state_io_rel R (case y of (a, b) \<Rightarrow> f a b)"
  by (cases y) auto

lemma io_try_do:
  assumes "state_io_rel R m" and "\<And>x. state_io_rel R (f x)"
  shows "state_io_rel R (try_do m f)"
  unfolding try_do_def by (intro io_bind io_sum io_return assms)

lemmas io_rules =
  io_return io_gets io_bind io_if io_when io_for_each io_option io_sum io_prod io_try_do

lemma io_snd: "state_io_rel R m \<Longrightarrow> R s (snd (run_state m s))"
  by (simp add: state_io_rel_def)

end

section \<open>Before and after\<close>

text \<open>Every state that satisfies \<open>P\<close> before is left with a result and a state that satisfy \<open>Q\<close>.\<close>

definition hoare :: "('s \<Rightarrow> bool) \<Rightarrow> ('s, 'a) state \<Rightarrow> ('a \<Rightarrow> 's \<Rightarrow> bool) \<Rightarrow> bool" where
  "hoare P m Q \<longleftrightarrow> (\<forall>s. P s \<longrightarrow> Q (fst (run_state m s)) (snd (run_state m s)))"

lemma hoareD: "hoare P m Q \<Longrightarrow> P s \<Longrightarrow> Q (fst (run_state m s)) (snd (run_state m s))"
  by (simp add: hoare_def)

lemma hoare_return: "(\<And>s. P s \<Longrightarrow> Q x s) \<Longrightarrow> hoare P (ret x) Q"
  by (simp add: hoare_def)

lemma hoare_gets: "(\<And>s. P s \<Longrightarrow> Q (f s) s) \<Longrightarrow> hoare P (gets f) Q"
  by (simp add: hoare_def)

lemma hoare_modify: "(\<And>s. P s \<Longrightarrow> Q () (f s)) \<Longrightarrow> hoare P (modify f) Q"
  by (simp add: hoare_def)

lemma hoare_bind:
  "hoare P m Q \<Longrightarrow> (\<And>x. hoare (Q x) (f x) S) \<Longrightarrow> hoare P (State_Monad.bind m f) S"
  by (auto simp: hoare_def split: prod.split)

lemma hoare_if: "(b \<Longrightarrow> hoare P m Q) \<Longrightarrow> (\<not> b \<Longrightarrow> hoare P n Q) \<Longrightarrow> hoare P (if b then m else n) Q"
  by simp

lemma hoare_when: "(b \<Longrightarrow> hoare P m Q) \<Longrightarrow> (\<And>s. \<not> b \<Longrightarrow> P s \<Longrightarrow> Q () s) \<Longrightarrow> hoare P (when_do b m) Q"
  by (simp add: hoare_def)

lemma hoare_option:
  "(y = None \<Longrightarrow> hoare P m Q) \<Longrightarrow> (\<And>x. y = Some x \<Longrightarrow> hoare P (f x) Q) \<Longrightarrow>
   hoare P (case y of None \<Rightarrow> m | Some x \<Rightarrow> f x) Q"
  by (cases y) auto

lemma hoare_sum:
  "(\<And>e. y = Inl e \<Longrightarrow> hoare P (f e) Q) \<Longrightarrow> (\<And>x. y = Inr x \<Longrightarrow> hoare P (g x) Q) \<Longrightarrow>
   hoare P (case y of Inl e \<Rightarrow> f e | Inr x \<Rightarrow> g x) Q"
  by (cases y) auto

lemma hoare_prod: "(\<And>a b. y = (a, b) \<Longrightarrow> hoare P (f a b) Q) \<Longrightarrow> hoare P (case y of (a, b) \<Rightarrow> f a b) Q"
  by (cases y) auto

lemma hoare_pre: "hoare P m Q \<Longrightarrow> (\<And>s. P' s \<Longrightarrow> P s) \<Longrightarrow> hoare P' m Q"
  by (simp add: hoare_def)

lemma hoare_post: "hoare P m Q \<Longrightarrow> (\<And>x s. Q x s \<Longrightarrow> Q' x s) \<Longrightarrow> hoare P m Q'"
  by (simp add: hoare_def)

lemma hoare_keep: "state_io_rel R m \<Longrightarrow> (\<And>s t. R s t \<Longrightarrow> P s \<Longrightarrow> Q t) \<Longrightarrow> hoare P m (\<lambda>_. Q)"
  unfolding hoare_def state_io_rel_def by blast

lemma hoare_top: "(\<And>x s. Q x s) \<Longrightarrow> hoare P m Q"
  by (simp add: hoare_def)

lemma hoare_conj: "hoare P m Q \<Longrightarrow> hoare P m S \<Longrightarrow> hoare P m (\<lambda>x s. Q x s \<and> S x s)"
  by (simp add: hoare_def)

lemma hoare_then: "hoare P m (\<lambda>_. Q) \<Longrightarrow> (\<And>x. hoare Q (f x) S) \<Longrightarrow> hoare P (State_Monad.bind m f) S"
  by (rule hoare_bind)

lemma hoare_skip: "(\<And>x. hoare (\<lambda>_. True) (f x) S) \<Longrightarrow> hoare P (State_Monad.bind m f) S"
  by (rule hoare_bind [where Q = "\<lambda>_ _. True"]) (rule hoare_top, simp_all)

section \<open>64-bit integers\<close>

text \<open>
  Go's \<^verbatim>\<open>int64\<close> arithmetic wraps around in two's complement; \<^verbatim>\<open>int\<close> is 64 bits wide on
  the platforms the service is built for (windows/amd64).
\<close>

definition wrap64 :: "int \<Rightarrow> int" where
  "wrap64 k = (k + 2 ^ 63) mod 2 ^ 64 - 2 ^ 63"

definition int64_range :: "int \<Rightarrow> bool" where
  "int64_range k \<longleftrightarrow> - (2 ^ 63) \<le> k \<and> k < 2 ^ 63"

lemma wrap64_range: "int64_range (wrap64 k)"
  by (simp add: wrap64_def int64_range_def)

lemma wrap64_id: "int64_range k \<Longrightarrow> wrap64 k = k"
  by (simp add: wrap64_def int64_range_def)

section \<open>Lists and sums\<close>

definition nonempty :: "'a list \<Rightarrow> bool" where
  "nonempty xs \<longleftrightarrow> xs \<noteq> []"

lemma case_sum_distrib_Inr:
  "(case x of Inl e \<Rightarrow> Inl e | Inr a \<Rightarrow> f a) = Inr b \<longleftrightarrow> (\<exists>a. x = Inr a \<and> f a = Inr b)"
  by (cases x) auto

end
