(* ===== verification/Go_Strings.thy ===== *)
theory Go_Strings
  imports Prelude "HOL-Library.Sublist"
begin

text \<open>
  The part of Go's \<^verbatim>\<open>strings\<close>, \<^verbatim>\<open>strconv\<close> and \<^verbatim>\<open>fmt\<close> packages the service uses. A Go string
  is a sequence of bytes, and so is a \<^typ>\<open>string\<close> here: a character outside ASCII is its
  UTF-8 encoding, several characters long.
\<close>

section \<open>Prefixes, suffixes, joining and splitting\<close>

definition has_prefix :: "string \<Rightarrow> string \<Rightarrow> bool" where
  "has_prefix s p \<longleftrightarrow> take (length p) s = p"

lemma has_prefix_iff: "has_prefix s p \<longleftrightarrow> (\<exists>t. s = p @ t)"
  unfolding has_prefix_def by (metis append_eq_conv_conj append_take_drop_id)

definition trim_suffix :: "string \<Rightarrow> string \<Rightarrow> string" where
  "trim_suffix s suf =
     (if has_prefix (rev s) (rev suf) then rev (drop (length suf) (rev s)) else s)"

fun join :: "string \<Rightarrow> string list \<Rightarrow> string" where
  "join sep [] = []"
| "join sep [x] = x"
| "join sep (x # y # zs) = x @ sep @ join sep (y # zs)"

text \<open>\<^verbatim>\<open>strings.Split(s, sep)\<close> for a separator of one byte: never the empty list.\<close>

fun split_char :: "char \<Rightarrow> string \<Rightarrow> string list" where
  "split_char c [] = [[]]"
| "split_char c (x # xs) =
     (if x = c then [] # split_char c xs
      else (x # hd (split_char c xs)) # tl (split_char c xs))"

text \<open>\<^verbatim>\<open>strings.SplitN(s, sep, 2)\<close> for a separator of one byte.\<close>

fun split2 :: "char \<Rightarrow> string \<Rightarrow> string list" where
  "split2 c [] = [[]]"
| "split2 c (x # xs) =
     (if x = c then [[], xs]
      else (x # hd (split2 c xs)) # tl (split2 c xs))"

lemma split_char_nonempty [simp]: "split_char c s \<noteq> []"
  by (cases s) auto

lemma join_Cons: "ys \<noteq> [] \<Longrightarrow> join sep (x # ys) = x @ sep @ join sep ys"
  by (cases ys) auto

lemma join_split_char: "join [c] (split_char c s) = s"
proof (induction s)
  case Nil
  then show ?case by simp
next
  case (Cons x s)
  show ?case
  proof (cases "x = c")
    case True
    with Cons.IH show ?thesis by (simp add: join_Cons)
  next
    case False
    obtain y ys where ys: "split_char c s = y # ys"
      by (cases "split_char c s") auto
    have "join [c] ((x # y) # ys) = x # join [c] (y # ys)"
      by (cases ys) auto
    with False ys Cons.IH show ?thesis by simp
  qed
qed

lemma split_char_free: "c \<notin> set s \<Longrightarrow> split_char c s = [s]"
  by (induction s) auto

lemma split_char_append: "c \<notin> set s \<Longrightarrow> split_char c (s @ c # t) = s # split_char c t"
  by (induction s) auto

text \<open>Splitting undoes joining exactly when no part holds the separator.\<close>

lemma split_char_join:
  "xs \<noteq> [] \<Longrightarrow> \<forall>x \<in> set xs. c \<notin> set x \<Longrightarrow> split_char c (join [c] xs) = xs"
proof (induction xs)
  case Nil
  then show ?case by simp
next
  case (Cons x xs)
  then show ?case
    by (cases xs) (auto simp: split_char_free split_char_append)
qed

lemma split_char_parts_free: "x \<in> set (split_char c s) \<Longrightarrow> c \<notin> set x"
proof (induction s arbitrary: x)
  case Nil
  then show ?case by simp
next
  case (Cons y s)
  obtain z zs where zs: "split_char c s = z # zs"
    by (cases "split_char c s") auto
  with Cons show ?case by (auto split: if_splits)
qed

section \<open>Replacing\<close>

text \<open>
  \<^verbatim>\<open>strings.ReplaceAll(s, old, new)\<close> for a nonempty \<open>old\<close>: occurrences are found from the
  left and do not overlap. The service never calls it with an empty \<open>old\<close>, which Go treats
  specially; here that case returns the input.
\<close>

function replace_all :: "string \<Rightarrow> string \<Rightarrow> string \<Rightarrow> string" where
  "replace_all s old new =
     (if old = [] \<or> s = [] then s
      else if has_prefix s old then new @ replace_all (drop (length old) s) old new
      else hd s # replace_all (tl s) old new)"
  by pat_completeness auto
termination
  by (relation "measure (\<lambda>(s, old, new). length s)") auto

declare replace_all.simps [simp del]

lemma replace_all_Nil [simp]: "replace_all [] old new = []"
  by (subst replace_all.simps) simp

lemma replace_all_char:
  "replace_all s [c] new = concat (map (\<lambda>x. if x = c then new else [x]) s)"
proof (induction s)
  case Nil
  then show ?case by simp
next
  case (Cons x s)
  then show ?case by (subst replace_all.simps) (simp add: has_prefix_def)
qed

section \<open>Trimming white space\<close>

text \<open>
  The UTF-8 encodings of the runes that \<^verbatim>\<open>unicode.IsSpace\<close> accepts: tab, line feed, vertical
  tab, form feed, carriage return, space, U+0085, U+00A0, U+1680, U+2000 to U+200A, U+2028,
  U+2029, U+202F, U+205F and U+3000.
\<close>

definition bytes :: "nat list \<Rightarrow> string" where
  "bytes ns = map char_of ns"

definition space_runes :: "string list" where
  "space_runes = map bytes
     ([[9], [10], [11], [12], [13], [32], [194, 133], [194, 160], [225, 154, 128]]
      @ map (\<lambda>k. [226, 128, k]) [128 ..< 139]
      @ [[226, 128, 168], [226, 128, 169], [226, 128, 175], [226, 129, 159], [227, 128, 128]])"

definition leading_space :: "string list \<Rightarrow> string \<Rightarrow> string option" where
  "leading_space rs s = find (has_prefix s) rs"

lemma space_runes_nonempty: "r \<in> set space_runes \<Longrightarrow> r \<noteq> []"
  by (auto simp: space_runes_def bytes_def)

fun trim_left :: "nat \<Rightarrow> string list \<Rightarrow> string \<Rightarrow> string" where
  "trim_left 0 rs s = s"
| "trim_left (Suc n) rs s =
     (case leading_space rs s of None \<Rightarrow> s | Some r \<Rightarrow> trim_left n rs (drop (length r) s))"

text \<open>
  Every round removes at least one byte, so the length of the string bounds the rounds.
  Trimming on the right is trimming the reversed string by the reversed encodings.
\<close>

definition trim_space :: "string \<Rightarrow> string" where
  "trim_space s =
     (let l = trim_left (length s) space_runes s
      in rev (trim_left (length l) (map rev space_runes) (rev l)))"

lemma leading_space_SomeD: "leading_space rs s = Some r \<Longrightarrow> r \<in> set rs \<and> has_prefix s r"
  by (auto simp: leading_space_def find_Some_iff)

text \<open>The bound is enough: nothing is left to trim.\<close>

lemma trim_left_done:
  assumes "\<forall>r \<in> set rs. r \<noteq> []" and "length s \<le> n"
  shows "leading_space rs (trim_left n rs s) = None"
  using assms
proof (induction n arbitrary: s)
  case 0
  then show ?case
    by (auto simp: leading_space_def find_None_iff has_prefix_def)
next
  case (Suc n)
  show ?case
  proof (cases "leading_space rs s")
    case None
    then show ?thesis by simp
  next
    case (Some r)
    then have "r \<noteq> []" and "has_prefix s r"
      using Suc.prems leading_space_SomeD by blast+
    then have "length (drop (length r) s) \<le> n"
      using Suc.prems by (cases r; cases s) (auto simp: has_prefix_def)
    with Some Suc show ?thesis by simp
  qed
qed

lemma trim_left_suffix: "\<exists>p. s = p @ trim_left n rs s"
proof (induction n arbitrary: s)
  case 0
  then show ?case by simp
next
  case (Suc n)
  show ?case
  proof (cases "leading_space rs s")
    case None
    then show ?thesis by simp
  next
    case (Some r)
    obtain p where "drop (length r) s = p @ trim_left n rs (drop (length r) s)"
      using Suc.IH by blast
    then have "s = (take (length r) s @ p) @ trim_left n rs (drop (length r) s)"
      by (metis append.assoc append_take_drop_id)
    with Some show ?thesis by (metis option.simps(5) trim_left.simps(2))
  qed
qed

text \<open>The trimmed string is a contiguous part of the input.\<close>

lemma trim_space_part: "\<exists>p q. s = p @ trim_space s @ q"
proof -
  define l where "l = trim_left (length s) space_runes s"
  obtain p where p: "s = p @ l"
    using trim_left_suffix [of s "length s" space_runes] unfolding l_def by blast
  obtain q where "rev l = q @ trim_left (length l) (map rev space_runes) (rev l)"
    using trim_left_suffix by blast
  then have "l = rev (trim_left (length l) (map rev space_runes) (rev l)) @ rev q"
    by (metis rev_append rev_rev_ident)
  moreover have "rev (trim_left (length l) (map rev space_runes) (rev l)) = trim_space s"
    by (simp add: trim_space_def l_def Let_def)
  ultimately have "l = trim_space s @ rev q" by simp
  with p show ?thesis by metis
qed

lemma trim_space_Nil [simp]: "trim_space [] = []"
  by (simp add: trim_space_def)

section \<open>Decimal numbers\<close>

definition digit_char :: "nat \<Rightarrow> char" where
  "digit_char d = char_of (48 + d)"

definition char_digit :: "char \<Rightarrow> nat option" where
  "char_digit c = (let k = of_char c in if 48 \<le> k \<and> k \<le> (57::nat) then Some (k - 48) else None)"

lemma char_digit_digit_char [simp]: "d < 10 \<Longrightarrow> char_digit (digit_char d) = Some d"
  by (simp add: char_digit_def digit_char_def Let_def)

fun dec :: "nat \<Rightarrow> string" where
  "dec n = (if n < 10 then [digit_char n] else dec (n div 10) @ [digit_char (n mod 10)])"

declare dec.simps [simp del]

text \<open>\<^verbatim>\<open>strconv.Itoa\<close> and the \<^verbatim>\<open>%d\<close> verb.\<close>

definition itoa :: "int \<Rightarrow> string" where
  "itoa k = (if k < 0 then CHR ''-'' # dec (nat (- k)) else dec (nat k))"

fun dec_value :: "nat \<Rightarrow> string \<Rightarrow> nat option" where
  "dec_value acc [] = Some acc"
| "dec_value acc (c # cs) =
     (case char_digit c of None \<Rightarrow> None | Some d \<Rightarrow> dec_value (10 * acc + d) cs)"

text \<open>
  \<^verbatim>\<open>strconv.ParseInt(s, 10, 64)\<close> and \<^verbatim>\<open>strconv.Atoi(s)\<close>: an optional sign, at least one digit,
  nothing else, and a value that fits 64 bits; \<open>None\<close> is any error.
\<close>

definition parse_unsigned :: "string \<Rightarrow> nat option" where
  "parse_unsigned s = (if s = [] then None else dec_value 0 s)"

definition parse_int :: "string \<Rightarrow> int option" where
  "parse_int s =
     (let k = (case s of
          [] \<Rightarrow> None
        | c # cs \<Rightarrow>
            if c = CHR ''-'' then map_option (\<lambda>n. - int n) (parse_unsigned cs)
            else if c = CHR ''+'' then map_option int (parse_unsigned cs)
            else map_option int (parse_unsigned s))
      in case k of None \<Rightarrow> None | Some i \<Rightarrow> if int64_range i then Some i else None)"

lemma dec_nonempty [simp]: "dec n \<noteq> []"
  by (subst dec.simps) simp

lemma dec_value_append:
  "dec_value acc (xs @ ys) = (case dec_value acc xs of None \<Rightarrow> None | Some a \<Rightarrow> dec_value a ys)"
  by (induction xs arbitrary: acc) (auto split: option.splits)

lemma dec_value_dec: "dec_value 0 (dec n) = Some n"
proof (induction n rule: dec.induct)
  case (1 n)
  show ?case
  proof (cases "n < 10")
    case True
    then show ?thesis by (simp add: dec.simps [of n])
  next
    case False
    with "1.IH" have "dec_value 0 (dec (n div 10)) = Some (n div 10)" by simp
    with False show ?thesis by (simp add: dec.simps [of n] dec_value_append)
  qed
qed

lemma dec_digits: "c \<in> set (dec n) \<Longrightarrow> \<exists>d < 10. c = digit_char d"
proof (induction n rule: dec.induct)
  case (1 n)
  then show ?case
    by (cases "n < 10") (auto simp: dec.simps [of n] intro: exI [of _ "n mod 10"])
qed

lemma digit_char_distinct:
  assumes "d < 10" and "char_digit c = None"
  shows "digit_char d \<noteq> c"
  using assms by auto

lemma hd_dec: "\<exists>d < 10. hd (dec n) = digit_char d"
  using dec_digits [of "hd (dec n)" n] by simp

lemma itoa_nonempty [simp]: "itoa k \<noteq> []"
  by (simp add: itoa_def)

lemma itoa_chars: "c \<in> set (itoa k) \<Longrightarrow> c = CHR ''-'' \<or> (\<exists>d < 10. c = digit_char d)"
  by (auto simp: itoa_def dest: dec_digits split: if_splits)

text \<open>Printing and parsing are inverse on the 64-bit integers.\<close>

lemma parse_int_itoa:
  assumes "int64_range k"
  shows "parse_int (itoa k) = Some k"
proof (cases "k < 0")
  case True
  with assms show ?thesis
    by (simp add: parse_int_def itoa_def parse_unsigned_def dec_value_dec)
next
  case False
  obtain c cs where c: "dec (nat k) = c # cs"
    by (cases "dec (nat k)") auto
  then obtain d where "d < 10" and "c = digit_char d"
    using hd_dec [of "nat k"] by auto
  then have "c \<noteq> CHR ''-''" and "c \<noteq> CHR ''+''"
    using digit_char_distinct by (auto simp: char_digit_def)
  moreover have "parse_unsigned (c # cs) = Some (nat k)"
    using dec_value_dec [of "nat k"] by (simp add: parse_unsigned_def c)
  ultimately show ?thesis
    using False assms by (simp add: parse_int_def itoa_def c)
qed

lemma parse_int_range: "parse_int s = Some k \<Longrightarrow> int64_range k"
  by (auto simp: parse_int_def Let_def split: option.splits if_splits)

text \<open>\<^verbatim>\<open>%0<w>d\<close> of a number that is not negative.\<close>

definition pad0 :: "nat \<Rightarrow> nat \<Rightarrow> string" where
  "pad0 w n = replicate (w - length (dec n)) (CHR ''0'') @ dec n"

text \<open>A string whose first and last characters are printable ASCII has nothing to trim.\<close>

definition printable :: "char \<Rightarrow> bool" where
  "printable c \<longleftrightarrow> (33 :: nat) \<le> of_char c \<and> of_char c < (128 :: nat)"

lemma space_runes_edges:
  assumes "r \<in> set space_runes"
  shows "\<not> printable (hd r)" and "\<not> printable (last r)"
  using assms by (auto simp: space_runes_def bytes_def printable_def)

lemma trim_left_None: "leading_space rs s = None \<Longrightarrow> trim_left n rs s = s"
  by (cases n) simp_all

lemma no_leading_space:
  assumes "\<And>r. r \<in> set rs \<Longrightarrow> r \<noteq> [] \<and> hd r \<noteq> hd s"
  shows "leading_space rs s = None"
  using assms unfolding leading_space_def find_None_iff has_prefix_def
  by (metis hd_Nil_eq_last hd_take length_greater_0_conv take_eq_Nil)

lemma trim_space_printable:
  assumes "printable (hd s)" "printable (last s)"
  shows "trim_space s = s"
proof -
  have "leading_space space_runes s = None"
    using assms space_runes_edges space_runes_nonempty by (intro no_leading_space) metis
  moreover have "leading_space (map rev space_runes) (rev s) = None"
  proof (rule no_leading_space)
    fix r assume "r \<in> set (map rev space_runes)"
    then obtain q where q: "q \<in> set space_runes" "r = rev q" by auto
    then have "q \<noteq> []" using space_runes_nonempty by blast
    then have "\<not> printable (hd r)" using space_runes_edges(2) [OF q(1)] q(2) by (simp add: hd_rev)
    then show "r \<noteq> [] \<and> hd r \<noteq> hd (rev s)" using assms(2) \<open>q \<noteq> []\<close> q(2) by (auto simp: hd_rev)
  qed
  ultimately show ?thesis by (simp add: trim_space_def trim_left_None)
qed

section \<open>Quoting\<close>

definition hex_digit :: "nat \<Rightarrow> char" where
  "hex_digit d = (if d < 10 then char_of (48 + d) else char_of (87 + d))"

definition quote_byte :: "char \<Rightarrow> string" where
  "quote_byte c =
     (let k = of_char c :: nat
      in if c = CHR 0x22 then [CHR 0x5C, CHR 0x22]
         else if c = CHR 0x5C then [CHR 0x5C, CHR 0x5C]
         else if k = 7 then [CHR 0x5C, CHR ''a'']
         else if k = 8 then [CHR 0x5C, CHR ''b'']
         else if k = 12 then [CHR 0x5C, CHR ''f'']
         else if k = 10 then [CHR 0x5C, CHR ''n'']
         else if k = 13 then [CHR 0x5C, CHR ''r'']
         else if k = 9 then [CHR 0x5C, CHR ''t'']
         else if k = 11 then [CHR 0x5C, CHR ''v'']
         else if k < 32 \<or> k = 127
           then [CHR 0x5C, CHR ''x'', hex_digit (k div 16), hex_digit (k mod 16)]
         else [c])"

text \<open>
  The \<^verbatim>\<open>%q\<close> verb, exact for ASCII; a rune outside ASCII is kept as it is (Go escapes the
  unprintable ones). It occurs in error messages only.
\<close>

definition go_quote :: "string \<Rightarrow> string" where
  "go_quote s = [CHR 0x22] @ concat (map quote_byte s) @ [CHR 0x22]"

end
