(* ===== verification/Go_Time.thy ===== *)
theory Go_Time
  imports Go_Strings
begin

text \<open>
  The part of Go's \<^verbatim>\<open>time\<close> package the service uses: instants with a location, the
  proleptic Gregorian calendar, \<^verbatim>\<open>time.Date\<close>, \<^verbatim>\<open>AddDate\<close> and the two text layouts. A
  location is the zone lookup \<^verbatim>\<open>Location.lookup\<close>, whose table is data of the host: it
  maps a number of seconds since the Unix epoch to the zone in effect, its offset east
  of UTC and the interval in which it is. Seconds and nanoseconds are unbounded here;
  Go's 64-bit seconds do not overflow for any year the service handles.
\<close>

section \<open>Instants\<close>

record Zone =
  z_offset :: int
  z_start :: int
  z_end :: int

type_synonym Location = "int \<Rightarrow> Zone"
type_synonym Duration = int

record Time =
  t_ns :: int
  t_loc :: Location

definition utc_loc :: Location where
  "utc_loc = (\<lambda>_. \<lparr>z_offset = 0, z_start = - (2 ^ 63), z_end = 2 ^ 63 - 1\<rparr>)"

definition fixed_loc :: "int \<Rightarrow> Location" where
  "fixed_loc off = (\<lambda>_. \<lparr>z_offset = off, z_start = - (2 ^ 63), z_end = 2 ^ 63 - 1\<rparr>)"

definition second :: Duration where "second = 1000000000"
definition minute :: Duration where "minute = 60 * second"
definition hour :: Duration where "hour = 60 * minute"

definition zero_time :: Time where
  "zero_time = \<lparr>t_ns = - 62135596800 * second, t_loc = utc_loc\<rparr>"

definition is_zero_time :: "Time \<Rightarrow> bool" where
  "is_zero_time t \<longleftrightarrow> t_ns t = t_ns zero_time"

definition after_time :: "Time \<Rightarrow> Time \<Rightarrow> bool" where
  "after_time t u \<longleftrightarrow> t_ns u < t_ns t"

definition before_time :: "Time \<Rightarrow> Time \<Rightarrow> bool" where
  "before_time t u \<longleftrightarrow> t_ns t < t_ns u"

definition in_loc :: "Time \<Rightarrow> Location \<Rightarrow> Time" where
  "in_loc t l = t\<lparr>t_loc := l\<rparr>"

definition to_utc :: "Time \<Rightarrow> Time" where
  "to_utc t = in_loc t utc_loc"

text \<open>\<^verbatim>\<open>Time.Sub\<close> saturates at the largest and smallest 64-bit durations.\<close>

definition sub_time :: "Time \<Rightarrow> Time \<Rightarrow> Duration" where
  "sub_time t u = max (- (2 ^ 63)) (min (2 ^ 63 - 1) (t_ns t - t_ns u))"

lemma t_ns_in_loc [simp]: "t_ns (in_loc t l) = t_ns t"
  and t_loc_in_loc [simp]: "t_loc (in_loc t l) = l"
  and t_ns_to_utc [simp]: "t_ns (to_utc t) = t_ns t"
  and t_loc_to_utc [simp]: "t_loc (to_utc t) = utc_loc"
  by (simp_all add: in_loc_def to_utc_def)

section \<open>The calendar\<close>

text \<open>Days are counted from 1 January 1970; years before year 1 are numbered 0, -1, ...\<close>

definition is_leap :: "int \<Rightarrow> bool" where
  "is_leap y \<longleftrightarrow> y mod 4 = 0 \<and> (y mod 100 \<noteq> 0 \<or> y mod 400 = 0)"

definition jan1 :: "int \<Rightarrow> int" where
  "jan1 y = 365 * (y - 1970) + ((y - 1) div 4 - (y - 1) div 100 + (y - 1) div 400) - 477"

definition days_before_month :: "int \<Rightarrow> int \<Rightarrow> int" where
  "days_before_month y m =
     [0, 31, 59, 90, 120, 151, 181, 212, 243, 273, 304, 334] ! nat (m - 1)
     + (if is_leap y \<and> 2 < m then 1 else 0)"

text \<open>The first day of month \<open>m\<close> of year \<open>y\<close>, for any \<open>m\<close>: Go normalises the month.\<close>

definition month_start :: "int \<Rightarrow> int \<Rightarrow> int" where
  "month_start y m =
     (let y' = y + (m - 1) div 12; m' = (m - 1) mod 12 + 1
      in jan1 y' + days_before_month y' m')"

definition civil_days :: "int \<Rightarrow> int \<Rightarrow> int \<Rightarrow> int" where
  "civil_days y m d = month_start y m + d - 1"

definition year_of_day :: "int \<Rightarrow> int" where
  "year_of_day d =
     (let e = 1970 + (d * 400) div 146097
      in if d < jan1 e then e - 1 else if jan1 (e + 1) \<le> d then e + 1 else e)"

definition month_of_day :: "int \<Rightarrow> int" where
  "month_of_day d =
     (let y = year_of_day d
      in case find (\<lambda>m. d < jan1 y + days_before_month y (m + 1)) [1, 2, 3, 4, 5, 6, 7, 8, 9, 10, 11]
         of Some m \<Rightarrow> m | None \<Rightarrow> 12)"

definition mday_of_day :: "int \<Rightarrow> int" where
  "mday_of_day d = d - month_start (year_of_day d) (month_of_day d) + 1"

definition unix_secs :: "Time \<Rightarrow> int" where
  "unix_secs t = t_ns t div second"

definition nanosecond :: "Time \<Rightarrow> int" where
  "nanosecond t = t_ns t mod second"

definition local_secs :: "Time \<Rightarrow> int" where
  "local_secs t = unix_secs t + z_offset (t_loc t (unix_secs t))"

definition local_day :: "Time \<Rightarrow> int" where
  "local_day t = local_secs t div 86400"

definition year_of :: "Time \<Rightarrow> int" where "year_of t = year_of_day (local_day t)"
definition month_of :: "Time \<Rightarrow> int" where "month_of t = month_of_day (local_day t)"
definition mday_of :: "Time \<Rightarrow> int" where "mday_of t = mday_of_day (local_day t)"
definition hour_of :: "Time \<Rightarrow> int" where "hour_of t = local_secs t mod 86400 div 3600"
definition minute_of :: "Time \<Rightarrow> int" where "minute_of t = local_secs t mod 3600 div 60"
definition second_of :: "Time \<Rightarrow> int" where "second_of t = local_secs t mod 60"

text \<open>\<^verbatim>\<open>time.Date\<close>, with its two lookups of the zone.\<close>

definition go_date :: "int \<Rightarrow> int \<Rightarrow> int \<Rightarrow> int \<Rightarrow> int \<Rightarrow> int \<Rightarrow> int \<Rightarrow> Location \<Rightarrow> Time" where
  "go_date y mo d h mi s nsec loc =
     (let unix = civil_days y mo d * 86400 + h * 3600 + mi * 60 + s;
          z = loc unix;
          utc = unix - z_offset z;
          off = (if z_offset z = 0 then 0
                 else if utc < z_start z \<or> z_end z \<le> utc then z_offset (loc utc)
                 else z_offset z)
      in \<lparr>t_ns = (unix - off) * second + nsec, t_loc = loc\<rparr>)"

definition add_date :: "Time \<Rightarrow> int \<Rightarrow> int \<Rightarrow> int \<Rightarrow> Time" where
  "add_date t years months days =
     go_date (year_of t + years) (month_of t + months) (mday_of t + days)
       (hour_of t) (minute_of t) (second_of t) (nanosecond t) (t_loc t)"

section \<open>Facts of the calendar\<close>

lemma div_pred_step:
  fixes y k :: int
  assumes "0 < k"
  shows "y div k = (y - 1) div k + (if k dvd y then 1 else 0)"
proof (cases "k dvd y")
  case True
  then obtain q where "y = k * q" by blast
  moreover from assms have "(k * q - 1) div k = q - 1"
    by (intro int_div_pos_eq [of _ _ _ "k - 1"]) (simp_all add: algebra_simps)
  ultimately show ?thesis using assms by simp
next
  case False
  then have "0 < y mod k"
    using assms by (simp add: dvd_eq_mod_eq_0 order_less_le pos_mod_sign)
  moreover have "y mod k < k" using assms by simp
  ultimately have "(y - 1) div k = y div k"
    by (intro int_div_pos_eq [of _ _ _ "y mod k - 1"]) (simp_all add: algebra_simps)
  with False show ?thesis by simp
qed

lemma div_bounds:
  fixes x k :: int
  assumes "0 < k"
  shows "k * (x div k) \<le> x \<and> x < k * (x div k) + k"
  using assms pos_mod_bound [of k x] pos_mod_sign [of k x] mult_div_mod_eq [of k x] by linarith

lemma is_leap_dvd: "is_leap y \<longleftrightarrow> 4 dvd y \<and> (\<not> 100 dvd y \<or> 400 dvd y)"
  by (simp add: is_leap_def dvd_eq_mod_eq_0)

lemma jan1_diff:
  "jan1 (y + 1) = jan1 y + 365 + (y div 4 - (y - 1) div 4) - (y div 100 - (y - 1) div 100)
     + (y div 400 - (y - 1) div 400)"
  unfolding jan1_def add_diff_cancel_right' by (simp only: algebra_simps)

lemma div_pred_diff:
  fixes y k :: int
  assumes "0 < k"
  shows "y div k - (y - 1) div k = (if k dvd y then 1 else 0)"
  by (subst div_pred_step [OF assms]) (simp only: add_diff_cancel_left')

lemma leap_count:
  fixes j :: int
  assumes "p400 \<Longrightarrow> p100" and "p100 \<Longrightarrow> p4"
  shows "j + 365 + (if p4 then 1 else 0) - (if p100 then 1 else 0) + (if p400 then 1 else 0)
    = j + (if p4 \<and> (\<not> p100 \<or> p400) then 366 else 365)"
  using assms by (cases p4; cases p100; cases p400; simp)

lemma jan1_step: "jan1 (y + 1) = jan1 y + (if is_leap y then 366 else 365)"
proof -
  have "400 dvd y \<Longrightarrow> 100 dvd y" and "100 dvd y \<Longrightarrow> 4 dvd y"
    using dvd_trans [of 100 400 y] dvd_trans [of 4 100 y] by simp_all
  then show ?thesis
    unfolding is_leap_dvd jan1_diff div_pred_diff [OF zero_less_numeral]
    by (rule leap_count)
qed

lemma jan1_mono_nat: "jan1 a + 365 * int n \<le> jan1 (a + int n)"
proof (induction n)
  case 0
  then show ?case by simp
next
  case (Suc n)
  then show ?case
    using jan1_step [of "a + int n"] by (simp add: algebra_simps split: if_splits)
qed

lemma jan1_mono: "a \<le> b \<Longrightarrow> jan1 a + 365 * (b - a) \<le> jan1 b"
  using jan1_mono_nat [of a "nat (b - a)"] by simp

lemma jan1_less: "jan1 a \<le> d \<Longrightarrow> d < jan1 b \<Longrightarrow> a < b"
  using jan1_mono [of b a] by (cases "a < b") auto

lemma year_estimate_lo:
  fixes d e a b c x :: int
  assumes "146097 * (e - 1970) \<le> d * 400" and "4 * a \<le> x" and "x < 100 * b + 100" and "400 * c \<le> x"
    and "x = e - 1 - 1"
  shows "365 * (e - 1 - 1970) + (a - b + c) - 477 \<le> d"
proof -
  have "400 * (a - b + c) \<le> 97 * x + 400"
    using assms(2,3,4) by simp
  with assms(1,5) show ?thesis by simp
qed

lemma year_estimate_hi:
  fixes d e a b c x :: int
  assumes "d * 400 < 146097 * (e - 1970) + 146097" and "x < 4 * a + 4" and "100 * b \<le> x"
    and "x < 400 * c + 400" and "x = e + 2 - 1"
  shows "d < 365 * (e + 2 - 1970) + (a - b + c) - 477"
proof -
  have "97 * x - 800 \<le> 400 * (a - b + c)"
    using assms(2,3,4) by simp
  with assms(1,5) show ?thesis by simp
qed

lemma year_of_day_bounds: "jan1 (year_of_day d) \<le> d \<and> d < jan1 (year_of_day d + 1)"
proof -
  define e where "e = 1970 + (d * 400) div 146097"
  have e: "146097 * (e - 1970) \<le> d * 400" "d * 400 < 146097 * (e - 1970) + 146097"
    using div_bounds [of 146097 "d * 400"] by (simp_all add: e_def)
  have lo: "jan1 (e - 1) \<le> d"
    using div_bounds [of 4 "e - 2"] div_bounds [of 100 "e - 2"] div_bounds [of 400 "e - 2"]
    unfolding jan1_def by (intro year_estimate_lo [OF e(1), of _ "e - 2"]) simp_all
  have hi: "d < jan1 (e + 2)"
    using div_bounds [of 4 "e + 1"] div_bounds [of 100 "e + 1"] div_bounds [of 400 "e + 1"]
    unfolding jan1_def by (intro year_estimate_hi [OF e(2), of "e + 1"]) simp_all
  show ?thesis
    using lo hi unfolding year_of_day_def Let_def e_def [symmetric]
    by (auto simp: add.commute)
qed

lemma year_of_day_unique:
  assumes "jan1 y \<le> d" and "d < jan1 (y + 1)"
  shows "year_of_day d = y"
proof -
  have "y < year_of_day d + 1" and "year_of_day d < y + 1"
    using assms year_of_day_bounds [of d] jan1_less by blast+
  then show ?thesis by linarith
qed

lemma month_cases:
  fixes m :: int
  assumes "1 \<le> m" and "m \<le> 12"
  shows "m = 1 \<or> m = 2 \<or> m = 3 \<or> m = 4 \<or> m = 5 \<or> m = 6 \<or> m = 7 \<or> m = 8 \<or> m = 9 \<or> m = 10 \<or> m = 11 \<or> m = 12"
  using assms by presburger

lemma month_start_in_year:
  "1 \<le> m \<Longrightarrow> m \<le> 12 \<Longrightarrow> month_start y m = jan1 y + days_before_month y m"
  by (simp add: month_start_def)

lemma month_start_wrap: "month_start y 13 = month_start (y + 1) 1"
  by (simp add: month_start_def)

definition days_in_month :: "int \<Rightarrow> int \<Rightarrow> int" where
  "days_in_month y m = month_start y (m + 1) - month_start y m"

lemma days_in_month_table:
  assumes "1 \<le> m" and "m \<le> 12"
  shows "days_in_month y m =
    (if m = 2 then (if is_leap y then 29 else 28)
     else if m \<in> {4, 6, 9, 11} then 30 else 31)"
  using month_cases [OF assms] jan1_step [of y]
  by (elim disjE) (simp_all add: days_in_month_def month_start_def days_before_month_def)

lemma days_in_month_bounds:
  "1 \<le> m \<Longrightarrow> m \<le> 12 \<Longrightarrow> 28 \<le> days_in_month y m \<and> days_in_month y m \<le> 31"
  by (simp add: days_in_month_table)

lemma first_month:
  fixes f :: "int \<Rightarrow> int"
  assumes "f 1 \<le> d"
  defines "m \<equiv> (case find (\<lambda>m. d < f (m + 1)) [1, 2, 3, 4, 5, 6, 7, 8, 9, 10, 11] of Some m \<Rightarrow> m | None \<Rightarrow> 12)"
  shows "1 \<le> m \<and> m \<le> 12 \<and> f m \<le> d \<and> (m = 12 \<or> d < f (m + 1))"
  using assms(1) by (simp add: m_def)

lemma month_of_day_bounds:
  fixes d :: int
  defines "y \<equiv> year_of_day d" and "m \<equiv> month_of_day d"
  shows "1 \<le> m \<and> m \<le> 12 \<and> month_start y m \<le> d \<and> d < month_start y (m + 1)"
proof -
  have b: "jan1 y \<le> d" "d < jan1 (y + 1)"
    using year_of_day_bounds [of d] by (simp_all add: y_def)
  have step: "jan1 (y + 1) = jan1 y + (if is_leap y then 366 else 365)"
    by (rule jan1_step)
  have "month_start y (m + 1) = (if m = 12 then jan1 (y + 1) else jan1 y + days_before_month y (m + 1))"
    if "1 \<le> m" "m \<le> 12"
    using that month_start_in_year [of "m + 1" y] by (auto simp: month_start_def days_before_month_def)
  moreover have "1 \<le> m \<and> m \<le> 12 \<and> jan1 y + days_before_month y m \<le> d
    \<and> (m = 12 \<or> d < jan1 y + days_before_month y (m + 1))"
    unfolding m_def month_of_day_def Let_def y_def [symmetric]
    by (rule first_month) (use b in \<open>simp add: days_before_month_def\<close>)
  ultimately show ?thesis
    using b month_start_in_year [of m y] by auto
qed

lemma month_start_step: "1 \<le> m \<Longrightarrow> m \<le> 12 \<Longrightarrow> month_start y m + 28 \<le> month_start y (m + 1)"
  using days_in_month_bounds [of m y] by (simp add: days_in_month_def)

text \<open>The date of a day, and the day of a date, are inverse.\<close>

lemma civil_days_of_day: "civil_days (year_of_day d) (month_of_day d) (mday_of_day d) = d"
  by (simp add: civil_days_def mday_of_day_def)

lemma mday_of_day_bounds:
  "1 \<le> mday_of_day d \<and> mday_of_day d \<le> days_in_month (year_of_day d) (month_of_day d)"
  using month_of_day_bounds [of d] by (simp add: mday_of_day_def days_in_month_def)

section \<open>Months in a row\<close>

text \<open>Months numbered from January of year 0, so that the next month is the next number.\<close>

definition month_index :: "int \<Rightarrow> int \<Rightarrow> int" where
  "month_index y m = 12 * y + m - 1"

definition mstart :: "int \<Rightarrow> int" where
  "mstart k = month_start (k div 12) (k mod 12 + 1)"

lemma month_start_mstart: "month_start y m = mstart (month_index y m)"
proof -
  have "month_index y m = (m - 1) + 12 * y" by (simp add: month_index_def)
  then have "month_index y m div 12 = y + (m - 1) div 12" and "month_index y m mod 12 = (m - 1) mod 12"
    by simp_all
  then show ?thesis by (simp add: mstart_def month_start_def)
qed

lemma month_index_Suc: "month_index y (m + 1) = month_index y m + 1"
  by (simp add: month_index_def)

lemma mstart_step: "mstart k + 28 \<le> mstart (k + 1)"
proof -
  have "month_index (k div 12) (k mod 12 + 1) = k" by (simp add: month_index_def)
  moreover have "1 \<le> k mod 12 + 1" and "k mod 12 + 1 \<le> 12" by simp_all
  ultimately show ?thesis
    using month_start_step [of "k mod 12 + 1" "k div 12"]
    unfolding month_start_mstart month_index_Suc by simp
qed

lemma mstart_mono_nat: "mstart j \<le> mstart (j + int n)"
proof (induction n)
  case 0
  then show ?case by simp
next
  case (Suc n)
  then show ?case using mstart_step [of "j + int n"] by (simp add: algebra_simps)
qed

lemma mstart_mono: "j \<le> k \<Longrightarrow> mstart j \<le> mstart k"
  using mstart_mono_nat [of j "nat (k - j)"] by simp

lemma mstart_less: "mstart j \<le> d \<Longrightarrow> d < mstart k \<Longrightarrow> j < k"
  using mstart_mono [of k j] by (cases "j < k") auto

lemma mstart_unique:
  assumes "mstart j \<le> d" "d < mstart (j + 1)" "mstart k \<le> d" "d < mstart (k + 1)"
  shows "j = k"
  using mstart_less [OF assms(1,4)] mstart_less [OF assms(3,2)] by simp

definition index_of_day :: "int \<Rightarrow> int" where
  "index_of_day d = month_index (year_of_day d) (month_of_day d)"

lemma index_of_day_bounds: "mstart (index_of_day d) \<le> d \<and> d < mstart (index_of_day d + 1)"
  using month_of_day_bounds [of d]
  by (simp add: index_of_day_def month_start_mstart month_index_Suc)

lemma month_index_inject:
  assumes "month_index y m = month_index y' m'" "1 \<le> m" "m \<le> 12" "1 \<le> m'" "m' \<le> 12"
  shows "y = y' \<and> m = m'"
  using assms unfolding month_index_def by presburger

lemma date_of_day:
  assumes "1 \<le> m" "m \<le> 12" "month_start y m \<le> d" "d < month_start y (m + 1)"
  shows "year_of_day d = y \<and> month_of_day d = m \<and> mday_of_day d = d - month_start y m + 1"
proof -
  have "index_of_day d = month_index y m"
    using assms(3,4) index_of_day_bounds [of d]
    by (intro mstart_unique) (simp_all add: month_start_mstart month_index_Suc)
  then have "year_of_day d = y \<and> month_of_day d = m"
    using month_of_day_bounds [of d] assms(1,2) unfolding index_of_day_def
    by (intro month_index_inject) simp_all
  then show ?thesis by (simp add: mday_of_day_def)
qed

section \<open>Dates in a location with a fixed offset\<close>

lemma utc_fixed: "utc_loc = fixed_loc 0"
  by (simp add: utc_loc_def fixed_loc_def)

lemma second_pos [simp]: "0 < second"
  by (simp add: second_def)

lemma go_date_fixed:
  "go_date y mo d h mi s 0 (fixed_loc off) =
     \<lparr>t_ns = (civil_days y mo d * 86400 + h * 3600 + mi * 60 + s - off) * second, t_loc = fixed_loc off\<rparr>"
  by (simp add: go_date_def Let_def fixed_loc_def)

lemma local_secs_fixed:
  "t_loc t = fixed_loc off \<Longrightarrow> local_secs t = unix_secs t + off"
  by (simp add: local_secs_def fixed_loc_def)

lemma local_secs_go_date:
  "local_secs (go_date y mo d h mi s 0 (fixed_loc off)) = civil_days y mo d * 86400 + h * 3600 + mi * 60 + s"
  unfolding go_date_fixed using second_pos
  by (subst local_secs_fixed [where off = off]) (simp_all add: unix_secs_def second_def)

text \<open>The fields of a number of seconds that is a day, an hour and a minute.\<close>

lemma clock_fields:
  fixes D h mi :: int
  assumes "0 \<le> h" "h \<le> 23" "0 \<le> mi" "mi \<le> 59"
  defines "x \<equiv> D * 86400 + h * 3600 + mi * 60"
  shows "x div 86400 = D" "x mod 86400 div 3600 = h" "x mod 3600 div 60 = mi" "x mod 60 = 0"
proof -
  have h: "0 \<le> h * 3600 + mi * 60" "h * 3600 + mi * 60 < 86400" using assms(1-4) by simp_all
  have m: "0 \<le> mi * 60" "mi * 60 < 3600" using assms(1-4) by simp_all
  have x1: "x = (h * 3600 + mi * 60) + D * 86400" by (simp add: x_def)
  have x2: "x = mi * 60 + (D * 24 + h) * 3600" by (simp add: x_def)
  have x3: "x = (D * 1440 + h * 60 + mi) * 60" by (simp add: x_def)
  show "x div 86400 = D" unfolding x1 using h by simp
  have "x mod 86400 = h * 3600 + mi * 60" unfolding x1 mod_mult_self1 using h by simp
  then show "x mod 86400 div 3600 = h" using m by simp
  have "x mod 3600 = mi * 60" unfolding x2 mod_mult_self1 using m by simp
  then show "x mod 3600 div 60 = mi" by simp
  show "x mod 60 = 0" unfolding x3 by simp
qed

lemma clock_fields_conv:
  fixes x :: int
  assumes "x mod 60 = 0"
  shows "x = x div 86400 * 86400 + x mod 86400 div 3600 * 3600 + x mod 3600 div 60 * 60"
proof -
  have "x = x div 86400 * 86400 + x mod 86400" by simp
  also have "x mod 86400 = x mod 86400 div 3600 * 3600 + x mod 86400 mod 3600" by simp
  also have "x mod 86400 mod 3600 = x mod 3600" by (simp add: mod_mod_cancel)
  also have "x mod 3600 = x mod 3600 div 60 * 60 + x mod 3600 mod 60" by simp
  also have "x mod 3600 mod 60 = 0" using assms by (simp add: mod_mod_cancel)
  finally show ?thesis by simp
qed

section \<open>Text layouts\<close>

definition fmt_year :: "int \<Rightarrow> string" where
  "fmt_year y = (if y < 0 then CHR ''-'' # pad0 4 (nat (- y)) else pad0 4 (nat y))"

definition fmt_date :: "Time \<Rightarrow> string" where
  "fmt_date t = fmt_year (year_of t) @ ''-'' @ pad0 2 (nat (month_of t)) @ ''-'' @ pad0 2 (nat (mday_of t))"

definition fmt_clock :: "char \<Rightarrow> Time \<Rightarrow> string" where
  "fmt_clock sep t =
     pad0 2 (nat (hour_of t)) @ [sep] @ pad0 2 (nat (minute_of t)) @ [sep] @ pad0 2 (nat (second_of t))"

text \<open>The fraction of \<^verbatim>\<open>.999999999\<close>: nine digits without the trailing zeros, or nothing.\<close>

definition fmt_fraction :: "Time \<Rightarrow> string" where
  "fmt_fraction t =
     (let ds = rev (dropWhile (\<lambda>c. c = CHR ''0'') (rev (pad0 9 (nat (nanosecond t)))))
      in if ds = [] then [] else CHR ''.'' # ds)"

definition fmt_zone :: "Time \<Rightarrow> string" where
  "fmt_zone t =
     (let off = z_offset (t_loc t (unix_secs t)); zone = abs off div 60
      in if off = 0 then ''Z''
         else (if off < 0 \<and> zone \<noteq> 0 then ''-'' else ''+'') @
           pad0 2 (nat (zone div 60)) @ '':'' @ pad0 2 (nat (zone mod 60)))"

text \<open>\<^verbatim>\<open>t.Format(time.RFC3339Nano)\<close>.\<close>

definition rfc3339nano :: "Time \<Rightarrow> string" where
  "rfc3339nano t = fmt_date t @ ''T'' @ fmt_clock (CHR '':'') t @ fmt_fraction t @ fmt_zone t"

end
