(* ===== verification/Domain_Enums.thy ===== *)
theory Domain_Enums
  imports Go_Time
begin

text \<open>
  The enumerations of \<^verbatim>\<open>internal/domain/enums.go\<close> and the error vocabulary of
  \<^verbatim>\<open>internal/domain/errorcode.go\<close>. In Go each is a string type with named constants, so
  a value read from the database or the wire may be none of them: the last constructor
  of every datatype holds such a string. \<open>X_str\<close> is the conversion \<^verbatim>\<open>string(x)\<close>
  and \<open>X_of\<close> the conversion \<^verbatim>\<open>X(s)\<close>.
\<close>

section \<open>What the conversions promise\<close>

text \<open>
  The persistence and the IPC layer store an enumeration as its string. They rely on one
  law: converting a string to the enumeration and back loses nothing, known value or not.
\<close>

locale wire_enum =
  fixes to_str :: "'e \<Rightarrow> string"
    and of_str :: "string \<Rightarrow> 'e"
  assumes str_of: "to_str (of_str s) = s"
begin

text \<open>A value that came off the wire survives storing and reloading.\<close>

lemma reload: "x = of_str s \<Longrightarrow> of_str (to_str x) = x"
  by (simp add: str_of)

text \<open>Two rows hold the same string exactly when they reload to the same value.\<close>

lemma of_str_eq_iff: "of_str s = of_str t \<longleftrightarrow> s = t"
  by (metis str_of)

lemma reload_list: "list_all (\<lambda>x. of_str (to_str x) = x) xs \<Longrightarrow> map of_str (map to_str xs) = xs"
  by (induction xs) auto

end

section \<open>RunStatus\<close>

datatype RunStatus =
    RunPending
  | RunRunning
  | RunSuccess
  | RunWarning
  | RunFailed
  | RunCancelled
  | RunSkipped
  | RunInterrupted
  | RunStatusOther string

primrec RunStatus_str :: "RunStatus \<Rightarrow> string" where
  "RunStatus_str RunPending = ''PENDING''"
| "RunStatus_str RunRunning = ''RUNNING''"
| "RunStatus_str RunSuccess = ''SUCCESS''"
| "RunStatus_str RunWarning = ''WARNING''"
| "RunStatus_str RunFailed = ''FAILED''"
| "RunStatus_str RunCancelled = ''CANCELLED''"
| "RunStatus_str RunSkipped = ''SKIPPED''"
| "RunStatus_str RunInterrupted = ''INTERRUPTED''"
| "RunStatus_str (RunStatusOther s) = s"

definition RunStatus_of :: "string \<Rightarrow> RunStatus" where
  "RunStatus_of s =
     (if s = ''PENDING'' then RunPending
      else if s = ''RUNNING'' then RunRunning
      else if s = ''SUCCESS'' then RunSuccess
      else if s = ''WARNING'' then RunWarning
      else if s = ''FAILED'' then RunFailed
      else if s = ''CANCELLED'' then RunCancelled
      else if s = ''SKIPPED'' then RunSkipped
      else if s = ''INTERRUPTED'' then RunInterrupted
      else RunStatusOther s)"

interpretation RunStatus_wire: wire_enum RunStatus_str RunStatus_of
  by unfold_locales (simp add: RunStatus_of_def)

lemma RunStatus_of_str [simp]: "(\<forall>s. x \<noteq> RunStatusOther s) \<Longrightarrow> RunStatus_of (RunStatus_str x) = x"
  by (cases x) (simp_all add: RunStatus_of_def)

text \<open>\<^verbatim>\<open>RunStatus.IsTerminal\<close>.\<close>

definition IsTerminal :: "RunStatus \<Rightarrow> bool" where
  "IsTerminal s = (case s of
       RunSuccess \<Rightarrow> True
     | RunWarning \<Rightarrow> True
     | RunFailed \<Rightarrow> True
     | RunCancelled \<Rightarrow> True
     | RunSkipped \<Rightarrow> True
     | RunInterrupted \<Rightarrow> True
     | _ \<Rightarrow> False)"

lemma IsTerminal_simps [simp]:
  "\<not> IsTerminal RunPending" "\<not> IsTerminal RunRunning" "IsTerminal RunSuccess" "IsTerminal RunWarning"
  "IsTerminal RunFailed" "IsTerminal RunCancelled" "IsTerminal RunSkipped" "IsTerminal RunInterrupted"
  by (simp_all add: IsTerminal_def)

section \<open>StepStatus\<close>

datatype StepStatus =
    StepPending
  | StepRunning
  | StepSuccess
  | StepFailed
  | StepSkipped
  | StepCancelled
  | StepStatusOther string

primrec StepStatus_str :: "StepStatus \<Rightarrow> string" where
  "StepStatus_str StepPending = ''PENDING''"
| "StepStatus_str StepRunning = ''RUNNING''"
| "StepStatus_str StepSuccess = ''SUCCESS''"
| "StepStatus_str StepFailed = ''FAILED''"
| "StepStatus_str StepSkipped = ''SKIPPED''"
| "StepStatus_str StepCancelled = ''CANCELLED''"
| "StepStatus_str (StepStatusOther s) = s"

definition StepStatus_of :: "string \<Rightarrow> StepStatus" where
  "StepStatus_of s =
     (if s = ''PENDING'' then StepPending
      else if s = ''RUNNING'' then StepRunning
      else if s = ''SUCCESS'' then StepSuccess
      else if s = ''FAILED'' then StepFailed
      else if s = ''SKIPPED'' then StepSkipped
      else if s = ''CANCELLED'' then StepCancelled
      else StepStatusOther s)"

interpretation StepStatus_wire: wire_enum StepStatus_str StepStatus_of
  by unfold_locales (simp add: StepStatus_of_def)

lemma StepStatus_of_str [simp]: "(\<forall>s. x \<noteq> StepStatusOther s) \<Longrightarrow> StepStatus_of (StepStatus_str x) = x"
  by (cases x) (simp_all add: StepStatus_of_def)

section \<open>StepType\<close>

datatype StepType =
    StepPreflight
  | StepPreBackupScript
  | StepArchive
  | StepRemoteChecksum
  | StepDownload
  | StepLocalChecksum
  | StepVerifyChecksum
  | StepPostBackupScript
  | StepHealthCheck
  | StepRemoteCleanup
  | StepRetention
  | StepTypeOther string

primrec StepType_str :: "StepType \<Rightarrow> string" where
  "StepType_str StepPreflight = ''PREFLIGHT''"
| "StepType_str StepPreBackupScript = ''PRE_BACKUP_SCRIPT''"
| "StepType_str StepArchive = ''ARCHIVE''"
| "StepType_str StepRemoteChecksum = ''REMOTE_CHECKSUM''"
| "StepType_str StepDownload = ''DOWNLOAD''"
| "StepType_str StepLocalChecksum = ''LOCAL_CHECKSUM''"
| "StepType_str StepVerifyChecksum = ''VERIFY_CHECKSUM''"
| "StepType_str StepPostBackupScript = ''POST_BACKUP_SCRIPT''"
| "StepType_str StepHealthCheck = ''HEALTH_CHECK''"
| "StepType_str StepRemoteCleanup = ''REMOTE_CLEANUP''"
| "StepType_str StepRetention = ''RETENTION''"
| "StepType_str (StepTypeOther s) = s"

definition StepType_of :: "string \<Rightarrow> StepType" where
  "StepType_of s =
     (if s = ''PREFLIGHT'' then StepPreflight
      else if s = ''PRE_BACKUP_SCRIPT'' then StepPreBackupScript
      else if s = ''ARCHIVE'' then StepArchive
      else if s = ''REMOTE_CHECKSUM'' then StepRemoteChecksum
      else if s = ''DOWNLOAD'' then StepDownload
      else if s = ''LOCAL_CHECKSUM'' then StepLocalChecksum
      else if s = ''VERIFY_CHECKSUM'' then StepVerifyChecksum
      else if s = ''POST_BACKUP_SCRIPT'' then StepPostBackupScript
      else if s = ''HEALTH_CHECK'' then StepHealthCheck
      else if s = ''REMOTE_CLEANUP'' then StepRemoteCleanup
      else if s = ''RETENTION'' then StepRetention
      else StepTypeOther s)"

interpretation StepType_wire: wire_enum StepType_str StepType_of
  by unfold_locales (simp add: StepType_of_def)

lemma StepType_of_str [simp]: "(\<forall>s. x \<noteq> StepTypeOther s) \<Longrightarrow> StepType_of (StepType_str x) = x"
  by (cases x) (simp_all add: StepType_of_def)

section \<open>ScriptType\<close>

datatype ScriptType =
    ScriptPreBackup
  | ScriptPostBackup
  | ScriptTypeOther string

primrec ScriptType_str :: "ScriptType \<Rightarrow> string" where
  "ScriptType_str ScriptPreBackup = ''PRE_BACKUP''"
| "ScriptType_str ScriptPostBackup = ''POST_BACKUP''"
| "ScriptType_str (ScriptTypeOther s) = s"

definition ScriptType_of :: "string \<Rightarrow> ScriptType" where
  "ScriptType_of s =
     (if s = ''PRE_BACKUP'' then ScriptPreBackup
      else if s = ''POST_BACKUP'' then ScriptPostBackup
      else ScriptTypeOther s)"

interpretation ScriptType_wire: wire_enum ScriptType_str ScriptType_of
  by unfold_locales (simp add: ScriptType_of_def)

lemma ScriptType_of_str [simp]: "(\<forall>s. x \<noteq> ScriptTypeOther s) \<Longrightarrow> ScriptType_of (ScriptType_str x) = x"
  by (cases x) (simp_all add: ScriptType_of_def)

section \<open>RunCondition\<close>

datatype RunCondition =
    RunConditionOnSuccess
  | RunConditionOnFailure
  | RunConditionAlways
  | RunConditionOther string

primrec RunCondition_str :: "RunCondition \<Rightarrow> string" where
  "RunCondition_str RunConditionOnSuccess = ''ON_SUCCESS''"
| "RunCondition_str RunConditionOnFailure = ''ON_FAILURE''"
| "RunCondition_str RunConditionAlways = ''ALWAYS''"
| "RunCondition_str (RunConditionOther s) = s"

definition RunCondition_of :: "string \<Rightarrow> RunCondition" where
  "RunCondition_of s =
     (if s = ''ON_SUCCESS'' then RunConditionOnSuccess
      else if s = ''ON_FAILURE'' then RunConditionOnFailure
      else if s = ''ALWAYS'' then RunConditionAlways
      else RunConditionOther s)"

interpretation RunCondition_wire: wire_enum RunCondition_str RunCondition_of
  by unfold_locales (simp add: RunCondition_of_def)

lemma RunCondition_of_str [simp]: "(\<forall>s. x \<noteq> RunConditionOther s) \<Longrightarrow> RunCondition_of (RunCondition_str x) = x"
  by (cases x) (simp_all add: RunCondition_of_def)

section \<open>Trigger\<close>

datatype Trigger =
    TriggerSchedule
  | TriggerManual
  | TriggerMissedSchedule
  | TriggerOther string

primrec Trigger_str :: "Trigger \<Rightarrow> string" where
  "Trigger_str TriggerSchedule = ''SCHEDULE''"
| "Trigger_str TriggerManual = ''MANUAL''"
| "Trigger_str TriggerMissedSchedule = ''MISSED_SCHEDULE''"
| "Trigger_str (TriggerOther s) = s"

definition Trigger_of :: "string \<Rightarrow> Trigger" where
  "Trigger_of s =
     (if s = ''SCHEDULE'' then TriggerSchedule
      else if s = ''MANUAL'' then TriggerManual
      else if s = ''MISSED_SCHEDULE'' then TriggerMissedSchedule
      else TriggerOther s)"

interpretation Trigger_wire: wire_enum Trigger_str Trigger_of
  by unfold_locales (simp add: Trigger_of_def)

lemma Trigger_of_str [simp]: "(\<forall>s. x \<noteq> TriggerOther s) \<Longrightarrow> Trigger_of (Trigger_str x) = x"
  by (cases x) (simp_all add: Trigger_of_def)

section \<open>ScheduleType\<close>

datatype ScheduleType =
    ScheduleManual
  | ScheduleDaily
  | ScheduleWeekly
  | ScheduleMonthly
  | ScheduleCron
  | ScheduleTypeOther string

primrec ScheduleType_str :: "ScheduleType \<Rightarrow> string" where
  "ScheduleType_str ScheduleManual = ''MANUAL''"
| "ScheduleType_str ScheduleDaily = ''DAILY''"
| "ScheduleType_str ScheduleWeekly = ''WEEKLY''"
| "ScheduleType_str ScheduleMonthly = ''MONTHLY''"
| "ScheduleType_str ScheduleCron = ''CRON''"
| "ScheduleType_str (ScheduleTypeOther s) = s"

definition ScheduleType_of :: "string \<Rightarrow> ScheduleType" where
  "ScheduleType_of s =
     (if s = ''MANUAL'' then ScheduleManual
      else if s = ''DAILY'' then ScheduleDaily
      else if s = ''WEEKLY'' then ScheduleWeekly
      else if s = ''MONTHLY'' then ScheduleMonthly
      else if s = ''CRON'' then ScheduleCron
      else ScheduleTypeOther s)"

interpretation ScheduleType_wire: wire_enum ScheduleType_str ScheduleType_of
  by unfold_locales (simp add: ScheduleType_of_def)

lemma ScheduleType_of_str [simp]: "(\<forall>s. x \<noteq> ScheduleTypeOther s) \<Longrightarrow> ScheduleType_of (ScheduleType_str x) = x"
  by (cases x) (simp_all add: ScheduleType_of_def)

section \<open>MissedRunPolicy\<close>

datatype MissedRunPolicy =
    MissedRunAsSoonAsPossible
  | MissedRunSkip
  | MissedRunPolicyOther string

primrec MissedRunPolicy_str :: "MissedRunPolicy \<Rightarrow> string" where
  "MissedRunPolicy_str MissedRunAsSoonAsPossible = ''RUN_AS_SOON_AS_POSSIBLE''"
| "MissedRunPolicy_str MissedRunSkip = ''SKIP''"
| "MissedRunPolicy_str (MissedRunPolicyOther s) = s"

definition MissedRunPolicy_of :: "string \<Rightarrow> MissedRunPolicy" where
  "MissedRunPolicy_of s =
     (if s = ''RUN_AS_SOON_AS_POSSIBLE'' then MissedRunAsSoonAsPossible
      else if s = ''SKIP'' then MissedRunSkip
      else MissedRunPolicyOther s)"

interpretation MissedRunPolicy_wire: wire_enum MissedRunPolicy_str MissedRunPolicy_of
  by unfold_locales (simp add: MissedRunPolicy_of_def)

lemma MissedRunPolicy_of_str [simp]: "(\<forall>s. x \<noteq> MissedRunPolicyOther s) \<Longrightarrow> MissedRunPolicy_of (MissedRunPolicy_str x) = x"
  by (cases x) (simp_all add: MissedRunPolicy_of_def)

section \<open>AuthenticationType\<close>

datatype AuthenticationType =
    AuthPrivateKey
  | AuthPassword
  | AuthenticationTypeOther string

primrec AuthenticationType_str :: "AuthenticationType \<Rightarrow> string" where
  "AuthenticationType_str AuthPrivateKey = ''PRIVATE_KEY''"
| "AuthenticationType_str AuthPassword = ''PASSWORD''"
| "AuthenticationType_str (AuthenticationTypeOther s) = s"

definition AuthenticationType_of :: "string \<Rightarrow> AuthenticationType" where
  "AuthenticationType_of s =
     (if s = ''PRIVATE_KEY'' then AuthPrivateKey
      else if s = ''PASSWORD'' then AuthPassword
      else AuthenticationTypeOther s)"

interpretation AuthenticationType_wire: wire_enum AuthenticationType_str AuthenticationType_of
  by unfold_locales (simp add: AuthenticationType_of_def)

lemma AuthenticationType_of_str [simp]: "(\<forall>s. x \<noteq> AuthenticationTypeOther s) \<Longrightarrow> AuthenticationType_of (AuthenticationType_str x) = x"
  by (cases x) (simp_all add: AuthenticationType_of_def)

section \<open>RecoveryOutcome\<close>

datatype RecoveryOutcome =
    RecoveryNotApplicable
  | RecoverySuccess
  | RecoveryFailed
  | RecoveryOutcomeOther string

primrec RecoveryOutcome_str :: "RecoveryOutcome \<Rightarrow> string" where
  "RecoveryOutcome_str RecoveryNotApplicable = ''NOT_APPLICABLE''"
| "RecoveryOutcome_str RecoverySuccess = ''SUCCESS''"
| "RecoveryOutcome_str RecoveryFailed = ''FAILED''"
| "RecoveryOutcome_str (RecoveryOutcomeOther s) = s"

definition RecoveryOutcome_of :: "string \<Rightarrow> RecoveryOutcome" where
  "RecoveryOutcome_of s =
     (if s = ''NOT_APPLICABLE'' then RecoveryNotApplicable
      else if s = ''SUCCESS'' then RecoverySuccess
      else if s = ''FAILED'' then RecoveryFailed
      else RecoveryOutcomeOther s)"

interpretation RecoveryOutcome_wire: wire_enum RecoveryOutcome_str RecoveryOutcome_of
  by unfold_locales (simp add: RecoveryOutcome_of_def)

lemma RecoveryOutcome_of_str [simp]: "(\<forall>s. x \<noteq> RecoveryOutcomeOther s) \<Longrightarrow> RecoveryOutcome_of (RecoveryOutcome_str x) = x"
  by (cases x) (simp_all add: RecoveryOutcome_of_def)

section \<open>ArchiveFormat\<close>

datatype ArchiveFormat =
    ArchiveTarGz
  | ArchiveFormatOther string

primrec ArchiveFormat_str :: "ArchiveFormat \<Rightarrow> string" where
  "ArchiveFormat_str ArchiveTarGz = ''tar.gz''"
| "ArchiveFormat_str (ArchiveFormatOther s) = s"

definition ArchiveFormat_of :: "string \<Rightarrow> ArchiveFormat" where
  "ArchiveFormat_of s =
     (if s = ''tar.gz'' then ArchiveTarGz
      else ArchiveFormatOther s)"

interpretation ArchiveFormat_wire: wire_enum ArchiveFormat_str ArchiveFormat_of
  by unfold_locales (simp add: ArchiveFormat_of_def)

lemma ArchiveFormat_of_str [simp]: "(\<forall>s. x \<noteq> ArchiveFormatOther s) \<Longrightarrow> ArchiveFormat_of (ArchiveFormat_str x) = x"
  by (cases x) (simp_all add: ArchiveFormat_of_def)

section \<open>ErrorCode\<close>

datatype ErrorCode =
    ErrSSHConnectionFailed
  | ErrSSHAuthFailed
  | ErrSSHHostKeyUnverified
  | ErrSSHHostKeyChanged
  | ErrRemoteSourceNotFound
  | ErrRemotePermissionDenied
  | ErrRemoteToolMissing
  | ErrRemoteNoSpace
  | ErrArchiveFailed
  | ErrArchiveTimeout
  | ErrDownloadFailed
  | ErrChecksumMismatch
  | ErrPreScriptFailed
  | ErrPostScriptFailed
  | ErrHealthCheckFailed
  | ErrLocalNoSpace
  | ErrLocalPermissionDenied
  | ErrJobAlreadyRunning
  | ErrInvalidConfig
  | ErrRunCancelled
  | ErrNotFound
  | ErrInternal
  | ErrorCodeOther string

primrec ErrorCode_str :: "ErrorCode \<Rightarrow> string" where
  "ErrorCode_str ErrSSHConnectionFailed = ''SSH_CONNECTION_FAILED''"
| "ErrorCode_str ErrSSHAuthFailed = ''SSH_AUTH_FAILED''"
| "ErrorCode_str ErrSSHHostKeyUnverified = ''SSH_HOST_KEY_UNVERIFIED''"
| "ErrorCode_str ErrSSHHostKeyChanged = ''SSH_HOST_KEY_CHANGED''"
| "ErrorCode_str ErrRemoteSourceNotFound = ''REMOTE_SOURCE_NOT_FOUND''"
| "ErrorCode_str ErrRemotePermissionDenied = ''REMOTE_PERMISSION_DENIED''"
| "ErrorCode_str ErrRemoteToolMissing = ''REMOTE_TOOL_MISSING''"
| "ErrorCode_str ErrRemoteNoSpace = ''REMOTE_NO_SPACE''"
| "ErrorCode_str ErrArchiveFailed = ''ARCHIVE_FAILED''"
| "ErrorCode_str ErrArchiveTimeout = ''ARCHIVE_TIMEOUT''"
| "ErrorCode_str ErrDownloadFailed = ''DOWNLOAD_FAILED''"
| "ErrorCode_str ErrChecksumMismatch = ''CHECKSUM_MISMATCH''"
| "ErrorCode_str ErrPreScriptFailed = ''PRE_SCRIPT_FAILED''"
| "ErrorCode_str ErrPostScriptFailed = ''POST_SCRIPT_FAILED''"
| "ErrorCode_str ErrHealthCheckFailed = ''HEALTH_CHECK_FAILED''"
| "ErrorCode_str ErrLocalNoSpace = ''LOCAL_NO_SPACE''"
| "ErrorCode_str ErrLocalPermissionDenied = ''LOCAL_PERMISSION_DENIED''"
| "ErrorCode_str ErrJobAlreadyRunning = ''JOB_ALREADY_RUNNING''"
| "ErrorCode_str ErrInvalidConfig = ''INVALID_CONFIGURATION''"
| "ErrorCode_str ErrRunCancelled = ''RUN_CANCELLED''"
| "ErrorCode_str ErrNotFound = ''NOT_FOUND''"
| "ErrorCode_str ErrInternal = ''INTERNAL_ERROR''"
| "ErrorCode_str (ErrorCodeOther s) = s"

definition ErrorCode_of :: "string \<Rightarrow> ErrorCode" where
  "ErrorCode_of s =
     (if s = ''SSH_CONNECTION_FAILED'' then ErrSSHConnectionFailed
      else if s = ''SSH_AUTH_FAILED'' then ErrSSHAuthFailed
      else if s = ''SSH_HOST_KEY_UNVERIFIED'' then ErrSSHHostKeyUnverified
      else if s = ''SSH_HOST_KEY_CHANGED'' then ErrSSHHostKeyChanged
      else if s = ''REMOTE_SOURCE_NOT_FOUND'' then ErrRemoteSourceNotFound
      else if s = ''REMOTE_PERMISSION_DENIED'' then ErrRemotePermissionDenied
      else if s = ''REMOTE_TOOL_MISSING'' then ErrRemoteToolMissing
      else if s = ''REMOTE_NO_SPACE'' then ErrRemoteNoSpace
      else if s = ''ARCHIVE_FAILED'' then ErrArchiveFailed
      else if s = ''ARCHIVE_TIMEOUT'' then ErrArchiveTimeout
      else if s = ''DOWNLOAD_FAILED'' then ErrDownloadFailed
      else if s = ''CHECKSUM_MISMATCH'' then ErrChecksumMismatch
      else if s = ''PRE_SCRIPT_FAILED'' then ErrPreScriptFailed
      else if s = ''POST_SCRIPT_FAILED'' then ErrPostScriptFailed
      else if s = ''HEALTH_CHECK_FAILED'' then ErrHealthCheckFailed
      else if s = ''LOCAL_NO_SPACE'' then ErrLocalNoSpace
      else if s = ''LOCAL_PERMISSION_DENIED'' then ErrLocalPermissionDenied
      else if s = ''JOB_ALREADY_RUNNING'' then ErrJobAlreadyRunning
      else if s = ''INVALID_CONFIGURATION'' then ErrInvalidConfig
      else if s = ''RUN_CANCELLED'' then ErrRunCancelled
      else if s = ''NOT_FOUND'' then ErrNotFound
      else if s = ''INTERNAL_ERROR'' then ErrInternal
      else ErrorCodeOther s)"

interpretation ErrorCode_wire: wire_enum ErrorCode_str ErrorCode_of
  by unfold_locales (simp add: ErrorCode_of_def)

lemma ErrorCode_of_str [simp]: "(\<forall>s. x \<noteq> ErrorCodeOther s) \<Longrightarrow> ErrorCode_of (ErrorCode_str x) = x"
  by (cases x) (simp_all add: ErrorCode_of_def)

text \<open>The zero value of \<^verbatim>\<open>ErrorCode\<close>, the empty string, means that no code was recorded.\<close>

abbreviation NoErrorCode :: ErrorCode where
  "NoErrorCode \<equiv> ErrorCodeOther []"

end
