(* ===== verification/Domain_Errors.thy ===== *)
theory Domain_Errors
  imports Domain_Enums
begin

text \<open>
  Go error values as the service builds them: \<^verbatim>\<open>domain.CodedError\<close> of
  \<^verbatim>\<open>internal/domain/errorcode.go\<close>, \<^verbatim>\<open>errors.New\<close>, \<^verbatim>\<open>fmt.Errorf("...: %w", err)\<close>,
  \<^verbatim>\<open>errors.Join\<close>, and the sentinel values of the standard library and of the SQLite
  driver that the code tests for. A \<open>nil\<close> error is \<open>None\<close>.
\<close>

section \<open>Error values\<close>

datatype err =
    CodedError ErrorCode string "err option"
  | ErrorText string
  | Wrapped string err
  | Joined "err list"
  | DeadlineExceeded
  | Canceled
  | EndOfFile
  | NoRows
  | NotExist string
  | SqliteError int string

definition NewCodedError :: "ErrorCode \<Rightarrow> string \<Rightarrow> err option \<Rightarrow> err" where
  "NewCodedError code message e = CodedError code message e"

text \<open>\<^verbatim>\<open>err.Error()\<close>.\<close>

fun Error :: "err \<Rightarrow> string" where
  "Error (CodedError c m (Some e)) = ErrorCode_str c @ '': '' @ m @ '': '' @ Error e"
| "Error (CodedError c m None) = ErrorCode_str c @ '': '' @ m"
| "Error (ErrorText t) = t"
| "Error (Wrapped p e) = p @ '': '' @ Error e"
| "Error (Joined es) = join [CHR 0x0A] (map Error es)"
| "Error DeadlineExceeded = ''context deadline exceeded''"
| "Error Canceled = ''context canceled''"
| "Error EndOfFile = ''EOF''"
| "Error NoRows = ''sql: no rows in result set''"
| "Error (NotExist t) = t"
| "Error (SqliteError k t) = t"

text \<open>\<^verbatim>\<open>errors.Join\<close>: the errors that are not nil, or nil when there is none.\<close>

definition errors_join :: "err option list \<Rightarrow> err option" where
  "errors_join es =
     (let xs = map the (filter (\<lambda>e. e \<noteq> None) es) in if xs = [] then None else Some (Joined xs))"

lemma errors_join_None_iff: "errors_join es = None \<longleftrightarrow> (\<forall>e \<in> set es. e = None)"
  by (auto simp: errors_join_def Let_def filter_empty_conv)

lemma errors_join_Nil [simp]: "errors_join [] = None"
  and errors_join_Cons_None [simp]: "errors_join (None # es) = errors_join es"
  by (simp_all add: errors_join_def)

section \<open>Walking the chain\<close>

text \<open>
  \<^verbatim>\<open>errors.As\<close> and \<^verbatim>\<open>errors.Is\<close> visit an error, then what it wraps, the branches of a
  joined error in order.
\<close>

fun as_coded :: "err \<Rightarrow> (ErrorCode \<times> string) option" where
  "as_coded (CodedError c m e) = Some (c, m)"
| "as_coded (Wrapped p e) = as_coded e"
| "as_coded (Joined es) =
     (case filter (\<lambda>r. r \<noteq> None) (map as_coded es) of [] \<Rightarrow> None | r # _ \<Rightarrow> r)"
| "as_coded _ = None"

fun is_err :: "(err \<Rightarrow> bool) \<Rightarrow> err \<Rightarrow> bool" where
  "is_err p (CodedError c m (Some e)) = (p (CodedError c m (Some e)) \<or> is_err p e)"
| "is_err p (Wrapped q e) = (p (Wrapped q e) \<or> is_err p e)"
| "is_err p (Joined es) = (p (Joined es) \<or> list_ex (is_err p) es)"
| "is_err p e = p e"

definition CodeOf :: "err \<Rightarrow> ErrorCode option" where
  "CodeOf e = map_option fst (as_coded e)"

definition CodedError_Is :: "err \<Rightarrow> err \<Rightarrow> bool" where
  "CodedError_Is e target =
     (case (e, target) of
        (CodedError c _ _, CodedError c' _ _) \<Rightarrow> c = c'
      | _ \<Rightarrow> False)"

lemma CodeOf_CodedError [simp]: "CodeOf (CodedError c m eo) = Some c"
  and CodeOf_NewCodedError [simp]: "CodeOf (NewCodedError c m eo) = Some c"
  and CodeOf_Wrapped [simp]: "CodeOf (Wrapped p e) = CodeOf e"
  and CodeOf_ErrorText [simp]: "CodeOf (ErrorText t) = None"
  and CodeOf_sentinels [simp]: "CodeOf DeadlineExceeded = None" "CodeOf Canceled = None"
    "CodeOf EndOfFile = None" "CodeOf NoRows = None" "CodeOf (NotExist t) = None" "CodeOf (SqliteError k t) = None"
  by (simp_all add: CodeOf_def NewCodedError_def)

text \<open>Every error that has a code has a coded error with this code in its chain.\<close>

lemma CodeOf_is_err: "CodeOf e = Some c \<Longrightarrow> is_err (\<lambda>x. CodedError_Is x (CodedError c [] None)) e"
proof (induction e rule: as_coded.induct)
  case (1 c' m e)
  then show ?case by (cases e) (simp_all add: CodedError_Is_def)
next
  case (2 p e)
  then show ?case by (simp add: CodeOf_def)
next
  case (3 es)
  from "3.prems" obtain r rs where rs: "filter (\<lambda>r. r \<noteq> None) (map as_coded es) = r # rs"
    and r: "map_option fst r = Some c"
    unfolding CodeOf_def as_coded.simps
    by (cases "filter (\<lambda>r. r \<noteq> None) (map as_coded es)") simp_all
  have "r \<in> set (filter (\<lambda>r. r \<noteq> None) (map as_coded es))" unfolding rs by simp
  then obtain e where "e \<in> set es" and "as_coded e = r" by auto
  with "3.IH" r show ?case by (auto simp: CodeOf_def list_ex_iff)
qed (simp_all add: CodeOf_def)

end
