(* ===== verification/Domain_Types.thy ===== *)
theory Domain_Types
  imports Domain_Errors
begin

text \<open>
  The entities of \<^verbatim>\<open>internal/domain\<close> as records, field for field. An identifier is a
  string, a Go \<^verbatim>\<open>int\<close> an \<^typ>\<open>int\<close>, an optional pointer field an option; a nil slice and an
  empty slice are both the empty list (the code never distinguishes them).
\<close>

section \<open>Identifiers\<close>

text \<open>
  \<^verbatim>\<open>domain.NewID\<close> draws 16 random bytes and prints them in hexadecimal. The random source is
  a parameter: the outcome of the n-th read of \<^verbatim>\<open>crypto/rand\<close>.
\<close>

type_synonym Rand = "nat \<Rightarrow> err + nat list"

definition hex_encode :: "nat list \<Rightarrow> string" where
  "hex_encode bs = concat (map (\<lambda>b. [hex_digit (b div 16), hex_digit (b mod 16)]) bs)"

definition NewID :: "Rand \<Rightarrow> nat \<Rightarrow> err + string" where
  "NewID rand n =
     (case rand n of
        Inl e \<Rightarrow> Inl (Wrapped ''generate id'' e)
      | Inr buf \<Rightarrow> Inr (hex_encode buf))"

text \<open>What the code relies on: a successful read fills the 16-byte buffer.\<close>

definition rand_ok :: "Rand \<Rightarrow> bool" where
  "rand_ok rand \<longleftrightarrow> (\<forall>n buf. rand n = Inr buf \<longrightarrow> length buf = 16 \<and> (\<forall>b \<in> set buf. b < 256))"

lemma length_hex_encode [simp]: "length (hex_encode bs) = 2 * length bs"
  by (induction bs) (simp_all add: hex_encode_def)

lemma NewID_length: "rand_ok rand \<Longrightarrow> NewID rand n = Inr s \<Longrightarrow> length s = 32"
  by (auto simp: NewID_def rand_ok_def split: sum.splits)

section \<open>Job configuration\<close>

record Source =
  Source_ID :: string
  Source_JobID :: string
  Source_RemotePath :: string
  Source_Position :: int
  Source_Include :: "string list"
  Source_Exclude :: "string list"

record Script =
  Script_ID :: string
  Script_JobID :: string
  Script_Type :: ScriptType
  Script_Command :: string
  Script_Position :: int
  Script_TimeoutSeconds :: int
  Script_RunCondition :: RunCondition
  Script_CriticalCleanup :: bool
  Script_RetryOnFailure :: bool

record HealthCheck =
  HealthCheck_Command :: string
  HealthCheck_Attempts :: int
  HealthCheck_IntervalSeconds :: int

record Schedule =
  Schedule_ID :: string
  Schedule_JobID :: string
  Schedule_Type :: ScheduleType
  Schedule_Hour :: int
  Schedule_Minute :: int
  Schedule_Weekdays :: "int list"
  Schedule_DayOfMonth :: int
  Schedule_CronExpression :: string
  Schedule_MissedRunPolicy :: MissedRunPolicy

record RetentionPolicy =
  RetentionPolicy_ID :: string
  RetentionPolicy_JobID :: string
  KeepLast :: "int option"
  MaxAgeDays :: "int option"

record Job =
  Job_ID :: string
  Job_Name :: string
  Job_ServerID :: string
  Job_Enabled :: bool
  Job_Sources :: "Source list"
  Job_Scripts :: "Script list"
  Job_Schedule :: Schedule
  Job_RetentionPolicy :: RetentionPolicy
  Job_HealthCheck :: "HealthCheck option"
  Job_ArchiveFormat :: ArchiveFormat
  Job_RemoteTempDirectory :: string
  Job_LocalDestination :: string
  Job_ArchiveTimeout :: Duration
  Job_CreatedAt :: Time
  Job_UpdatedAt :: Time

definition RemoteJobDirectory :: "Job \<Rightarrow> string" where
  "RemoteJobDirectory j = Job_RemoteTempDirectory j @ ''/'' @ Job_ID j"

section \<open>Servers and settings\<close>

record Server =
  Server_ID :: string
  Server_Name :: string
  Server_Host :: string
  Server_Port :: int
  Server_Username :: string
  Server_AuthType :: AuthenticationType
  Server_CredentialReference :: string
  Server_PrivateKeyPath :: string
  Server_HostKeyAlgorithm :: string
  Server_HostKeyFingerprint :: string
  Server_ConnectionTimeoutSeconds :: int
  Server_CommandTimeoutSeconds :: int
  Server_CreatedAt :: Time
  Server_UpdatedAt :: Time

definition HasTrustedHostKey :: "Server \<Rightarrow> bool" where
  "HasTrustedHostKey s \<longleftrightarrow> Server_HostKeyFingerprint s \<noteq> []"

record Settings =
  SchedulesPaused :: bool
  GlobalConcurrencyLimit :: int
  NotifySuccess :: bool
  NotifyFailure :: bool
  StaleRemoteCleanupEnabled :: bool
  StaleRemoteCleanupAgeHours :: int

definition DefaultSettings :: Settings where
  "DefaultSettings = \<lparr>
     SchedulesPaused = False,
     GlobalConcurrencyLimit = 3,
     NotifySuccess = True,
     NotifyFailure = True,
     StaleRemoteCleanupEnabled = False,
     StaleRemoteCleanupAgeHours = 24\<rparr>"

section \<open>Runs and their steps\<close>

record Run =
  Run_ID :: string
  Run_JobID :: string
  Run_ServerID :: string
  Run_SourcePaths :: "string list"
  Run_Trigger :: Trigger
  Run_StartedAt :: Time
  Run_FinishedAt :: "Time option"
  Run_Status :: RunStatus
  Run_ArchiveName :: string
  Run_ArchiveSize :: int
  Run_Checksum :: string
  Run_ErrorCode :: ErrorCode
  Run_ErrorMessage :: string
  Run_RecoveryOutcome :: RecoveryOutcome

definition NewRun :: "string \<Rightarrow> Time \<Rightarrow> string \<Rightarrow> string \<Rightarrow> string list \<Rightarrow> Trigger \<Rightarrow> Run" where
  "NewRun ident now jobID serverID sourcePaths trigger = \<lparr>
     Run_ID = ident, Run_JobID = jobID, Run_ServerID = serverID, Run_SourcePaths = sourcePaths,
     Run_Trigger = trigger, Run_StartedAt = now, Run_FinishedAt = None, Run_Status = RunPending,
     Run_ArchiveName = [], Run_ArchiveSize = 0, Run_Checksum = [],
     Run_ErrorCode = NoErrorCode, Run_ErrorMessage = [],
     Run_RecoveryOutcome = RecoveryNotApplicable\<rparr>"

definition Run_Finish :: "Time \<Rightarrow> RunStatus \<Rightarrow> Run \<Rightarrow> Run" where
  "Run_Finish now status r =
     (if IsTerminal (Run_Status r) then r
      else r\<lparr>Run_Status := status, Run_FinishedAt := Some now\<rparr>)"

definition Run_Duration :: "Run \<Rightarrow> Duration" where
  "Run_Duration r =
     (case Run_FinishedAt r of None \<Rightarrow> 0 | Some t \<Rightarrow> sub_time t (Run_StartedAt r))"

definition MaxStepOutputBytes :: nat where
  "MaxStepOutputBytes = 10 * 1024 * 1024"

record RunStep =
  Step_ID :: string
  Step_RunID :: string
  Step_Type :: StepType
  Step_StartedAt :: Time
  Step_FinishedAt :: "Time option"
  Step_Status :: StepStatus
  Step_Output :: string
  Step_Truncated :: bool
  Step_Error :: string
  Step_ExitCode :: "int option"
  Step_Duration :: Duration
  Step_Command :: string

definition NewRunStep :: "string \<Rightarrow> Time \<Rightarrow> string \<Rightarrow> StepType \<Rightarrow> RunStep" where
  "NewRunStep ident now runID stepType = \<lparr>
     Step_ID = ident, Step_RunID = runID, Step_Type = stepType, Step_StartedAt = now,
     Step_FinishedAt = None, Step_Status = StepRunning, Step_Output = [], Step_Truncated = False,
     Step_Error = [], Step_ExitCode = None, Step_Duration = 0, Step_Command = []\<rparr>"

definition Step_Finish :: "Time \<Rightarrow> StepStatus \<Rightarrow> RunStep \<Rightarrow> RunStep" where
  "Step_Finish now status s = s\<lparr>Step_Status := status, Step_FinishedAt := Some now\<rparr>"

definition Step_Skip :: "Time \<Rightarrow> string \<Rightarrow> RunStep \<Rightarrow> RunStep" where
  "Step_Skip now reason s =
     s\<lparr>Step_Status := StepSkipped, Step_Error := reason, Step_FinishedAt := Some now\<rparr>"

text \<open>A terminal status is final: finishing again changes nothing.\<close>

lemma Run_Finish_terminal: "IsTerminal (Run_Status r) \<Longrightarrow> Run_Finish now st r = r"
  by (simp add: Run_Finish_def)

lemma Run_Finish_once:
  "IsTerminal st \<Longrightarrow> Run_Finish t2 st2 (Run_Finish t1 st r) = Run_Finish t1 st r"
  by (simp add: Run_Finish_def)

section \<open>Archive names\<close>

definition windowsInvalidChars :: string where
  "windowsInvalidChars = [CHR ''<'', CHR ''>'', CHR '':'', CHR 0x22, CHR ''/'', CHR 0x5C, CHR ''|'', CHR ''?'', CHR ''*'']"

text \<open>
  The loop of \<^verbatim>\<open>sanitizeWindowsFileNameComponent\<close> ranges over runes; every replaced rune is
  ASCII, so for a valid UTF-8 name it replaces exactly these bytes and copies all others.
  A byte that is not valid UTF-8 would be written as U+FFFD, which this model does not show.
\<close>

definition sanitize_char :: "char \<Rightarrow> char" where
  "sanitize_char c =
     (if of_char c < (32 :: nat) then CHR ''_''
      else if c \<in> set windowsInvalidChars then CHR ''_''
      else c)"

definition sanitizeWindowsFileNameComponent :: "string \<Rightarrow> string" where
  "sanitizeWindowsFileNameComponent s = map sanitize_char s"

text \<open>The layout \<^verbatim>\<open>2006-01-02_15-04-05\<close>, in the location of the time.\<close>

definition archive_timestamp :: "Time \<Rightarrow> string" where
  "archive_timestamp t = fmt_date t @ ''_'' @ fmt_clock (CHR ''-'') t"

definition ArchiveFileName :: "string \<Rightarrow> Time \<Rightarrow> string" where
  "ArchiveFileName jobName startedAt =
     sanitizeWindowsFileNameComponent jobName @ ''_'' @ archive_timestamp startedAt @ ''.tar.gz''"

text \<open>A character a Windows file name may hold.\<close>

definition windows_safe :: "char \<Rightarrow> bool" where
  "windows_safe c \<longleftrightarrow> 32 \<le> (of_char c :: nat) \<and> c \<notin> set windowsInvalidChars"

lemma sanitize_char_safe: "windows_safe (sanitize_char c)"
  by (simp add: sanitize_char_def windows_safe_def windowsInvalidChars_def)

lemma sanitize_char_id: "windows_safe c \<Longrightarrow> sanitize_char c = c"
  by (auto simp: sanitize_char_def windows_safe_def)

lemma digit_char_safe: "d < 10 \<Longrightarrow> windows_safe (digit_char d)"
proof -
  have "list_all (\<lambda>d. windows_safe (digit_char d)) [0..<10]" by code_simp
  then show "d < 10 \<Longrightarrow> windows_safe (digit_char d)" by (simp add: list_all_iff)
qed

lemma safe_separators:
  "windows_safe (CHR ''0'')" "windows_safe (CHR ''_'')" "windows_safe (CHR ''-'')"
  "list_all windows_safe ''.tar.gz''"
  by code_simp+

lemma dec_safe: "list_all windows_safe (dec n)"
  using dec_digits digit_char_safe by (auto simp: list_all_iff)

lemma pad0_safe: "list_all windows_safe (pad0 w n)"
  using dec_safe safe_separators by (auto simp: pad0_def list_all_iff)

lemma archive_timestamp_safe: "list_all windows_safe (archive_timestamp t)"
  by (simp add: archive_timestamp_def fmt_date_def fmt_clock_def fmt_year_def pad0_safe safe_separators)

end
