(* ===== verification/Domain_Validate.thy ===== *)
theory Domain_Validate
  imports Domain_Types
begin

text \<open>
  The validation rules and the constructors of \<^verbatim>\<open>internal/domain\<close>: every \<^verbatim>\<open>Validate\<close>
  method with its error messages, \<^verbatim>\<open>Script.ShouldRun\<close>, \<^verbatim>\<open>NewServer\<close> and \<^verbatim>\<open>NewJob\<close>. A
  validation result is \<open>None\<close> for a nil error. The cron parser is a third-party package and a
  parameter: it maps an expression to an error or to the parsed schedule, whose one method
  is \<^verbatim>\<open>Next\<close>.
\<close>

section \<open>Fields\<close>

type_synonym Cron = "string \<Rightarrow> err + (Time \<Rightarrow> Time)"

definition ValidateName :: "string \<Rightarrow> string \<Rightarrow> err option" where
  "ValidateName kind name =
     (if trim_space name = [] then Some (ErrorText (kind @ '' name must not be empty'')) else None)"

definition ValidateAbsoluteRemotePath :: "string \<Rightarrow> err option" where
  "ValidateAbsoluteRemotePath path =
     (if \<not> has_prefix path ''/''
      then Some (ErrorText (''remote path '' @ go_quote path @ '' must be absolute'')) else None)"

definition ValidatePort :: "int \<Rightarrow> err option" where
  "ValidatePort port =
     (if port < 1 \<or> port > 65535
      then Some (ErrorText (''port '' @ itoa port @ '' must be between 1 and 65535'')) else None)"

definition ValidateCronExpression :: "Cron \<Rightarrow> string \<Rightarrow> err option" where
  "ValidateCronExpression cron expr =
     (if trim_space expr = [] then Some (ErrorText ''cron expression must not be empty'')
      else case cron expr of
        Inl e \<Rightarrow> Some (Wrapped (''invalid cron expression '' @ go_quote expr) e)
      | Inr _ \<Rightarrow> None)"

definition ValidateTimeoutSeconds :: "int \<Rightarrow> err option" where
  "ValidateTimeoutSeconds seconds =
     (if seconds \<le> 0
      then Some (ErrorText (''timeout must be positive, got '' @ itoa seconds @ '' seconds'')) else None)"

section \<open>Entities\<close>

definition Source_Validate :: "Source \<Rightarrow> err option" where
  "Source_Validate s = ValidateAbsoluteRemotePath (Source_RemotePath s)"

text \<open>\<^verbatim>\<open>if bad { errs = append(errs, errors.New(text)) }\<close>.\<close>

definition check :: "bool \<Rightarrow> string \<Rightarrow> err option" where
  "check bad t = (if bad then Some (ErrorText t) else None)"

lemma check_None [simp]: "check bad t = None \<longleftrightarrow> \<not> bad"
  by (simp add: check_def)

definition Script_Validate :: "Script \<Rightarrow> err option" where
  "Script_Validate s = errors_join
     [check (Script_Type s \<noteq> ScriptPreBackup \<and> Script_Type s \<noteq> ScriptPostBackup)
        ''script type must be PRE_BACKUP or POST_BACKUP'',
      check (Script_Command s = []) ''script command must not be empty'',
      ValidateTimeoutSeconds (Script_TimeoutSeconds s),
      (case Script_RunCondition s of
         RunConditionOnSuccess \<Rightarrow> None
       | RunConditionOnFailure \<Rightarrow> None
       | RunConditionAlways \<Rightarrow> None
       | _ \<Rightarrow> Some (ErrorText ''script run condition must be ON_SUCCESS, ON_FAILURE, or ALWAYS''))]"

definition ShouldRun :: "Script \<Rightarrow> bool \<Rightarrow> bool" where
  "ShouldRun s runFailedSoFar =
     (case Script_RunCondition s of
        RunConditionAlways \<Rightarrow> True
      | RunConditionOnFailure \<Rightarrow> runFailedSoFar
      | RunConditionOnSuccess \<Rightarrow> \<not> runFailedSoFar
      | _ \<Rightarrow> False)"

definition HealthCheck_Validate :: "HealthCheck \<Rightarrow> err option" where
  "HealthCheck_Validate h = errors_join
     [check (HealthCheck_Command h = []) ''health check command must not be empty'',
      check (HealthCheck_Attempts h < 1) ''health check attempts must be at least 1'',
      check (HealthCheck_IntervalSeconds h < 1) ''health check interval must be at least 1 second'']"

definition validateTimeOfDay :: "int \<Rightarrow> int \<Rightarrow> err option" where
  "validateTimeOfDay hr mi =
     (if hr < 0 \<or> hr > 23
      then Some (ErrorText (''schedule hour '' @ itoa hr @ '' must be between 0 and 23''))
      else if mi < 0 \<or> mi > 59
      then Some (ErrorText (''schedule minute '' @ itoa mi @ '' must be between 0 and 59''))
      else None)"

definition Schedule_Validate :: "Cron \<Rightarrow> Schedule \<Rightarrow> err option" where
  "Schedule_Validate cron s = errors_join
     ((case Schedule_Type s of
         ScheduleManual \<Rightarrow> []
       | ScheduleDaily \<Rightarrow> [validateTimeOfDay (Schedule_Hour s) (Schedule_Minute s)]
       | ScheduleWeekly \<Rightarrow>
           [validateTimeOfDay (Schedule_Hour s) (Schedule_Minute s),
            check (Schedule_Weekdays s = []) ''weekly schedule requires at least one weekday'']
       | ScheduleMonthly \<Rightarrow>
           [validateTimeOfDay (Schedule_Hour s) (Schedule_Minute s),
            check (Schedule_DayOfMonth s < 1 \<or> Schedule_DayOfMonth s > 31)
              (''monthly schedule day '' @ itoa (Schedule_DayOfMonth s) @ '' must be between 1 and 31'')]
       | ScheduleCron \<Rightarrow> [ValidateCronExpression cron (Schedule_CronExpression s)]
       | ScheduleTypeOther t \<Rightarrow> [Some (ErrorText (''unknown schedule type '' @ go_quote t))]) @
      [case Schedule_MissedRunPolicy s of
         MissedRunAsSoonAsPossible \<Rightarrow> None
       | MissedRunSkip \<Rightarrow> None
       | MissedRunPolicyOther t \<Rightarrow>
           Some (ErrorText ''missed run policy must be RUN_AS_SOON_AS_POSSIBLE or SKIP'')])"

definition IsAutomatic :: "Schedule \<Rightarrow> bool" where
  "IsAutomatic s \<longleftrightarrow> Schedule_Type s \<noteq> ScheduleManual"

definition RetentionPolicy_Validate :: "RetentionPolicy \<Rightarrow> err option" where
  "RetentionPolicy_Validate r =
     (case KeepLast r of
        Some k \<Rightarrow> if k < 1 then Some (ErrorText (''keep_last must be at least 1, got '' @ itoa k))
                  else (case MaxAgeDays r of
                          Some d \<Rightarrow> if d < 1 then Some (ErrorText (''max_age_days must be at least 1, got '' @ itoa d))
                                    else None
                        | None \<Rightarrow> None)
      | None \<Rightarrow> (case MaxAgeDays r of
                   Some d \<Rightarrow> if d < 1 then Some (ErrorText (''max_age_days must be at least 1, got '' @ itoa d))
                             else None
                 | None \<Rightarrow> None))"

definition HasLimit :: "RetentionPolicy \<Rightarrow> bool" where
  "HasLimit r \<longleftrightarrow> KeepLast r \<noteq> None \<or> MaxAgeDays r \<noteq> None"

definition Settings_Validate :: "Settings \<Rightarrow> err option" where
  "Settings_Validate s =
     (if GlobalConcurrencyLimit s < 1
      then Some (ErrorText ''global concurrency limit must be at least 1'')
      else if StaleRemoteCleanupAgeHours s < 1
      then Some (ErrorText ''stale remote cleanup age must be at least 1 hour'')
      else None)"

definition Server_Validate :: "Server \<Rightarrow> err option" where
  "Server_Validate s = errors_join
     [ValidateName ''server'' (Server_Name s),
      check (Server_Host s = []) ''server host must not be empty'',
      check (Server_Username s = []) ''server username must not be empty'',
      ValidatePort (Server_Port s),
      check (Server_AuthType s \<noteq> AuthPrivateKey \<and> Server_AuthType s \<noteq> AuthPassword)
        ''server authentication type must be PRIVATE_KEY or PASSWORD'',
      check (Server_AuthType s = AuthPrivateKey \<and> Server_PrivateKeyPath s = [])
        ''private key path must not be empty for PRIVATE_KEY authentication'',
      check (Server_AuthType s = AuthPassword \<and> Server_CredentialReference s = [])
        ''a password must be set for PASSWORD authentication'']"

definition Job_Validate :: "Cron \<Rightarrow> Job \<Rightarrow> err option" where
  "Job_Validate cron j = errors_join
     ([ValidateName ''job'' (Job_Name j),
       check (Job_ServerID j = []) ''job must reference a server'',
       check (Job_Sources j = []) ''job must have at least one backup source''] @
      map Source_Validate (Job_Sources j) @
      map Script_Validate (Job_Scripts j) @
      [ValidateAbsoluteRemotePath (Job_RemoteTempDirectory j),
       check (Job_LocalDestination j = []) ''job local destination must not be empty'',
       check (Job_ArchiveTimeout j \<le> 0) ''job archive timeout must be positive'',
       Schedule_Validate cron (Job_Schedule j),
       RetentionPolicy_Validate (Job_RetentionPolicy j),
       (case Job_HealthCheck j of None \<Rightarrow> None | Some h \<Rightarrow> HealthCheck_Validate h)])"

section \<open>What a valid entity satisfies\<close>

text \<open>The rules as one predicate per entity, without messages or order.\<close>

definition script_wf :: "Script \<Rightarrow> bool" where
  "script_wf s \<longleftrightarrow>
     Script_Type s \<in> {ScriptPreBackup, ScriptPostBackup} \<and> Script_Command s \<noteq> [] \<and>
     0 < Script_TimeoutSeconds s \<and>
     Script_RunCondition s \<in> {RunConditionOnSuccess, RunConditionOnFailure, RunConditionAlways}"

definition time_of_day_wf :: "int \<Rightarrow> int \<Rightarrow> bool" where
  "time_of_day_wf hr mi \<longleftrightarrow> 0 \<le> hr \<and> hr \<le> 23 \<and> 0 \<le> mi \<and> mi \<le> 59"

definition schedule_wf :: "Cron \<Rightarrow> Schedule \<Rightarrow> bool" where
  "schedule_wf cron s \<longleftrightarrow>
     (case Schedule_Type s of
        ScheduleManual \<Rightarrow> True
      | ScheduleDaily \<Rightarrow> time_of_day_wf (Schedule_Hour s) (Schedule_Minute s)
      | ScheduleWeekly \<Rightarrow> time_of_day_wf (Schedule_Hour s) (Schedule_Minute s) \<and> Schedule_Weekdays s \<noteq> []
      | ScheduleMonthly \<Rightarrow> time_of_day_wf (Schedule_Hour s) (Schedule_Minute s) \<and>
          1 \<le> Schedule_DayOfMonth s \<and> Schedule_DayOfMonth s \<le> 31
      | ScheduleCron \<Rightarrow> trim_space (Schedule_CronExpression s) \<noteq> [] \<and> (\<exists>f. cron (Schedule_CronExpression s) = Inr f)
      | ScheduleTypeOther t \<Rightarrow> False) \<and>
     Schedule_MissedRunPolicy s \<in> {MissedRunAsSoonAsPossible, MissedRunSkip}"

definition retention_wf :: "RetentionPolicy \<Rightarrow> bool" where
  "retention_wf r \<longleftrightarrow> (\<forall>k. KeepLast r = Some k \<longrightarrow> 1 \<le> k) \<and> (\<forall>d. MaxAgeDays r = Some d \<longrightarrow> 1 \<le> d)"

definition health_wf :: "HealthCheck \<Rightarrow> bool" where
  "health_wf h \<longleftrightarrow> HealthCheck_Command h \<noteq> [] \<and> 1 \<le> HealthCheck_Attempts h \<and> 1 \<le> HealthCheck_IntervalSeconds h"

definition job_wf :: "Cron \<Rightarrow> Job \<Rightarrow> bool" where
  "job_wf cron j \<longleftrightarrow>
     trim_space (Job_Name j) \<noteq> [] \<and> Job_ServerID j \<noteq> [] \<and> Job_Sources j \<noteq> [] \<and>
     (\<forall>s \<in> set (Job_Sources j). has_prefix (Source_RemotePath s) ''/'') \<and>
     (\<forall>s \<in> set (Job_Scripts j). script_wf s) \<and>
     has_prefix (Job_RemoteTempDirectory j) ''/'' \<and> Job_LocalDestination j \<noteq> [] \<and>
     0 < Job_ArchiveTimeout j \<and> schedule_wf cron (Job_Schedule j) \<and>
     retention_wf (Job_RetentionPolicy j) \<and> (\<forall>h. Job_HealthCheck j = Some h \<longrightarrow> health_wf h)"

named_theorems validate_simps \<open>a field or an entity is valid\<close>

lemma ValidateName_None [validate_simps]: "ValidateName k n = None \<longleftrightarrow> trim_space n \<noteq> []"
  by (simp add: ValidateName_def)

lemma ValidateAbsoluteRemotePath_None [validate_simps]:
  "ValidateAbsoluteRemotePath p = None \<longleftrightarrow> has_prefix p ''/''"
  by (simp add: ValidateAbsoluteRemotePath_def)

lemma ValidatePort_None [validate_simps]: "ValidatePort p = None \<longleftrightarrow> 1 \<le> p \<and> p \<le> 65535"
  by (auto simp: ValidatePort_def)

lemma ValidateTimeoutSeconds_None [validate_simps]: "ValidateTimeoutSeconds n = None \<longleftrightarrow> 0 < n"
  by (auto simp: ValidateTimeoutSeconds_def)

lemma validateTimeOfDay_None [validate_simps]: "validateTimeOfDay hr mi = None \<longleftrightarrow> time_of_day_wf hr mi"
  by (auto simp: validateTimeOfDay_def time_of_day_wf_def)

lemma ValidateCronExpression_None [validate_simps]:
  "ValidateCronExpression cron ex = None \<longleftrightarrow> trim_space ex \<noteq> [] \<and> (\<exists>f. cron ex = Inr f)"
  by (auto simp: ValidateCronExpression_def split: sum.splits)

lemma Source_Validate_None [validate_simps]: "Source_Validate s = None \<longleftrightarrow> has_prefix (Source_RemotePath s) ''/''"
  by (simp add: Source_Validate_def validate_simps)

lemma Script_Validate_None [validate_simps]: "Script_Validate s = None \<longleftrightarrow> script_wf s"
  by (cases "Script_RunCondition s")
    (auto simp: Script_Validate_def script_wf_def errors_join_None_iff validate_simps)

lemma HealthCheck_Validate_None [validate_simps]: "HealthCheck_Validate h = None \<longleftrightarrow> health_wf h"
  by (auto simp: HealthCheck_Validate_def health_wf_def errors_join_None_iff)

lemma Schedule_Validate_None [validate_simps]: "Schedule_Validate cron s = None \<longleftrightarrow> schedule_wf cron s"
  by (cases "Schedule_Type s"; cases "Schedule_MissedRunPolicy s")
    (auto simp: Schedule_Validate_def schedule_wf_def errors_join_None_iff validate_simps)

lemma RetentionPolicy_Validate_None [validate_simps]: "RetentionPolicy_Validate r = None \<longleftrightarrow> retention_wf r"
  by (auto simp: RetentionPolicy_Validate_def retention_wf_def split: option.splits)

lemma job_valid_iff: "Job_Validate cron j = None \<longleftrightarrow> job_wf cron j"
  unfolding Job_Validate_def job_wf_def errors_join_None_iff
  by (cases "Job_HealthCheck j") (auto simp: validate_simps ball_Un)

section \<open>Constructors\<close>

text \<open>
  The state is the number of reads made from the random source so far. \<^verbatim>\<open>fresh_if_empty\<close> is
  the recurring \<^verbatim>\<open>if x.ID == "" { id, err := NewID(); ... }\<close>.
\<close>

definition fresh :: "Rand \<Rightarrow> (nat, err + string) state" where
  "fresh rand = State (\<lambda>n. (NewID rand n, Suc n))"

definition fresh_if_empty :: "Rand \<Rightarrow> string \<Rightarrow> (nat, err + string) state" where
  "fresh_if_empty rand ident = (if ident = [] then fresh rand else ret (Inr ident))"

record NewServerParams =
  PS_Name :: string
  PS_Host :: string
  PS_Port :: int
  PS_Username :: string
  PS_AuthType :: AuthenticationType
  PS_CredentialReference :: string
  PS_PrivateKeyPath :: string
  PS_ConnectionTimeoutSeconds :: int
  PS_CommandTimeoutSeconds :: int

definition NewServer :: "Rand \<Rightarrow> Time \<Rightarrow> NewServerParams \<Rightarrow> (nat, err + Server) state" where
  "NewServer rand now p =
     (let s = \<lparr>
        Server_ID = [], Server_Name = PS_Name p, Server_Host = PS_Host p,
        Server_Port = (if PS_Port p = 0 then 22 else PS_Port p),
        Server_Username = PS_Username p, Server_AuthType = PS_AuthType p,
        Server_CredentialReference = PS_CredentialReference p, Server_PrivateKeyPath = PS_PrivateKeyPath p,
        Server_HostKeyAlgorithm = [], Server_HostKeyFingerprint = [],
        Server_ConnectionTimeoutSeconds =
          (if PS_ConnectionTimeoutSeconds p = 0 then 10 else PS_ConnectionTimeoutSeconds p),
        Server_CommandTimeoutSeconds =
          (if PS_CommandTimeoutSeconds p = 0 then 30 else PS_CommandTimeoutSeconds p),
        Server_CreatedAt = now, Server_UpdatedAt = now\<rparr>
      in case Server_Validate s of
           Some e \<Rightarrow> ret (Inl e)
         | None \<Rightarrow> try_do (fresh rand) (\<lambda>ident. ret (Inr (s\<lparr>Server_ID := ident\<rparr>))))"

record NewJobParams =
  PJ_Name :: string
  PJ_ServerID :: string
  PJ_Enabled :: bool
  PJ_Sources :: "Source list"
  PJ_Scripts :: "Script list"
  PJ_Schedule :: Schedule
  PJ_RetentionPolicy :: RetentionPolicy
  PJ_HealthCheck :: "HealthCheck option"
  PJ_RemoteTempDirectory :: string
  PJ_LocalDestination :: string
  PJ_ArchiveTimeout :: Duration

definition DefaultRemoteTempDirectory :: string where
  "DefaultRemoteTempDirectory = ''/tmp/vps-backup-manager''"

definition DefaultArchiveTimeout :: Duration where
  "DefaultArchiveTimeout = 2 * hour"

definition DefaultScriptTimeoutSeconds :: int where
  "DefaultScriptTimeoutSeconds = 300"

definition adopt_source :: "Rand \<Rightarrow> string \<Rightarrow> Source \<Rightarrow> (nat, err + Source) state" where
  "adopt_source rand jobID s =
     try_do (fresh_if_empty rand (Source_ID s)) (\<lambda>ident.
       ret (Inr (s\<lparr>Source_JobID := jobID, Source_ID := ident\<rparr>)))"

definition adopt_script :: "Rand \<Rightarrow> string \<Rightarrow> Script \<Rightarrow> (nat, err + Script) state" where
  "adopt_script rand jobID s =
     try_do (fresh_if_empty rand (Script_ID s)) (\<lambda>ident.
       ret (Inr (s\<lparr>Script_JobID := jobID, Script_ID := ident,
         Script_TimeoutSeconds :=
           (if Script_TimeoutSeconds s = 0 then DefaultScriptTimeoutSeconds else Script_TimeoutSeconds s)\<rparr>)))"

definition NewJob :: "Rand \<Rightarrow> Cron \<Rightarrow> Time \<Rightarrow> NewJobParams \<Rightarrow> (nat, err + Job) state" where
  "NewJob rand cron now p =
     try_do (fresh rand) (\<lambda>jobID.
     try_do (try_each (adopt_source rand jobID) (PJ_Sources p)) (\<lambda>sources.
     try_do (try_each (adopt_script rand jobID) (PJ_Scripts p)) (\<lambda>scripts.
     try_do (fresh_if_empty rand (Schedule_ID (PJ_Schedule p))) (\<lambda>scheduleID.
     try_do (fresh_if_empty rand (RetentionPolicy_ID (PJ_RetentionPolicy p))) (\<lambda>retentionID.
       let j = \<lparr>
         Job_ID = jobID, Job_Name = PJ_Name p, Job_ServerID = PJ_ServerID p, Job_Enabled = PJ_Enabled p,
         Job_Sources = sources, Job_Scripts = scripts,
         Job_Schedule = (PJ_Schedule p)\<lparr>Schedule_JobID := jobID, Schedule_ID := scheduleID,
           Schedule_MissedRunPolicy :=
             (if MissedRunPolicy_str (Schedule_MissedRunPolicy (PJ_Schedule p)) = []
              then MissedRunAsSoonAsPossible else Schedule_MissedRunPolicy (PJ_Schedule p))\<rparr>,
         Job_RetentionPolicy = (PJ_RetentionPolicy p)\<lparr>
           RetentionPolicy_JobID := jobID, RetentionPolicy_ID := retentionID\<rparr>,
         Job_HealthCheck = PJ_HealthCheck p, Job_ArchiveFormat = ArchiveTarGz,
         Job_RemoteTempDirectory =
           (if PJ_RemoteTempDirectory p = [] then DefaultRemoteTempDirectory else PJ_RemoteTempDirectory p),
         Job_LocalDestination = PJ_LocalDestination p,
         Job_ArchiveTimeout =
           (if PJ_ArchiveTimeout p = 0 then DefaultArchiveTimeout else PJ_ArchiveTimeout p),
         Job_CreatedAt = now, Job_UpdatedAt = now\<rparr>
       in ret (case Job_Validate cron j of Some e \<Rightarrow> Inl e | None \<Rightarrow> Inr j))))))"

lemma NewServer_valid:
  assumes "run_state (NewServer rand now p) n = (Inr s, m)"
  shows "Server_Validate s = None"
  using assms unfolding NewServer_def Let_def
  by (auto split: option.splits if_splits elim!: try_do_Inr simp: Server_Validate_def)

text \<open>Every child of a new job points back to it.\<close>

definition job_owns_children :: "Job \<Rightarrow> bool" where
  "job_owns_children j \<longleftrightarrow>
     (\<forall>s \<in> set (Job_Sources j). Source_JobID s = Job_ID j) \<and>
     (\<forall>s \<in> set (Job_Scripts j). Script_JobID s = Job_ID j) \<and>
     Schedule_JobID (Job_Schedule j) = Job_ID j \<and>
     RetentionPolicy_JobID (Job_RetentionPolicy j) = Job_ID j"

lemma adopt_source_job: "run_state (adopt_source rand jobID s) n = (Inr s', m) \<Longrightarrow> Source_JobID s' = jobID"
  by (auto simp: adopt_source_def elim!: try_do_Inr)

lemma adopt_script_job: "run_state (adopt_script rand jobID s) n = (Inr s', m) \<Longrightarrow> Script_JobID s' = jobID"
  by (auto simp: adopt_script_def elim!: try_do_Inr)

lemma list_all2_snd: "list_all2 (\<lambda>x y. P y) xs ys \<Longrightarrow> y \<in> set ys \<Longrightarrow> P y"
  by (induction rule: list_all2_induct) auto

lemma NewJob_result:
  assumes "run_state (NewJob rand cron now p) n = (Inr j, m)"
  shows "job_wf cron j \<and> job_owns_children j"
proof -
  from assms obtain jobID sources scripts n1 n2 n3
    where src: "run_state (try_each (adopt_source rand jobID) (PJ_Sources p)) n1 = (Inr sources, n2)"
      and scr: "run_state (try_each (adopt_script rand jobID) (PJ_Scripts p)) n2 = (Inr scripts, n3)"
      and j: "Job_Validate cron j = None" "Job_ID j = jobID" "Job_Sources j = sources" "Job_Scripts j = scripts"
        "Schedule_JobID (Job_Schedule j) = jobID" "RetentionPolicy_JobID (Job_RetentionPolicy j) = jobID"
    unfolding NewJob_def Let_def
    by (auto elim!: try_do_Inr split: option.splits)
  have "list_all2 (\<lambda>_ s. Source_JobID s = jobID) (PJ_Sources p) sources"
    by (rule try_each_Inr [OF src]) (rule adopt_source_job)
  moreover have "list_all2 (\<lambda>_ s. Script_JobID s = jobID) (PJ_Scripts p) scripts"
    by (rule try_each_Inr [OF scr]) (rule adopt_script_job)
  ultimately show ?thesis
    using j by (auto simp: job_owns_children_def job_valid_iff dest: list_all2_snd)
qed

section \<open>A sample configuration\<close>

text \<open>A server and a job on it, on which the properties are instantiated.\<close>

definition epoch :: Time where
  "epoch = \<lparr>t_ns = 0, t_loc = utc_loc\<rparr>"

definition sample_server :: Server where
  "sample_server = \<lparr>Server_ID = ''srv1'', Server_Name = ''vps'', Server_Host = ''vps.example.org'',
     Server_Port = 22, Server_Username = ''backup'', Server_AuthType = AuthPrivateKey,
     Server_CredentialReference = [], Server_PrivateKeyPath = ''id_ed25519'',
     Server_HostKeyAlgorithm = [], Server_HostKeyFingerprint = [],
     Server_ConnectionTimeoutSeconds = 10, Server_CommandTimeoutSeconds = 30,
     Server_CreatedAt = epoch, Server_UpdatedAt = epoch\<rparr>"

definition sample_source :: Source where
  "sample_source = \<lparr>Source_ID = ''src1'', Source_JobID = ''job1'', Source_RemotePath = ''/var/www'',
     Source_Position = 0, Source_Include = [], Source_Exclude = []\<rparr>"

definition sample_schedule :: Schedule where
  "sample_schedule = \<lparr>Schedule_ID = ''sch1'', Schedule_JobID = ''job1'', Schedule_Type = ScheduleCron,
     Schedule_Hour = 0, Schedule_Minute = 0, Schedule_Weekdays = [], Schedule_DayOfMonth = 0,
     Schedule_CronExpression = ''0 3 * * *'', Schedule_MissedRunPolicy = MissedRunAsSoonAsPossible\<rparr>"

definition sample_retention :: RetentionPolicy where
  "sample_retention = \<lparr>RetentionPolicy_ID = ''ret1'', RetentionPolicy_JobID = ''job1'',
     KeepLast = Some 2, MaxAgeDays = None\<rparr>"

definition sample_job :: Job where
  "sample_job = \<lparr>Job_ID = ''job1'', Job_Name = ''web'', Job_ServerID = ''srv1'', Job_Enabled = True,
     Job_Sources = [sample_source], Job_Scripts = [], Job_Schedule = sample_schedule,
     Job_RetentionPolicy = sample_retention, Job_HealthCheck = None, Job_ArchiveFormat = ArchiveTarGz,
     Job_RemoteTempDirectory = ''/tmp/vps'', Job_LocalDestination = ''D:'',
     Job_ArchiveTimeout = 7200 * second, Job_CreatedAt = epoch, Job_UpdatedAt = epoch\<rparr>"

lemmas sample_defs =
  sample_job_def sample_server_def sample_source_def sample_schedule_def sample_retention_def epoch_def

end
