(* ===== verification/Schedule_Next.thy ===== *)
theory Schedule_Next
  imports Domain_Validate
begin

text \<open>
  \<^verbatim>\<open>internal/scheduler/nextrun.go\<close>: when a schedule fires next. The result is an error, or
  \<open>None\<close> for a schedule that never fires by itself (the Go result \<^verbatim>\<open>ok = false\<close>), or the
  time. Daily and weekly schedules are cron expressions built from their fields; the monthly
  schedule is computed by the code itself and verified here against the calendar.
\<close>

section \<open>The code\<close>

definition nextFromCronSpec :: "Cron \<Rightarrow> string \<Rightarrow> Time \<Rightarrow> err + Time option" where
  "nextFromCronSpec cron spec aft =
     (case cron spec of
        Inl e \<Rightarrow> Inl (Wrapped (''parse cron spec '' @ go_quote spec) e)
      | Inr next_of \<Rightarrow> Inr (Some (next_of aft)))"

definition lastDayOfMonth :: "int \<Rightarrow> int \<Rightarrow> int" where
  "lastDayOfMonth y m =
     (let firstOfNext = go_date y (m + 1) 1 0 0 0 0 utc_loc
      in mday_of (add_date firstOfNext 0 0 (-1)))"

definition monthlyOccurrence :: "int \<Rightarrow> int \<Rightarrow> int \<Rightarrow> int \<Rightarrow> int \<Rightarrow> Location \<Rightarrow> Time" where
  "monthlyOccurrence y m d hr mi loc =
     (let last_day = lastDayOfMonth y m;
          d' = (if d > last_day then last_day else d)
      in go_date y m d' hr mi 0 0 loc)"

definition nextMonthly :: "Schedule \<Rightarrow> Time \<Rightarrow> Time" where
  "nextMonthly s aft =
     (let loc = t_loc aft;
          candidate = monthlyOccurrence (year_of aft) (month_of aft)
            (Schedule_DayOfMonth s) (Schedule_Hour s) (Schedule_Minute s) loc
      in if \<not> after_time candidate aft then
           let m = month_of aft + 1;
               (y', m') = (if m > 12 then (year_of aft + 1, 1) else (year_of aft, m))
           in monthlyOccurrence y' m' (Schedule_DayOfMonth s) (Schedule_Hour s) (Schedule_Minute s) loc
         else candidate)"

definition NextRun :: "Cron \<Rightarrow> Schedule \<Rightarrow> Time \<Rightarrow> err + Time option" where
  "NextRun cron s aft =
     (case Schedule_Type s of
        ScheduleManual \<Rightarrow> Inr None
      | ScheduleDaily \<Rightarrow>
          nextFromCronSpec cron (itoa (Schedule_Minute s) @ '' '' @ itoa (Schedule_Hour s) @ '' * * *'') aft
      | ScheduleWeekly \<Rightarrow>
          nextFromCronSpec cron
            (itoa (Schedule_Minute s) @ '' '' @ itoa (Schedule_Hour s) @ '' * * '' @
             join '','' (map itoa (Schedule_Weekdays s))) aft
      | ScheduleMonthly \<Rightarrow> Inr (Some (nextMonthly s aft))
      | ScheduleCron \<Rightarrow> nextFromCronSpec cron (Schedule_CronExpression s) aft
      | ScheduleTypeOther t \<Rightarrow> Inl (ErrorText (''unknown schedule type '' @ go_quote t)))"

section \<open>The last day of a month\<close>

lemma local_day_midnight: "local_day (go_date y m d 0 0 0 0 utc_loc) = civil_days y m d"
  unfolding local_day_def utc_fixed local_secs_go_date by simp

lemma midnight_fields:
  fixes y m d :: int
  defines "t \<equiv> go_date y m d 0 0 0 0 utc_loc"
  shows "hour_of t = 0" "minute_of t = 0" "second_of t = 0" "nanosecond t = 0" "t_loc t = utc_loc"
proof -
  have x: "local_secs t = civil_days y m d * 86400 + 0 * 3600 + 0 * 60"
    unfolding t_def utc_fixed local_secs_go_date by simp
  show "hour_of t = 0" "minute_of t = 0" "second_of t = 0"
    unfolding hour_of_def minute_of_def second_of_def x by (intro clock_fields; simp)+
  show "nanosecond t = 0" "t_loc t = utc_loc"
    unfolding t_def utc_fixed go_date_fixed nanosecond_def by simp_all
qed

lemma day_before_midnight:
  fixes D :: int
  assumes "civil_days y m d = D"
  shows "local_day (add_date (go_date y m d 0 0 0 0 utc_loc) 0 0 (-1)) = D - 1"
proof -
  let ?t = "go_date y m d 0 0 0 0 utc_loc"
  have day: "local_day ?t = D" using assms by (simp add: local_day_midnight)
  have "add_date ?t 0 0 (-1) = go_date (year_of_day D) (month_of_day D) (mday_of_day D - 1) 0 0 0 0 utc_loc"
    by (simp add: add_date_def midnight_fields year_of_def month_of_def mday_of_def day)
  moreover have "civil_days (year_of_day D) (month_of_day D) (mday_of_day D - 1) = D - 1"
    using civil_days_of_day [of D] by (simp add: civil_days_def)
  ultimately show ?thesis by (simp add: local_day_midnight)
qed

lemma lastDay_days_in_month:
  assumes "1 \<le> m" "m \<le> 12"
  shows "lastDayOfMonth y m = days_in_month y m"
proof -
  let ?D = "month_start y (m + 1)"
  have "civil_days y (m + 1) 1 = ?D" by (simp add: civil_days_def)
  then have "lastDayOfMonth y m = mday_of_day (?D - 1)"
    by (simp only: lastDayOfMonth_def Let_def mday_of_def day_before_midnight)
  also have "\<dots> = ?D - 1 - month_start y m + 1"
    using date_of_day [of m y "?D - 1"] month_start_step [OF assms, of y] assms by simp
  finally show ?thesis by (simp add: days_in_month_def)
qed

section \<open>The monthly schedule\<close>

text \<open>The specification: the times at which a monthly schedule is due.\<close>

definition monthly_day :: "Schedule \<Rightarrow> int \<Rightarrow> int \<Rightarrow> int" where
  "monthly_day s y m = min (Schedule_DayOfMonth s) (days_in_month y m)"

definition monthly_due :: "Schedule \<Rightarrow> Time \<Rightarrow> bool" where
  "monthly_due s t \<longleftrightarrow>
     mday_of t = monthly_day s (year_of t) (month_of t) \<and>
     hour_of t = Schedule_Hour s \<and> minute_of t = Schedule_Minute s \<and>
     second_of t = 0 \<and> nanosecond t = 0"

definition monthly_wf :: "Schedule \<Rightarrow> bool" where
  "monthly_wf s \<longleftrightarrow> time_of_day_wf (Schedule_Hour s) (Schedule_Minute s) \<and>
     1 \<le> Schedule_DayOfMonth s \<and> Schedule_DayOfMonth s \<le> 31"

text \<open>The due second of the month with a given number, counted in local time.\<close>

definition due_day :: "Schedule \<Rightarrow> int \<Rightarrow> int" where
  "due_day s k = mstart k + min (Schedule_DayOfMonth s) (mstart (k + 1) - mstart k) - 1"

definition due_secs :: "Schedule \<Rightarrow> int \<Rightarrow> int" where
  "due_secs s k = due_day s k * 86400 + Schedule_Hour s * 3600 + Schedule_Minute s * 60"

lemma due_day_in_month:
  "monthly_wf s \<Longrightarrow> mstart k \<le> due_day s k \<and> due_day s k < mstart (k + 1)"
  using mstart_step [of k] by (simp add: due_day_def monthly_wf_def)

lemma civil_monthly_day: "civil_days y m (monthly_day s y m) = due_day s (month_index y m)"
  by (simp add: civil_days_def monthly_day_def due_day_def days_in_month_def
      month_start_mstart month_index_Suc)

lemma monthlyOccurrence_due:
  assumes "1 \<le> m" "m \<le> 12"
  shows "monthlyOccurrence y m (Schedule_DayOfMonth s) (Schedule_Hour s) (Schedule_Minute s) (fixed_loc off)
    = \<lparr>t_ns = (due_secs s (month_index y m) - off) * second, t_loc = fixed_loc off\<rparr>"
proof -
  have "(if Schedule_DayOfMonth s > lastDayOfMonth y m then lastDayOfMonth y m else Schedule_DayOfMonth s)
    = monthly_day s y m"
    by (simp add: lastDay_days_in_month [OF assms] monthly_day_def min_def)
  then show ?thesis
    by (simp add: monthlyOccurrence_def Let_def go_date_fixed civil_monthly_day due_secs_def)
qed

lemma month_of_bounds: "1 \<le> month_of t" "month_of t \<le> 12"
  using month_of_day_bounds [of "local_day t"] by (simp_all add: month_of_def)

definition month_no :: "Time \<Rightarrow> int" where
  "month_no t = month_index (year_of t) (month_of t)"

lemma month_no_bounds: "mstart (month_no t) \<le> local_day t \<and> local_day t < mstart (month_no t + 1)"
  using index_of_day_bounds [of "local_day t"]
  by (simp add: month_no_def index_of_day_def year_of_def month_of_def)

lemma nextMonthly_fixed:
  assumes "t_loc aft = fixed_loc off"
  defines "k \<equiv> month_no aft"
  shows "nextMonthly s aft =
    (let first = \<lparr>t_ns = (due_secs s k - off) * second, t_loc = fixed_loc off\<rparr>
     in if after_time first aft then first
        else \<lparr>t_ns = (due_secs s (k + 1) - off) * second, t_loc = fixed_loc off\<rparr>)"
proof -
  have this_month: "monthlyOccurrence (year_of aft) (month_of aft) (Schedule_DayOfMonth s)
      (Schedule_Hour s) (Schedule_Minute s) (fixed_loc off)
    = \<lparr>t_ns = (due_secs s k - off) * second, t_loc = fixed_loc off\<rparr>"
    using monthlyOccurrence_due [OF month_of_bounds] by (simp add: k_def month_no_def)
  have next_month: "(case (if month_of aft + 1 > 12 then (year_of aft + 1, 1) else (year_of aft, month_of aft + 1))
      of (y', m') \<Rightarrow> monthlyOccurrence y' m' (Schedule_DayOfMonth s)
           (Schedule_Hour s) (Schedule_Minute s) (fixed_loc off))
    = \<lparr>t_ns = (due_secs s (k + 1) - off) * second, t_loc = fixed_loc off\<rparr>"
  proof (cases "month_of aft = 12")
    case True
    then have "month_index (year_of aft + 1) 1 = k + 1" by (simp add: k_def month_no_def month_index_def)
    then show ?thesis using True monthlyOccurrence_due [of 1 "year_of aft + 1" s off] by simp
  next
    case False
    then have "month_of aft + 1 \<le> 12" using month_of_bounds(2) [of aft] by simp
    then show ?thesis
      using monthlyOccurrence_due [of "month_of aft + 1" "year_of aft" s off] month_of_bounds(1) [of aft]
      by (simp add: k_def month_no_def month_index_Suc)
  qed
  show ?thesis
    unfolding nextMonthly_def Let_def assms(1) this_month next_month by simp
qed

text \<open>A due time is the due second of its month, and the due second of a month is a due time.\<close>

lemma second_fields: "t_ns t = unix_secs t * second + nanosecond t" "0 \<le> nanosecond t"
  by (simp_all add: unix_secs_def nanosecond_def second_def)

lemma monthly_due_secs:
  assumes "monthly_due s t" "t_loc t = fixed_loc off"
  shows "t_ns t = (due_secs s (month_no t) - off) * second"
proof -
  have day: "local_day t = due_day s (month_no t)"
    using assms(1) civil_days_of_day [of "local_day t"] civil_monthly_day [of "year_of t" "month_of t" s]
    by (simp add: monthly_due_def month_no_def year_of_def month_of_def mday_of_def)
  have "local_secs t = due_secs s (month_no t)"
    using assms(1) clock_fields_conv [of "local_secs t"] day
    by (simp add: monthly_due_def due_secs_def local_day_def hour_of_def minute_of_def second_of_def)
  then show ?thesis
    using assms second_fields(1) [of t] local_secs_fixed [of t off] by (simp add: monthly_due_def)
qed

lemma due_secs_monthly_due:
  fixes off k :: int
  assumes "monthly_wf s"
  defines "t \<equiv> \<lparr>t_ns = (due_secs s k - off) * second, t_loc = fixed_loc off\<rparr>"
  shows "monthly_due s t \<and> month_no t = k"
proof -
  have x: "local_secs t = due_day s k * 86400 + Schedule_Hour s * 3600 + Schedule_Minute s * 60"
    using local_secs_fixed [of t off] by (simp add: t_def unix_secs_def due_secs_def second_def)
  note wf = assms(1) [unfolded monthly_wf_def time_of_day_wf_def]
  note fields = clock_fields [of "Schedule_Hour s" "Schedule_Minute s" "due_day s k", folded x]
  have day: "local_day t = due_day s k" using fields(1) wf by (simp add: local_day_def)
  have no: "month_no t = k"
    using month_no_bounds [of t] due_day_in_month [OF assms(1), of k] unfolding day
    by (intro mstart_unique [where d = "due_day s k"]) simp_all
  have "civil_days (year_of t) (month_of t) (mday_of t)
    = civil_days (year_of t) (month_of t) (monthly_day s (year_of t) (month_of t))"
    unfolding civil_monthly_day using civil_days_of_day [of "local_day t"] day no
    by (simp add: month_no_def year_of_def month_of_def mday_of_def)
  then have "mday_of t = monthly_day s (year_of t) (month_of t)" by (simp add: civil_days_def)
  moreover have "nanosecond t = 0" by (simp add: t_def nanosecond_def)
  ultimately show ?thesis
    using no fields(2-4) wf by (simp add: monthly_due_def hour_of_def minute_of_def second_of_def)
qed

lemma due_secs_next: "monthly_wf s \<Longrightarrow> mstart (k + 1) * 86400 > due_secs s k"
  using due_day_in_month [of s k] by (simp add: due_secs_def monthly_wf_def time_of_day_wf_def)

lemma due_secs_ge: "monthly_wf s \<Longrightarrow> mstart k * 86400 \<le> due_secs s k"
  using due_day_in_month [of s k] by (simp add: due_secs_def monthly_wf_def time_of_day_wf_def)

lemma due_secs_mono:
  assumes "monthly_wf s" "j \<le> k"
  shows "due_secs s j \<le> due_secs s k"
proof (cases "j = k")
  case False
  then have "mstart (j + 1) \<le> mstart k" using assms(2) by (intro mstart_mono) simp
  then show ?thesis using due_secs_next [OF assms(1), of j] due_secs_ge [OF assms(1), of k] by simp
qed simp

lemma nextMonthly_after:
  assumes "monthly_wf s" "t_loc aft = fixed_loc off"
  shows "after_time (nextMonthly s aft) aft"
proof -
  have "local_secs aft < mstart (month_no aft + 1) * 86400"
    using month_no_bounds [of aft] div_bounds [of 86400 "local_secs aft"] by (simp add: local_day_def)
  also have "\<dots> \<le> due_secs s (month_no aft + 1)" by (rule due_secs_ge [OF assms(1)])
  finally have "unix_secs aft < due_secs s (month_no aft + 1) - off"
    using local_secs_fixed [OF assms(2)] by simp
  then have "t_ns aft < (due_secs s (month_no aft + 1) - off) * second"
    by (simp add: unix_secs_def second_def)
  then show ?thesis
    by (simp add: nextMonthly_fixed [OF assms(2)] Let_def after_time_def)
qed

lemma nextMonthly_due:
  "monthly_wf s \<Longrightarrow> t_loc aft = fixed_loc off \<Longrightarrow> monthly_due s (nextMonthly s aft)"
  by (simp add: nextMonthly_fixed Let_def due_secs_monthly_due)

lemma month_no_mono:
  assumes "t_loc t = fixed_loc off" "t_loc u = fixed_loc off" "t_ns t \<le> t_ns u"
  shows "month_no t \<le> month_no u"
proof -
  have "unix_secs t \<le> unix_secs u"
    using assms(3) zdiv_mono1 [of "t_ns t" "t_ns u" second] by (simp add: unix_secs_def)
  then have "local_secs t \<le> local_secs u" using assms(1,2) by (simp add: local_secs_fixed)
  then have "local_day t \<le> local_day u" using zdiv_mono1 [of "local_secs t" "local_secs u" 86400]
    by (simp add: local_day_def)
  then have "mstart (month_no t) < mstart (month_no u + 1)"
    using month_no_bounds [of t] month_no_bounds [of u] by simp
  then have "month_no t < month_no u + 1" by (rule mstart_less [OF order.refl])
  then show ?thesis by simp
qed

lemma nextMonthly_least:
  assumes "monthly_wf s" "t_loc aft = fixed_loc off"
    and t: "t_loc t = fixed_loc off" "monthly_due s t" "after_time t aft"
  shows "t_ns (nextMonthly s aft) \<le> t_ns t"
proof -
  let ?k = "month_no aft"
  have le: "?k \<le> month_no t"
    using t(3) by (intro month_no_mono [OF assms(2) t(1)]) (simp add: after_time_def)
  have t_ns: "t_ns t = (due_secs s (month_no t) - off) * second"
    by (rule monthly_due_secs [OF t(2,1)])
  show ?thesis
  proof (cases "t_ns aft < (due_secs s ?k - off) * second")
    case True
    then show ?thesis
      using due_secs_mono [OF assms(1) le] second_pos
      by (simp add: nextMonthly_fixed [OF assms(2)] Let_def after_time_def t_ns)
  next
    case False
    then have "month_no t \<noteq> ?k" using t(3) by (auto simp: after_time_def t_ns)
    with le have "?k + 1 \<le> month_no t" by simp
    from due_secs_mono [OF assms(1) this] False show ?thesis
      by (simp add: nextMonthly_fixed [OF assms(2)] Let_def after_time_def t_ns)
  qed
qed

section \<open>Properties\<close>

text \<open>C28: in a location with a fixed offset, a valid monthly schedule's next run is strictly
  after the given time, is at the configured hour and minute of the configured day (or of the
  last day of a shorter month), and no earlier time after the given one is such a time.\<close>

theorem nextMonthly_is_next_occurrence:
  assumes "monthly_wf s" and "t_loc aft = fixed_loc off"
  shows "after_time (nextMonthly s aft) aft \<and> monthly_due s (nextMonthly s aft) \<and>
    (\<forall>t. t_loc t = fixed_loc off \<longrightarrow> monthly_due s t \<longrightarrow> after_time t aft \<longrightarrow>
      t_ns (nextMonthly s aft) \<le> t_ns t)"
  using nextMonthly_after [OF assms] nextMonthly_due [OF assms] nextMonthly_least [OF assms] by blast

definition month_end_schedule :: Schedule where
  "month_end_schedule = \<lparr>Schedule_ID = ''s'', Schedule_JobID = ''j'', Schedule_Type = ScheduleMonthly,
     Schedule_Hour = 2, Schedule_Minute = 30, Schedule_Weekdays = [], Schedule_DayOfMonth = 31,
     Schedule_CronExpression = [], Schedule_MissedRunPolicy = MissedRunSkip\<rparr>"

text \<open>After 31 January 2024, 02:30, the schedule of day 31 runs on 29 February, 02:30.\<close>

definition end_of_january :: Time where
  "end_of_january = \<lparr>t_ns = 1706668200 * second, t_loc = fixed_loc 0\<rparr>"

lemma nextMonthly_witness:
  "monthly_wf month_end_schedule \<and> t_ns (nextMonthly month_end_schedule end_of_january) = 1709173800 * second \<and>
   after_time (nextMonthly month_end_schedule end_of_january) end_of_january \<and>
   monthly_due month_end_schedule (nextMonthly month_end_schedule end_of_january)"
proof -
  have wf: "monthly_wf month_end_schedule" by code_simp
  have loc: "t_loc end_of_january = fixed_loc 0" by (simp add: end_of_january_def)
  have "month_no end_of_january = 24288" by code_simp
  moreover have "due_secs month_end_schedule 24288 = 1706668200" by code_simp
  moreover have "due_secs month_end_schedule 24289 = 1709173800" by code_simp
  ultimately have "t_ns (nextMonthly month_end_schedule end_of_january) = 1709173800 * second"
    by (simp add: nextMonthly_fixed [OF loc] after_time_def) (simp add: end_of_january_def)
  with wf nextMonthly_is_next_occurrence [OF wf loc] show ?thesis by blast
qed

text \<open>\<^verbatim>\<open>lastDayOfMonth\<close>, computed by stepping back one day from the first of the next month,
  is the Gregorian length of the month.\<close>

theorem lastDayOfMonth_gregorian:
  assumes "1 \<le> m" and "m \<le> 12"
  shows "lastDayOfMonth y m =
    (if m = 2 then (if y mod 4 = 0 \<and> (y mod 100 \<noteq> 0 \<or> y mod 400 = 0) then 29 else 28)
     else if m \<in> {4, 6, 9, 11} then 30 else 31)"
  using lastDay_days_in_month [OF assms] days_in_month_table [OF assms] by (simp add: is_leap_def)

lemma lastDayOfMonth_witness: "lastDayOfMonth 2024 2 = 29 \<and> lastDayOfMonth 1900 2 = 28"
  using lastDayOfMonth_gregorian [of 2 2024] lastDayOfMonth_gregorian [of 2 1900] by simp

end
