(* ===== verification/Dispatcher.thy ===== *)
theory Dispatcher
  imports Schedule_Next
begin

text \<open>
  \<^verbatim>\<open>internal/scheduler/dispatcher.go\<close> and \<^verbatim>\<open>missedrun.go\<close>. The state is the dispatcher's
  mutex-protected fields plus what it has set in motion: the goroutines of
  \<^verbatim>\<open>runAndRelease\<close> that have not ended, the catch-up run that missed-run detection is waiting for,
  and a log of the runs and records it asked for, newest first. The stores, the clock and the cron package are the environment of one call. Every
  critical section of the mutex is one function; \<^verbatim>\<open>considerJob\<close> and \<^verbatim>\<open>tick\<close> compose them as
  the code does, and the step relation at the end interleaves them with the ends of runs and
  with missed-run detection, whose synchronous runs are in flight beside the ticking loop.
\<close>

section \<open>State and environment\<close>

datatype SchedEvent =
    StartedRun Job Server Trigger
  | CatchUpRun Job Server
  | CreatedRun Run

record Dispatcher =
  scheduledUpTo :: "string \<rightharpoonup> Time"
  runningCount :: int
  runningServers :: "string \<Rightarrow> int"
  inflight :: "Job list"
  catching_up :: "Job option"
  sched_log :: "SchedEvent list"
  sched_ids :: nat

record SchedEnv =
  env_cron :: Cron
  env_settings :: "err + Settings"
  env_jobs :: "err + Job list"
  env_server :: "string \<Rightarrow> err + Server"
  env_last_run :: "string \<Rightarrow> err + Run option"
  env_now :: Time
  env_rand :: Rand
  env_create :: "Run \<Rightarrow> err option"

definition NewDispatcher :: Dispatcher where
  "NewDispatcher = \<lparr>scheduledUpTo = Map.empty, runningCount = 0, runningServers = (\<lambda>_. 0),
     inflight = [], catching_up = None, sched_log = [], sched_ids = 0\<rparr>"

section \<open>The critical sections\<close>

text \<open>The first section of \<^verbatim>\<open>considerJob\<close>: the baseline of a job, set to now when the job is new.\<close>

definition baseline :: "string \<Rightarrow> Time \<Rightarrow> Dispatcher \<Rightarrow> Time option \<times> Dispatcher" where
  "baseline jobID now d =
     (case scheduledUpTo d jobID of
        Some prev \<Rightarrow> (Some prev, d)
      | None \<Rightarrow> (None, d\<lparr>scheduledUpTo := (scheduledUpTo d)(jobID \<mapsto> now)\<rparr>))"

definition advance :: "string \<Rightarrow> Time \<Rightarrow> Dispatcher \<Rightarrow> Dispatcher" where
  "advance jobID now d = d\<lparr>scheduledUpTo := (scheduledUpTo d)(jobID \<mapsto> now)\<rparr>"

text \<open>The section of \<^verbatim>\<open>tryStart\<close>, with the goroutine that follows it.\<close>

definition acquire :: "Job \<Rightarrow> Server \<Rightarrow> Trigger \<Rightarrow> int \<Rightarrow> Dispatcher \<Rightarrow> bool \<times> Dispatcher" where
  "acquire job server trig globalLimit d =
     (if runningCount d \<ge> globalLimit then (False, d)
      else if runningServers d (Job_ServerID job) > 0 then (False, d)
      else (True, d\<lparr>
        runningCount := runningCount d + 1,
        runningServers := (runningServers d)(Job_ServerID job := runningServers d (Job_ServerID job) + 1),
        inflight := job # inflight d,
        sched_log := StartedRun job server trig # sched_log d\<rparr>))"

text \<open>The deferred section of \<^verbatim>\<open>runAndRelease\<close>, when the run of a job has ended.\<close>

definition runAndRelease :: "Job \<Rightarrow> Dispatcher \<Rightarrow> Dispatcher" where
  "runAndRelease job d = d\<lparr>
     runningCount := runningCount d - 1,
     runningServers := (runningServers d)(Job_ServerID job := runningServers d (Job_ServerID job) - 1),
     inflight := remove1 job (inflight d)\<rparr>"

section \<open>Dispatching\<close>

definition is_due :: "SchedEnv \<Rightarrow> Job \<Rightarrow> Time \<Rightarrow> Time \<Rightarrow> bool" where
  "is_due env job prev now =
     (case NextRun (env_cron env) (Job_Schedule job) prev of
        Inl e \<Rightarrow> False
      | Inr None \<Rightarrow> False
      | Inr (Some next_at) \<Rightarrow> \<not> after_time next_at now)"

definition tryStart :: "SchedEnv \<Rightarrow> Job \<Rightarrow> Trigger \<Rightarrow> int \<Rightarrow> Dispatcher \<Rightarrow> bool \<times> Dispatcher" where
  "tryStart env job trig globalLimit d =
     (case env_server env (Job_ServerID job) of
        Inl e \<Rightarrow> (False, d)
      | Inr server \<Rightarrow> acquire job server trig globalLimit d)"

definition considerJob :: "SchedEnv \<Rightarrow> Time \<Rightarrow> int \<Rightarrow> Job \<Rightarrow> Dispatcher \<Rightarrow> Dispatcher" where
  "considerJob env now globalLimit job d =
     (case baseline (Job_ID job) now d of
        (None, d1) \<Rightarrow> d1
      | (Some prev, d1) \<Rightarrow>
          if \<not> is_due env job prev now then d1
          else (case tryStart env job TriggerSchedule globalLimit d1 of
                  (started, d2) \<Rightarrow> if started then advance (Job_ID job) now d2 else d2))"

definition eligible :: "Job \<Rightarrow> bool" where
  "eligible job \<longleftrightarrow> \<not> (\<not> Job_Enabled job \<or> \<not> IsAutomatic (Job_Schedule job))"

definition tick :: "SchedEnv \<Rightarrow> Dispatcher \<Rightarrow> Dispatcher" where
  "tick env d =
     (case env_settings env of
        Inl e \<Rightarrow> d
      | Inr settings \<Rightarrow>
          if SchedulesPaused settings then d
          else (case env_jobs env of
                  Inl e \<Rightarrow> d
                | Inr jobs \<Rightarrow>
                    fold (\<lambda>job d. if \<not> eligible job then d
                                  else considerJob env (env_now env) (GlobalConcurrencyLimit settings) job d)
                      jobs d))"

section \<open>Missed runs\<close>

definition skipped_run :: "string \<Rightarrow> Time \<Rightarrow> Job \<Rightarrow> Time \<Rightarrow> Run" where
  "skipped_run ident missedAt job finished =
     (NewRun ident missedAt (Job_ID job) (Job_ServerID job) (map Source_RemotePath (Job_Sources job))
        TriggerMissedSchedule)
     \<lparr>Run_Status := RunSkipped,
      Run_ErrorMessage := ''Scheduled time was missed while the service was not running'',
      Run_FinishedAt := Some finished\<rparr>"

definition recordSkippedMissedRun :: "SchedEnv \<Rightarrow> Job \<Rightarrow> Time \<Rightarrow> Dispatcher \<Rightarrow> Dispatcher" where
  "recordSkippedMissedRun env job missedAt d =
     (let d1 = d\<lparr>sched_ids := Suc (sched_ids d)\<rparr>
      in case NewID (env_rand env) (sched_ids d) of
           Inl e \<Rightarrow> d1
         | Inr ident \<Rightarrow>
             (let run = skipped_run ident missedAt job (env_now env)
              in case env_create env run of
                   Some e \<Rightarrow> d1
                 | None \<Rightarrow> d1\<lparr>sched_log := CreatedRun run # sched_log d1\<rparr>))"

text \<open>
  \<^verbatim>\<open>detectMissedRunForJob\<close> up to its call of \<^verbatim>\<open>Runner.Run\<close>: the server of the catch-up run that it
  starts now, or nothing when it returns without one.
\<close>

definition missedRunDecision :: "SchedEnv \<Rightarrow> Time \<Rightarrow> Job \<Rightarrow> Dispatcher \<Rightarrow> Server option \<times> Dispatcher" where
  "missedRunDecision env now job d =
     (case env_last_run env (Job_ID job) of
        Inl e \<Rightarrow> (None, d)
      | Inr None \<Rightarrow> (None, d)
      | Inr (Some lastRun) \<Rightarrow>
          (case NextRun (env_cron env) (Job_Schedule job) (in_loc (Run_StartedAt lastRun) (t_loc now)) of
             Inl e \<Rightarrow> (None, d)
           | Inr None \<Rightarrow> (None, d)
           | Inr (Some missed) \<Rightarrow>
               if after_time missed now then (None, d)
               else
                 (let d1 = advance (Job_ID job) now d
                  in if Schedule_MissedRunPolicy (Job_Schedule job) = MissedRunSkip
                     then (None, recordSkippedMissedRun env job missed d1)
                     else (case env_server env (Job_ServerID job) of
                             Inl e \<Rightarrow> (None, d1)
                           | Inr server \<Rightarrow> (Some server, d1)))))"

text \<open>\<^verbatim>\<open>d.Runner.Run\<close> is synchronous: the catch-up run is in flight from its call to its return.\<close>

definition beginCatchUp :: "Job \<Rightarrow> Server \<Rightarrow> Dispatcher \<Rightarrow> Dispatcher" where
  "beginCatchUp job server d = d\<lparr>catching_up := Some job, sched_log := CatchUpRun job server # sched_log d\<rparr>"

definition endCatchUp :: "Dispatcher \<Rightarrow> Dispatcher" where
  "endCatchUp d = d\<lparr>catching_up := None\<rparr>"

text \<open>The whole method; the step relation below separates the begin from the end of the run.\<close>

definition detectMissedRunForJob :: "SchedEnv \<Rightarrow> Time \<Rightarrow> Job \<Rightarrow> Dispatcher \<Rightarrow> Dispatcher" where
  "detectMissedRunForJob env now job d =
     (case missedRunDecision env now job d of
        (None, d1) \<Rightarrow> d1
      | (Some server, d1) \<Rightarrow> endCatchUp (beginCatchUp job server d1))"

definition DetectMissedRuns :: "SchedEnv \<Rightarrow> Dispatcher \<Rightarrow> err option \<times> Dispatcher" where
  "DetectMissedRuns env d =
     (case env_settings env of
        Inl e \<Rightarrow> (Some e, d)
      | Inr settings \<Rightarrow>
          if SchedulesPaused settings then (None, d)
          else (case env_jobs env of
                  Inl e \<Rightarrow> (Some e, d)
                | Inr jobs \<Rightarrow>
                    (None, fold (\<lambda>job d. if \<not> eligible job then d
                                         else detectMissedRunForJob env (env_now env) job d) jobs d)))"

section \<open>One job at one tick\<close>

definition has_slot :: "int \<Rightarrow> Job \<Rightarrow> Dispatcher \<Rightarrow> bool" where
  "has_slot globalLimit job d \<longleftrightarrow>
     runningCount d < globalLimit \<and> runningServers d (Job_ServerID job) \<le> 0"

lemma acquire_started: "fst (acquire job srv tg gl d) \<longleftrightarrow> has_slot gl job d"
  by (auto simp: acquire_def has_slot_def)

lemma acquire_blocked: "\<not> has_slot gl job d \<Longrightarrow> acquire job srv tg gl d = (False, d)"
  by (auto simp: acquire_def has_slot_def)

lemma considerJob_new:
  "scheduledUpTo d (Job_ID job) = None \<Longrightarrow> considerJob env now gl job d = advance (Job_ID job) now d"
  by (simp add: considerJob_def baseline_def advance_def)

lemma considerJob_not_due:
  "scheduledUpTo d (Job_ID job) = Some prev \<Longrightarrow> \<not> is_due env job prev now \<Longrightarrow> considerJob env now gl job d = d"
  by (simp add: considerJob_def baseline_def)

lemma considerJob_blocked:
  "scheduledUpTo d (Job_ID job) = Some prev \<Longrightarrow> \<not> has_slot gl job d \<Longrightarrow> considerJob env now gl job d = d"
  by (auto simp: considerJob_def baseline_def tryStart_def acquire_blocked split: sum.split)

definition start_job :: "Job \<Rightarrow> Server \<Rightarrow> Time \<Rightarrow> Dispatcher \<Rightarrow> Dispatcher" where
  "start_job job server now d = d\<lparr>
     scheduledUpTo := (scheduledUpTo d)(Job_ID job \<mapsto> now),
     runningCount := runningCount d + 1,
     runningServers := (runningServers d)(Job_ServerID job := runningServers d (Job_ServerID job) + 1),
     inflight := job # inflight d,
     sched_log := StartedRun job server TriggerSchedule # sched_log d\<rparr>"

lemma considerJob_starts:
  assumes "scheduledUpTo d (Job_ID job) = Some prev" "is_due env job prev now"
    and "env_server env (Job_ServerID job) = Inr server" "has_slot gl job d"
  shows "considerJob env now gl job d = start_job job server now d"
  using assms
  by (auto simp: considerJob_def baseline_def tryStart_def acquire_def has_slot_def advance_def start_job_def)

lemma considerJob_no_server:
  assumes "scheduledUpTo d (Job_ID job) = Some prev" "env_server env (Job_ServerID job) = Inl e"
  shows "considerJob env now gl job d = d"
  using assms by (simp add: considerJob_def baseline_def tryStart_def)

text \<open>A later look at the clock never makes an occurrence less due.\<close>

lemma is_due_later: "is_due env job prev now \<Longrightarrow> t_ns now \<le> t_ns now' \<Longrightarrow> is_due env job prev now'"
  by (auto simp: is_due_def after_time_def split: sum.splits option.splits)

section \<open>All interleavings\<close>

text \<open>
  The goroutine of \<^verbatim>\<open>loop\<close> is at one of these points: between two ticks, before a job of
  the tick's list, before \<^verbatim>\<open>tryStart\<close> of a due job, or between a successful start and the
  baseline write. The goroutine of \<^verbatim>\<open>DetectMissedRuns\<close> has jobs left, waits for the catch-up run of
  a job (\<open>catching_up\<close>), or has ended.
\<close>

datatype LoopPC =
    LoopIdle
  | Considering Time int "Job list"
  | Trying Time int Job "Job list"
  | Advancing Time int Job "Job list"

record Sched =
  disp :: Dispatcher
  loop_pc :: LoopPC
  missed_pc :: "(Time \<times> Job list) option"

definition sched_init :: "SchedEnv \<Rightarrow> Job list \<Rightarrow> Sched" where
  "sched_init env jobs = \<lparr>disp = NewDispatcher, loop_pc = LoopIdle,
     missed_pc = Some (env_now env, filter eligible jobs)\<rparr>"

text \<open>
  Every step reads the stores and the clock anew, so each rule has its own \<open>env\<close>. \<open>L\<close> is a
  bound on the global limits the ticks read from the settings.
\<close>

inductive dstep :: "int \<Rightarrow> Sched \<Rightarrow> Sched \<Rightarrow> bool" for L where
  tick_begins:
    "loop_pc s = LoopIdle \<Longrightarrow> env_settings (env :: SchedEnv) = Inr settings \<Longrightarrow> \<not> SchedulesPaused settings \<Longrightarrow>
     GlobalConcurrencyLimit settings \<le> L \<Longrightarrow> env_jobs env = Inr jobs \<Longrightarrow>
     dstep L s (s\<lparr>loop_pc := Considering (env_now env) (GlobalConcurrencyLimit settings) (filter eligible jobs)\<rparr>)"
| tick_ends:
    "loop_pc s = Considering now gl [] \<Longrightarrow> dstep L s (s\<lparr>loop_pc := LoopIdle\<rparr>)"
| job_waits:
    "loop_pc s = Considering now gl (job # rest) \<Longrightarrow> baseline (Job_ID job) now (disp s) = (prev, d) \<Longrightarrow>
     (\<forall>p. prev = Some p \<longrightarrow> \<not> is_due (env :: SchedEnv) job p now) \<Longrightarrow>
     dstep L s (s\<lparr>disp := d, loop_pc := Considering now gl rest\<rparr>)"
| job_due:
    "loop_pc s = Considering now gl (job # rest) \<Longrightarrow> baseline (Job_ID job) now (disp s) = (Some p, d) \<Longrightarrow>
     is_due (env :: SchedEnv) job p now \<Longrightarrow>
     dstep L s (s\<lparr>disp := d, loop_pc := Trying now gl job rest\<rparr>)"
| try_fails:
    "loop_pc s = Trying now gl job rest \<Longrightarrow> tryStart (env :: SchedEnv) job TriggerSchedule gl (disp s) = (False, d) \<Longrightarrow>
     dstep L s (s\<lparr>disp := d, loop_pc := Considering now gl rest\<rparr>)"
| try_starts:
    "loop_pc s = Trying now gl job rest \<Longrightarrow> tryStart (env :: SchedEnv) job TriggerSchedule gl (disp s) = (True, d) \<Longrightarrow>
     dstep L s (s\<lparr>disp := d, loop_pc := Advancing now gl job rest\<rparr>)"
| baseline_moves:
    "loop_pc s = Advancing now gl job rest \<Longrightarrow>
     dstep L s (s\<lparr>disp := advance (Job_ID job) now (disp s), loop_pc := Considering now gl rest\<rparr>)"
| run_ends:
    "job \<in> set (inflight (disp s)) \<Longrightarrow> dstep L s (s\<lparr>disp := runAndRelease job (disp s)\<rparr>)"
| nothing_to_catch_up:
    "missed_pc s = Some (now, job # rest) \<Longrightarrow> catching_up (disp s) = None \<Longrightarrow>
     missedRunDecision (env :: SchedEnv) now job (disp s) = (None, d) \<Longrightarrow>
     dstep L s (s\<lparr>disp := d, missed_pc := Some (now, rest)\<rparr>)"
| catch_up_begins:
    "missed_pc s = Some (now, job # rest) \<Longrightarrow> catching_up (disp s) = None \<Longrightarrow>
     missedRunDecision (env :: SchedEnv) now job (disp s) = (Some server, d) \<Longrightarrow>
     dstep L s (s\<lparr>disp := beginCatchUp job server d, missed_pc := Some (now, rest)\<rparr>)"
| catch_up_ends:
    "catching_up (disp s) \<noteq> None \<Longrightarrow> dstep L s (s\<lparr>disp := endCatchUp (disp s)\<rparr>)"

definition sched_reachable :: "int \<Rightarrow> Sched \<Rightarrow> bool" where
  "sched_reachable L s \<longleftrightarrow> (\<exists>env jobs. (dstep L)\<^sup>*\<^sup>* (sched_init env jobs) s)"

section \<open>The counters count\<close>

definition runs_on :: "string \<Rightarrow> Dispatcher \<Rightarrow> nat" where
  "runs_on srv d = length (filter (\<lambda>j. Job_ServerID j = srv) (inflight d))"

text \<open>Every run that the dispatcher has started and that has not ended.\<close>

definition dispatcher_runs :: "Dispatcher \<Rightarrow> Job list" where
  "dispatcher_runs d = (case catching_up d of None \<Rightarrow> inflight d | Some job \<Rightarrow> job # inflight d)"

definition counters_ok :: "Dispatcher \<Rightarrow> bool" where
  "counters_ok d \<longleftrightarrow> runningCount d = int (length (inflight d)) \<and>
     (\<forall>srv. runningServers d srv = int (runs_on srv d) \<and> runs_on srv d \<le> 1)"

definition limit_ok :: "int \<Rightarrow> Sched \<Rightarrow> bool" where
  "limit_ok L s \<longleftrightarrow> int (length (inflight (disp s))) \<le> max 0 L \<and>
     (case loop_pc s of
        LoopIdle \<Rightarrow> True
      | Considering now gl jobs \<Rightarrow> gl \<le> L
      | Trying now gl job jobs \<Rightarrow> gl \<le> L
      | Advancing now gl job jobs \<Rightarrow> gl \<le> L)"

lemma counters_ok_cong:
  "runningCount d' = runningCount d \<Longrightarrow> runningServers d' = runningServers d \<Longrightarrow>
   inflight d' = inflight d \<Longrightarrow> counters_ok d' = counters_ok d"
  by (simp add: counters_ok_def runs_on_def)

lemma counters_ok_advance [simp]: "counters_ok (advance k now d) = counters_ok d"
  by (rule counters_ok_cong) (simp_all add: advance_def)

lemma inflight_advance [simp]: "inflight (advance k now d) = inflight d"
  by (simp add: advance_def)

lemma baseline_keeps:
  "baseline k now d = (r, d') \<Longrightarrow> inflight d' = inflight d \<and> (counters_ok d' = counters_ok d)"
  by (auto simp: baseline_def counters_ok_def runs_on_def split: option.splits)

lemma missedRun_keeps:
  "missedRunDecision env now job d = (r, d') \<Longrightarrow> inflight d' = inflight d \<and> counters_ok d' = counters_ok d"
  by (auto simp: missedRunDecision_def recordSkippedMissedRun_def Let_def counters_ok_def runs_on_def
      advance_def split: sum.splits option.splits if_splits)

lemma catch_up_keeps [simp]:
  "inflight (beginCatchUp job server d) = inflight d" "counters_ok (beginCatchUp job server d) = counters_ok d"
  "inflight (endCatchUp d) = inflight d" "counters_ok (endCatchUp d) = counters_ok d"
  by (simp_all add: beginCatchUp_def endCatchUp_def counters_ok_def runs_on_def)

lemma acquire_counters:
  "acquire job srv tg gl d = (True, d') \<Longrightarrow> counters_ok d \<Longrightarrow> counters_ok d'"
  by (auto simp: acquire_def counters_ok_def runs_on_def split: if_splits)

lemma acquire_limit:
  "acquire job srv tg gl d = (True, d') \<Longrightarrow> counters_ok d \<Longrightarrow> int (length (inflight d')) \<le> gl"
  by (auto simp: acquire_def counters_ok_def split: if_splits)

lemma tryStart_cases:
  assumes "tryStart env job tg gl d = (b, d')"
  shows "(\<not> b \<and> d' = d) \<or> (b \<and> (\<exists>srv. acquire job srv tg gl d = (True, d')))"
  using assms by (auto simp: tryStart_def acquire_def split: sum.splits if_splits)

lemma length_filter_remove1:
  "x \<in> set xs \<Longrightarrow> length (filter P (remove1 x xs)) = length (filter P xs) - (if P x then 1 else 0)"
  by (auto simp: filter_remove1 length_remove1)

lemma release_counters:
  assumes "job \<in> set (inflight d)" "counters_ok d"
  shows "counters_ok (runAndRelease job d)"
proof -
  have n: "int (length (inflight d) - Suc 0) = int (length (inflight d)) - 1"
    using length_pos_if_in_set [OF assms(1)] by (cases "inflight d") simp_all
  have f: "0 < runs_on (Job_ServerID job) d"
    using assms(1) by (auto simp: runs_on_def filter_empty_conv)
  then have one: "runs_on (Job_ServerID job) d = Suc 0"
    using assms(2) by (simp add: counters_ok_def le_antisym Suc_leI)
  have "runs_on srv (runAndRelease job d) = runs_on srv d - (if Job_ServerID job = srv then 1 else 0)" for srv
    using assms(1) by (simp add: runs_on_def runAndRelease_def length_filter_remove1)
  then show ?thesis
    using assms n one by (auto simp: counters_ok_def runAndRelease_def length_remove1)
qed

lemma dstep_invariant:
  assumes "dstep L s s'" "counters_ok (disp s)" "limit_ok L s"
  shows "counters_ok (disp s') \<and> limit_ok L s'"
  using assms
proof (cases rule: dstep.cases)
  case (try_starts now gl job rest env d)
  then obtain srv where acq: "acquire job srv TriggerSchedule gl (disp s) = (True, d)"
    using tryStart_cases by blast
  have "int (length (inflight d)) \<le> gl" by (rule acquire_limit [OF acq assms(2)])
  moreover have "gl \<le> L" using assms(3) try_starts by (simp add: limit_ok_def)
  ultimately show ?thesis
    using try_starts acquire_counters [OF acq assms(2)] by (simp add: limit_ok_def)
next
  case (run_ends job)
  then show ?thesis
    using assms release_counters by (auto simp: limit_ok_def runAndRelease_def length_remove1)
qed (auto simp: limit_ok_def dest: missedRun_keeps baseline_keeps tryStart_cases split: LoopPC.splits)

lemma sched_invariant:
  assumes "sched_reachable L s"
  shows "counters_ok (disp s) \<and> limit_ok L s"
proof -
  from assms obtain env jobs where "(dstep L)\<^sup>*\<^sup>* (sched_init env jobs) s" by (auto simp: sched_reachable_def)
  then show ?thesis
  proof (induction rule: rtranclp_induct)
    case base
    show ?case
      by (simp add: sched_init_def NewDispatcher_def counters_ok_def limit_ok_def runs_on_def)
  next
    case (step y z)
    then show ?case using dstep_invariant by blast
  qed
qed

section \<open>What missed-run detection asks for\<close>

definition event_job :: "SchedEvent \<Rightarrow> string" where
  "event_job e = (case e of
     StartedRun job srv trig \<Rightarrow> Job_ID job
   | CatchUpRun job srv \<Rightarrow> Job_ID job
   | CreatedRun run \<Rightarrow> Run_JobID run)"

definition missed_event_ok :: "Job \<Rightarrow> SchedEvent \<Rightarrow> bool" where
  "missed_event_ok job e = (case e of
     StartedRun j srv trig \<Rightarrow> False
   | CatchUpRun j srv \<Rightarrow> j = job \<and> Schedule_MissedRunPolicy (Job_Schedule job) \<noteq> MissedRunSkip
   | CreatedRun run \<Rightarrow> Run_JobID run = Job_ID job \<and> Run_Status run = RunSkipped \<and>
       Schedule_MissedRunPolicy (Job_Schedule job) = MissedRunSkip)"

lemma missed_event_job: "missed_event_ok job e \<Longrightarrow> event_job e = Job_ID job"
  by (cases e) (auto simp: missed_event_ok_def event_job_def)

lemma detectMissed_log:
  obtains evs where "sched_log (detectMissedRunForJob env now job d) = evs @ sched_log d"
    and "length evs \<le> 1" and "\<forall>e \<in> set evs. missed_event_ok job e"
proof -
  let ?d = "detectMissedRunForJob env now job d"
  have "sched_log ?d = sched_log d \<or> (\<exists>e. sched_log ?d = e # sched_log d \<and> missed_event_ok job e)"
    by (auto simp: detectMissedRunForJob_def missedRunDecision_def beginCatchUp_def endCatchUp_def
        recordSkippedMissedRun_def Let_def advance_def missed_event_ok_def skipped_run_def NewRun_def split: sum.split option.split)
  then show thesis
  proof
    assume "sched_log ?d = sched_log d"
    then show thesis by (intro that [of "[]"]) simp_all
  next
    assume "\<exists>e. sched_log ?d = e # sched_log d \<and> missed_event_ok job e"
    then obtain e where "sched_log ?d = e # sched_log d" and "missed_event_ok job e" by blast
    then show thesis by (intro that [of "[e]"]) simp_all
  qed
qed

definition detect_all :: "SchedEnv \<Rightarrow> Job list \<Rightarrow> Dispatcher \<Rightarrow> Dispatcher" where
  "detect_all env jobs d =
     fold (\<lambda>job d. if \<not> eligible job then d else detectMissedRunForJob env (env_now env) job d) jobs d"

lemma disjoint_from_one: "A \<subseteq> B \<Longrightarrow> C \<subseteq> {x} \<Longrightarrow> x \<notin> B \<Longrightarrow> A \<inter> C = {}"
  by blast

lemma detect_all_log:
  assumes "distinct (map Job_ID jobs)"
  shows "\<exists>evs. sched_log (detect_all env jobs d) = evs @ sched_log d \<and> distinct (map event_job evs) \<and>
    (\<forall>e \<in> set evs. \<exists>job \<in> set jobs. eligible job \<and> missed_event_ok job e)"
  using assms
proof (induction jobs arbitrary: d)
  case Nil
  then show ?case by (simp add: detect_all_def)
next
  case (Cons job jobs)
  let ?d1 = "if \<not> eligible job then d else detectMissedRunForJob env (env_now env) job d"
  obtain new where new: "sched_log ?d1 = new @ sched_log d" "length new \<le> 1"
    "\<forall>e \<in> set new. eligible job \<and> missed_event_ok job e"
  proof (cases "eligible job")
    case True
    obtain evs where "sched_log (detectMissedRunForJob env (env_now env) job d) = evs @ sched_log d"
      and "length evs \<le> 1" and "\<forall>e \<in> set evs. missed_event_ok job e"
      by (rule detectMissed_log)
    with True show thesis by (intro that [of evs]) simp_all
  next
    case False
    then show thesis using that [of "[]"] by simp
  qed
  have "distinct (map Job_ID jobs)" using Cons.prems by simp
  from Cons.IH [OF this, of ?d1] obtain evs where evs: "sched_log (detect_all env jobs ?d1) = evs @ sched_log ?d1"
    "distinct (map event_job evs)" "\<forall>e \<in> set evs. \<exists>job \<in> set jobs. eligible job \<and> missed_event_ok job e"
    by blast
  have step: "detect_all env (job # jobs) d = detect_all env jobs ?d1" by (simp add: detect_all_def)
  have "distinct (map event_job new)" using new(2) by (cases new) auto
  moreover have "event_job ` set evs \<inter> event_job ` set new = {}"
  proof -
    have "event_job ` set evs \<subseteq> Job_ID ` set jobs"
    proof (rule image_subsetI)
      fix e
      assume "e \<in> set evs"
      with evs(3) obtain j where "j \<in> set jobs" and "missed_event_ok j e" by blast
      then show "event_job e \<in> Job_ID ` set jobs" by (simp add: missed_event_job)
    qed
    moreover have "event_job ` set new \<subseteq> {Job_ID job}"
      using new(3) by (intro image_subsetI) (simp add: missed_event_job)
    moreover have "Job_ID job \<notin> Job_ID ` set jobs" using Cons.prems by simp
    ultimately show ?thesis by (rule disjoint_from_one)
  qed
  ultimately have "distinct (map event_job (evs @ new))" using evs(2) by simp
  moreover have "sched_log (detect_all env (job # jobs) d) = (evs @ new) @ sched_log d"
    using step evs(1) new(1) by simp
  moreover have "\<forall>e \<in> set (evs @ new). \<exists>j \<in> set (job # jobs). eligible j \<and> missed_event_ok j e"
    using evs(3) new(3) by auto
  ultimately show ?case by blast
qed

section \<open>A sample environment\<close>

text \<open>A cron package whose one schedule fires every hour of the clock.\<close>

definition hourly :: "Time \<Rightarrow> Time" where
  "hourly t = t\<lparr>t_ns := (t_ns t div hour + 1) * hour\<rparr>"

definition at_hours :: "int \<Rightarrow> Time" where
  "at_hours h = \<lparr>t_ns = h * hour, t_loc = utc_loc\<rparr>"

definition sample_env :: "(Time \<Rightarrow> Time) \<Rightarrow> Time \<Rightarrow> SchedEnv" where
  "sample_env next_of now = \<lparr>env_cron = (\<lambda>_. Inr next_of), env_settings = Inr DefaultSettings,
     env_jobs = Inr [sample_job], env_server = (\<lambda>_. Inr sample_server),
     env_last_run = (\<lambda>_. Inr (Some (NewRun ''run0'' epoch ''job1'' ''srv1'' [] TriggerSchedule))),
     env_now = now, env_rand = (\<lambda>_. Inr (replicate 16 0)), env_create = (\<lambda>_. None)\<rparr>"

lemma sample_due: "is_due (sample_env hourly now) sample_job (at_hours 0) (at_hours 1)"
  by (simp add: is_due_def NextRun_def nextFromCronSpec_def sample_env_def sample_defs after_time_def
      hourly_def at_hours_def hour_def minute_def second_def)

definition sample_seen :: Dispatcher where
  "sample_seen = NewDispatcher\<lparr>scheduledUpTo := [''job1'' \<mapsto> at_hours 0]\<rparr>"

section \<open>Properties\<close>

text \<open>C6: The dispatcher's limits, however ticks, run starts, run ends and missed-run detection with
  its synchronous catch-up runs interleave. The runs that ticks have started and that have not
  ended never exceed the largest global limit a tick has read, never include two on one server,
  and are exactly what the two counters say. A catch-up run looks at neither limit and is not
  counted, but detection runs one at a time: all the runs that the dispatcher itself has in flight
  exceed the global limit by at most one, and there are at most two of them on one server. (The
  next lemma reaches a state where both excesses happen.)\<close>

theorem dispatcher_limits:
  assumes "sched_reachable L s"
  shows "int (length (inflight (disp s))) \<le> max 0 L \<and>
    runningCount (disp s) = int (length (inflight (disp s))) \<and>
    (\<forall>srv. runs_on srv (disp s) \<le> 1 \<and> runningServers (disp s) srv = int (runs_on srv (disp s))) \<and>
    int (length (dispatcher_runs (disp s))) \<le> max 0 L + 1 \<and>
    (\<forall>srv. length (filter (\<lambda>j. Job_ServerID j = srv) (dispatcher_runs (disp s))) \<le> 2)"
proof -
  have inv: "counters_ok (disp s)" "limit_ok L s" using sched_invariant [OF assms] by simp_all
  have one: "length (filter (\<lambda>j. Job_ServerID j = srv) (inflight (disp s))) \<le> 1" for srv
    using inv(1) by (simp add: counters_ok_def runs_on_def)
  have "length (filter (\<lambda>j. Job_ServerID j = srv) (dispatcher_runs (disp s))) \<le> 2" for srv
    using one [of srv] by (auto simp: dispatcher_runs_def split: option.split)
  moreover have "int (length (dispatcher_runs (disp s))) \<le> max 0 L + 1"
    using inv(2) by (auto simp: dispatcher_runs_def limit_ok_def split: option.split)
  ultimately show ?thesis using inv by (simp add: limit_ok_def counters_ok_def)
qed

text \<open>
  With a global limit of one, the catch-up run of a job is in flight; meanwhile a first tick sets
  the baseline of a second job on the same server and a second tick starts it.
\<close>

definition other_job :: Job where
  "other_job = sample_job\<lparr>Job_ID := ''job2''\<rparr>"

definition one_at_a_time :: Settings where
  "one_at_a_time = DefaultSettings\<lparr>GlobalConcurrencyLimit := 1\<rparr>"

lemma dispatcher_limits_witness:
  "\<exists>s. sched_reachable 1 s \<and> inflight (disp s) = [other_job] \<and> dispatcher_runs (disp s) = [sample_job, other_job] \<and>
     int (length (inflight (disp s))) \<le> 1 \<and> Job_ServerID other_job = Job_ServerID sample_job"
proof -
  define env where "env h = (sample_env hourly (at_hours h))\<lparr>env_settings := Inr one_at_a_time,
    env_jobs := Inr [other_job]\<rparr>" for h
  let ?mk = "\<lambda>d pc. \<lparr>disp = d, loop_pc = pc, missed_pc = Some (at_hours 5, [])\<rparr>"
  define d0 where "d0 = beginCatchUp sample_job sample_server (advance ''job1'' (at_hours 5) NewDispatcher)"
  define d1 where "d1 = advance ''job2'' (at_hours 5) d0"
  define d2 where "d2 = snd (acquire other_job sample_server TriggerSchedule 1 d1)"
  let ?start = "\<lparr>disp = NewDispatcher, loop_pc = LoopIdle, missed_pc = Some (at_hours 5, [sample_job])\<rparr>"
  let ?final = "?mk d2 (Advancing (at_hours 6) 1 other_job [])"
  note defs = env_def sample_env_def one_at_a_time_def DefaultSettings_def other_job_def sample_defs
  have elig: "filter eligible [sample_job] = [sample_job]" "filter eligible [other_job] = [other_job]"
    by (simp_all add: eligible_def IsAutomatic_def defs)
  have init: "sched_init (env 5) [sample_job] = ?start"
    using elig by (simp add: sched_init_def env_def sample_env_def)
  have 0: "dstep 1 ?start (?mk d0 LoopIdle)"
    using catch_up_begins [of ?start "at_hours 5" sample_job "[]" "env 5" sample_server
        "advance ''job1'' (at_hours 5) NewDispatcher" 1]
    by (simp add: missedRunDecision_def d0_def NewDispatcher_def NextRun_def nextFromCronSpec_def after_time_def
        hourly_def at_hours_def hour_def minute_def second_def NewRun_def in_loc_def Let_def defs)
  have 1: "dstep 1 (?mk d0 LoopIdle) (?mk d0 (Considering (at_hours 5) 1 [other_job]))"
    using tick_begins [of "?mk d0 LoopIdle" "env 5" one_at_a_time 1 "[other_job]"] elig
    by (simp add: env_def sample_env_def one_at_a_time_def DefaultSettings_def)
  have 2: "dstep 1 (?mk d0 (Considering (at_hours 5) 1 [other_job])) (?mk d1 (Considering (at_hours 5) 1 []))"
    using job_waits [of "?mk d0 (Considering (at_hours 5) 1 [other_job])" "at_hours 5" 1 other_job "[]" None d1 "env 5" 1]
    by (simp add: baseline_def d0_def d1_def beginCatchUp_def advance_def NewDispatcher_def other_job_def)
  have 3: "dstep 1 (?mk d1 (Considering (at_hours 5) 1 [])) (?mk d1 LoopIdle)"
    using tick_ends [of "?mk d1 (Considering (at_hours 5) 1 [])" "at_hours 5" 1 1] by simp
  have 4: "dstep 1 (?mk d1 LoopIdle) (?mk d1 (Considering (at_hours 6) 1 [other_job]))"
    using tick_begins [of "?mk d1 LoopIdle" "env 6" one_at_a_time 1 "[other_job]"] elig
    by (simp add: env_def sample_env_def one_at_a_time_def DefaultSettings_def)
  have 5: "dstep 1 (?mk d1 (Considering (at_hours 6) 1 [other_job])) (?mk d1 (Trying (at_hours 6) 1 other_job []))"
    using job_due [of "?mk d1 (Considering (at_hours 6) 1 [other_job])" "at_hours 6" 1 other_job "[]"
        "at_hours 5" d1 "env 6" 1]
    by (simp add: baseline_def d1_def advance_def is_due_def NextRun_def nextFromCronSpec_def after_time_def
        hourly_def at_hours_def hour_def minute_def second_def defs)
  have d2: "acquire other_job sample_server TriggerSchedule 1 d1 = (True, d2)"
    by (simp add: d2_def acquire_def d1_def d0_def beginCatchUp_def advance_def NewDispatcher_def)
  have 6: "dstep 1 (?mk d1 (Trying (at_hours 6) 1 other_job [])) ?final"
    using try_starts [of "?mk d1 (Trying (at_hours 6) 1 other_job [])" "at_hours 6" 1 other_job "[]" "env 6" d2 1] d2
    by (simp add: tryStart_def env_def sample_env_def)
  have "(dstep 1)\<^sup>*\<^sup>* (sched_init (env 5) [sample_job]) ?final"
    unfolding init using 0 1 2 3 4 5 6 by (meson converse_rtranclp_into_rtranclp rtranclp.rtrancl_refl)
  then have reach: "sched_reachable 1 ?final" by (auto simp: sched_reachable_def)
  moreover have "inflight (disp ?final) = [other_job]" "dispatcher_runs (disp ?final) = [sample_job, other_job]"
    by (simp_all add: d2_def d1_def d0_def beginCatchUp_def acquire_def advance_def NewDispatcher_def dispatcher_runs_def)
  ultimately show ?thesis
    using dispatcher_limits [OF reach] by (intro exI [of _ ?final]) (simp add: other_job_def)
qed

text \<open>a due job blocked by a limit is neither dropped nor failed: its tick changes nothing, and
  at any later tick that finds the same baseline, a free slot and its server, the job starts.\<close>

theorem blocked_job_waits_then_starts:
  assumes "scheduledUpTo d (Job_ID job) = Some prev" and "is_due env job prev now"
    and "\<not> has_slot gl job d"
    and "scheduledUpTo d' (Job_ID job) = Some prev" and "t_ns now \<le> t_ns now'"
    and "has_slot gl' job d'" and "env_server env (Job_ServerID job) = Inr server"
  shows "considerJob env now gl job d = d \<and> considerJob env now' gl' job d' = start_job job server now' d'"
  using considerJob_blocked [OF assms(1,3)] considerJob_starts [OF assms(4) is_due_later [OF assms(2,5)] assms(7,6)]
  by simp

lemma blocked_job_witness:
  "considerJob (sample_env hourly (at_hours 1)) (at_hours 1) 0 sample_job sample_seen = sample_seen \<and>
   sched_log (considerJob (sample_env hourly (at_hours 1)) (at_hours 2) 3 sample_job sample_seen) =
     [StartedRun sample_job sample_server TriggerSchedule]"
proof -
  have "considerJob (sample_env hourly (at_hours 1)) (at_hours 1) 0 sample_job sample_seen = sample_seen \<and>
    considerJob (sample_env hourly (at_hours 1)) (at_hours 2) 3 sample_job sample_seen =
      start_job sample_job sample_server (at_hours 2) sample_seen"
    by (rule blocked_job_waits_then_starts [where prev = "at_hours 0"])
      (simp_all add: sample_due, simp_all add: sample_seen_def has_slot_def NewDispatcher_def sample_env_def
        at_hours_def hour_def minute_def second_def sample_defs)
  then show ?thesis by (simp add: start_job_def sample_seen_def NewDispatcher_def)
qed

text \<open>a started job's whole backlog counts as caught up, because the baseline moves to now and
  not to the occurrence that fired: until the schedule's next occurrence after now has come, no
  later tick starts the job again.\<close>

theorem backlog_collapses_to_one_run:
  assumes "NextRun (env_cron env) (Job_Schedule job) now = Inr (Some next_at)"
    and "after_time next_at now'"
  shows "considerJob env now' gl job (start_job job server now d) = start_job job server now d"
proof (rule considerJob_not_due)
  show "scheduledUpTo (start_job job server now d) (Job_ID job) = Some now" by (simp add: start_job_def)
  show "\<not> is_due env job now now'" using assms by (simp add: is_due_def)
qed

lemma backlog_witness:
  "sched_log (considerJob (sample_env hourly (at_hours 5)) (at_hours 5) 3 sample_job
     (start_job sample_job sample_server (at_hours 5) sample_seen)) =
   [StartedRun sample_job sample_server TriggerSchedule]"
proof -
  have "NextRun (env_cron (sample_env hourly (at_hours 5))) (Job_Schedule sample_job) (at_hours 5) =
      Inr (Some (at_hours 6))"
    by (simp add: NextRun_def nextFromCronSpec_def sample_env_def sample_defs hourly_def at_hours_def hour_def
        minute_def second_def)
  then have "considerJob (sample_env hourly (at_hours 5)) (at_hours 5) 3 sample_job
     (start_job sample_job sample_server (at_hours 5) sample_seen) =
     start_job sample_job sample_server (at_hours 5) sample_seen"
    by (rule backlog_collapses_to_one_run)
      (simp add: after_time_def at_hours_def hour_def minute_def second_def)
  then show ?thesis by (simp add: start_job_def sample_seen_def NewDispatcher_def)
qed

text \<open>when the cron package reports that an expression has no activation in the years it
  searches, which it does with the zero time, every tick that finds a slot starts the job.\<close>

theorem exhausted_cron_starts_every_tick:
  assumes "Schedule_Type (Job_Schedule job) = ScheduleCron"
    and "env_cron env (Schedule_CronExpression (Job_Schedule job)) = Inr (\<lambda>_. zero_time)"
    and "scheduledUpTo d (Job_ID job) = Some prev" and "\<not> before_time now zero_time"
    and "env_server env (Job_ServerID job) = Inr server" and "has_slot gl job d"
  shows "considerJob env now gl job d = start_job job server now d"
proof (rule considerJob_starts [OF assms(3) _ assms(5,6)])
  show "is_due env job prev now"
    using assms(1,2,4)
    by (simp add: is_due_def NextRun_def nextFromCronSpec_def after_time_def before_time_def)
qed

text \<open>Two ticks fifteen seconds apart start the job twice; the first run has ended by then.\<close>

lemma exhausted_cron_witness:
  "let env = sample_env (\<lambda>_. zero_time) epoch; later = epoch\<lparr>t_ns := 15 * second\<rparr>;
       d1 = considerJob env epoch 3 sample_job sample_seen;
       d2 = considerJob env later 3 sample_job (runAndRelease sample_job d1)
   in sched_log d2 = [StartedRun sample_job sample_server TriggerSchedule,
                      StartedRun sample_job sample_server TriggerSchedule]"
proof -
  let ?env = "sample_env (\<lambda>_. zero_time) epoch"
  have starts: "considerJob ?env now 3 sample_job d = start_job sample_job sample_server now d"
    if "scheduledUpTo d ''job1'' = Some prev" "0 \<le> t_ns now" "has_slot 3 sample_job d" for d prev now
    using that
    by (intro exhausted_cron_starts_every_tick)
      (simp_all add: sample_env_def sample_defs before_time_def zero_time_def second_def)
  let ?d1 = "start_job sample_job sample_server epoch sample_seen"
  have 1: "considerJob ?env epoch 3 sample_job sample_seen = ?d1"
    by (rule starts) (simp_all add: sample_seen_def NewDispatcher_def has_slot_def epoch_def)
  have 2: "considerJob ?env (epoch\<lparr>t_ns := 15 * second\<rparr>) 3 sample_job (runAndRelease sample_job ?d1)
    = start_job sample_job sample_server (epoch\<lparr>t_ns := 15 * second\<rparr>) (runAndRelease sample_job ?d1)"
    by (rule starts [where prev = epoch])
      (simp_all add: runAndRelease_def start_job_def sample_seen_def NewDispatcher_def has_slot_def second_def
        sample_defs)
  show ?thesis
    unfolding Let_def 1 2
    by (simp add: start_job_def runAndRelease_def sample_seen_def NewDispatcher_def)
qed

text \<open>C20: missed-run detection asks for at most one thing per job, however many occurrences were
  missed: a catch-up run, or under the SKIP policy one SKIPPED record, and only for enabled
  jobs with an automatic schedule.\<close>

theorem one_catch_up_per_job:
  assumes "env_settings env = Inr settings" and "\<not> SchedulesPaused settings"
    and "env_jobs env = Inr jobs" and "distinct (map Job_ID jobs)"
  shows "\<exists>evs. sched_log (snd (DetectMissedRuns env d)) = evs @ sched_log d \<and>
    distinct (map event_job evs) \<and>
    (\<forall>e \<in> set evs. \<exists>job \<in> set jobs. eligible job \<and> missed_event_ok job e)"
  using detect_all_log [OF assms(4), of env d] assms(1-3)
  by (simp add: DetectMissedRuns_def detect_all_def)

lemma one_catch_up_witness:
  "sched_log (snd (DetectMissedRuns (sample_env hourly (at_hours 50)) NewDispatcher)) =
     [CatchUpRun sample_job sample_server]"
proof -
  let ?env = "sample_env hourly (at_hours 50)"
  have "\<exists>evs. sched_log (snd (DetectMissedRuns ?env NewDispatcher)) = evs @ sched_log NewDispatcher \<and>
    distinct (map event_job evs) \<and>
    (\<forall>e \<in> set evs. \<exists>job \<in> set [sample_job]. eligible job \<and> missed_event_ok job e)"
    by (rule one_catch_up_per_job [where settings = DefaultSettings])
      (simp_all add: sample_env_def DefaultSettings_def)
  moreover have "sched_log (snd (DetectMissedRuns ?env NewDispatcher)) = [CatchUpRun sample_job sample_server]"
    by (simp add: DetectMissedRuns_def detectMissedRunForJob_def missedRunDecision_def beginCatchUp_def
        endCatchUp_def sample_env_def DefaultSettings_def eligible_def
        IsAutomatic_def NextRun_def nextFromCronSpec_def after_time_def hourly_def at_hours_def hour_def minute_def
        second_def advance_def NewDispatcher_def NewRun_def in_loc_def Let_def sample_defs)
  ultimately show ?thesis by blast
qed

end
