(* ===== verification/Store_Convert.thy ===== *)
theory Store_Convert
  imports Domain_Validate
begin

text \<open>
  \<^verbatim>\<open>internal/store/convert.go\<close>: how values become database columns and come back. The parser
  is the strict one that \<^verbatim>\<open>time.Parse\<close> tries first for the RFC 3339 layouts; what the general
  parser does with a text the strict one rejects is a parameter.
\<close>

section \<open>Parsing a timestamp\<close>

definition parse_field :: "int \<Rightarrow> int \<Rightarrow> string \<Rightarrow> int option" where
  "parse_field lo hi s =
     (case dec_value 0 s of
        None \<Rightarrow> None
      | Some n \<Rightarrow> if lo \<le> int n \<and> int n \<le> hi then Some (int n) else None)"

definition slice :: "nat \<Rightarrow> nat \<Rightarrow> string \<Rightarrow> string" where
  "slice i j s = take (j - i) (drop i s)"

definition is_digit :: "char \<Rightarrow> bool" where
  "is_digit c \<longleftrightarrow> char_digit c \<noteq> None"

text \<open>The digits after a leading dot, when there is at least one.\<close>

definition fraction_digits :: "string \<Rightarrow> string" where
  "fraction_digits s = (if take 1 s = ''.'' then takeWhile is_digit (drop 1 s) else [])"

definition fraction_ns :: "string \<Rightarrow> int" where
  "fraction_ns ds =
     (case dec_value 0 (take 9 ds) of None \<Rightarrow> 0 | Some n \<Rightarrow> int n * 10 ^ (9 - length (take 9 ds)))"

definition parse_zone :: "string \<Rightarrow> int option" where
  "parse_zone s =
     (if s = ''Z'' then Some 0
      else if length s \<noteq> 6 then None
      else do {
        hr \<leftarrow> parse_field 0 23 (slice 1 3 s);
        mm \<leftarrow> parse_field 0 59 (slice 4 6 s);
        (if (s ! 0 = CHR ''-'' \<or> s ! 0 = CHR ''+'') \<and> s ! 3 = CHR '':''
         then Some (if s ! 0 = CHR ''-'' then - ((hr * 60 + mm) * 60) else (hr * 60 + mm) * 60)
         else None)
      })"

definition parse_rfc3339 :: "string \<Rightarrow> Time option" where
  "parse_rfc3339 s =
     (if length s < 19 then None
      else do {
        y \<leftarrow> parse_field 0 9999 (slice 0 4 s);
        mo \<leftarrow> parse_field 1 12 (slice 5 7 s);
        d \<leftarrow> parse_field 1 (days_in_month y mo) (slice 8 10 s);
        h \<leftarrow> parse_field 0 23 (slice 11 13 s);
        mi \<leftarrow> parse_field 0 59 (slice 14 16 s);
        se \<leftarrow> parse_field 0 59 (slice 17 19 s);
        (if s ! 4 = CHR ''-'' \<and> s ! 7 = CHR ''-'' \<and> s ! 10 = CHR ''T'' \<and> s ! 13 = CHR '':'' \<and> s ! 16 = CHR '':''
         then do {
           let ds = fraction_digits (drop 19 s);
           off \<leftarrow> parse_zone (if ds = [] then drop 19 s else drop (20 + length ds) s);
           Some (let t = go_date y mo d h mi se (fraction_ns ds) utc_loc in t\<lparr>t_ns := t_ns t - off * second\<rparr>)
         }
         else None)
      })"

section \<open>The conversions\<close>

definition formatTime :: "Time \<Rightarrow> string" where
  "formatTime t = rfc3339nano (to_utc t)"

text \<open>\<open>general\<close> is the general parser of \<^verbatim>\<open>time.Parse\<close>.\<close>

definition parseTime :: "(string \<Rightarrow> err + Time) \<Rightarrow> string \<Rightarrow> err + Time" where
  "parseTime general s =
     (case (case parse_rfc3339 s of Some t \<Rightarrow> Inr t | None \<Rightarrow> general s) of
        Inl e \<Rightarrow> Inl (Wrapped (''parse stored timestamp '' @ go_quote s) e)
      | Inr t \<Rightarrow> Inr (to_utc t))"

definition formatTimePtr :: "Time option \<Rightarrow> string option" where
  "formatTimePtr t = (case t of None \<Rightarrow> None | Some u \<Rightarrow> Some (formatTime u))"

definition parseTimePtr :: "(string \<Rightarrow> err + Time) \<Rightarrow> string option \<Rightarrow> err + Time option" where
  "parseTimePtr general ns =
     (case ns of
        None \<Rightarrow> Inr None
      | Some s \<Rightarrow> (case parseTime general s of Inl e \<Rightarrow> Inl e | Inr t \<Rightarrow> Inr (Some t)))"

definition boolToInt :: "bool \<Rightarrow> int" where
  "boolToInt b = (if b then 1 else 0)"

definition intToBool :: "int \<Rightarrow> bool" where
  "intToBool v \<longleftrightarrow> v \<noteq> 0"

definition joinStrings :: "string list \<Rightarrow> string" where
  "joinStrings values = join [CHR 0x0A] values"

definition splitStrings :: "string \<Rightarrow> string list" where
  "splitStrings s = (if s = [] then [] else split_char (CHR 0x0A) s)"

definition joinInts :: "int list \<Rightarrow> string" where
  "joinInts values = join '','' (map itoa values)"

text \<open>A loop that stops at the first part \<^verbatim>\<open>strconv.Atoi\<close> rejects.\<close>

primrec atoi_all :: "string list \<Rightarrow> int list option" where
  "atoi_all [] = Some []"
| "atoi_all (p # ps) =
     (case parse_int p of None \<Rightarrow> None | Some v \<Rightarrow> map_option ((#) v) (atoi_all ps))"

definition splitInts :: "string \<Rightarrow> err + int list" where
  "splitInts s =
     (if s = [] then Inr []
      else (case atoi_all (split_char (CHR '','') s) of
              None \<Rightarrow> Inl (Wrapped (''parse stored int list '' @ go_quote s) (ErrorText ''strconv.Atoi''))
            | Some vs \<Rightarrow> Inr vs))"

text \<open>
  \<^verbatim>\<open>nullInt\<close> and \<^verbatim>\<open>intPtr\<close>: a pointer and a nullable column are both an option here, and the
  conversion between \<^verbatim>\<open>int\<close> and \<^verbatim>\<open>int64\<close> keeps every value.
\<close>

definition nullInt :: "int option \<Rightarrow> int option" where
  "nullInt v = v"

definition intPtr :: "int option \<Rightarrow> int option" where
  "intPtr ns = ns"

definition secondsToDuration :: "int \<Rightarrow> Duration" where
  "secondsToDuration seconds = wrap64 (seconds * second)"

section \<open>Round trips\<close>

lemma bool_roundtrip [simp]: "intToBool (boolToInt b) = b"
  by (simp add: intToBool_def boolToInt_def)

lemma int_roundtrip [simp]: "intPtr (nullInt v) = v"
  by (simp add: intPtr_def nullInt_def)

text \<open>The lists of strings that survive: no newline in an element, and not the list of one empty string.\<close>

definition storable_strings :: "string list \<Rightarrow> bool" where
  "storable_strings xs \<longleftrightarrow> xs \<noteq> [[]] \<and> list_all (\<lambda>x. CHR 0x0A \<notin> set x) xs"

lemma join_empty_iff: "join [c] xs = [] \<longleftrightarrow> xs = [] \<or> xs = [[]]"
proof (cases xs)
  case (Cons x ys)
  then show ?thesis by (cases ys) auto
qed simp

lemma split_join_strings: "splitStrings (joinStrings xs) = xs \<longleftrightarrow> storable_strings xs"
proof (cases "xs = [] \<or> xs = [[]]")
  case True
  then show ?thesis by (auto simp: splitStrings_def joinStrings_def storable_strings_def)
next
  case False
  then have ne: "joinStrings xs \<noteq> []" by (simp add: joinStrings_def join_empty_iff)
  show ?thesis
  proof
    assume "splitStrings (joinStrings xs) = xs"
    then have "split_char (CHR 0x0A) (joinStrings xs) = xs" using ne by (simp add: splitStrings_def)
    then have "\<forall>x \<in> set xs. CHR 0x0A \<notin> set x" using split_char_parts_free by metis
    with False show "storable_strings xs" by (simp add: storable_strings_def list_all_iff)
  next
    assume "storable_strings xs"
    then show "splitStrings (joinStrings xs) = xs"
      using False ne split_char_join [of xs "CHR 0x0A"]
      by (simp add: splitStrings_def joinStrings_def storable_strings_def list_all_iff)
  qed
qed

text \<open>A list of strings (include and exclude patterns, source paths) survives storing and loading
  exactly when it is not the list of one empty string and no element holds a newline: the
  encoding of \<^verbatim>\<open>joinStrings\<close> is not injective on the lists the API accepts.\<close>

theorem strings_roundtrip_iff: "splitStrings (joinStrings xs) = xs \<longleftrightarrow> storable_strings xs"
  by (rule split_join_strings)

lemma itoa_no_comma: "CHR '','' \<notin> set (itoa k)"
proof -
  have "list_all (\<lambda>d. digit_char d \<noteq> CHR '','') [0..<10]" by code_simp
  then have "digit_char d \<noteq> CHR '',''" if "d < 10" for d using that by (simp add: list_all_iff)
  then show ?thesis using itoa_chars [of "CHR '',''" k] by fastforce
qed

lemma atoi_all_itoa: "list_all int64_range xs \<Longrightarrow> atoi_all (map itoa xs) = Some xs"
  by (induction xs) (simp_all add: parse_int_itoa)

lemma ints_roundtrip:
  assumes "list_all int64_range xs"
  shows "splitInts (joinInts xs) = Inr xs"
proof (cases "xs = []")
  case False
  then have "join '','' (map itoa xs) \<noteq> []"
    using itoa_nonempty by (cases xs) (auto simp: join_empty_iff)
  moreover have "split_char (CHR '','') (join '','' (map itoa xs)) = map itoa xs"
    using False itoa_no_comma by (intro split_char_join) auto
  ultimately show ?thesis using atoi_all_itoa [OF assms] by (simp add: splitInts_def joinInts_def)
qed (simp add: splitInts_def joinInts_def)

section \<open>Timestamps\<close>

lemma length_dec: "n < 10 ^ Suc w \<Longrightarrow> length (dec n) \<le> Suc w"
proof (induction w arbitrary: n)
  case 0
  then show ?case by (simp add: dec.simps [of n])
next
  case (Suc w)
  show ?case
  proof (cases "n < 10")
    case True
    then show ?thesis by (simp add: dec.simps [of n])
  next
    case False
    have "n div 10 < 10 ^ Suc w" using Suc.prems by (simp add: div_less_iff_less_mult)
    then have "length (dec (n div 10)) \<le> Suc w" by (rule Suc.IH)
    then show ?thesis using False by (simp add: dec.simps [of n])
  qed
qed

lemma length_pad0: "n < 10 ^ w \<Longrightarrow> 0 < w \<Longrightarrow> length (pad0 w n) = w"
  using length_dec [of n "w - 1"] by (simp add: pad0_def)

lemma dec_value_zeros: "dec_value 0 (replicate k (CHR ''0'') @ s) = dec_value 0 s"
  by (induction k) (simp_all add: char_digit_def)

lemma dec_value_pad0: "dec_value 0 (pad0 w n) = Some n"
  by (simp add: pad0_def dec_value_zeros dec_value_dec)

lemma parse_field_pad0:
  "0 \<le> k \<Longrightarrow> lo \<le> k \<Longrightarrow> k \<le> hi \<Longrightarrow> parse_field lo hi (pad0 w (nat k)) = Some k"
  by (simp add: parse_field_def dec_value_pad0)

lemma dec_value_shift: "dec_value a (replicate k (CHR ''0'')) = Some (a * 10 ^ k)"
  by (induction k arbitrary: a) (simp_all add: char_digit_def)

lemma digits_is_digit: "c \<in> set (pad0 w n) \<Longrightarrow> is_digit c"
proof -
  have zero: "is_digit (CHR ''0'')" by (simp add: is_digit_def char_digit_def)
  have "is_digit c" if "c \<in> set (dec n)" for c
    using dec_digits [OF that] by (auto simp: is_digit_def)
  then show "c \<in> set (pad0 w n) \<Longrightarrow> is_digit c" using zero by (auto simp: pad0_def)
qed

lemma trailing_zeros: "\<exists>k. s = rev (dropWhile (\<lambda>c. c = CHR ''0'') (rev s)) @ replicate k (CHR ''0'')"
proof -
  let ?z = "\<lambda>c. c = CHR ''0''"
  have "takeWhile ?z xs = replicate (length (takeWhile ?z xs)) (CHR ''0'')" for xs
    by (rule replicate_eqI) (auto dest: set_takeWhileD)
  then have "rev s = replicate (length (takeWhile ?z (rev s))) (CHR ''0'') @ dropWhile ?z (rev s)"
    by (metis takeWhile_dropWhile_id)
  then have "s = rev (dropWhile ?z (rev s)) @ rev (replicate (length (takeWhile ?z (rev s))) (CHR ''0''))"
    by (metis rev_append rev_rev_ident)
  then show ?thesis unfolding rev_replicate by (rule exI)
qed

definition stripped :: "int \<Rightarrow> string" where
  "stripped n = rev (dropWhile (\<lambda>c. c = CHR ''0'') (rev (pad0 9 (nat n))))"

lemma fraction_stripped:
  assumes "0 \<le> n" "n < 1000000000"
  shows "fraction_ns (stripped n) = n" "list_all is_digit (stripped n)"
proof -
  have len: "length (pad0 9 (nat n)) = 9" using assms by (intro length_pad0) simp_all
  obtain k where k: "pad0 9 (nat n) = stripped n @ replicate k (CHR ''0'')"
    using trailing_zeros unfolding stripped_def by blast
  then have lk: "length (stripped n) + k = 9" using len by simp
  obtain a where a: "dec_value 0 (stripped n) = Some a" "a * 10 ^ k = nat n"
    using dec_value_pad0 [of 9 "nat n"] unfolding k dec_value_append dec_value_shift
    by (auto split: option.splits)
  have "9 - length (stripped n) = k" using lk by simp
  moreover have "take 9 (stripped n) = stripped n" using lk by simp
  ultimately show "fraction_ns (stripped n) = n"
    using a assms(1) by (simp add: fraction_ns_def) (metis int_nat_eq of_nat_mult of_nat_numeral of_nat_power)
  have "set (stripped n) \<subseteq> set (pad0 9 (nat n))" unfolding k by simp
  then show "list_all is_digit (stripped n)" using digits_is_digit by (auto simp: list_all_iff)
qed

text \<open>The parser on a text that has the shape of the layout.\<close>

lemma parse_shape:
  assumes len: "length Y = 4" "length M = 2" "length D = 2" "length h = 2" "length m = 2" "length s = 2"
    and val: "parse_field 0 9999 Y = Some y" "parse_field 1 12 M = Some mo" "parse_field 1 (days_in_month y mo) D = Some d"
      "parse_field 0 23 h = Some hh" "parse_field 0 59 m = Some mi" "parse_field 0 59 s = Some se"
    and ds: "list_all is_digit ds"
  shows "parse_rfc3339 (Y @ ''-'' @ M @ ''-'' @ D @ ''T'' @ h @ '':'' @ m @ '':'' @ s @
      (if ds = [] then [] else CHR ''.'' # ds) @ ''Z'') = Some (go_date y mo d hh mi se (fraction_ns ds) utc_loc)"
proof -
  define rest where "rest = (if ds = [] then [] else CHR ''.'' # ds) @ ''Z''"
  define t where "t = Y @ ''-'' @ M @ ''-'' @ D @ ''T'' @ h @ '':'' @ m @ '':'' @ s @ rest"
  have Z: "\<not> is_digit (CHR ''Z'')" by (simp add: is_digit_def char_digit_def)
  then have tw: "takeWhile is_digit (ds @ ''Z'') = ds"
    using ds by (induction ds) auto
  have slices: "slice 0 4 t = Y" "slice 5 7 t = M" "slice 8 10 t = D" "slice 11 13 t = h" "slice 14 16 t = m"
      "slice 17 19 t = s" "drop 19 t = rest"
      "t ! 4 = CHR ''-''" "t ! 7 = CHR ''-''" "t ! 10 = CHR ''T''" "t ! 13 = CHR '':''" "t ! 16 = CHR '':''"
    using len by (simp_all add: t_def slice_def nth_append)
  have long: "\<not> length t < 19" using len by (simp add: t_def)
  have frac: "fraction_digits rest = ds" by (simp add: rest_def fraction_digits_def tw)
  have zone: "(if ds = [] then rest else drop (20 + length ds) t) = ''Z''"
  proof (cases "ds = []")
    case False
    have "drop (20 + length ds) t = drop (1 + length ds) (drop 19 t)" by simp
    then show ?thesis using False by (simp only: slices) (simp add: rest_def)
  qed (simp add: rest_def)
  have "parse_rfc3339 t = Some (go_date y mo d hh mi se (fraction_ns ds) utc_loc)"
  proof -
    have "parse_zone (if ds = [] then rest else drop (20 + length ds) t) = Some 0"
      unfolding zone by (simp add: parse_zone_def)
    then show ?thesis
      unfolding parse_rfc3339_def if_not_P [OF long] slices val frac Let_def by (simp add: slices val)
  qed
  then show ?thesis by (simp add: t_def rest_def)
qed

lemma utc_fields:
  assumes "t_loc t = utc_loc"
  shows "local_secs t = unix_secs t"
    and "1 \<le> month_of t \<and> month_of t \<le> 12"
    and "1 \<le> mday_of t \<and> mday_of t \<le> days_in_month (year_of t) (month_of t)"
    and "0 \<le> hour_of t \<and> hour_of t \<le> 23" and "0 \<le> minute_of t \<and> minute_of t \<le> 59"
    and "0 \<le> second_of t \<and> second_of t \<le> 59"
    and "0 \<le> nanosecond t \<and> nanosecond t < 1000000000"
proof -
  show "local_secs t = unix_secs t" using assms by (simp add: local_secs_def utc_loc_def)
  show "1 \<le> month_of t \<and> month_of t \<le> 12" using month_of_day_bounds [of "local_day t"] by (simp add: month_of_def)
  show "1 \<le> mday_of t \<and> mday_of t \<le> days_in_month (year_of t) (month_of t)"
    using month_of_day_bounds [of "local_day t"]
    by (simp add: mday_of_def year_of_def month_of_def mday_of_day_def days_in_month_def)
  show "0 \<le> hour_of t \<and> hour_of t \<le> 23" by (simp add: hour_of_def div_less_iff_less_mult pos_imp_zdiv_nonneg_iff)
  show "0 \<le> minute_of t \<and> minute_of t \<le> 59" by (simp add: minute_of_def div_less_iff_less_mult pos_imp_zdiv_nonneg_iff)
  show "0 \<le> second_of t \<and> second_of t \<le> 59" by (simp add: second_of_def)
  show "0 \<le> nanosecond t \<and> nanosecond t < 1000000000" by (simp add: nanosecond_def second_def)
qed

lemma secs_split:
  fixes x :: int
  shows "x div 86400 * 86400 + x mod 86400 div 3600 * 3600 + x mod 3600 div 60 * 60 + x mod 60 = x"
proof -
  have "x mod 60 = x mod 3600 mod 60" by (simp add: mod_mod_cancel)
  then have "x mod 3600 div 60 * 60 + x mod 60 = x mod 3600" by (metis div_mult_mod_eq)
  moreover have "x mod 3600 = x mod 86400 mod 3600" by (simp add: mod_mod_cancel)
  then have "x mod 86400 div 3600 * 3600 + x mod 3600 = x mod 86400" by (metis div_mult_mod_eq)
  moreover have "x div 86400 * 86400 + x mod 86400 = x" by simp
  ultimately show ?thesis by linarith
qed

lemma secs_of_fields:
  "local_day t * 86400 + hour_of t * 3600 + minute_of t * 60 + second_of t = local_secs t"
  unfolding local_day_def hour_of_def minute_of_def second_of_def by (rule secs_split)

lemma go_date_of_fields:
  assumes "t_loc t = utc_loc"
  shows "go_date (year_of t) (month_of t) (mday_of t) (hour_of t) (minute_of t) (second_of t) (nanosecond t) utc_loc = t"
proof -
  have "civil_days (year_of t) (month_of t) (mday_of t) = local_day t"
    by (simp add: year_of_def month_of_def mday_of_def civil_days_of_day)
  moreover have "local_day t * 86400 + hour_of t * 3600 + minute_of t * 60 + second_of t = unix_secs t"
    unfolding secs_of_fields by (rule utc_fields(1) [OF assms])
  moreover have "unix_secs t * second + nanosecond t = t_ns t" by (simp add: unix_secs_def nanosecond_def)
  ultimately show ?thesis
    using assms by (cases t) (simp add: go_date_def Let_def utc_loc_def)
qed

lemma parse_formatTime:
  assumes "0 \<le> year_of (to_utc t)" and "year_of (to_utc t) \<le> 9999"
  shows "parseTime general (formatTime t) = Inr (to_utc t)"
proof -
  define u where "u = to_utc t"
  have loc: "t_loc u = utc_loc" by (simp add: u_def)
  note f = utc_fields [OF loc]
  have year: "0 \<le> year_of u" "year_of u \<le> 9999" using assms by (simp_all add: u_def)
  have "mday_of u \<le> 31" using f(2,3) days_in_month_bounds [of "month_of u" "year_of u"] by auto
  then have lens: "length (pad0 4 (nat (year_of u))) = 4" "length (pad0 2 (nat (month_of u))) = 2"
      "length (pad0 2 (nat (mday_of u))) = 2" "length (pad0 2 (nat (hour_of u))) = 2"
      "length (pad0 2 (nat (minute_of u))) = 2" "length (pad0 2 (nat (second_of u))) = 2"
    using f year by (intro length_pad0; simp add: nat_less_iff)+
  have layout: "formatTime t = pad0 4 (nat (year_of u)) @ ''-'' @ pad0 2 (nat (month_of u)) @ ''-'' @
      pad0 2 (nat (mday_of u)) @ ''T'' @ pad0 2 (nat (hour_of u)) @ '':'' @ pad0 2 (nat (minute_of u)) @ '':'' @
      pad0 2 (nat (second_of u)) @
      (if stripped (nanosecond u) = [] then [] else CHR ''.'' # stripped (nanosecond u)) @ ''Z''"
    using year(1)
    by (simp add: formatTime_def rfc3339nano_def fmt_date_def fmt_year_def fmt_clock_def fmt_fraction_def fmt_zone_def
        stripped_def u_def [symmetric] loc utc_loc_def Let_def)
  have vals: "parse_field 0 9999 (pad0 4 (nat (year_of u))) = Some (year_of u)"
      "parse_field 1 12 (pad0 2 (nat (month_of u))) = Some (month_of u)"
      "parse_field 1 (days_in_month (year_of u) (month_of u)) (pad0 2 (nat (mday_of u))) = Some (mday_of u)"
      "parse_field 0 23 (pad0 2 (nat (hour_of u))) = Some (hour_of u)"
      "parse_field 0 59 (pad0 2 (nat (minute_of u))) = Some (minute_of u)"
      "parse_field 0 59 (pad0 2 (nat (second_of u))) = Some (second_of u)"
    using f year by (intro parse_field_pad0; simp)+
  have "parse_rfc3339 (formatTime t) = Some u"
    using parse_shape [OF lens vals, of "stripped (nanosecond u)"] f(7)
    by (simp only: layout fraction_stripped go_date_of_fields [OF loc])
  then show ?thesis by (simp add: parseTime_def u_def to_utc_def in_loc_def)
qed

text \<open>A stored timestamp is read back as the same instant, to the nanosecond and in UTC, for every
  time in the years 0 to 9999, whatever location the time had and whatever the general parser
  would do.\<close>

theorem time_roundtrip:
  assumes "0 \<le> year_of (to_utc t)" and "year_of (to_utc t) \<le> 9999"
  shows "parseTime general (formatTime t) = Inr (to_utc t)"
  using assms by (rule parse_formatTime)

section \<open>The order of stored timestamps\<close>

text \<open>The binary collation of a TEXT column: \<^verbatim>\<open>memcmp\<close>, then the shorter text first.\<close>

fun text_less :: "string \<Rightarrow> string \<Rightarrow> bool" where
  "text_less xs [] = False"
| "text_less [] (y # ys) = True"
| "text_less (x # xs) (y # ys) = (of_char x < (of_char y :: nat) \<or> x = y \<and> text_less xs ys)"

lemma text_less_prefix: "text_less (p @ xs) (p @ ys) = text_less xs ys"
  by (induction p) simp_all

lemma stripped_empty:
  assumes "0 \<le> n" "n < 1000000000"
  shows "stripped n = [] \<longleftrightarrow> n = 0"
proof
  assume "stripped n = []"
  with fraction_stripped(1) [OF assms] show "n = 0" by (simp add: fraction_ns_def)
next
  have "stripped 0 = []" by code_simp
  then show "n = 0 \<Longrightarrow> stripped n = []" by simp
qed

definition whole_second :: "Time \<Rightarrow> string" where
  "whole_second t = fmt_date t @ ''T'' @ fmt_clock (CHR '':'') t"

lemma formatTime_parts:
  "formatTime t = whole_second (to_utc t) @
     (if nanosecond t = 0 then [] else CHR ''.'' # stripped (nanosecond t)) @ ''Z''"
proof -
  have n: "0 \<le> nanosecond t" "nanosecond t < 1000000000" by (simp_all add: nanosecond_def second_def)
  have "nanosecond (to_utc t) = nanosecond t" by (simp add: nanosecond_def)
  then show ?thesis
    using stripped_empty [OF n]
    by (simp add: formatTime_def rfc3339nano_def whole_second_def fmt_fraction_def fmt_zone_def stripped_def [symmetric]
        Let_def) (simp add: utc_loc_def)
qed

lemma whole_second_cong: "unix_secs t = unix_secs u \<Longrightarrow> whole_second (to_utc t) = whole_second (to_utc u)"
  by (simp add: whole_second_def fmt_date_def fmt_clock_def year_of_def month_of_def mday_of_def hour_of_def minute_of_def
      second_of_def local_day_def local_secs_def unix_secs_def utc_loc_def)

text \<open>Within one second the order of the stored timestamps is not the order of the times. The
  layout drops a zero fraction, and a dot sorts before the letter Z, so the instant on the
  whole second is stored as a larger text than every later instant of the same second: a list
  ordered by \<^verbatim>\<open>started_at\<close> shows the two runs in the wrong order.\<close>

theorem text_order_wrong_within_second:
  assumes "unix_secs t = unix_secs u" and "nanosecond t = 0" and "nanosecond u \<noteq> 0"
  shows "before_time t u \<and> text_less (formatTime u) (formatTime t)"
proof
  have "0 \<le> nanosecond u" by (simp add: nanosecond_def second_def)
  moreover have "t_ns x = unix_secs x * second + nanosecond x" for x :: Time
    by (simp add: unix_secs_def nanosecond_def)
  ultimately show "before_time t u" using assms by (simp add: before_time_def)
  show "text_less (formatTime u) (formatTime t)"
    using assms whole_second_cong [OF assms(1)] by (simp add: formatTime_parts text_less_prefix)
qed

lemma text_order_witness:
  "before_time epoch (epoch\<lparr>t_ns := 500000000\<rparr>) \<and>
   text_less (formatTime (epoch\<lparr>t_ns := 500000000\<rparr>)) (formatTime epoch)"
  by (rule text_order_wrong_within_second) (simp_all add: epoch_def unix_secs_def nanosecond_def second_def)

text \<open>Digits of a fixed width order as numbers.\<close>

lemma pad0_Suc:
  assumes "0 < w"
  shows "pad0 (Suc w) n = pad0 w (n div 10) @ [digit_char (n mod 10)]"
proof (cases "n < 10")
  case True
  have z: "dec 0 = ''0''" by code_simp
  from True assms show ?thesis
    by (simp add: pad0_def dec.simps [of n] z replicate_append_same)
      (metis Suc_pred replicate_Suc replicate_append_same append.assoc append_Cons append_Nil)
next
  case False
  then show ?thesis by (simp add: pad0_def dec.simps [of n])
qed

lemma digit_less: "a < b \<Longrightarrow> b < 10 \<Longrightarrow> of_char (digit_char a) < (of_char (digit_char b) :: nat)"
  by (simp add: digit_char_def)

lemma pad0_less:
  assumes "a < b" "b < 10 ^ w" "0 < w"
  shows "text_less (pad0 w a @ xs) (pad0 w b @ ys)"
  using assms
proof (induction w arbitrary: a b xs ys)
  case (Suc w)
  show ?case
  proof (cases "w = 0")
    case True
    with Suc.prems show ?thesis by (simp add: pad0_def dec.simps [of a] dec.simps [of b] digit_less)
  next
    case False
    have q: "b div 10 < 10 ^ w" using Suc.prems(2) by (simp add: div_less_iff_less_mult)
    have "a div 10 \<le> b div 10" using Suc.prems(1) by (simp add: div_le_mono)
    then consider "a div 10 < b div 10" | "a div 10 = b div 10" "a mod 10 < b mod 10"
      using Suc.prems(1) by (metis div_mult_mod_eq le_neq_implies_less nat_add_left_cancel_less)
    then show ?thesis
    proof cases
      case 1
      with Suc.IH q False show ?thesis by (simp add: pad0_Suc)
    next
      case 2
      with False show ?thesis by (simp add: pad0_Suc text_less_prefix digit_less)
    qed
  qed
qed simp

lemma field_less:
  fixes a b :: int
  assumes "a < b \<or> a = b \<and> text_less xs ys" "0 \<le> a" "b < 10 ^ w" "0 < w"
  shows "text_less (pad0 w (nat a) @ xs) (pad0 w (nat b) @ ys)"
  using assms(1)
proof
  assume "a < b"
  then have "nat a < nat b" using assms(2) by simp
  moreover have "nat b < 10 ^ w" using assms(2,3) \<open>a < b\<close> by (simp add: nat_less_iff)
  ultimately show ?thesis by (rule pad0_less) (rule assms(4))
next
  assume "a = b \<and> text_less xs ys"
  then show ?thesis by (simp add: text_less_prefix)
qed

lemma field_less_sep:
  fixes a b :: int
  assumes "0 \<le> a" "b < 10 ^ w" "0 < w" "a < b \<or> a = b \<and> text_less xs ys"
  shows "text_less (pad0 w (nat a) @ c # xs) (pad0 w (nat b) @ c # ys)"
  by (rule field_less) (use assms in simp_all)

lemma clock_lex:
  fixes h mi se h' mi' se' :: int
  assumes "h * 3600 + mi * 60 + se < h' * 3600 + mi' * 60 + se'"
    and "0 \<le> mi" "mi \<le> 59" "0 \<le> mi'" "mi' \<le> 59" "0 \<le> se" "se \<le> 59" "0 \<le> se'" "se' \<le> 59"
  shows "h < h' \<or> h = h' \<and> (mi < mi' \<or> mi = mi' \<and> se < se')"
proof -
  have "\<not> h' < h" using assms by (intro notI) (drule zless_imp_add1_zle, simp)
  moreover have "\<not> mi' < mi" if "h = h'" using assms that by (intro notI) (drule zless_imp_add1_zle, simp)
  ultimately show ?thesis using assms(1) by (cases "h = h'"; cases "mi = mi'") auto
qed

lemma date_lex:
  assumes "d < d'"
  shows "year_of_day d < year_of_day d' \<or> year_of_day d = year_of_day d' \<and>
    (month_of_day d < month_of_day d' \<or> month_of_day d = month_of_day d' \<and> mday_of_day d < mday_of_day d')"
proof -
  have "index_of_day d < index_of_day d' + 1"
  proof (rule mstart_less)
    show "mstart (index_of_day d) \<le> d" using index_of_day_bounds by blast
    have "d' < mstart (index_of_day d' + 1)" using index_of_day_bounds by blast
    with assms show "d < mstart (index_of_day d' + 1)" by (rule less_trans)
  qed
  then consider "index_of_day d < index_of_day d'" | "index_of_day d = index_of_day d'" by force
  then show ?thesis
  proof cases
    case 1
    then show ?thesis using month_of_day_bounds [of d] month_of_day_bounds [of d'] by (auto simp: index_of_day_def month_index_def)
  next
    case 2
    then have "year_of_day d = year_of_day d' \<and> month_of_day d = month_of_day d'"
      using month_of_day_bounds [of d] month_of_day_bounds [of d'] unfolding index_of_day_def
      by (intro month_index_inject) auto
    then show ?thesis using assms by (simp add: mday_of_day_def)
  qed
qed

text \<open>Across seconds the stored order is the right one: for two times in the years 0 to 9999 that
  fall into different seconds, the earlier one is stored as the smaller text, whatever their
  fractions, so \<^verbatim>\<open>ORDER BY started_at\<close> orders them by time.\<close>

theorem text_order_of_seconds:
  assumes "unix_secs t < unix_secs u" and "0 \<le> year_of (to_utc t)" and "year_of (to_utc u) \<le> 9999"
  shows "text_less (formatTime t) (formatTime u)"
proof -
  define a b where ab: "a = to_utc t" "b = to_utc u"
  have loc: "t_loc a = utc_loc" "t_loc b = utc_loc" and lt: "local_secs a < local_secs b"
    using assms(1) utc_fields(1) [of a] utc_fields(1) [of b] by (simp_all add: ab unix_secs_def)
  note fa = utc_fields [OF loc(1)] and fb = utc_fields [OF loc(2)]
  have d: "local_day a < local_day b \<or> local_day a = local_day b \<and>
      (hour_of a < hour_of b \<or> hour_of a = hour_of b \<and> (minute_of a < minute_of b \<or> minute_of a = minute_of b \<and> second_of a < second_of b))"
  proof (cases "local_day a < local_day b")
    case False
    have "local_day a \<le> local_day b" unfolding local_day_def using lt by (simp add: zdiv_mono1)
    with False have eq: "local_day a = local_day b" by simp
    then have "hour_of a * 3600 + minute_of a * 60 + second_of a < hour_of b * 3600 + minute_of b * 60 + second_of b"
      using lt unfolding secs_of_fields [of a, symmetric] secs_of_fields [of b, symmetric] by simp
    from clock_lex [OF this] eq fa(5,6) fb(5,6) show ?thesis by blast
  qed simp
  have ymd: "year_of a < year_of b \<or> year_of a = year_of b \<and> (month_of a < month_of b \<or> month_of a = month_of b \<and>
      (mday_of a < mday_of b \<or> mday_of a = mday_of b \<and> local_day a = local_day b))"
  proof (cases "local_day a = local_day b")
    case True
    then show ?thesis by (simp add: year_of_def month_of_def mday_of_def)
  next
    case False
    with d have "local_day a < local_day b" by simp
    from date_lex [OF this] show ?thesis unfolding year_of_def month_of_def mday_of_def by blast
  qed
  have years: "0 \<le> year_of a" "year_of b \<le> 9999" "0 \<le> year_of b"
  proof -
    have "year_of a \<le> year_of b" using ymd by (elim disjE) simp_all
    then show "0 \<le> year_of a" "year_of b \<le> 9999" "0 \<le> year_of b"
      using assms(2,3) unfolding ab [symmetric] by simp_all
  qed
  have "mday_of b \<le> 31" using fb(2,3) days_in_month_bounds [of "month_of b" "year_of b"] by simp
  define S where "S = (\<lambda>x F. pad0 2 (nat (second_of x)) @ F :: string)"
  define M where "M = (\<lambda>x F. pad0 2 (nat (minute_of x)) @ '':'' @ S x F)"
  define H where "H = (\<lambda>x F. pad0 2 (nat (hour_of x)) @ '':'' @ M x F)"
  define D where "D = (\<lambda>x F. pad0 2 (nat (mday_of x)) @ ''T'' @ H x F)"
  define N where "N = (\<lambda>x F. pad0 2 (nat (month_of x)) @ ''-'' @ D x F)"
  define Y where "Y = (\<lambda>x F. pad0 4 (nat (year_of x)) @ ''-'' @ N x F)"
  have s: "second_of a < second_of b \<Longrightarrow> text_less (S a F) (S b G)" for F G
    unfolding S_def using fa(6) fb(6) by (intro field_less) simp_all
  have m: "minute_of a < minute_of b \<or> minute_of a = minute_of b \<and> text_less (S a F) (S b G) \<Longrightarrow>
      text_less (M a F) (M b G)" for F G
    unfolding M_def append.simps using fa(5) fb(5) by (intro field_less_sep) simp_all
  have h: "hour_of a < hour_of b \<or> hour_of a = hour_of b \<and> text_less (M a F) (M b G) \<Longrightarrow> text_less (H a F) (H b G)" for F G
    unfolding H_def append.simps using fa(4) fb(4) by (intro field_less_sep) simp_all
  have md: "mday_of a < mday_of b \<or> mday_of a = mday_of b \<and> text_less (H a F) (H b G) \<Longrightarrow> text_less (D a F) (D b G)" for F G
    unfolding D_def append.simps using fa(3) \<open>mday_of b \<le> 31\<close> by (intro field_less_sep) simp_all
  have mo: "month_of a < month_of b \<or> month_of a = month_of b \<and> text_less (D a F) (D b G) \<Longrightarrow> text_less (N a F) (N b G)" for F G
    unfolding N_def append.simps using fa(2) fb(2) by (intro field_less_sep) simp_all
  have y: "year_of a < year_of b \<or> year_of a = year_of b \<and> text_less (N a F) (N b G) \<Longrightarrow> text_less (Y a F) (Y b G)" for F G
    unfolding Y_def append.simps using years by (intro field_less_sep) simp_all
  have "local_day a = local_day b \<Longrightarrow> hour_of a < hour_of b \<or> hour_of a = hour_of b \<and>
      (minute_of a < minute_of b \<or> minute_of a = minute_of b \<and> second_of a < second_of b)"
    using d by simp
  then have "local_day a = local_day b \<Longrightarrow> text_less (H a F) (H b G)" for F G
    using s [of F G] m [of F G] h [of F G] by blast
  then have "mday_of a < mday_of b \<or> mday_of a = mday_of b \<and> local_day a = local_day b \<Longrightarrow> text_less (D a F) (D b G)" for F G
    using md [of F G] by blast
  then have "month_of a < month_of b \<or> month_of a = month_of b \<and> (mday_of a < mday_of b \<or> mday_of a = mday_of b \<and>
      local_day a = local_day b) \<Longrightarrow> text_less (N a F) (N b G)" for F G
    using mo [of F G] by blast
  then have "text_less (Y a F) (Y b G)" for F G
    using y [of F G] ymd by blast
  moreover have "formatTime t = Y a ((if nanosecond t = 0 then [] else CHR ''.'' # stripped (nanosecond t)) @ ''Z'')"
    "formatTime u = Y b ((if nanosecond u = 0 then [] else CHR ''.'' # stripped (nanosecond u)) @ ''Z'')"
    using years
    by (simp_all add: formatTime_parts whole_second_def fmt_date_def fmt_clock_def fmt_year_def ab [symmetric]
        Y_def N_def D_def H_def M_def S_def)
  ultimately show ?thesis by simp
qed
lemma early_year: "0 \<le> k \<Longrightarrow> k < 86400 * second \<Longrightarrow> year_of (to_utc (epoch\<lparr>t_ns := k\<rparr>)) = 1970"
  by (simp add: year_of_def local_day_def local_secs_def unix_secs_def epoch_def to_utc_def in_loc_def utc_loc_def
      second_def year_of_day_def jan1_def)

lemma epoch_year: "year_of (to_utc epoch) = 1970"
  using early_year [of 0] by (simp add: epoch_def second_def)

lemma text_order_of_seconds_witness:
  "text_less (formatTime epoch) (formatTime (epoch\<lparr>t_ns := 1500000000\<rparr>))"
proof (rule text_order_of_seconds)
  show "unix_secs epoch < unix_secs (epoch\<lparr>t_ns := 1500000000\<rparr>)" by (simp add: epoch_def unix_secs_def second_def)
qed (simp_all add: epoch_year early_year second_def)

lemma time_roundtrip_witness:
  "parseTime (\<lambda>_. Inl EndOfFile) (formatTime epoch) = Inr (to_utc epoch)"
  by (rule time_roundtrip) (simp_all add: epoch_year)

section \<open>Storable values\<close>

definition storable_time :: "Time \<Rightarrow> bool" where
  "storable_time t \<longleftrightarrow> 0 \<le> year_of (to_utc t) \<and> year_of (to_utc t) \<le> 9999"

lemma storable_roundtrip: "storable_time t \<Longrightarrow> parseTime general (formatTime t) = Inr (to_utc t)"
  by (simp add: storable_time_def parse_formatTime)

lemma storable_ptr_roundtrip:
  "pred_option storable_time t \<Longrightarrow> parseTimePtr general (formatTimePtr t) = Inr (map_option to_utc t)"
  by (cases t) (simp_all add: parseTimePtr_def formatTimePtr_def storable_roundtrip)

lemma strings_roundtrip: "storable_strings xs \<Longrightarrow> splitStrings (joinStrings xs) = xs"
  by (simp add: split_join_strings)

end
