(* ===== verification/Store_Db.thy ===== *)
theory Store_Db
  imports Store_Convert
begin

text \<open>
  The database of \<^verbatim>\<open>internal/store\<close>: the tables of \<^verbatim>\<open>migrations/0001\<close> and \<^verbatim>\<open>0002\<close> as lists of rows in
  insertion order, and statements as functions on them, read by the standard meaning of SQL:
  primary keys, unique columns, foreign keys with \<^verbatim>\<open>ON DELETE CASCADE\<close>, \<^verbatim>\<open>ORDER BY\<close> in the binary
  collation (rows with equal keys keep their insertion order). Every call into the driver may
  fail instead: \<open>db_fault\<close> answers for the n-th call, so a theorem over every \<open>db_fault\<close> covers a
  busy, broken or closed database and a cancelled context.
\<close>

section \<open>Rows\<close>

record ServerRow =
  sr_id :: string
  sr_name :: string
  sr_host :: string
  sr_port :: int
  sr_username :: string
  sr_authentication_type :: string
  sr_credential_reference :: string
  sr_private_key_path :: string
  sr_host_key_algorithm :: string
  sr_host_key_fingerprint :: string
  sr_connection_timeout_seconds :: int
  sr_command_timeout_seconds :: int
  sr_created_at :: string
  sr_updated_at :: string

record JobRow =
  jr_id :: string
  jr_name :: string
  jr_server_id :: string
  jr_enabled :: int
  jr_archive_format :: string
  jr_remote_temp_directory :: string
  jr_local_destination :: string
  jr_archive_timeout_seconds :: int
  jr_health_check_command :: string
  jr_health_check_attempts :: int
  jr_health_check_interval_seconds :: int
  jr_created_at :: string
  jr_updated_at :: string

record SourceRow =
  so_id :: string
  so_job_id :: string
  so_remote_path :: string
  so_position :: int
  so_include_patterns :: string
  so_exclude_patterns :: string

record ScriptRow =
  sc_id :: string
  sc_job_id :: string
  sc_script_type :: string
  sc_command :: string
  sc_position :: int
  sc_timeout_seconds :: int
  sc_run_condition :: string
  sc_critical_cleanup :: int
  sc_retry_on_failure :: int

record ScheduleRow =
  sd_id :: string
  sd_job_id :: string
  sd_schedule_type :: string
  sd_hour :: int
  sd_minute :: int
  sd_weekdays :: string
  sd_day_of_month :: int
  sd_cron_expression :: string
  sd_missed_run_policy :: string

record RetentionRow =
  rp_id :: string
  rp_job_id :: string
  rp_keep_last :: "int option"
  rp_max_age_days :: "int option"

record RunRow =
  rr_id :: string
  rr_job_id :: string
  rr_server_id :: string
  rr_source_paths :: string
  rr_trigger :: string
  rr_started_at :: string
  rr_finished_at :: "string option"
  rr_status :: string
  rr_archive_name :: string
  rr_archive_size :: int
  rr_checksum :: string
  rr_error_code :: string
  rr_error_message :: string
  rr_recovery_outcome :: string

record StepRow =
  st_id :: string
  st_run_id :: string
  st_step_type :: string
  st_position :: int
  st_started_at :: string
  st_finished_at :: "string option"
  st_status :: string
  st_output :: string
  st_truncated :: int
  st_error :: string
  st_exit_code :: "int option"
  st_duration_ms :: int
  st_command :: string

record JobLock =
  lk_job_id :: string
  lk_run_id :: string
  lk_started_at :: string
  lk_process_id :: int

record SettingsRow =
  sg_schedules_paused :: int
  sg_global_concurrency_limit :: int
  sg_notify_success :: int
  sg_notify_failure :: int
  sg_stale_remote_cleanup_enabled :: int
  sg_stale_remote_cleanup_age_hours :: int

text \<open>The settings table holds the one row with id 1, once the migration has seeded it.\<close>

record Tables =
  t_servers :: "ServerRow list"
  t_jobs :: "JobRow list"
  t_sources :: "SourceRow list"
  t_scripts :: "ScriptRow list"
  t_schedules :: "ScheduleRow list"
  t_retention :: "RetentionRow list"
  t_runs :: "RunRow list"
  t_steps :: "StepRow list"
  t_locks :: "JobLock list"
  t_settings :: "SettingsRow option"

definition empty_tables :: Tables where
  "empty_tables = \<lparr>t_servers = [], t_jobs = [], t_sources = [], t_scripts = [], t_schedules = [],
     t_retention = [], t_runs = [], t_steps = [], t_locks = [],
     t_settings = Some \<lparr>sg_schedules_paused = 0, sg_global_concurrency_limit = 3, sg_notify_success = 1,
       sg_notify_failure = 1, sg_stale_remote_cleanup_enabled = 0, sg_stale_remote_cleanup_age_hours = 24\<rparr>\<rparr>"

section \<open>Constraints\<close>

definition constraint_error :: "int \<Rightarrow> err" where
  "constraint_error k = SqliteError k ''constraint failed''"

definition primary_key_error :: err where "primary_key_error = constraint_error 1555"
definition unique_error :: err where "unique_error = constraint_error 2067"
definition foreign_key_error :: err where "foreign_key_error = constraint_error 787"

text \<open>An insert into a table with a primary key, after the check of its foreign key \<open>fk\<close>.\<close>

definition insert_row :: "('r \<Rightarrow> string) \<Rightarrow> bool \<Rightarrow> 'r \<Rightarrow> 'r list \<Rightarrow> err + 'r list" where
  "insert_row key fk row rows =
     (if key row \<in> set (map key rows) then Inl primary_key_error
      else if \<not> fk then Inl foreign_key_error
      else Inr (rows @ [row]))"

definition update_rows :: "('r \<Rightarrow> bool) \<Rightarrow> ('r \<Rightarrow> 'r) \<Rightarrow> 'r list \<Rightarrow> 'r list" where
  "update_rows p f rows = map (\<lambda>r. if p r then f r else r) rows"

definition affected :: "('r \<Rightarrow> bool) \<Rightarrow> 'r list \<Rightarrow> nat" where
  "affected p rows = length (filter p rows)"

definition delete_rows :: "('r \<Rightarrow> bool) \<Rightarrow> 'r list \<Rightarrow> 'r list" where
  "delete_rows p rows = filter (\<lambda>r. \<not> p r) rows"

text \<open>\<^verbatim>\<open>ORDER BY\<close>: a stable insertion sort.\<close>

primrec place_row :: "('r \<Rightarrow> 'r \<Rightarrow> bool) \<Rightarrow> 'r \<Rightarrow> 'r list \<Rightarrow> 'r list" where
  "place_row lt x [] = [x]"
| "place_row lt x (y # ys) = (if lt y x then y # place_row lt x ys else x # y # ys)"

definition order_by :: "('r \<Rightarrow> 'r \<Rightarrow> bool) \<Rightarrow> 'r list \<Rightarrow> 'r list" where
  "order_by lt rows = foldr (place_row lt) rows []"

definition job_exists :: "string \<Rightarrow> Tables \<Rightarrow> bool" where
  "job_exists ident t \<longleftrightarrow> ident \<in> set (map jr_id (t_jobs t))"

definition server_exists :: "string \<Rightarrow> Tables \<Rightarrow> bool" where
  "server_exists ident t \<longleftrightarrow> ident \<in> set (map sr_id (t_servers t))"

definition run_exists :: "string \<Rightarrow> Tables \<Rightarrow> bool" where
  "run_exists ident t \<longleftrightarrow> ident \<in> set (map rr_id (t_runs t))"

section \<open>Calls into the driver\<close>

record Db =
  db_tables :: Tables
  db_fault :: "nat \<Rightarrow> err option"
  db_calls :: nat

type_synonym 'a Sql = "(Db, err + 'a) state"

definition driver_call :: "(Db, err option) state" where
  "driver_call = State (\<lambda>db. (db_fault db (db_calls db), db\<lparr>db_calls := Suc (db_calls db)\<rparr>))"

text \<open>A statement that changes rows returns how many it affected, or a constraint error.\<close>

definition exec :: "(Tables \<Rightarrow> err + Tables \<times> nat) \<Rightarrow> nat Sql" where
  "exec stmt = do {
     f \<leftarrow> driver_call;
     case f of
       Some e \<Rightarrow> ret (Inl e)
     | None \<Rightarrow> do {
         t \<leftarrow> gets db_tables;
         case stmt t of
           Inl e \<Rightarrow> ret (Inl e)
         | Inr (t', n) \<Rightarrow> do { modify (\<lambda>db. db\<lparr>db_tables := t'\<rparr>); ret (Inr n) }
       }
   }"

definition query :: "(Tables \<Rightarrow> 'r) \<Rightarrow> 'r Sql" where
  "query q = do {
     f \<leftarrow> driver_call;
     t \<leftarrow> gets db_tables;
     ret (case f of Some e \<Rightarrow> Inl e | None \<Rightarrow> Inr (q t))
   }"

text \<open>\<^verbatim>\<open>if err != nil { return fmt.Errorf("...: %w", err) }\<close>.\<close>

definition wrap_err :: "string \<Rightarrow> 'a Sql \<Rightarrow> 'a Sql" where
  "wrap_err msg m = do { r \<leftarrow> m; ret (case r of Inl e \<Rightarrow> Inl (Wrapped msg e) | Inr x \<Rightarrow> Inr x) }"

text \<open>
  A query over many rows: its rows, scanned one by one by \<open>scan\<close>, then \<^verbatim>\<open>rows.Err()\<close>, each
  error with its text.
\<close>

primrec scan_all :: "('r \<Rightarrow> err + 'a) \<Rightarrow> 'r list \<Rightarrow> err + 'a list" where
  "scan_all scan [] = Inr []"
| "scan_all scan (r # rs) =
     (case scan r of
        Inl e \<Rightarrow> Inl e
      | Inr x \<Rightarrow> (case scan_all scan rs of Inl e \<Rightarrow> Inl e | Inr xs \<Rightarrow> Inr (x # xs)))"

definition query_rows :: "string \<Rightarrow> string \<Rightarrow> string \<Rightarrow> (Tables \<Rightarrow> 'r list) \<Rightarrow> ('r \<Rightarrow> err + 'a) \<Rightarrow> 'a list Sql" where
  "query_rows queryMsg scanMsg iterMsg q scan =
     try_do (wrap_err queryMsg (query q)) (\<lambda>rows.
       case scan_all scan rows of
         Inl e \<Rightarrow> ret (Inl (Wrapped scanMsg e))
       | Inr xs \<Rightarrow> try_do (wrap_err iterMsg (query (\<lambda>_. ()))) (\<lambda>_. ret (Inr xs)))"

text \<open>
  \<^verbatim>\<open>BeginTx\<close>, a body, \<^verbatim>\<open>Commit\<close>, with a deferred \<^verbatim>\<open>Rollback\<close>: whatever fails, the tables are what
  they were.
\<close>

definition transaction :: "string \<Rightarrow> 'a Sql \<Rightarrow> 'a Sql" where
  "transaction commitMsg body = do {
     b \<leftarrow> driver_call;
     case b of
       Some e \<Rightarrow> ret (Inl (Wrapped ''begin transaction'' e))
     | None \<Rightarrow> do {
         saved \<leftarrow> gets db_tables;
         r \<leftarrow> body;
         case r of
           Inl e \<Rightarrow> do { modify (\<lambda>db. db\<lparr>db_tables := saved\<rparr>); ret (Inl e) }
         | Inr x \<Rightarrow> do {
             c \<leftarrow> driver_call;
             case c of
               Some e \<Rightarrow> do { modify (\<lambda>db. db\<lparr>db_tables := saved\<rparr>); ret (Inl (Wrapped commitMsg e)) }
             | None \<Rightarrow> ret (Inr x)
           }
       }
   }"

text \<open>
  \<^verbatim>\<open>res.RowsAffected()\<close> is a call into the driver too, after the statement has taken effect; \<open>n\<close> is
  the number of rows the statement affected.
\<close>

definition not_found_error :: "string \<Rightarrow> string \<Rightarrow> err" where
  "not_found_error kind ident = NewCodedError ErrNotFound (kind @ '' '' @ go_quote ident @ '' not found'') None"

definition checkRowsAffected :: "nat \<Rightarrow> string \<Rightarrow> string \<Rightarrow> unit Sql" where
  "checkRowsAffected n kind ident = do {
     f \<leftarrow> driver_call;
     ret (case f of
            Some e \<Rightarrow> Inl (Wrapped ''read rows affected'' e)
          | None \<Rightarrow> if n = 0 then Inl (not_found_error kind ident) else Inr ())
   }"

type_synonym TimeParser = "string \<Rightarrow> err + Time"

text \<open>\<^verbatim>\<open>QueryRow\<close> and the scan of its row: no row is \<^verbatim>\<open>sql.ErrNoRows\<close>.\<close>

definition query_one :: "(Tables \<Rightarrow> 'r option) \<Rightarrow> ('r \<Rightarrow> err + 'a) \<Rightarrow> 'a Sql" where
  "query_one q scan =
     try_do (query q) (\<lambda>r. ret (case r of None \<Rightarrow> Inl NoRows | Some row \<Rightarrow> scan row))"

definition not_found_or :: "string \<Rightarrow> string \<Rightarrow> string \<Rightarrow> 'a Sql \<Rightarrow> 'a Sql" where
  "not_found_or kind msg ident m = do {
     r \<leftarrow> m;
     ret (case r of
            Inr x \<Rightarrow> Inr x
          | Inl e \<Rightarrow>
              if is_err (\<lambda>x. x = NoRows) e
              then Inl (NewCodedError ErrNotFound (kind @ '' '' @ go_quote ident @ '' not found'') None)
              else Inl (Wrapped (msg @ go_quote ident) e))
   }"

section \<open>Facts\<close>

lemma run_driver_call [run_simps]:
  "run_state driver_call db = (db_fault db (db_calls db), db\<lparr>db_calls := Suc (db_calls db)\<rparr>)"
  by (simp add: driver_call_def)

lemma run_exec [run_simps]:
  "run_state (exec stmt) db =
     (let db' = db\<lparr>db_calls := Suc (db_calls db)\<rparr>
      in case db_fault db (db_calls db) of
           Some e \<Rightarrow> (Inl e, db')
         | None \<Rightarrow> (case stmt (db_tables db) of Inl e \<Rightarrow> (Inl e, db') | Inr (t, n) \<Rightarrow> (Inr n, db'\<lparr>db_tables := t\<rparr>)))"
  by (simp add: exec_def run_driver_call Let_def split: option.split sum.split prod.split)

lemma run_query [run_simps]:
  "run_state (query q) db =
     ((case db_fault db (db_calls db) of Some e \<Rightarrow> Inl e | None \<Rightarrow> Inr (q (db_tables db))),
      db\<lparr>db_calls := Suc (db_calls db)\<rparr>)"
  by (simp add: query_def run_driver_call split: option.split)

lemma run_checkRowsAffected [run_simps]:
  "run_state (checkRowsAffected n kind ident) db =
     ((case db_fault db (db_calls db) of
         Some e \<Rightarrow> Inl (Wrapped ''read rows affected'' e)
       | None \<Rightarrow> if n = 0 then Inl (not_found_error kind ident) else Inr ()), db\<lparr>db_calls := Suc (db_calls db)\<rparr>)"
  by (simp add: checkRowsAffected_def run_driver_call)

lemma checkRowsAffected_Inr:
  assumes "run_state (checkRowsAffected n kind ident) db = (Inr u, db')"
  shows "n \<noteq> 0" "db_tables db' = db_tables db" "db_fault db' = db_fault db"
  using assms by (auto simp: run_checkRowsAffected split: option.splits if_splits)

lemma run_wrap_err [run_simps]:
  "run_state (wrap_err msg m) db =
     (case run_state m db of (Inl e, db') \<Rightarrow> (Inl (Wrapped msg e), db') | (Inr x, db') \<Rightarrow> (Inr x, db'))"
  by (simp add: wrap_err_def split: prod.split sum.split)

text \<open>No fault: the database does what it is asked.\<close>

definition healthy :: "Db \<Rightarrow> bool" where
  "healthy db \<longleftrightarrow> (\<forall>n. db_fault db n = None)"

lemma healthy_simps [simp]:
  "healthy (db\<lparr>db_calls := n\<rparr>) = healthy db" "healthy (db\<lparr>db_tables := t\<rparr>) = healthy db"
  "healthy db \<Longrightarrow> db_fault db n = None"
  by (simp_all add: healthy_def)

text \<open>An operation that fails leaves the tables alone.\<close>

definition atomic :: "'a Sql \<Rightarrow> bool" where
  "atomic m \<longleftrightarrow> (\<forall>db e db'. run_state m db = (Inl e, db') \<longrightarrow> db_tables db' = db_tables db)"

lemma atomic_transaction: "atomic (transaction msg body)"
  by (auto simp: atomic_def transaction_def run_driver_call split: option.splits sum.splits prod.splits)

lemma atomic_exec: "atomic (exec stmt)"
  by (auto simp: atomic_def run_exec Let_def split: option.splits sum.splits)

lemma atomic_wrap: "atomic m \<Longrightarrow> atomic (wrap_err msg m)"
  by (auto simp: atomic_def run_wrap_err split: sum.splits prod.splits)

lemma atomicD: "atomic m \<Longrightarrow> run_state m db = (Inl e, db') \<Longrightarrow> db_tables db' = db_tables db"
  by (simp add: atomic_def)

text \<open>An operation that only reads.\<close>

definition read_only :: "'a Sql \<Rightarrow> bool" where
  "read_only m \<longleftrightarrow> (\<forall>db. db_tables (snd (run_state m db)) = db_tables db)"

lemma read_only_query: "read_only (query q)"
  by (simp add: read_only_def run_query)

lemma read_only_wrap: "read_only m \<Longrightarrow> read_only (wrap_err msg m)"
  by (simp add: read_only_def run_wrap_err split: prod.split sum.split) (metis snd_conv)

lemma read_only_return: "read_only (ret x)"
  by (simp add: read_only_def)

lemma read_only_try: "read_only m \<Longrightarrow> (\<And>x. read_only (f x)) \<Longrightarrow> read_only (try_do m f)"
  by (simp add: read_only_def run_try_do split: prod.split sum.split) (metis snd_conv)

lemma read_only_sum: "(\<And>e. read_only (f e)) \<Longrightarrow> (\<And>x. read_only (g x)) \<Longrightarrow> read_only (case y of Inl e \<Rightarrow> f e | Inr x \<Rightarrow> g x)"
  by (simp split: sum.split)

lemma read_only_rows: "read_only (query_rows a b c q scan)"
  unfolding query_rows_def
  by (intro read_only_try read_only_wrap read_only_query read_only_sum read_only_return)

lemma run_query_rows:
  assumes "healthy db"
  shows "run_state (query_rows a b c q scan) db =
    (case scan_all scan (q (db_tables db)) of
       Inl e \<Rightarrow> (Inl (Wrapped b e), db\<lparr>db_calls := Suc (db_calls db)\<rparr>)
     | Inr xs \<Rightarrow> (Inr xs, db\<lparr>db_calls := Suc (Suc (db_calls db))\<rparr>))"
  using assms by (simp add: query_rows_def run_try_do run_wrap_err run_query split: sum.split)

section \<open>Finding a row\<close>

lemma find_append_new: "find p (xs @ [x]) = (case find p xs of Some y \<Rightarrow> Some y | None \<Rightarrow> if p x then Some x else None)"
  by (induction xs) simp_all

lemma find_update:
  assumes "\<And>r. key (f r) = key r"
  shows "find (\<lambda>r. key r = k) (update_rows (\<lambda>r. key r = j) f rows) =
    map_option (\<lambda>r. if key r = j then f r else r) (find (\<lambda>r. key r = k) rows)"
  using assms by (induction rows) (auto simp: update_rows_def)

lemma get_result:
  assumes "healthy db"
  shows "fst (run_state (not_found_or kind msg ident (query_one q scan)) db) =
    (case q (db_tables db) of
       None \<Rightarrow> Inl (NewCodedError ErrNotFound (kind @ '' '' @ go_quote ident @ '' not found'') None)
     | Some row \<Rightarrow> (case scan row of
         Inr x \<Rightarrow> Inr x
       | Inl e \<Rightarrow> if is_err (\<lambda>x. x = NoRows) e then Inl (NewCodedError ErrNotFound (kind @ '' '' @ go_quote ident @ '' not found'') None)
           else Inl (Wrapped (msg @ go_quote ident) e)))"
  using assms by (simp add: not_found_or_def query_one_def run_try_do run_query split: option.split sum.split)

section \<open>Sorting\<close>

lemma set_place_row [simp]: "set (place_row lt x ys) = insert x (set ys)"
  by (induction ys) auto

lemma set_order_by [simp]: "set (order_by lt rows) = set rows"
  by (induction rows) (simp_all add: order_by_def)

lemma length_order_by [simp]: "length (order_by lt rows) = length rows"
proof -
  have "length (place_row lt x ys) = Suc (length ys)" for x ys by (induction ys) simp_all
  then show ?thesis by (induction rows) (simp_all add: order_by_def)
qed

lemma sorted_place_row:
  assumes "\<And>x y z. \<not> lt y x \<Longrightarrow> \<not> lt z y \<Longrightarrow> \<not> lt z x"
    and "sorted_wrt (\<lambda>a b. \<not> lt b a) ys" and "\<And>x y. lt x y \<Longrightarrow> \<not> lt y x"
  shows "sorted_wrt (\<lambda>a b. \<not> lt b a) (place_row lt x ys)"
  using assms(2)
proof (induction ys)
  case (Cons y ys)
  show ?case
  proof (cases "lt y x")
    case True
    with Cons show ?thesis using assms(3) by auto
  next
    case False
    with Cons.prems show ?thesis using assms(1) by auto
  qed
qed simp

lemma order_by_sorted:
  assumes "\<And>x y z. \<not> lt y x \<Longrightarrow> \<not> lt z y \<Longrightarrow> \<not> lt z x" and "\<And>x y. lt x y \<Longrightarrow> \<not> lt y x"
  shows "sorted_wrt (\<lambda>a b. \<not> lt b a) (order_by lt rows)"
proof (induction rows)
  case (Cons x rows)
  have "sorted_wrt (\<lambda>a b. \<not> lt b a) (place_row lt x (order_by lt rows))"
    by (rule sorted_place_row [OF _ Cons]) (use assms in blast)+
  then show ?case by (simp add: order_by_def)
qed (simp add: order_by_def)

text \<open>Rows that are in order already are left as they are.\<close>

lemma order_by_sorted_id:
  assumes "sorted_wrt (\<lambda>a b. \<not> lt b a) rows"
  shows "order_by lt rows = rows"
  using assms
proof (induction rows)
  case (Cons x rows)
  then have "order_by lt rows = rows" by simp
  moreover have "place_row lt x rows = x # rows" using Cons.prems by (cases rows) auto
  ultimately show ?case by (simp add: order_by_def)
qed (simp add: order_by_def)

end
