(* ===== verification/Store_Runs.thy ===== *)
theory Store_Runs
  imports Store_Db
begin

text \<open>
  \<^verbatim>\<open>internal/store/runs.go\<close> and \<^verbatim>\<open>steps.go\<close>: the run history and the recorded steps, with what
  survives storing and loading, the recovery of interrupted runs at startup, and the order and
  the bounds of what is listed.
\<close>

section \<open>Runs\<close>

definition run_row :: "Run \<Rightarrow> RunRow" where
  "run_row run = \<lparr>
     rr_id = Run_ID run, rr_job_id = Run_JobID run, rr_server_id = Run_ServerID run,
     rr_source_paths = joinStrings (Run_SourcePaths run), rr_trigger = Trigger_str (Run_Trigger run),
     rr_started_at = formatTime (Run_StartedAt run), rr_finished_at = formatTimePtr (Run_FinishedAt run),
     rr_status = RunStatus_str (Run_Status run), rr_archive_name = Run_ArchiveName run,
     rr_archive_size = Run_ArchiveSize run, rr_checksum = Run_Checksum run,
     rr_error_code = ErrorCode_str (Run_ErrorCode run), rr_error_message = Run_ErrorMessage run,
     rr_recovery_outcome = RecoveryOutcome_str (Run_RecoveryOutcome run)\<rparr>"

definition scanRun :: "TimeParser \<Rightarrow> RunRow \<Rightarrow> err + Run" where
  "scanRun general row =
     (case parseTime general (rr_started_at row) of
        Inl e \<Rightarrow> Inl e
      | Inr startedAt \<Rightarrow>
          (case parseTimePtr general (rr_finished_at row) of
             Inl e \<Rightarrow> Inl e
           | Inr finishedAt \<Rightarrow> Inr \<lparr>
               Run_ID = rr_id row, Run_JobID = rr_job_id row, Run_ServerID = rr_server_id row,
               Run_SourcePaths = splitStrings (rr_source_paths row), Run_Trigger = Trigger_of (rr_trigger row),
               Run_StartedAt = startedAt, Run_FinishedAt = finishedAt, Run_Status = RunStatus_of (rr_status row),
               Run_ArchiveName = rr_archive_name row, Run_ArchiveSize = rr_archive_size row,
               Run_Checksum = rr_checksum row, Run_ErrorCode = ErrorCode_of (rr_error_code row),
               Run_ErrorMessage = rr_error_message row,
               Run_RecoveryOutcome = RecoveryOutcome_of (rr_recovery_outcome row)\<rparr>))"

definition insert_run :: "RunRow \<Rightarrow> Tables \<Rightarrow> err + Tables \<times> nat" where
  "insert_run row t =
     (case insert_row rr_id True row (t_runs t) of
        Inl e \<Rightarrow> Inl e
      | Inr rs \<Rightarrow> Inr (t\<lparr>t_runs := rs\<rparr>, 1))"

definition CreateRun :: "Run \<Rightarrow> unit Sql" where
  "CreateRun run =
     try_do (wrap_err (''insert run '' @ go_quote (Run_ID run)) (exec (insert_run (run_row run)))) (\<lambda>_. ret (Inr ()))"

text \<open>The columns of \<^verbatim>\<open>UPDATE backup_runs\<close>.\<close>

definition set_run_columns :: "RunRow \<Rightarrow> RunRow \<Rightarrow> RunRow" where
  "set_run_columns new row = row\<lparr>
     rr_finished_at := rr_finished_at new, rr_status := rr_status new, rr_archive_name := rr_archive_name new,
     rr_archive_size := rr_archive_size new, rr_checksum := rr_checksum new, rr_error_code := rr_error_code new,
     rr_error_message := rr_error_message new, rr_recovery_outcome := rr_recovery_outcome new\<rparr>"

definition update_run_rows :: "(RunRow \<Rightarrow> bool) \<Rightarrow> (RunRow \<Rightarrow> RunRow) \<Rightarrow> Tables \<Rightarrow> err + Tables \<times> nat" where
  "update_run_rows p f t = Inr (t\<lparr>t_runs := update_rows p f (t_runs t)\<rparr>, affected p (t_runs t))"

definition UpdateRun :: "Run \<Rightarrow> unit Sql" where
  "UpdateRun run =
     try_do (wrap_err (''update run '' @ go_quote (Run_ID run))
       (exec (update_run_rows (\<lambda>row. rr_id row = Run_ID run) (set_run_columns (run_row run)))))
       (\<lambda>n. checkRowsAffected n ''run'' (Run_ID run))"

definition find_run :: "string \<Rightarrow> Tables \<Rightarrow> RunRow option" where
  "find_run ident t = find (\<lambda>row. rr_id row = ident) (t_runs t)"

definition GetRun :: "TimeParser \<Rightarrow> string \<Rightarrow> Run Sql" where
  "GetRun general ident =
     not_found_or ''run'' ''get run '' ident (query_one (find_run ident) (scanRun general))"

record RunFilter =
  rf_job_id :: string
  rf_status :: RunStatus
  rf_limit :: int

definition newer_first :: "RunRow \<Rightarrow> RunRow \<Rightarrow> bool" where
  "newer_first a b \<longleftrightarrow> text_less (rr_started_at b) (rr_started_at a)"

definition list_runs_query :: "RunFilter \<Rightarrow> Tables \<Rightarrow> RunRow list" where
  "list_runs_query f t =
     (let matching = filter (\<lambda>row. (rf_job_id f = [] \<or> rr_job_id row = rf_job_id f) \<and>
            (RunStatus_str (rf_status f) = [] \<or> rr_status row = RunStatus_str (rf_status f))) (t_runs t);
          ordered = order_by newer_first matching
      in if rf_limit f > 0 then take (nat (rf_limit f)) ordered else ordered)"

definition ListRuns :: "TimeParser \<Rightarrow> RunFilter \<Rightarrow> Run list Sql" where
  "ListRuns general f = query_rows ''list runs'' ''scan run row'' ''iterate runs'' (list_runs_query f) (scanRun general)"

text \<open>Rows with the same start keep their order here; the statement leaves it open.\<close>

definition archived_query :: "string \<Rightarrow> Tables \<Rightarrow> RunRow list" where
  "archived_query jobID t =
     order_by newer_first (filter (\<lambda>row. rr_job_id row = jobID \<and> rr_archive_name row \<noteq> []) (t_runs t))"

definition ListArchived :: "TimeParser \<Rightarrow> string \<Rightarrow> Run list Sql" where
  "ListArchived general jobID =
     query_rows (''list archived runs for job '' @ go_quote jobID) ''scan run row'' ''iterate archived runs''
       (archived_query jobID) (scanRun general)"

definition is_running :: "RunRow \<Rightarrow> bool" where
  "is_running row \<longleftrightarrow> rr_status row = RunStatus_str RunRunning"

definition RunningJobIDs :: "string list Sql" where
  "RunningJobIDs = query_rows ''query running job ids'' ''scan job id'' ''iterate running job ids''
     (\<lambda>t. remdups (map rr_job_id (filter is_running (t_runs t)))) Inr"

definition RunningIDs :: "string list Sql" where
  "RunningIDs = query_rows ''query running runs'' ''scan running run id'' ''iterate running runs''
     (\<lambda>t. map rr_id (filter is_running (t_runs t))) Inr"

definition interrupted_message :: string where
  "interrupted_message = ''service stopped unexpectedly while this run was in progress''"

definition interrupt_row :: "Time \<Rightarrow> RunRow \<Rightarrow> RunRow" where
  "interrupt_row finishedAt row = row\<lparr>rr_status := RunStatus_str RunInterrupted,
     rr_finished_at := Some (formatTime finishedAt), rr_error_message := interrupted_message\<rparr>"

definition InterruptRunningRuns :: "Time \<Rightarrow> string list Sql" where
  "InterruptRunningRuns finishedAt =
     try_do RunningIDs (\<lambda>ids.
       if ids = [] then ret (Inr [])
       else try_do (wrap_err ''mark running runs interrupted''
              (exec (update_run_rows is_running (interrupt_row finishedAt))))
              (\<lambda>_. ret (Inr ids)))"

section \<open>Steps\<close>

definition truncateOutput :: "string \<Rightarrow> string" where
  "truncateOutput output = (if length output \<le> MaxStepOutputBytes then output else take MaxStepOutputBytes output)"

definition millisecond :: Duration where
  "millisecond = 1000000"

text \<open>\<^verbatim>\<open>Duration.Milliseconds\<close> is a Go division, which rounds towards zero.\<close>

definition Milliseconds :: "Duration \<Rightarrow> int" where
  "Milliseconds d = sgn d * (\<bar>d\<bar> div millisecond)"

definition step_row :: "RunStep \<Rightarrow> int \<Rightarrow> StepRow" where
  "step_row step position = \<lparr>
     st_id = Step_ID step, st_run_id = Step_RunID step, st_step_type = StepType_str (Step_Type step),
     st_position = position, st_started_at = formatTime (Step_StartedAt step),
     st_finished_at = formatTimePtr (Step_FinishedAt step), st_status = StepStatus_str (Step_Status step),
     st_output = truncateOutput (Step_Output step), st_truncated = boolToInt (Step_Truncated step),
     st_error = Step_Error step, st_exit_code = nullInt (Step_ExitCode step),
     st_duration_ms = Milliseconds (Step_Duration step), st_command = Step_Command step\<rparr>"

definition scanStep :: "TimeParser \<Rightarrow> StepRow \<Rightarrow> err + RunStep" where
  "scanStep general row =
     (case parseTime general (st_started_at row) of
        Inl e \<Rightarrow> Inl e
      | Inr startedAt \<Rightarrow>
          (case parseTimePtr general (st_finished_at row) of
             Inl e \<Rightarrow> Inl e
           | Inr finishedAt \<Rightarrow> Inr \<lparr>
               Step_ID = st_id row, Step_RunID = st_run_id row, Step_Type = StepType_of (st_step_type row),
               Step_StartedAt = startedAt, Step_FinishedAt = finishedAt, Step_Status = StepStatus_of (st_status row),
               Step_Output = st_output row, Step_Truncated = intToBool (st_truncated row), Step_Error = st_error row,
               Step_ExitCode = intPtr (st_exit_code row), Step_Duration = wrap64 (st_duration_ms row * millisecond),
               Step_Command = st_command row\<rparr>))"

definition insert_step :: "StepRow \<Rightarrow> Tables \<Rightarrow> err + Tables \<times> nat" where
  "insert_step row t =
     (case insert_row st_id (run_exists (st_run_id row) t) row (t_steps t) of
        Inl e \<Rightarrow> Inl e
      | Inr rs \<Rightarrow> Inr (t\<lparr>t_steps := rs\<rparr>, 1))"

definition CreateStep :: "RunStep \<Rightarrow> int \<Rightarrow> unit Sql" where
  "CreateStep step position =
     try_do (wrap_err (''insert step '' @ go_quote (Step_ID step)) (exec (insert_step (step_row step position))))
       (\<lambda>_. ret (Inr ()))"

definition set_step_columns :: "StepRow \<Rightarrow> StepRow \<Rightarrow> StepRow" where
  "set_step_columns new row = row\<lparr>
     st_finished_at := st_finished_at new, st_status := st_status new, st_output := st_output new,
     st_truncated := st_truncated new, st_error := st_error new, st_exit_code := st_exit_code new,
     st_duration_ms := st_duration_ms new, st_command := st_command new\<rparr>"

definition update_step_rows :: "(StepRow \<Rightarrow> bool) \<Rightarrow> (StepRow \<Rightarrow> StepRow) \<Rightarrow> Tables \<Rightarrow> err + Tables \<times> nat" where
  "update_step_rows p f t = Inr (t\<lparr>t_steps := update_rows p f (t_steps t)\<rparr>, affected p (t_steps t))"

definition UpdateStep :: "RunStep \<Rightarrow> unit Sql" where
  "UpdateStep step =
     try_do (wrap_err (''update step '' @ go_quote (Step_ID step))
       (exec (update_step_rows (\<lambda>row. st_id row = Step_ID step) (set_step_columns (step_row step 0)))))
       (\<lambda>n. checkRowsAffected n ''step'' (Step_ID step))"

definition steps_query :: "string \<Rightarrow> Tables \<Rightarrow> StepRow list" where
  "steps_query runID t =
     order_by (\<lambda>a b. st_position a < st_position b) (filter (\<lambda>row. st_run_id row = runID) (t_steps t))"

definition ListByRun :: "TimeParser \<Rightarrow> string \<Rightarrow> RunStep list Sql" where
  "ListByRun general runID =
     query_rows (''list steps for run '' @ go_quote runID) ''scan step row''
       (''iterate steps for run '' @ go_quote runID) (steps_query runID) (scanStep general)"

section \<open>What survives storing\<close>

definition storable_run :: "Run \<Rightarrow> bool" where
  "storable_run run \<longleftrightarrow> storable_strings (Run_SourcePaths run) \<and>
     Trigger_of (Trigger_str (Run_Trigger run)) = Run_Trigger run \<and>
     RunStatus_of (RunStatus_str (Run_Status run)) = Run_Status run \<and>
     ErrorCode_of (ErrorCode_str (Run_ErrorCode run)) = Run_ErrorCode run \<and>
     RecoveryOutcome_of (RecoveryOutcome_str (Run_RecoveryOutcome run)) = Run_RecoveryOutcome run \<and>
     storable_time (Run_StartedAt run) \<and> pred_option storable_time (Run_FinishedAt run)"

text \<open>The run with its times in UTC.\<close>

definition utc_run :: "Run \<Rightarrow> Run" where
  "utc_run run = run\<lparr>Run_StartedAt := to_utc (Run_StartedAt run), Run_FinishedAt := map_option to_utc (Run_FinishedAt run)\<rparr>"

lemma scan_run_row: "storable_run run \<Longrightarrow> scanRun general (run_row run) = Inr (utc_run run)"
  by (cases run) (simp add: scanRun_def run_row_def storable_run_def storable_roundtrip storable_ptr_roundtrip
      strings_roundtrip utc_run_def)

lemma find_run_none: "\<not> run_exists ident t \<longleftrightarrow> find_run ident t = None"
  by (auto simp: run_exists_def find_run_def find_None_iff)

lemma create_run_result:
  assumes "healthy db" "\<not> run_exists (Run_ID run) (db_tables db)"
  shows "run_state (CreateRun run) db =
    (Inr (), db\<lparr>db_calls := Suc (db_calls db),
       db_tables := (db_tables db)\<lparr>t_runs := t_runs (db_tables db) @ [run_row run]\<rparr>\<rparr>)"
  using assms by (simp add: CreateRun_def run_try_do run_wrap_err run_exec insert_run_def insert_row_def run_exists_def
      run_row_def Let_def)

lemma update_run_result:
  assumes "healthy db"
  shows "run_state (UpdateRun run) db =
    (if affected (\<lambda>row. rr_id row = Run_ID run) (t_runs (db_tables db)) = 0
     then Inl (not_found_error ''run'' (Run_ID run)) else Inr (),
     db\<lparr>db_calls := Suc (Suc (db_calls db)), db_tables := (db_tables db)\<lparr>t_runs :=
       update_rows (\<lambda>row. rr_id row = Run_ID run) (set_run_columns (run_row run)) (t_runs (db_tables db))\<rparr>\<rparr>)"
  using assms by (simp add: UpdateRun_def run_try_do run_wrap_err run_exec run_checkRowsAffected update_run_rows_def Let_def)

definition store_finish_load :: "TimeParser \<Rightarrow> Run \<Rightarrow> Run \<Rightarrow> Run Sql" where
  "store_finish_load general run final =
     try_do (CreateRun run) (\<lambda>_. try_do (UpdateRun final) (\<lambda>_. GetRun general (Run_ID run)))"

text \<open>C19: A run's history survives the database. Storing a new run, storing its final state under the
  same identifier and loading it gives the final state, with the fields that are fixed at the
  start (job, server, sources, trigger, start time) as they were first stored, and the times in
  UTC. The loaded run has exactly these fields, for every storable run.\<close>

theorem run_history_roundtrip:
  assumes "healthy db" and "\<not> run_exists (Run_ID run) (db_tables db)" and "Run_ID final = Run_ID run"
    and "storable_run run" and "storable_run final"
  shows "fst (run_state (store_finish_load general run final) db) =
    Inr ((utc_run final)\<lparr>Run_JobID := Run_JobID run, Run_ServerID := Run_ServerID run,
      Run_SourcePaths := Run_SourcePaths run, Run_Trigger := Run_Trigger run,
      Run_StartedAt := to_utc (Run_StartedAt run)\<rparr>)"
proof -
  define merged where "merged = final\<lparr>Run_JobID := Run_JobID run, Run_ServerID := Run_ServerID run,
      Run_SourcePaths := Run_SourcePaths run, Run_Trigger := Run_Trigger run, Run_StartedAt := Run_StartedAt run\<rparr>"
  have row: "set_run_columns (run_row final) (run_row run) = run_row merged"
    using assms(3) by (simp add: set_run_columns_def run_row_def merged_def)
  have "storable_run merged" using assms(4,5) by (simp add: storable_run_def merged_def)
  then have scan: "scanRun general (run_row merged) = Inr (utc_run merged)" by (rule scan_run_row)
  have ident: "rr_id (run_row run) = Run_ID run" "rr_id (set_run_columns r row) = rr_id row" for r row
    by (simp_all add: run_row_def set_run_columns_def)
  have none: "find (\<lambda>row. rr_id row = Run_ID run) (t_runs (db_tables db)) = None"
    using assms(2) by (simp add: find_run_none find_run_def)
  have found: "find_run (Run_ID run) (t\<lparr>t_runs := update_rows (\<lambda>row. rr_id row = Run_ID run)
      (set_run_columns (run_row final)) (t_runs (db_tables db) @ [run_row run])\<rparr>) = Some (run_row merged)" for t
    by (simp add: find_run_def find_update ident find_append_new none row)
  have "affected (\<lambda>row. rr_id row = Run_ID run) (t_runs (db_tables db) @ [run_row run]) \<noteq> 0"
    by (simp add: affected_def ident)
  then have "fst (run_state (store_finish_load general run final) db) = Inr (utc_run merged)"
    using assms(1,2,3)
    by (simp add: store_finish_load_def run_try_do create_run_result update_run_result GetRun_def get_result
        found scan)
  then show ?thesis by (simp add: merged_def utc_run_def)
qed

section \<open>Recovery at startup\<close>

lemma scan_all_Inr: "scan_all Inr xs = Inr xs"
  by (induction xs) simp_all

lemma running_ids_result:
  assumes "healthy db"
  shows "run_state RunningIDs db =
    (Inr (map rr_id (filter is_running (t_runs (db_tables db)))), db\<lparr>db_calls := Suc (Suc (db_calls db))\<rparr>)"
  using assms by (simp add: RunningIDs_def run_query_rows scan_all_Inr)

lemma interrupt_not_running: "\<not> is_running (interrupt_row t row)"
  by (simp add: is_running_def interrupt_row_def)

text \<open>Startup recovery is complete and touches nothing else. On a healthy database,
  InterruptRunningRuns returns the identifiers of exactly the runs that were RUNNING; after it
  every one of them is INTERRUPTED with the given finish time and the fixed message, in its
  place, every other run is unchanged, and no run is RUNNING.\<close>

theorem interrupt_recovers_all:
  assumes "healthy db"
  shows "let (r, db') = run_state (InterruptRunningRuns t) db; before = t_runs (db_tables db); after = t_runs (db_tables db')
    in r = Inr (map rr_id (filter is_running before)) \<and>
       after = map (\<lambda>row. if is_running row then interrupt_row t row else row) before \<and>
       filter is_running after = [] \<and> db_tables db' = (db_tables db)\<lparr>t_runs := after\<rparr>"
proof (cases "filter is_running (t_runs (db_tables db)) = []")
  case True
  then have "map (\<lambda>row. if is_running row then interrupt_row t row else row) (t_runs (db_tables db)) = t_runs (db_tables db)"
    by (intro map_idI) (simp add: filter_empty_conv)
  with True assms show ?thesis by (simp add: InterruptRunningRuns_def run_try_do running_ids_result Let_def)
next
  case False
  with assms show ?thesis
    by (simp add: InterruptRunningRuns_def run_try_do running_ids_result run_wrap_err run_exec update_run_rows_def
        update_rows_def Let_def filter_empty_conv) (auto simp: interrupt_not_running)
qed

definition run_db :: Db where
  "run_db = \<lparr>db_tables = empty_tables\<lparr>t_runs := [run_row ((NewRun ''r1'' epoch ''job1'' ''srv1'' [''/etc''] TriggerManual)
     \<lparr>Run_Status := RunRunning\<rparr>)]\<rparr>, db_fault = (\<lambda>_. None), db_calls = 0\<rparr>"

lemma interrupt_recovers_witness:
  "let (r, db') = run_state (InterruptRunningRuns epoch) run_db; before = t_runs (db_tables run_db);
       after = t_runs (db_tables db')
   in r = Inr (map rr_id (filter is_running before)) \<and>
      after = map (\<lambda>row. if is_running row then interrupt_row epoch row else row) before \<and>
      filter is_running after = [] \<and> db_tables db' = (db_tables run_db)\<lparr>t_runs := after\<rparr>"
  by (rule interrupt_recovers_all) (simp add: run_db_def healthy_def)

definition history_run :: Run where
  "history_run = NewRun ''run1'' epoch ''job1'' ''srv1'' [''/var/www''] TriggerManual"

lemma run_history_witness:
  "fst (run_state (store_finish_load (\<lambda>_. Inl EndOfFile) history_run (Run_Finish epoch RunSuccess history_run)) run_db) =
    Inr ((utc_run (Run_Finish epoch RunSuccess history_run))\<lparr>Run_JobID := Run_JobID history_run, Run_ServerID := Run_ServerID history_run,
      Run_SourcePaths := Run_SourcePaths history_run, Run_Trigger := Run_Trigger history_run,
      Run_StartedAt := to_utc (Run_StartedAt history_run)\<rparr>)"
  by (rule run_history_roundtrip)
    (simp_all add: run_db_def healthy_def run_exists_def run_row_def history_run_def NewRun_def Run_Finish_def storable_run_def
      storable_strings_def storable_time_def epoch_year Trigger_of_def RunStatus_of_def ErrorCode_of_def RecoveryOutcome_of_def empty_tables_def)

section \<open>Lists\<close>

lemma text_less_irrefl: "\<not> text_less xs xs"
  by (induction xs) simp_all

lemma text_less_trans: "text_less xs ys \<Longrightarrow> text_less ys zs \<Longrightarrow> text_less xs zs"
proof (induction xs ys arbitrary: zs rule: text_less.induct)
  case (2 y ys)
  then show ?case by (cases zs) auto
next
  case (3 x xs y ys)
  then show ?case by (cases zs) auto
qed simp

lemma text_less_total: "text_less xs ys \<or> xs = ys \<or> text_less ys xs"
proof (induction xs ys rule: text_less.induct)
  case (1 xs)
  then show ?case by (cases xs) auto
next
  case (3 x xs y ys)
  have "(of_char x :: nat) < of_char y \<or> x = y \<or> (of_char y :: nat) < of_char x"
    by (metis linorder_neqE_nat of_char_eq_iff)
  with 3 show ?case by auto
qed simp

lemma newer_first_order:
  "\<not> newer_first b a \<Longrightarrow> \<not> newer_first c b \<Longrightarrow> \<not> newer_first c a" "newer_first a b \<Longrightarrow> \<not> newer_first b a"
  unfolding newer_first_def by (metis text_less_total text_less_trans text_less_irrefl)+

lemma list_runs_sorted: "sorted_wrt (\<lambda>a b. \<not> newer_first b a) (list_runs_query f t)"
proof -
  have "sorted_wrt (\<lambda>a b. \<not> newer_first b a) (order_by newer_first xs)" for xs
    by (rule order_by_sorted) (use newer_first_order in blast)+
  then show ?thesis by (simp add: list_runs_query_def Let_def sorted_wrt_take)
qed

text \<open>What is listed is sorted, matches the filter and respects the limit.\<close>

lemma list_runs_matching:
  assumes "row \<in> set (list_runs_query f t)"
  shows "row \<in> set (t_runs t)" and "rf_job_id f \<noteq> [] \<Longrightarrow> rr_job_id row = rf_job_id f"
    and "RunStatus_str (rf_status f) \<noteq> [] \<Longrightarrow> rr_status row = RunStatus_str (rf_status f)"
proof -
  have "row \<in> set (order_by newer_first (filter (\<lambda>row. (rf_job_id f = [] \<or> rr_job_id row = rf_job_id f) \<and>
      (RunStatus_str (rf_status f) = [] \<or> rr_status row = RunStatus_str (rf_status f))) (t_runs t)))"
    using assms by (auto simp: list_runs_query_def Let_def dest: in_set_takeD split: if_splits)
  then show "row \<in> set (t_runs t)" "rf_job_id f \<noteq> [] \<Longrightarrow> rr_job_id row = rf_job_id f"
    "RunStatus_str (rf_status f) \<noteq> [] \<Longrightarrow> rr_status row = RunStatus_str (rf_status f)" by auto
qed

lemma list_runs_limit: "0 < rf_limit f \<Longrightarrow> int (length (list_runs_query f t)) \<le> rf_limit f"
  by (simp add: list_runs_query_def Let_def)

text \<open>No stored step holds more output than the bound.\<close>

definition outputs_bounded :: "Tables \<Rightarrow> bool" where
  "outputs_bounded t \<longleftrightarrow> (\<forall>row \<in> set (t_steps t). length (st_output row) \<le> MaxStepOutputBytes)"

lemma truncateOutput_bound: "length (truncateOutput output) \<le> MaxStepOutputBytes"
  by (simp add: truncateOutput_def)

lemma step_writes_bounded:
  assumes "outputs_bounded (db_tables db)"
  shows "outputs_bounded (db_tables (snd (run_state (CreateStep step p) db)))"
    and "outputs_bounded (db_tables (snd (run_state (UpdateStep step) db)))"
  using assms truncateOutput_bound
  by (auto simp: CreateStep_def UpdateStep_def run_try_do run_wrap_err run_exec run_checkRowsAffected insert_step_def insert_row_def
      update_step_rows_def update_rows_def set_step_columns_def step_row_def outputs_bounded_def Let_def
      split: option.splits sum.splits prod.splits)

end
