(* ===== verification/Shell.thy ===== *)
theory Shell
  imports Domain_Validate
begin

text \<open>
  \<^verbatim>\<open>shellquote.go\<close> and every command line that \<^verbatim>\<open>internal/backup\<close> builds for the remote host
  (\<^verbatim>\<open>archive.go\<close>, \<^verbatim>\<open>checks.go\<close>, \<^verbatim>\<open>download.go\<close>, \<^verbatim>\<open>remotecleanup.go\<close>), with a specification of how a
  POSIX shell splits a line into words. The lemmas show that a user-supplied path or pattern
  reaches the remote program as one argument, byte for byte, and that no byte of it is read
  as syntax.
\<close>

section \<open>The code\<close>

definition shellQuote :: "string \<Rightarrow> string" where
  "shellQuote s =
     [CHR 0x27] @ replace_all s [CHR 0x27] [CHR 0x27, CHR 0x5C, CHR 0x27, CHR 0x27] @ [CHR 0x27]"

definition exclude_args :: "Source list \<Rightarrow> string list" where
  "exclude_args sources =
     concat (map (\<lambda>s. map (\<lambda>pat. ''--exclude='' @ shellQuote pat) (Source_Exclude s)) sources)"

text \<open>\<^verbatim>\<open>strings.TrimRight(pattern, "/")\<close>.\<close>

definition trim_slashes :: "string \<Rightarrow> string" where
  "trim_slashes s = rev (dropWhile (\<lambda>c. c = CHR ''/'') (rev s))"

definition list_command :: "Source \<Rightarrow> string" where
  "list_command s =
     (if Source_Include s = [] then ''printf '' @ [CHR 0x27] @ ''%s'' @ [CHR 0x5C] @ ''000'' @ [CHR 0x27] @ '' '' @
        shellQuote (Source_RemotePath s)
      else ''find '' @ shellQuote (Source_RemotePath s) @ '' -mindepth 1 '' @ [CHR 0x5C] @ ''( '' @
        join '' -o '' (map (\<lambda>pat. ''-name '' @ shellQuote (trim_slashes pat)) (Source_Include s)) @
        '' '' @ [CHR 0x5C] @ '') -prune -print0'')"

definition includeArchiveCommand :: "Job \<Rightarrow> string \<Rightarrow> string list \<Rightarrow> string" where
  "includeArchiveCommand job remoteArchivePath excludeArgs =
     (let lst = shellQuote (remoteArchivePath @ ''.list'');
          tar = [''tar'', ''--null'', ''-T'', lst] @ excludeArgs @ [''-czf'', shellQuote remoteArchivePath]
      in ''{ '' @ join '' && '' (map list_command (Job_Sources job)) @ ''; } > '' @ lst @
         '' && '' @ join '' '' tar @ ''; status=$?; rm -f '' @ lst @ ''; exit $status'')"

definition archiveCommand :: "Job \<Rightarrow> string \<Rightarrow> string" where
  "archiveCommand job remoteArchivePath =
     (let excludeArgs = exclude_args (Job_Sources job);
          sourceArgs = map (\<lambda>s. shellQuote (Source_RemotePath s)) (Job_Sources job);
          hasInclude = list_ex (\<lambda>s. Source_Include s \<noteq> []) (Job_Sources job);
          mkdir = ''mkdir -p '' @ shellQuote (RemoteJobDirectory job)
      in if hasInclude then mkdir @ '' && '' @ includeArchiveCommand job remoteArchivePath excludeArgs
         else join '' '' ([mkdir, ''&&'', ''tar''] @ excludeArgs @
           [''-czf'', shellQuote remoteArchivePath, ''--''] @ sourceArgs))"

text \<open>The commands of the checks and of the later stages.\<close>

definition exists_command :: "string \<Rightarrow> string" where
  "exists_command path = ''test -e '' @ shellQuote path"

definition readable_command :: "string \<Rightarrow> string" where
  "readable_command path = ''test -r '' @ shellQuote path"

definition tool_command :: "string \<Rightarrow> string" where
  "tool_command tool = ''command -v '' @ shellQuote tool"

definition temp_command :: "string \<Rightarrow> string" where
  "temp_command dir = ''mkdir -p '' @ shellQuote dir @ '' && test -w '' @ shellQuote dir"

definition size_command :: "Source list \<Rightarrow> string" where
  "size_command sources =
     ''du -sb '' @ join '' '' (map (\<lambda>s. shellQuote (Source_RemotePath s)) sources) @
     '' 2>/dev/null | awk '' @ [CHR 0x27] @ ''{s+=$1} END{print s}'' @ [CHR 0x27]"

definition free_command :: "string \<Rightarrow> string" where
  "free_command dir = ''df -B1 --output=avail '' @ shellQuote dir @ '' | tail -n1''"

definition checksum_command :: "string \<Rightarrow> string" where
  "checksum_command path =
     ''sha256sum '' @ shellQuote path @ '' | awk '' @ [CHR 0x27] @ ''{print $1}'' @ [CHR 0x27]"

definition remove_command :: "string \<Rightarrow> string" where
  "remove_command path = ''rm -f '' @ shellQuote path"

definition remove_partial_command :: "string \<Rightarrow> string" where
  "remove_partial_command path = ''rm -f '' @ shellQuote path @ '' '' @ shellQuote (path @ ''.list'')"

section \<open>How a shell reads a line\<close>

text \<open>
  The specification. Single quotes take every byte as it is, a backslash takes the next byte
  as it is, blanks end a word, and an unquoted byte with a meaning of its own to the shell (an
  operator, an expansion, a double quote, a glob) is a token of its own. An open quote or a
  backslash at the end has no reading.
\<close>

datatype tok = Arg string | Op char

datatype lexmode = Blank | InWord string | InQuote string | Escaped string

definition active_chars :: string where
  "active_chars = [CHR ''|'', CHR ''&'', CHR '';'', CHR ''<'', CHR ''>'', CHR ''('', CHR '')'', CHR ''$'',
     CHR 0x60, CHR 0x22, CHR ''*'', CHR ''?'', CHR ''['', CHR 0x0A]"

definition blank_chars :: string where
  "blank_chars = [CHR '' '', CHR 0x09]"

definition plain :: "char \<Rightarrow> bool" where
  "plain c \<longleftrightarrow> c \<notin> set active_chars \<and> c \<notin> set blank_chars \<and> c \<noteq> CHR 0x27 \<and> c \<noteq> CHR 0x5C"

primrec shlex :: "string \<Rightarrow> lexmode \<Rightarrow> tok list option" where
  "shlex [] m = (case m of Blank \<Rightarrow> Some [] | InWord w \<Rightarrow> Some [Arg w] | InQuote w \<Rightarrow> None | Escaped w \<Rightarrow> None)"
| "shlex (c # cs) m =
     (case m of
        InQuote w \<Rightarrow> if c = CHR 0x27 then shlex cs (InWord w) else shlex cs (InQuote (w @ [c]))
      | Escaped w \<Rightarrow> shlex cs (InWord (w @ [c]))
      | Blank \<Rightarrow>
          if c = CHR 0x27 then shlex cs (InQuote [])
          else if c = CHR 0x5C then shlex cs (Escaped [])
          else if c \<in> set blank_chars then shlex cs Blank
          else if c \<in> set active_chars then map_option (\<lambda>ts. Op c # ts) (shlex cs Blank)
          else shlex cs (InWord [c])
      | InWord w \<Rightarrow>
          if c = CHR 0x27 then shlex cs (InQuote w)
          else if c = CHR 0x5C then shlex cs (Escaped w)
          else if c \<in> set blank_chars then map_option (\<lambda>ts. Arg w # ts) (shlex cs Blank)
          else if c \<in> set active_chars then map_option (\<lambda>ts. Arg w # Op c # ts) (shlex cs Blank)
          else shlex cs (InWord (w @ [c])))"

definition shell_tokens :: "string \<Rightarrow> tok list option" where
  "shell_tokens line = shlex line Blank"

section \<open>Quoting\<close>

definition esc :: "char \<Rightarrow> string" where
  "esc c = (if c = CHR 0x27 then [CHR 0x27, CHR 0x5C, CHR 0x27, CHR 0x27] else [c])"

lemma shellQuote_esc: "shellQuote s = CHR 0x27 # concat (map esc s) @ [CHR 0x27]"
  by (simp add: shellQuote_def replace_all_char esc_def [abs_def])

lemma lex_quoted: "shlex (concat (map esc s) @ CHR 0x27 # rest) (InQuote w) = shlex rest (InWord (w @ s))"
proof (induction s arbitrary: w)
  case Nil
  then show ?case by simp
next
  case (Cons c s)
  show ?case
  proof (cases "c = CHR 0x27")
    case True
    then show ?thesis using Cons.IH [of "w @ [c]"] by (simp add: esc_def)
  next
    case False
    then show ?thesis using Cons.IH [of "w @ [c]"] by (simp add: esc_def)
  qed
qed

lemma lex_shellQuote_Blank [simp]: "shlex (shellQuote s @ rest) Blank = shlex rest (InWord s)"
  and lex_shellQuote_InWord [simp]: "shlex (shellQuote s @ rest) (InWord w) = shlex rest (InWord (w @ s))"
  by (simp_all add: shellQuote_esc lex_quoted)

lemma lex_plain_InWord: "list_all plain t \<Longrightarrow> shlex (t @ rest) (InWord w) = shlex rest (InWord (w @ t))"
  by (induction t arbitrary: w) (simp_all add: plain_def)

lemma lex_plain_Blank: "list_all plain t \<Longrightarrow> t \<noteq> [] \<Longrightarrow> shlex (t @ rest) Blank = shlex rest (InWord t)"
  by (cases t) (simp_all add: plain_def lex_plain_InWord)

section \<open>Spelling a command from its words\<close>

text \<open>
  A text spells a list of tokens when it reads as them wherever a blank, an operator or the
  end of the line follows.
\<close>

definition delim :: "string \<Rightarrow> bool" where
  "delim rest \<longleftrightarrow> (case rest of [] \<Rightarrow> True | c # cs \<Rightarrow> c \<in> set blank_chars \<or> c \<in> set active_chars)"

definition spells :: "string \<Rightarrow> tok list \<Rightarrow> bool" where
  "spells t ts \<longleftrightarrow> (\<forall>rest. delim rest \<longrightarrow> shlex (t @ rest) Blank = map_option (append ts) (shlex rest Blank))"

lemma append_partial:
  "append (xs @ ys) = (\<lambda>zs. xs @ ys @ zs)" "append (x # xs) = (\<lambda>zs. x # xs @ zs)"
  "append [] = (\<lambda>zs. zs)"
  by auto

lemma quote_chars_not_delim: "c \<in> set blank_chars \<or> c \<in> set active_chars \<Longrightarrow> c \<noteq> CHR 0x27 \<and> c \<noteq> CHR 0x5C"
  by (auto simp: blank_chars_def active_chars_def)

lemma blank_not_active: "c \<in> set blank_chars \<Longrightarrow> c \<notin> set active_chars"
  by (auto simp: blank_chars_def active_chars_def)

lemma lex_delim: "delim rest \<Longrightarrow> shlex rest (InWord w) = map_option (append [Arg w]) (shlex rest Blank)"
  using quote_chars_not_delim blank_not_active
  by (cases rest; cases "shlex (tl rest) Blank") (auto simp: delim_def)

lemma spells_word: "(\<And>rest. shlex (t @ rest) Blank = shlex rest (InWord w)) \<Longrightarrow> spells t [Arg w]"
  by (simp add: spells_def lex_delim)

lemma spells_plain: "list_all plain t \<Longrightarrow> t \<noteq> [] \<Longrightarrow> spells t [Arg t]"
  by (intro spells_word lex_plain_Blank)

lemma spells_quote: "spells (shellQuote s) [Arg s]"
  by (intro spells_word) simp

lemma spells_plain_quote: "list_all plain t \<Longrightarrow> t \<noteq> [] \<Longrightarrow> spells (t @ shellQuote s) [Arg (t @ s)]"
  by (intro spells_word) (simp add: lex_plain_Blank)

lemma spells_op: "c \<in> set active_chars \<Longrightarrow> spells [c] [Op c]"
  using quote_chars_not_delim [of c] blank_not_active [of c] by (auto simp: spells_def append_partial)

lemma spells_append:
  assumes "spells t ts" "spells u us" "delim u" "u \<noteq> []"
  shows "spells (t @ u) (ts @ us)"
proof -
  have "delim (u @ rest)" for rest using assms(3,4) by (cases u) (simp_all add: delim_def)
  then show ?thesis
    using assms(1,2) unfolding spells_def by (auto simp: append_partial option.map_comp comp_def)
qed

lemma spells_blank: "spells t ts \<Longrightarrow> spells (CHR '' '' # t) ts"
  by (simp add: spells_def blank_chars_def)

lemma spells_space: "spells t ts \<Longrightarrow> spells u us \<Longrightarrow> spells (t @ CHR '' '' # u) (ts @ us)"
  by (intro spells_append spells_blank) (simp_all add: delim_def blank_chars_def)

lemma spells_op_append: "spells t ts \<Longrightarrow> c \<in> set active_chars \<Longrightarrow> spells (t @ [c]) (ts @ [Op c])"
  by (intro spells_append spells_op) (simp_all add: delim_def)

lemma spells_op_Cons: "c \<in> set active_chars \<Longrightarrow> spells t ts \<Longrightarrow> spells (c # t) (Op c # ts)"
  using quote_chars_not_delim [of c] blank_not_active [of c]
  by (auto simp: spells_def append_partial option.map_comp comp_def)

lemma spells_join:
  assumes "list_all2 spells texts tokss" "texts \<noteq> []"
  shows "spells (join '' '' texts) (concat tokss)"
  using assms
proof (induction rule: list_all2_induct)
  case Nil
  then show ?case by simp
next
  case (Cons t texts ts tokss)
  then show ?case by (cases texts) (auto simp: join_Cons intro: spells_space)
qed

lemma spells_map_quote: "xs \<noteq> [] \<Longrightarrow> spells (join '' '' (map (\<lambda>x. shellQuote (f x)) xs)) (map (\<lambda>x. Arg (f x)) xs)"
proof -
  assume "xs \<noteq> []"
  then have "spells (join '' '' (map (\<lambda>x. shellQuote (f x)) xs)) (concat (map (\<lambda>x. [Arg (f x)]) xs))"
    by (intro spells_join) (simp_all add: list_all2_conv_all_nth spells_quote)
  then show ?thesis by simp
qed

lemma shell_tokens_spells: "spells t ts \<Longrightarrow> shell_tokens t = Some ts"
  unfolding shell_tokens_def spells_def by (drule spec [of _ "[]"]) (simp add: delim_def)

lemma shlex_append:
  "shlex t m = Some ts \<Longrightarrow> delim rest \<Longrightarrow> shlex (t @ rest) m = map_option (append ts) (shlex rest Blank)"
proof (induction t arbitrary: m ts)
  case Nil
  then show ?case by (cases m) (auto simp: append_partial lex_delim option.map_ident)
next
  case (Cons c t)
  then show ?case
    by (cases m) (auto simp: append_partial option.map_comp comp_def split: if_splits)
qed

lemma spells_const: "shell_tokens t = Some ts \<Longrightarrow> spells t ts"
  by (simp add: shell_tokens_def spells_def shlex_append)

section \<open>Commands of several parts\<close>

fun sep_toks :: "tok list \<Rightarrow> tok list list \<Rightarrow> tok list" where
  "sep_toks m [] = []"
| "sep_toks m [x] = x"
| "sep_toks m (x # y # zs) = x @ m @ sep_toks m (y # zs)"

lemma sep_toks_Cons: "ys \<noteq> [] \<Longrightarrow> sep_toks m (x # ys) = x @ m @ sep_toks m ys"
  by (cases ys) auto

lemma spells_join_sep:
  assumes "list_all2 spells texts tokss" "texts \<noteq> []" "spells m ms" "sep = CHR '' '' # m @ [CHR '' '']"
  shows "spells (join sep texts) (sep_toks ms tokss)"
  using assms(1,2)
proof (induction rule: list_all2_induct)
  case Nil
  then show ?case by simp
next
  case (Cons t ts u us)
  show ?case
  proof (cases "ts = []")
    case True
    with Cons show ?thesis by simp
  next
    case False
    with Cons have "spells (join sep ts) (sep_toks ms us)" by simp
    then have "spells (t @ CHR '' '' # (m @ CHR '' '' # join sep ts)) (u @ ms @ sep_toks ms us)"
      using Cons.hyps(1) assms(3) by (intro spells_space)
    moreover have "us \<noteq> []" using False Cons.hyps(2) by auto
    ultimately show ?thesis using False by (simp add: join_Cons sep_toks_Cons assms(4))
  qed
qed

text \<open>The words the remote programs are meant to receive.\<close>

definition list_tokens :: "Source \<Rightarrow> tok list" where
  "list_tokens s =
     (if Source_Include s = [] then map Arg [''printf'', ''%s'' @ [CHR 0x5C] @ ''000'', Source_RemotePath s]
      else map Arg [''find'', Source_RemotePath s, ''-mindepth'', ''1'', ''(''] @
        sep_toks [Arg ''-o''] (map (\<lambda>pat. [Arg ''-name'', Arg (trim_slashes pat)]) (Source_Include s)) @
        map Arg ['')'', ''-prune'', ''-print0''])"

definition exclude_words :: "Source list \<Rightarrow> string list" where
  "exclude_words sources = concat (map (\<lambda>s. map (\<lambda>pat. ''--exclude='' @ pat) (Source_Exclude s)) sources)"

definition and_then :: "tok list" where
  "and_then = [Op (CHR ''&''), Op (CHR ''&'')]"

definition archive_tokens :: "Job \<Rightarrow> string \<Rightarrow> tok list" where
  "archive_tokens job path =
     map Arg [''mkdir'', ''-p'', RemoteJobDirectory job] @ and_then @
     (if list_ex (\<lambda>s. Source_Include s \<noteq> []) (Job_Sources job) then
        Arg ''{'' # sep_toks and_then (map list_tokens (Job_Sources job)) @
        [Op (CHR '';''), Arg ''}'', Op (CHR ''>''), Arg (path @ ''.list'')] @ and_then @
        map Arg ([''tar'', ''--null'', ''-T'', path @ ''.list''] @ exclude_words (Job_Sources job) @ [''-czf'', path]) @
        [Op (CHR '';''), Arg ''status='', Op (CHR ''$''), Op (CHR ''?''), Op (CHR '';''),
         Arg ''rm'', Arg ''-f'', Arg (path @ ''.list''), Op (CHR '';''), Arg ''exit'', Op (CHR ''$''), Arg ''status'']
      else map Arg ([''tar''] @ exclude_words (Job_Sources job) @ [''-czf'', path, ''--''] @
        map Source_RemotePath (Job_Sources job)))"

lemma spells_const2: "shell_tokens p = Some ps \<Longrightarrow> spells t ts \<Longrightarrow> spells (p @ CHR '' '' # t) (ps @ ts)"
  by (rule spells_space [OF spells_const])

lemma spells_and: "spells t ts \<Longrightarrow> spells u us \<Longrightarrow> spells (t @ '' && '' @ u) (ts @ and_then @ us)"
proof -
  assume "spells t ts" "spells u us"
  moreover have "shell_tokens ''&&'' = Some and_then" by code_simp
  ultimately have "spells (t @ CHR '' '' # (''&&'' @ CHR '' '' # u)) (ts @ and_then @ us)"
    by (intro spells_space spells_const2)
  then show ?thesis by simp
qed

lemma spells_map: "(\<And>x. spells (f x) (g x)) \<Longrightarrow> list_all2 spells (map f xs) (map g xs)"
  by (induction xs) simp_all

lemma spells_excludes: "list_all2 spells (exclude_args sources) (map (\<lambda>w. [Arg w]) (exclude_words sources))"
proof -
  have one: "spells (''--exclude='' @ shellQuote pat) [Arg (''--exclude='' @ pat)]" for pat
  proof (rule spells_plain_quote)
    show "list_all plain ''--exclude=''" by code_simp
  qed simp
  have "list_all2 spells (map (\<lambda>pat. ''--exclude='' @ shellQuote pat) ps)
      (map (\<lambda>w. [Arg w]) (map (\<lambda>pat. ''--exclude='' @ pat) ps))" for ps
    using one by (simp add: list_all2_conv_all_nth)
  then show ?thesis
    unfolding exclude_args_def exclude_words_def
    by (induction sources) (simp_all add: list_all2_appendI)
qed

lemma spells_name: "spells (''-name '' @ shellQuote t) [Arg ''-name'', Arg t]"
  using spells_const2 [of "''-name''" "[Arg ''-name'']" "shellQuote t" "[Arg t]"] spells_quote
  by (simp add: shell_tokens_def active_chars_def blank_chars_def)

lemma spells_find:
  assumes "Source_Include s \<noteq> []"
  shows "spells (list_command s) (list_tokens s)"
proof -
  let ?names = "map (\<lambda>pat. ''-name '' @ shellQuote (trim_slashes pat)) (Source_Include s)"
  let ?toks = "map (\<lambda>pat. [Arg ''-name'', Arg (trim_slashes pat)]) (Source_Include s)"
  have o: "shell_tokens ''-o'' = Some [Arg ''-o'']" by code_simp
  have names: "spells (join '' -o '' ?names) (sep_toks [Arg ''-o''] ?toks)"
    using assms
    by (intro spells_join_sep [OF spells_map _ spells_const [OF o]] spells_name) simp_all
  have find: "shell_tokens ''find'' = Some [Arg ''find'']" by code_simp
  have middle: "shell_tokens (''-mindepth 1 '' @ [CHR 0x5C] @ ''('') = Some [Arg ''-mindepth'', Arg ''1'', Arg ''('']"
    by code_simp
  have last: "shell_tokens ([CHR 0x5C] @ '') -prune -print0'') = Some [Arg '')'', Arg ''-prune'', Arg ''-print0'']"
    by code_simp
  have "spells (''find'' @ CHR '' '' # (shellQuote (Source_RemotePath s) @ CHR '' '' #
      ((''-mindepth 1 '' @ [CHR 0x5C] @ ''('') @ CHR '' '' #
       (join '' -o '' ?names @ CHR '' '' # ([CHR 0x5C] @ '') -prune -print0'')))))
    ([Arg ''find''] @ [Arg (Source_RemotePath s)] @ [Arg ''-mindepth'', Arg ''1'', Arg ''(''] @
     sep_toks [Arg ''-o''] ?toks @ [Arg '')'', Arg ''-prune'', Arg ''-print0''])"
    by (intro spells_space spells_const2 names spells_quote find middle spells_const [OF last])
  then show ?thesis using assms by (simp add: list_command_def list_tokens_def)
qed

lemma spells_list_command: "spells (list_command s) (list_tokens s)"
proof (cases "Source_Include s = []")
  case True
  have "shell_tokens (''printf '' @ [CHR 0x27] @ ''%s'' @ [CHR 0x5C] @ ''000'' @ [CHR 0x27]) =
      Some [Arg ''printf'', Arg (''%s'' @ [CHR 0x5C] @ ''000'')]"
    by code_simp
  from spells_const2 [OF this spells_quote] True show ?thesis
    by (simp add: list_command_def list_tokens_def)
qed (rule spells_find)

lemma spells_mkdir: "spells (''mkdir -p '' @ shellQuote d) (map Arg [''mkdir'', ''-p'', d])"
proof -
  have "shell_tokens ''mkdir -p'' = Some [Arg ''mkdir'', Arg ''-p'']" by code_simp
  from spells_const2 [OF this spells_quote] show ?thesis by simp
qed

lemma spells_tail: "spells t ts \<Longrightarrow> shell_tokens u = Some us \<Longrightarrow> delim u \<Longrightarrow> u \<noteq> [] \<Longrightarrow> spells (t @ u) (ts @ us)"
  by (rule spells_append [OF _ spells_const])

lemma include_command_spells:
  assumes "Job_Sources job \<noteq> []"
  shows "spells (includeArchiveCommand job path (exclude_args (Job_Sources job)))
    (Arg ''{'' # sep_toks and_then (map list_tokens (Job_Sources job)) @
     [Op (CHR '';''), Arg ''}'', Op (CHR ''>''), Arg (path @ ''.list'')] @ and_then @
     map Arg ([''tar'', ''--null'', ''-T'', path @ ''.list''] @ exclude_words (Job_Sources job) @ [''-czf'', path]) @
     [Op (CHR '';''), Arg ''status='', Op (CHR ''$''), Op (CHR ''?''), Op (CHR '';''),
      Arg ''rm'', Arg ''-f'', Arg (path @ ''.list''), Op (CHR '';''), Arg ''exit'', Op (CHR ''$''), Arg ''status''])"
proof -
  let ?lst = "shellQuote (path @ ''.list'')"
  let ?ex = "exclude_args (Job_Sources job)" and ?exw = "map (\<lambda>w. [Arg w]) (exclude_words (Job_Sources job))"
  have amp: "shell_tokens ''&&'' = Some and_then" by code_simp
  have lists: "spells (join '' && '' (map list_command (Job_Sources job)))
      (sep_toks and_then (map list_tokens (Job_Sources job)))"
    using assms
    by (intro spells_join_sep [OF spells_map _ spells_const [OF amp]] spells_list_command) simp_all
  have brace: "shell_tokens ''{'' = Some [Arg ''{'']" by code_simp
  have close: "shell_tokens ''; } >'' = Some [Op (CHR '';''), Arg ''}'', Op (CHR ''>'')]" "delim ''; } >''"
    by code_simp+
  have status: "shell_tokens ''; status=$?; rm -f'' = Some [Op (CHR '';''), Arg ''status='', Op (CHR ''$''),
      Op (CHR ''?''), Op (CHR '';''), Arg ''rm'', Arg ''-f'']" "delim ''; status=$?; rm -f''"
    by code_simp+
  have exit: "shell_tokens ''; exit $status'' = Some [Op (CHR '';''), Arg ''exit'', Op (CHR ''$''), Arg ''status'']"
    "delim ''; exit $status''"
    by code_simp+
  have words: "list_all2 spells [''tar'', ''--null'', ''-T''] (map (\<lambda>w. [Arg w]) [''tar'', ''--null'', ''-T''])"
    "spells ''-czf'' [Arg ''-czf'']"
    by (simp_all, (intro conjI spells_const; code_simp)+)
  have tar: "spells (join '' '' ([''tar'', ''--null'', ''-T'', ?lst] @ ?ex @ [''-czf'', shellQuote path]))
      (concat (map (\<lambda>w. [Arg w]) [''tar'', ''--null'', ''-T'', path @ ''.list''] @ ?exw @ [[Arg ''-czf''], [Arg path]]))"
    using words spells_excludes [of "Job_Sources job"]
    by (intro spells_join) (auto intro!: list_all2_appendI simp: spells_quote)
  have "spells ((((''{'' @ CHR '' '' # join '' && '' (map list_command (Job_Sources job))) @ ''; } >'') @ CHR '' '' # ?lst)
      @ '' && '' @ (((join '' '' ([''tar'', ''--null'', ''-T'', ?lst] @ ?ex @ [''-czf'', shellQuote path])
        @ ''; status=$?; rm -f'') @ CHR '' '' # ?lst) @ ''; exit $status''))
    (((([Arg ''{''] @ sep_toks and_then (map list_tokens (Job_Sources job))) @ [Op (CHR '';''), Arg ''}'', Op (CHR ''>'')])
       @ [Arg (path @ ''.list'')]) @ and_then @
     (((concat (map (\<lambda>w. [Arg w]) [''tar'', ''--null'', ''-T'', path @ ''.list''] @ ?exw @ [[Arg ''-czf''], [Arg path]])
        @ [Op (CHR '';''), Arg ''status='', Op (CHR ''$''), Op (CHR ''?''), Op (CHR '';''), Arg ''rm'', Arg ''-f''])
       @ [Arg (path @ ''.list'')]) @ [Op (CHR '';''), Arg ''exit'', Op (CHR ''$''), Arg ''status'']))"
    by (intro spells_and spells_tail [OF _ exit] spells_tail [OF _ status] spells_tail [OF _ close]
        spells_space spells_const [OF brace] spells_quote lists tar) simp_all
  then show ?thesis by (simp add: includeArchiveCommand_def Let_def comp_def)
qed

lemma archive_command_spells: "spells (archiveCommand job path) (archive_tokens job path)"
proof (cases "list_ex (\<lambda>s. Source_Include s \<noteq> []) (Job_Sources job)")
  case True
  then have "Job_Sources job \<noteq> []" by (cases "Job_Sources job") auto
  from spells_and [OF spells_mkdir include_command_spells [OF this]] True show ?thesis
    by (simp add: archiveCommand_def archive_tokens_def Let_def)
next
  case False
  let ?src = "map (\<lambda>s. shellQuote (Source_RemotePath s)) (Job_Sources job)"
  have words: "spells ''tar'' [Arg ''tar'']" "spells ''&&'' and_then"
    "list_all2 spells [''-czf'', shellQuote path, ''--''] [[Arg ''-czf''], [Arg path], [Arg ''--'']]"
    by (simp_all add: spells_quote, (intro conjI spells_const; code_simp)+)
  have srcs: "list_all2 spells ?src (map (\<lambda>s. [Arg (Source_RemotePath s)]) (Job_Sources job))"
    by (intro spells_map spells_quote)
  have "spells (join '' '' ([''mkdir -p '' @ shellQuote (RemoteJobDirectory job), ''&&'', ''tar''] @
      exclude_args (Job_Sources job) @ [''-czf'', shellQuote path, ''--''] @ ?src))
    (concat ([map Arg [''mkdir'', ''-p'', RemoteJobDirectory job], and_then, [Arg ''tar'']] @
      map (\<lambda>w. [Arg w]) (exclude_words (Job_Sources job)) @ [[Arg ''-czf''], [Arg path], [Arg ''--'']] @
      map (\<lambda>s. [Arg (Source_RemotePath s)]) (Job_Sources job)))"
    by (intro spells_join list_all2_appendI spells_excludes srcs list.rel_intros spells_mkdir words) simp
  then show ?thesis using False by (simp add: archiveCommand_def archive_tokens_def Let_def comp_def)
qed

section \<open>Properties\<close>

text \<open>C9: the shell reads the archive command of any job as the intended commands: every source
  path, exclude pattern, include pattern and archive path is one argument, byte for byte, and
  the only operators and expansions are those of the code's own template.\<close>

theorem archive_command_is_read_as_intended:
  "shell_tokens (archiveCommand job path) = Some (archive_tokens job path)"
  by (rule shell_tokens_spells) (rule archive_command_spells)

text \<open>the shell reads the commands of the checks and of the clean-up as the intended argument
  vectors, whatever bytes a path holds.\<close>

theorem check_commands_are_read_as_intended:
  "shell_tokens (exists_command path) = Some (map Arg [''test'', ''-e'', path]) \<and>
   shell_tokens (readable_command path) = Some (map Arg [''test'', ''-r'', path]) \<and>
   shell_tokens (tool_command path) = Some (map Arg [''command'', ''-v'', path]) \<and>
   shell_tokens (temp_command path) =
     Some (map Arg [''mkdir'', ''-p'', path] @ and_then @ map Arg [''test'', ''-w'', path]) \<and>
   shell_tokens (remove_command path) = Some (map Arg [''rm'', ''-f'', path]) \<and>
   shell_tokens (remove_partial_command path) = Some (map Arg [''rm'', ''-f'', path, path @ ''.list''])"
proof (intro conjI; rule shell_tokens_spells)
  have words: "shell_tokens ''test -e'' = Some (map Arg [''test'', ''-e''])"
    "shell_tokens ''test -r'' = Some (map Arg [''test'', ''-r''])"
    "shell_tokens ''test -w'' = Some (map Arg [''test'', ''-w''])"
    "shell_tokens ''command -v'' = Some (map Arg [''command'', ''-v''])"
    "shell_tokens ''rm -f'' = Some (map Arg [''rm'', ''-f''])"
    by code_simp+
  note spelled = words [THEN spells_const2, OF spells_quote]
  show "spells (exists_command path) (map Arg [''test'', ''-e'', path])"
    using spelled(1) [of path] by (simp add: exists_command_def)
  show "spells (readable_command path) (map Arg [''test'', ''-r'', path])"
    using spelled(2) [of path] by (simp add: readable_command_def)
  show "spells (tool_command path) (map Arg [''command'', ''-v'', path])"
    using spelled(4) [of path] by (simp add: tool_command_def)
  show "spells (temp_command path) (map Arg [''mkdir'', ''-p'', path] @ and_then @ map Arg [''test'', ''-w'', path])"
    using spells_and [OF spells_mkdir spelled(3)] by (simp add: temp_command_def)
  show "spells (remove_command path) (map Arg [''rm'', ''-f'', path])"
    using spelled(5) [of path] by (simp add: remove_command_def)
  show "spells (remove_partial_command path) (map Arg [''rm'', ''-f'', path, path @ ''.list''])"
    using spells_space [OF spelled(5) spells_quote] by (simp add: remove_partial_command_def)
qed

end
