(* ===== verification/Checks.thy ===== *)
theory Checks
  imports Shell "HOL-Library.Word"
begin

text \<open>
  \<^verbatim>\<open>internal/backup/checks.go\<close> and \<^verbatim>\<open>diskspace.go\<close>: the checks that the run engine's PREFLIGHT
  stage and the Validate Job operation share. A check runs commands through a transport,
  which is an argument: a computation of the state monad that maps a command and a timeout to
  an error or the command's result. What the operating system answers (directories, free
  space) is an argument in the same way.
\<close>

section \<open>Results\<close>

record RunResult =
  rr_exit :: int
  rr_stdout :: string
  rr_stderr :: string

record checkResult =
  cr_ok :: bool
  cr_code :: ErrorCode
  cr_message :: string

definition passed :: "string \<Rightarrow> checkResult" where
  "passed message = \<lparr>cr_ok = True, cr_code = NoErrorCode, cr_message = message\<rparr>"

definition failedCheck :: "ErrorCode \<Rightarrow> string \<Rightarrow> checkResult" where
  "failedCheck code message = \<lparr>cr_ok = False, cr_code = code, cr_message = message\<rparr>"

lemma cr_simps [simp]:
  "cr_ok (passed t)" "\<not> cr_ok (failedCheck c t)" "cr_code (failedCheck c t) = c"
  "cr_message (failedCheck c t) = t" "cr_message (passed t) = t"
  by (simp_all add: passed_def failedCheck_def)

type_synonym 's Runner = "string \<Rightarrow> Duration \<Rightarrow> ('s, err + RunResult) state"

text \<open>\<^verbatim>\<open>time.Duration(n) * time.Second\<close> is 64-bit arithmetic.\<close>

definition seconds_duration :: "int \<Rightarrow> Duration" where
  "seconds_duration n = wrap64 (n * second)"

definition runOnTransport :: "'s Runner \<Rightarrow> int \<Rightarrow> string \<Rightarrow> ('s, err + RunResult) state" where
  "runOnTransport run timeoutSeconds cmd = run cmd (seconds_duration timeoutSeconds)"

text \<open>\<^verbatim>\<open>err != nil || res.ExitCode != 0\<close>.\<close>

definition bad_result :: "err + RunResult \<Rightarrow> bool" where
  "bad_result r = (case r of Inl e \<Rightarrow> True | Inr res \<Rightarrow> rr_exit res \<noteq> 0)"

section \<open>Remote checks\<close>

definition checkSourceExists :: "'s Runner \<Rightarrow> int \<Rightarrow> string \<Rightarrow> ('s, checkResult) state" where
  "checkSourceExists run timeoutSeconds path = do {
     res \<leftarrow> runOnTransport run timeoutSeconds (exists_command path);
     ret (if bad_result res
          then failedCheck ErrRemoteSourceNotFound (''source path '' @ path @ '' does not exist on the remote host'')
          else passed (''source path '' @ path @ '' exists''))
   }"

definition checkSourceReadable :: "'s Runner \<Rightarrow> int \<Rightarrow> string \<Rightarrow> ('s, checkResult) state" where
  "checkSourceReadable run timeoutSeconds path = do {
     r \<leftarrow> checkSourceExists run timeoutSeconds path;
     if \<not> cr_ok r then ret r
     else do {
       res \<leftarrow> runOnTransport run timeoutSeconds (readable_command path);
       ret (if bad_result res
            then failedCheck ErrRemotePermissionDenied
              (''source path '' @ path @ '' is not readable by the configured user'')
            else passed (''source path '' @ path @ '' is readable''))
     }
   }"

definition checkToolAvailable :: "'s Runner \<Rightarrow> int \<Rightarrow> string \<Rightarrow> ('s, checkResult) state" where
  "checkToolAvailable run timeoutSeconds tool = do {
     res \<leftarrow> runOnTransport run timeoutSeconds (tool_command tool);
     ret (if bad_result res
          then failedCheck ErrRemoteToolMissing (''required remote utility '' @ go_quote tool @ '' is not available'')
          else passed (tool @ '' is available''))
   }"

definition checkRemoteTempWritable :: "'s Runner \<Rightarrow> int \<Rightarrow> string \<Rightarrow> ('s, checkResult) state" where
  "checkRemoteTempWritable run timeoutSeconds dir = do {
     res \<leftarrow> runOnTransport run timeoutSeconds (temp_command dir);
     ret (if bad_result res
          then failedCheck ErrRemotePermissionDenied (''remote temporary directory '' @ dir @ '' is not writable'')
          else passed (''remote temporary directory '' @ dir @ '' is writable''))
   }"

text \<open>A measured size, or \<open>None\<close> for the Go result \<^verbatim>\<open>known = false\<close>.\<close>

definition parse_measure :: "err + RunResult \<Rightarrow> int option" where
  "parse_measure r =
     (case r of
        Inl e \<Rightarrow> None
      | Inr res \<Rightarrow> if rr_exit res \<noteq> 0 then None else parse_int (trim_space (rr_stdout res)))"

definition estimateSourceSize :: "'s Runner \<Rightarrow> int \<Rightarrow> Source list \<Rightarrow> ('s, int option) state" where
  "estimateSourceSize run timeoutSeconds sources = do {
     res \<leftarrow> runOnTransport run timeoutSeconds (size_command sources);
     ret (parse_measure res)
   }"

definition measureRemoteFreeSpace :: "'s Runner \<Rightarrow> int \<Rightarrow> string \<Rightarrow> ('s, int option) state" where
  "measureRemoteFreeSpace run timeoutSeconds remoteTempDir = do {
     res \<leftarrow> runOnTransport run timeoutSeconds (free_command remoteTempDir);
     ret (parse_measure res)
   }"

definition checkRemoteFreeSpace :: "int option \<Rightarrow> int option \<Rightarrow> checkResult" where
  "checkRemoteFreeSpace remoteFree sourceSize =
     (case remoteFree of
        None \<Rightarrow> passed ''remote free space could not be measured; continuing without a space check''
      | Some free \<Rightarrow>
          (case sourceSize of
             Some need \<Rightarrow>
               if need > free
               then failedCheck ErrRemoteNoSpace (''estimated source size '' @ itoa need @
                 '' bytes exceeds remote free space '' @ itoa free @ '' bytes'')
               else passed (''remote free space: '' @ itoa free @ '' bytes'')
           | None \<Rightarrow> passed (''remote free space: '' @ itoa free @ '' bytes'')))"

section \<open>Local checks\<close>

text \<open>
  The operating system, as computations of the state: creating a directory, creating a probe
  file in it (and removing it), and the free bytes of the volume, an unsigned 64-bit number
  that the code converts to a signed one.
\<close>

record 's LocalOS =
  os_mkdir :: "string \<Rightarrow> ('s, err option) state"
  os_probe :: "string \<Rightarrow> ('s, err option) state"
  os_free :: "string \<Rightarrow> ('s, err + 64 word) state"

definition checkLocalDestinationWritable :: "'s LocalOS \<Rightarrow> string \<Rightarrow> ('s, checkResult) state" where
  "checkLocalDestinationWritable os dir = do {
     m \<leftarrow> os_mkdir os dir;
     case m of
       Some e \<Rightarrow> ret (failedCheck ErrLocalPermissionDenied
         (''local destination '' @ dir @ '' could not be created: '' @ Error e))
     | None \<Rightarrow> do {
         p \<leftarrow> os_probe os dir;
         ret (case p of
                Some e \<Rightarrow> failedCheck ErrLocalPermissionDenied
                  (''local destination '' @ dir @ '' is not writable: '' @ Error e)
              | None \<Rightarrow> passed (''local destination '' @ dir @ '' is writable''))
       }
   }"

definition localFreeBytes :: "'s LocalOS \<Rightarrow> string \<Rightarrow> ('s, err + int) state" where
  "localFreeBytes os dir = do {
     r \<leftarrow> os_free os dir;
     ret (case r of Inl e \<Rightarrow> Inl e | Inr w \<Rightarrow> Inr (sint w))
   }"

definition measureLocalFreeSpace :: "'s LocalOS \<Rightarrow> string \<Rightarrow> ('s, int option) state" where
  "measureLocalFreeSpace os dir = do {
     r \<leftarrow> localFreeBytes os dir;
     ret (case r of Inl e \<Rightarrow> None | Inr free \<Rightarrow> Some free)
   }"

definition checkLocalFreeSpace :: "string \<Rightarrow> int option \<Rightarrow> int option \<Rightarrow> checkResult" where
  "checkLocalFreeSpace dir localFree sourceSize =
     (case localFree of
        None \<Rightarrow> passed ''local free space could not be measured; continuing without a space check''
      | Some free \<Rightarrow>
          (case sourceSize of
             Some need \<Rightarrow>
               if need > free
               then failedCheck ErrLocalNoSpace (''estimated source size '' @ itoa need @
                 '' bytes exceeds local free space '' @ itoa free @ '' bytes on '' @ dir)
               else passed (''local free space: '' @ itoa free @ '' bytes'')
           | None \<Rightarrow> passed (''local free space: '' @ itoa free @ '' bytes'')))"

section \<open>Facts\<close>

text \<open>A space check only fails on two measured sizes, the source larger than the space.\<close>

lemma remote_space_ok: "cr_ok (checkRemoteFreeSpace free src) \<longleftrightarrow>
    \<not> (\<exists>f s. free = Some f \<and> src = Some s \<and> f < s)"
  by (auto simp: checkRemoteFreeSpace_def split: option.splits)

lemma local_space_ok: "cr_ok (checkLocalFreeSpace dir free src) \<longleftrightarrow>
    \<not> (\<exists>f s. free = Some f \<and> src = Some s \<and> f < s)"
  by (auto simp: checkLocalFreeSpace_def split: option.splits)

lemma parse_measure_range: "parse_measure r = Some n \<Longrightarrow> int64_range n"
  by (auto simp: parse_measure_def intro: parse_int_range split: sum.splits if_splits)

end
