(* ===== verification/Engine_State.thy ===== *)
theory Engine_State
  imports Checks
begin

text \<open>
  The state of one backup run (\<^verbatim>\<open>runContext\<close> of \<^verbatim>\<open>internal/backup/runcontext.go\<close>, the step
  recorder, the cleanup registry) and what the run engine asks of the world.

  The world answers each call: the transport, the stores, the clock, the local file system and
  the cancellation of the run's context. An answer may depend on everything that happened
  before, so every oracle of the environment takes the trace of the run's events so far, newest
  first, and every call appends an event with its answer. A theorem over all environments
  therefore holds for every behaviour of a server, a database or a user who cancels.
\<close>

section \<open>Events\<close>

text \<open>
  \<open>RunCtx\<close> is the run's own context, \<open>DetachedCtx\<close> is \<^verbatim>\<open>context.WithoutCancel\<close> of it and
  \<open>CleanupCtx\<close> the detached context with the cleanup budget as its timeout.
\<close>

datatype Ctx = RunCtx | DetachedCtx | CleanupCtx

datatype Event =
    EvNow Time
  | EvConnect "err option"
  | EvClose
  | EvRun Ctx string Duration "err + RunResult"
  | EvDownload string string "err option"
  | EvStepCreate Ctx RunStep int "err option"
  | EvStepUpdate Ctx RunStep "err option"
  | EvRunCreate Run "err option"
  | EvRunUpdate Ctx Run "err option"
  | EvLockAcquire string string string "err option"
  | EvLockRelease Ctx string "err option"
  | EvMkdir string "err option"
  | EvProbe string "err option"
  | EvFree string "err + 64 word"
  | EvCreateFile string "err option"
  | EvSync string "err option"
  | EvRename string string "err option"
  | EvRemove string "err option"
  | EvStat string "err option"
  | EvSleep Duration "err option"
  | EvRetention "string list" "string list" "err option"
  | EvRunStarted Run
  | EvStepChanged RunStep
  | EvRunFinished Run
  | EvAttempt Script

text \<open>
  \<open>EvAttempt\<close> is not a call: it marks the point where \<^verbatim>\<open>runScriptRecorded\<close> is entered, so that
  theorems can count how often each script was attempted. \<open>EvRetention\<close> holds the paths of the files
  that \<^verbatim>\<open>Apply\<close> removed, its warnings and its error.
\<close>

type_synonym Trace = "Event list"

section \<open>The environment of a run\<close>

record Env =
  e_job :: Job
  e_server :: Server
  e_destDir :: string
  e_trigger :: Trigger
  e_pid :: int
  e_cron :: Cron
  e_rand :: Rand
  e_redact :: "string \<Rightarrow> string"
  e_has_events :: bool
  e_has_retention :: bool
  e_sha256 :: "string \<Rightarrow> string"
  e_ctx_err :: "Trace \<Rightarrow> err option"
  e_clock :: "Trace \<Rightarrow> Time"
  e_connect :: "Trace \<Rightarrow> err option"
  e_run :: "Ctx \<Rightarrow> string \<Rightarrow> Duration \<Rightarrow> Trace \<Rightarrow> err + RunResult"
  e_download :: "string \<Rightarrow> Trace \<Rightarrow> string \<times> err option"
  e_create_step :: "Ctx \<Rightarrow> RunStep \<Rightarrow> int \<Rightarrow> Trace \<Rightarrow> err option"
  e_update_step :: "Ctx \<Rightarrow> RunStep \<Rightarrow> Trace \<Rightarrow> err option"
  e_create_run :: "Run \<Rightarrow> Trace \<Rightarrow> err option"
  e_update_run :: "Ctx \<Rightarrow> Run \<Rightarrow> Trace \<Rightarrow> err option"
  e_acquire :: "string \<Rightarrow> string \<Rightarrow> string \<Rightarrow> int \<Rightarrow> Trace \<Rightarrow> err option"
  e_release :: "Ctx \<Rightarrow> string \<Rightarrow> Trace \<Rightarrow> err option"
  e_file_op :: "string \<Rightarrow> string \<Rightarrow> Trace \<Rightarrow> err option"
  e_local_free :: "string \<Rightarrow> Trace \<Rightarrow> err + 64 word"
  e_sleep :: "Duration \<Rightarrow> Trace \<Rightarrow> err option"
  e_retention :: "Trace \<Rightarrow> string list \<times> string list \<times> err option"

section \<open>The state of a run\<close>

record cleanupEntry =
  en_description :: string
  en_script :: Script
  en_stepType :: StepType
  en_done :: bool

record Rc =
  rc_run :: Run
  rc_position :: int
  rc_entries :: "cleanupEntry list"
  rc_tokens :: "(Script \<times> nat) list"
  rc_transport :: bool
  rc_failed :: bool
  rc_hasWarn :: bool
  rc_cancelled :: bool
  rc_recoveryOut :: RecoveryOutcome
  rc_recoveryAttempted :: bool
  rc_remoteArchivePath :: string
  rc_localPartPath :: string
  rc_archiveVerified :: bool
  rc_ids :: nat
  rc_files :: "string \<rightharpoonup> string"
  rc_trace :: Trace

definition blank_run :: Run where
  "blank_run = NewRun [] zero_time [] [] [] TriggerManual"

text \<open>The state before \<^verbatim>\<open>beginRun\<close>: nothing happened, and the local files are what they are.\<close>

definition rc_start :: "(string \<rightharpoonup> string) \<Rightarrow> Rc" where
  "rc_start files = \<lparr>rc_run = blank_run, rc_position = 0, rc_entries = [], rc_tokens = [],
     rc_transport = False, rc_failed = False, rc_hasWarn = False, rc_cancelled = False,
     rc_recoveryOut = RecoveryNotApplicable, rc_recoveryAttempted = False,
     rc_remoteArchivePath = [], rc_localPartPath = [], rc_archiveVerified = False,
     rc_ids = 0, rc_files = files, rc_trace = []\<rparr>"

type_synonym 'a Step = "(Rc, 'a) state"

section \<open>Calls\<close>

definition ask :: "(Trace \<Rightarrow> 'r) \<Rightarrow> ('r \<Rightarrow> Event) \<Rightarrow> 'r Step" where
  "ask f ev = State (\<lambda>s. let r = f (rc_trace s) in (r, s\<lparr>rc_trace := ev r # rc_trace s\<rparr>))"

definition record_event :: "Event \<Rightarrow> unit Step" where
  "record_event ev = modify (\<lambda>s. s\<lparr>rc_trace := ev # rc_trace s\<rparr>)"

lemma run_ask [simp, run_simps]:
  "run_state (ask f ev) s = (f (rc_trace s), s\<lparr>rc_trace := ev (f (rc_trace s)) # rc_trace s\<rparr>)"
  by (simp add: ask_def Let_def)

definition now :: "Env \<Rightarrow> Time Step" where
  "now env = ask (e_clock env) EvNow"

definition transport_run :: "Env \<Rightarrow> Ctx \<Rightarrow> string \<Rightarrow> Duration \<Rightarrow> (err + RunResult) Step" where
  "transport_run env ctx cmd t = ask (e_run env ctx cmd t) (EvRun ctx cmd t)"

text \<open>\<^verbatim>\<open>runRemote\<close>: the server's default command timeout, on the run's own context.\<close>

definition runRemote :: "Env \<Rightarrow> string \<Rightarrow> (err + RunResult) Step" where
  "runRemote env cmd = runOnTransport (transport_run env RunCtx) (Server_CommandTimeoutSeconds (e_server env)) cmd"

text \<open>A file operation of the operating system, by its name and path.\<close>

definition file_op :: "Env \<Rightarrow> string \<Rightarrow> string \<Rightarrow> (err option \<Rightarrow> Event) \<Rightarrow> (err option) Step" where
  "file_op env op path ev = ask (e_file_op env op path) ev"

definition local_os :: "Env \<Rightarrow> Rc LocalOS" where
  "local_os env = \<lparr>
     os_mkdir = (\<lambda>dir. file_op env ''mkdir'' dir (EvMkdir dir)),
     os_probe = (\<lambda>dir. file_op env ''probe'' dir (EvProbe dir)),
     os_free = (\<lambda>dir. ask (e_local_free env dir) (EvFree dir))\<rparr>"

text \<open>
  \<^verbatim>\<open>filepath.Join\<close> of a directory and a file name, for a directory in its cleaned form and a
  name without separators.
\<close>

definition path_join :: "string \<Rightarrow> string \<Rightarrow> string" where
  "path_join dir name =
     (if dir = [] then name
      else if last dir = CHR 0x5C then dir @ name
      else dir @ [CHR 0x5C] @ name)"

definition set_file :: "string \<Rightarrow> string option \<Rightarrow> unit Step" where
  "set_file path content = modify (\<lambda>s. s\<lparr>rc_files := (rc_files s)(path := content)\<rparr>)"

section \<open>Outcome bookkeeping\<close>

definition fail :: "ErrorCode \<Rightarrow> string \<Rightarrow> unit Step" where
  "fail code message = modify (\<lambda>s.
     if rc_failed s then s
     else s\<lparr>rc_failed := True,
            rc_run := (rc_run s)\<lparr>Run_ErrorCode := code, Run_ErrorMessage := message\<rparr>\<rparr>)"

definition warn :: "ErrorCode \<Rightarrow> string \<Rightarrow> unit Step" where
  "warn code message = modify (\<lambda>s.
     let s1 = s\<lparr>rc_hasWarn := True\<rparr>
     in if \<not> rc_failed s1 \<and> ErrorCode_str (Run_ErrorCode (rc_run s1)) = []
        then s1\<lparr>rc_run := (rc_run s1)\<lparr>Run_ErrorCode := code, Run_ErrorMessage := message\<rparr>\<rparr>
        else s1)"

definition recordRecovery :: "err option \<Rightarrow> unit Step" where
  "recordRecovery e = modify (\<lambda>s.
     let s1 = s\<lparr>rc_recoveryAttempted := True\<rparr>
     in case e of
          Some _ \<Rightarrow> s1\<lparr>rc_recoveryOut := RecoveryFailed\<rparr>
        | None \<Rightarrow> if rc_recoveryOut s1 \<noteq> RecoveryFailed then s1\<lparr>rc_recoveryOut := RecoverySuccess\<rparr> else s1)"

definition finalStatus :: "Rc \<Rightarrow> RunStatus" where
  "finalStatus s =
     (if rc_cancelled s then RunCancelled
      else if rc_failed s then RunFailed
      else if rc_hasWarn s then RunWarning
      else RunSuccess)"

definition checkCancelled :: "Env \<Rightarrow> bool Step" where
  "checkCancelled env = do {
     h \<leftarrow> gets rc_trace;
     case e_ctx_err env h of
       None \<Rightarrow> ret False
     | Some e \<Rightarrow> do { modify (\<lambda>s. s\<lparr>rc_cancelled := True\<rparr>); ret True }
   }"

section \<open>The step recorder\<close>

definition new_step :: "Env \<Rightarrow> Time \<Rightarrow> StepType \<Rightarrow> (err + RunStep) Step" where
  "new_step env t st = State (\<lambda>s.
     (case NewID (e_rand env) (rc_ids s) of
        Inl e \<Rightarrow> Inl e
      | Inr ident \<Rightarrow> Inr (NewRunStep ident t (Run_ID (rc_run s)) st),
      s\<lparr>rc_ids := Suc (rc_ids s)\<rparr>))"

definition step_changed :: "Env \<Rightarrow> RunStep \<Rightarrow> unit Step" where
  "step_changed env step = when_do (e_has_events env) (record_event (EvStepChanged step))"

definition persist_step :: "Env \<Rightarrow> Ctx \<Rightarrow> RunStep \<Rightarrow> (err + unit) Step" where
  "persist_step env ctx step = do {
     pos \<leftarrow> gets rc_position;
     r \<leftarrow> ask (e_create_step env ctx step pos) (EvStepCreate ctx step pos);
     case r of
       Some e \<Rightarrow> ret (Inl e)
     | None \<Rightarrow> do { modify (\<lambda>s. s\<lparr>rc_position := rc_position s + 1\<rparr>); ret (Inr ()) }
   }"

definition steps_Start :: "Env \<Rightarrow> Ctx \<Rightarrow> StepType \<Rightarrow> (err + RunStep) Step" where
  "steps_Start env ctx st = do {
     t \<leftarrow> now env;
     try_do (new_step env t st) (\<lambda>step.
     try_do (persist_step env ctx step) (\<lambda>_. ret (Inr step)))
   }"

definition steps_Finish :: "Env \<Rightarrow> Ctx \<Rightarrow> RunStep \<Rightarrow> (err option) Step" where
  "steps_Finish env ctx step = do {
     r \<leftarrow> ask (e_update_step env ctx step) (EvStepUpdate ctx step);
     case r of
       Some e \<Rightarrow> ret (Some e)
     | None \<Rightarrow> do { step_changed env step; ret None }
   }"

definition steps_Skip :: "Env \<Rightarrow> Ctx \<Rightarrow> StepType \<Rightarrow> string \<Rightarrow> string \<Rightarrow> (err option) Step" where
  "steps_Skip env ctx st reason command = do {
     t \<leftarrow> now env;
     r \<leftarrow> new_step env t st;
     case r of
       Inl e \<Rightarrow> ret (Some e)
     | Inr step0 \<Rightarrow> do {
         let step = Step_Skip t reason (step0\<lparr>Step_Command := command\<rparr>);
         p \<leftarrow> persist_step env ctx step;
         case p of
           Inl e \<Rightarrow> ret (Some e)
         | Inr _ \<Rightarrow> do { step_changed env step; ret None }
       }
   }"

definition stepStatus :: "bool \<Rightarrow> StepStatus" where
  "stepStatus ok = (if ok then StepSuccess else StepFailed)"

text \<open>
  The end of every stage: \<^verbatim>\<open>step.Finish(rc.now(), status)\<close>, then \<^verbatim>\<open>steps.Finish\<close>, whose error is
  only logged.
\<close>

definition close_step :: "Env \<Rightarrow> Ctx \<Rightarrow> StepStatus \<Rightarrow> RunStep \<Rightarrow> unit Step" where
  "close_step env ctx status step = do {
     t \<leftarrow> now env;
     steps_Finish env ctx (Step_Finish t status step);
     ret ()
   }"

text \<open>\<^verbatim>\<open>step.Error = rc.run.ErrorMessage\<close>.\<close>

definition with_run_error :: "RunStep \<Rightarrow> RunStep Step" where
  "with_run_error step = gets (\<lambda>s. step\<lparr>Step_Error := Run_ErrorMessage (rc_run s)\<rparr>)"

section \<open>The cleanup registry\<close>

definition Register :: "string \<Rightarrow> Script \<Rightarrow> StepType \<Rightarrow> nat Step" where
  "Register description script st = do {
     es \<leftarrow> gets rc_entries;
     modify (\<lambda>s. s\<lparr>rc_entries := es @ [\<lparr>en_description = description, en_script = script,
       en_stepType = st, en_done = False\<rparr>]\<rparr>);
     ret (length es)
   }"

definition MarkDone :: "nat \<Rightarrow> unit Step" where
  "MarkDone i = modify (\<lambda>s. s\<lparr>rc_entries := (rc_entries s)[i := (rc_entries s ! i)\<lparr>en_done := True\<rparr>]\<rparr>)"

text \<open>\<^verbatim>\<open>Drain\<close> collects the entries not done, then runs and marks them one by one.\<close>

definition pending_entries :: "cleanupEntry list \<Rightarrow> nat list" where
  "pending_entries es = filter (\<lambda>i. \<not> en_done (es ! i)) [0 ..< length es]"

primrec drain_entries :: "(cleanupEntry \<Rightarrow> (err option) Step) \<Rightarrow> nat list \<Rightarrow> (string \<times> err option) list Step" where
  "drain_entries run [] = ret []"
| "drain_entries run (i # is) = do {
     es \<leftarrow> gets rc_entries;
     e \<leftarrow> run (es ! i);
     MarkDone i;
     outs \<leftarrow> drain_entries run is;
     ret ((en_description (es ! i), e) # outs)
   }"

definition Drain :: "(cleanupEntry \<Rightarrow> (err option) Step) \<Rightarrow> (string \<times> err option) list Step" where
  "Drain run = do {
     es \<leftarrow> gets rc_entries;
     drain_entries run (pending_entries es)
   }"

end
