(* ===== verification/Retention.thy ===== *)
theory Retention
  imports Store_Runs Engine_State Shell
begin

text \<open>
  \<^verbatim>\<open>internal/retention\<close>: which of a job's archives its retention policy gives up, and the sweep that
  deletes their files and clears their names in the run history; and the search for stale archives
  on the remote host. The run history is the database of \<^verbatim>\<open>internal/store\<close>, the local files a list
  of paths; \<^verbatim>\<open>os.Remove\<close> may fail on any path.
\<close>

section \<open>State\<close>

record RetentionState =
  ret_db :: Db
  ret_files :: "string list"

record RetentionEnv =
  re_now :: Time
  re_remove_fault :: "string \<Rightarrow> err option"
  re_general :: TimeParser

definition on_db :: "'a Sql \<Rightarrow> (RetentionState, err + 'a) state" where
  "on_db m = State (\<lambda>s. let (r, db) = run_state m (ret_db s) in (r, s\<lparr>ret_db := db\<rparr>))"

definition os_remove :: "RetentionEnv \<Rightarrow> string \<Rightarrow> (RetentionState, err option) state" where
  "os_remove env path = State (\<lambda>s.
     case re_remove_fault env path of
       Some e \<Rightarrow> (Some e, s)
     | None \<Rightarrow>
         if path \<in> set (ret_files s) then (None, s\<lparr>ret_files := removeAll path (ret_files s)\<rparr>)
         else (Some (NotExist (''remove '' @ path)), s))"

definition os_is_not_exist :: "err \<Rightarrow> bool" where
  "os_is_not_exist e = (case e of NotExist _ \<Rightarrow> True | _ \<Rightarrow> False)"

section \<open>The policy\<close>

definition shouldDelete :: "RetentionPolicy \<Rightarrow> nat \<Rightarrow> Time \<Rightarrow> Time \<Rightarrow> bool \<Rightarrow> bool" where
  "shouldDelete policy index startedAt cutoff hasCutoff =
     (let withinKeepLast = (case KeepLast policy of None \<Rightarrow> False | Some k \<Rightarrow> int index < k);
          withinMaxAge = (hasCutoff \<and> \<not> before_time startedAt cutoff)
      in if KeepLast policy \<noteq> None \<and> MaxAgeDays policy \<noteq> None then \<not> withinKeepLast \<and> \<not> withinMaxAge
         else if KeepLast policy \<noteq> None then \<not> withinKeepLast
         else if MaxAgeDays policy \<noteq> None then \<not> withinMaxAge
         else False)"

definition retention_cutoff :: "RetentionEnv \<Rightarrow> RetentionPolicy \<Rightarrow> Time" where
  "retention_cutoff env policy =
     (case MaxAgeDays policy of None \<Rightarrow> zero_time | Some d \<Rightarrow> add_date (re_now env) 0 0 (- d))"

definition doomed :: "RetentionEnv \<Rightarrow> Job \<Rightarrow> nat \<times> Run \<Rightarrow> bool" where
  "doomed env job ir = shouldDelete (Job_RetentionPolicy job) (fst ir) (Run_StartedAt (snd ir))
     (retention_cutoff env (Job_RetentionPolicy job)) (MaxAgeDays (Job_RetentionPolicy job) \<noteq> None)"

section \<open>The sweep\<close>

definition archive_path :: "Job \<Rightarrow> Run \<Rightarrow> string" where
  "archive_path job run = path_join (Job_LocalDestination job) (Run_ArchiveName run)"

text \<open>One turn of the loop, with the number of deletions and the warnings so far.\<close>

definition sweep_one :: "RetentionEnv \<Rightarrow> Job \<Rightarrow> nat \<times> Run \<Rightarrow> nat \<times> string list \<Rightarrow> (RetentionState, nat \<times> string list) state" where
  "sweep_one env job ir acc =
     (let (deleted, warnings) = acc; run = snd ir
      in if \<not> doomed env job ir then ret (deleted, warnings)
         else do {
           rmErr \<leftarrow> os_remove env (archive_path job run);
           case (case rmErr of Some e \<Rightarrow> if os_is_not_exist e then None else Some e | None \<Rightarrow> None) of
             Some e \<Rightarrow> ret (deleted, warnings @ [''could not delete archive '' @ Run_ArchiveName run @ '': '' @ Error e])
           | None \<Rightarrow> do {
               r \<leftarrow> on_db (UpdateRun (run\<lparr>Run_ArchiveName := []\<rparr>));
               ret (case r of
                      Inl e \<Rightarrow> (deleted, warnings @ [''deleted '' @ archive_path job run @ '' but could not update its history record: '' @ Error e])
                    | Inr _ \<Rightarrow> (deleted + 1, warnings))
             }
         })"

primrec sweep :: "RetentionEnv \<Rightarrow> Job \<Rightarrow> (nat \<times> Run) list \<Rightarrow> nat \<times> string list \<Rightarrow> (RetentionState, nat \<times> string list) state" where
  "sweep env job [] acc = ret acc"
| "sweep env job (ir # irs) acc = do { acc' \<leftarrow> sweep_one env job ir acc; sweep env job irs acc' }"

definition Apply :: "RetentionEnv \<Rightarrow> Job \<Rightarrow> (RetentionState, err + nat \<times> string list) state" where
  "Apply env job =
     (if \<not> HasLimit (Job_RetentionPolicy job) then ret (Inr (0, []))
      else do {
        r \<leftarrow> on_db (ListArchived (re_general env) (Job_ID job));
        case r of
          Inl e \<Rightarrow> ret (Inl (Wrapped (''list archived runs for job '' @ go_quote (Job_ID job)) e))
        | Inr runs \<Rightarrow> do { acc \<leftarrow> sweep env job (List.enumerate 0 runs) (0, []); ret (Inr acc) }
      })"

section \<open>Facts\<close>

lemma run_on_db [run_simps]:
  "run_state (on_db m) s = (fst (run_state m (ret_db s)), s\<lparr>ret_db := snd (run_state m (ret_db s))\<rparr>)"
  by (simp add: on_db_def Let_def split: prod.split)

lemma run_os_remove [run_simps]:
  "run_state (os_remove env path) s =
     (case re_remove_fault env path of
        Some e \<Rightarrow> (Some e, s)
      | None \<Rightarrow>
          if path \<in> set (ret_files s) then (None, s\<lparr>ret_files := removeAll path (ret_files s)\<rparr>)
          else (Some (NotExist (''remove '' @ path)), s))"
  by (simp add: os_remove_def)

text \<open>\<open>D\<close> are the runs whose file and history the sweep may touch.\<close>

definition spares :: "Job \<Rightarrow> Run list \<Rightarrow> RetentionState \<Rightarrow> RetentionState \<Rightarrow> bool" where
  "spares job D s t \<longleftrightarrow> set (ret_files t) \<subseteq> set (ret_files s) \<and>
     set (ret_files s) - set (ret_files t) \<subseteq> archive_path job ` set D \<and>
     (\<exists>f. t_runs (db_tables (ret_db t)) = map f (t_runs (db_tables (ret_db s))) \<and>
        (\<forall>row. rr_id (f row) = rr_id row \<and> (rr_id row \<notin> Run_ID ` set D \<longrightarrow> f row = row)))"

lemma spares_refl: "spares job D s s"
  unfolding spares_def by (auto intro: exI [of _ id])

lemma spares_trans:
  assumes "spares job D s t" "spares job D t u"
  shows "spares job D s u"
proof -
  from assms obtain f g where "t_runs (db_tables (ret_db t)) = map f (t_runs (db_tables (ret_db s)))"
      "t_runs (db_tables (ret_db u)) = map g (t_runs (db_tables (ret_db t)))"
    and fg: "\<And>row. rr_id (f row) = rr_id row" "\<And>row. rr_id row \<notin> Run_ID ` set D \<Longrightarrow> f row = row"
      "\<And>row. rr_id (g row) = rr_id row" "\<And>row. rr_id row \<notin> Run_ID ` set D \<Longrightarrow> g row = row"
    unfolding spares_def by blast
  then have "t_runs (db_tables (ret_db u)) = map (g \<circ> f) (t_runs (db_tables (ret_db s)))" by simp
  moreover have "rr_id ((g \<circ> f) row) = rr_id row \<and> (rr_id row \<notin> Run_ID ` set D \<longrightarrow> (g \<circ> f) row = row)" for row
    using fg by simp
  ultimately show ?thesis using assms unfolding spares_def by blast
qed

interpretation spares: state_preorder "spares job D"
  by unfold_locales (rule spares_refl, rule spares_trans)

lemma spares_update:
  assumes "run \<in> set D"
  shows "state_io_rel (spares job D) (on_db (UpdateRun (run\<lparr>Run_ArchiveName := n\<rparr>)))"
  unfolding state_io_rel_def
proof
  fix s
  let ?f = "\<lambda>row. if rr_id row = Run_ID run then set_run_columns (run_row (run\<lparr>Run_ArchiveName := n\<rparr>)) row else row"
  have "db_tables (snd (run_state (UpdateRun (run\<lparr>Run_ArchiveName := n\<rparr>)) db)) = db_tables db \<or>
      t_runs (db_tables (snd (run_state (UpdateRun (run\<lparr>Run_ArchiveName := n\<rparr>)) db))) = map ?f (t_runs (db_tables db))" for db
    by (simp add: UpdateRun_def run_try_do run_wrap_err run_exec run_checkRowsAffected update_run_rows_def update_rows_def
      Let_def split: option.split)
  moreover have "rr_id (?f row) = rr_id row \<and> (rr_id row \<notin> Run_ID ` set D \<longrightarrow> ?f row = row)" for row
    using assms by (auto simp: set_run_columns_def)
  moreover have "spares job D s (s\<lparr>ret_db := db\<rparr>)" if "db_tables db = db_tables (ret_db s)" for db
    using that unfolding spares_def by (auto intro: exI [of _ id])
  moreover have "spares job D s (s\<lparr>ret_db := db\<rparr>)" if "t_runs (db_tables db) = map f (t_runs (db_tables (ret_db s)))"
      and "\<And>row. rr_id (f row) = rr_id row \<and> (rr_id row \<notin> Run_ID ` set D \<longrightarrow> f row = row)" for db f
    using that unfolding spares_def by auto
  ultimately show "spares job D s (snd (run_state (on_db (UpdateRun (run\<lparr>Run_ArchiveName := n\<rparr>))) s))"
    by (simp only: run_on_db snd_conv) blast
qed

lemma spares_remove:
  assumes "run \<in> set D"
  shows "state_io_rel (spares job D) (os_remove env (archive_path job run))"
  using assms spares_refl unfolding state_io_rel_def spares_def
  by (auto simp: run_os_remove intro: exI [of _ id] split: option.split)

lemma spares_read: "read_only m \<Longrightarrow> state_io_rel (spares job D) (on_db m)"
  unfolding state_io_rel_def spares_def read_only_def by (auto simp: run_on_db intro: exI [of _ id])

lemma spares_sweep_one:
  assumes "doomed env job ir \<Longrightarrow> snd ir \<in> set D"
  shows "state_io_rel (spares job D) (sweep_one env job ir acc)"
  unfolding sweep_one_def Let_def
  by (intro spares.io_prod spares.io_if spares.io_return spares.io_bind spares.io_option spares_remove spares_update)
    (use assms in auto)

lemma spares_sweep:
  assumes "\<And>ir. ir \<in> set irs \<Longrightarrow> doomed env job ir \<Longrightarrow> snd ir \<in> set D"
  shows "state_io_rel (spares job D) (sweep env job irs acc)"
  using assms
proof (induction irs arbitrary: acc)
  case (Cons ir irs)
  show ?case unfolding sweep.simps
    by (rule spares.io_bind [OF spares_sweep_one Cons.IH]) (use Cons.prems in auto)
qed (simp add: spares.io_return)

section \<open>What the policy gives up\<close>

text \<open>
  The runs beyond the newest \<open>KeepLast\<close> that are also older than \<open>MaxAgeDays\<close>; a limit that is not
  set does not protect, and with no limit nothing is given up.
\<close>

definition given_up :: "RetentionEnv \<Rightarrow> RetentionPolicy \<Rightarrow> Run list \<Rightarrow> Run list" where
  "given_up env policy runs = (if \<not> HasLimit policy then [] else
     map snd (filter (\<lambda>(i, run). pred_option (\<lambda>k. k \<le> int i) (KeepLast policy) \<and>
       pred_option (\<lambda>d. before_time (Run_StartedAt run) (add_date (re_now env) 0 0 (- d))) (MaxAgeDays policy))
       (List.enumerate 0 runs)))"

lemma doomed_iff:
  "doomed env job (i, run) \<longleftrightarrow> HasLimit (Job_RetentionPolicy job) \<and>
     pred_option (\<lambda>k. k \<le> int i) (KeepLast (Job_RetentionPolicy job)) \<and>
     pred_option (\<lambda>d. before_time (Run_StartedAt run) (add_date (re_now env) 0 0 (- d))) (MaxAgeDays (Job_RetentionPolicy job))"
  by (cases "KeepLast (Job_RetentionPolicy job)"; cases "MaxAgeDays (Job_RetentionPolicy job)")
    (auto simp: doomed_def shouldDelete_def HasLimit_def retention_cutoff_def)

lemma given_up_doomed:
  "given_up env (Job_RetentionPolicy job) runs = map snd (filter (doomed env job) (List.enumerate 0 runs))"
proof -
  have "doomed env job = (\<lambda>(i, run). HasLimit (Job_RetentionPolicy job) \<and>
     pred_option (\<lambda>k. k \<le> int i) (KeepLast (Job_RetentionPolicy job)) \<and>
     pred_option (\<lambda>d. before_time (Run_StartedAt run) (add_date (re_now env) 0 0 (- d))) (MaxAgeDays (Job_RetentionPolicy job)))"
    by (rule ext) (simp add: doomed_iff split: prod.split)
  then show ?thesis by (auto simp: given_up_def)
qed

definition archived_runs :: "RetentionEnv \<Rightarrow> Job \<Rightarrow> RetentionState \<Rightarrow> err + Run list" where
  "archived_runs env job s = fst (run_state (ListArchived (re_general env) (Job_ID job)) (ret_db s))"

lemma apply_spares:
  "spares job (case archived_runs env job s of Inl e \<Rightarrow> [] | Inr runs \<Rightarrow> given_up env (Job_RetentionPolicy job) runs)
     s (snd (run_state (Apply env job) s))"
proof (cases "HasLimit (Job_RetentionPolicy job)")
  case False
  then show ?thesis by (simp add: Apply_def spares_refl)
next
  case True
  let ?s1 = "s\<lparr>ret_db := snd (run_state (ListArchived (re_general env) (Job_ID job)) (ret_db s))\<rparr>"
  have "read_only (ListArchived (re_general env) (Job_ID job))"
    unfolding ListArchived_def by (rule read_only_rows)
  from spares_read [OF this, where job = job] have list: "spares job D s ?s1" for D
    unfolding state_io_rel_def by (metis run_on_db snd_conv)
  show ?thesis
  proof (cases "archived_runs env job s")
    case (Inl e)
    with True list show ?thesis by (simp add: Apply_def run_on_db archived_runs_def)
  next
    case (Inr runs)
    let ?D = "given_up env (Job_RetentionPolicy job) runs"
    have "state_io_rel (spares job ?D) (sweep env job (List.enumerate 0 runs) (0, []))"
      by (rule spares_sweep) (auto simp: given_up_doomed intro: rev_image_eqI)
    then have "spares job ?D ?s1 (snd (run_state (sweep env job (List.enumerate 0 runs) (0, [])) ?s1))"
      unfolding state_io_rel_def by blast
    from spares_trans [OF list this] True Inr show ?thesis
      by (simp add: Apply_def run_on_db archived_runs_def case_prod_unfold)
  qed
qed

section \<open>What may go\<close>

text \<open>
  The policy, stated on the rows of the run history and on none of the queries: a row may be given
  up when it is an archived run of the job, when more than \<open>KeepLast\<close> archived runs of the job are at
  least as new (itself among them, by the order of the stored start times), and when its start is
  before the cutoff of \<open>MaxAgeDays\<close>, for each of the two limits that is set; at least one is.
\<close>

definition archived_row :: "Job \<Rightarrow> RunRow \<Rightarrow> bool" where
  "archived_row job row \<longleftrightarrow> rr_job_id row = Job_ID job \<and> rr_archive_name row \<noteq> []"

definition as_new_as :: "RunRow \<Rightarrow> RunRow \<Rightarrow> bool" where
  "as_new_as row r \<longleftrightarrow> \<not> text_less (rr_started_at r) (rr_started_at row)"

definition may_go :: "RetentionEnv \<Rightarrow> Job \<Rightarrow> RunRow list \<Rightarrow> RunRow \<Rightarrow> bool" where
  "may_go env job rows row \<longleftrightarrow> archived_row job row \<and>
     (KeepLast (Job_RetentionPolicy job) \<noteq> None \<or> MaxAgeDays (Job_RetentionPolicy job) \<noteq> None) \<and>
     (case KeepLast (Job_RetentionPolicy job) of None \<Rightarrow> True
      | Some k \<Rightarrow> k < int (length (filter (\<lambda>r. archived_row job r \<and> as_new_as row r) rows))) \<and>
     (case MaxAgeDays (Job_RetentionPolicy job) of None \<Rightarrow> True
      | Some d \<Rightarrow> (\<exists>t. parseTime (re_general env) (rr_started_at row) = Inr t \<and>
          before_time t (add_date (re_now env) 0 0 (- d))))"

lemma scan_all_nth:
  "scan_all scan rows = Inr xs \<Longrightarrow> length xs = length rows \<and> (\<forall>i < length rows. scan (rows ! i) = Inr (xs ! i))"
proof (induction rows arbitrary: xs)
  case (Cons row rows)
  then show ?case by (auto simp: nth_Cons split: sum.splits nat.split)
qed simp

lemma scanned_run:
  assumes "scanRun general row = Inr run"
  shows "Run_ID run = rr_id row" "Run_ArchiveName run = rr_archive_name row"
    "parseTime general (rr_started_at row) = Inr (Run_StartedAt run)"
  using assms by (auto simp: scanRun_def split: sum.splits)

lemma archived_sorted: "sorted_wrt (\<lambda>a b. \<not> newer_first b a) (archived_query ident t)"
  unfolding archived_query_def by (rule order_by_sorted) (use newer_first_order in blast)+

lemma length_filter_order_by: "length (filter p (order_by lt rows)) = length (filter p rows)"
proof -
  have "length (filter p (place_row lt x ys)) = length (filter p (x # ys))" for x ys
    by (induction ys) auto
  then show ?thesis by (induction rows) (simp_all add: order_by_def)
qed

text \<open>The rows in front of the i-th row of the list are at least as new.\<close>

lemma newer_count:
  assumes "i < length (archived_query (Job_ID job) t)"
  shows "i < length (filter (\<lambda>r. archived_row job r \<and> as_new_as (archived_query (Job_ID job) t ! i) r) (t_runs t))"
proof -
  let ?rows = "archived_query (Job_ID job) t"
  let ?p = "as_new_as (?rows ! i)"
  have "\<not> newer_first (?rows ! i) (?rows ! j)" if "j < i" for j
    using archived_sorted [of "Job_ID job" t] that assms by (simp add: sorted_wrt_iff_nth_less)
  then have front: "?p r" if "r \<in> set (take i ?rows)" for r
    using that assms by (auto simp: in_set_conv_nth as_new_as_def newer_first_def)
  have self: "?p (?rows ! i)" by (simp add: as_new_as_def text_less_irrefl)
  have "filter ?p (take (Suc i) ?rows) = take (Suc i) ?rows"
    using front self assms by (simp add: take_Suc_conv_app_nth filter_id_conv)
  then have "Suc i = length (filter ?p (take (Suc i) ?rows))" using assms by simp
  also have "\<dots> \<le> length (filter ?p (take (Suc i) ?rows @ drop (Suc i) ?rows))" unfolding filter_append by simp
  also have "\<dots> = length (filter ?p ?rows)" by simp
  also have "\<dots> = length (filter (\<lambda>r. archived_row job r \<and> ?p r) (t_runs t))"
    unfolding archived_query_def length_filter_order_by filter_filter
    by (simp add: archived_row_def archived_query_def [symmetric] conj_commute cong: filter_cong)
  finally show ?thesis by simp
qed

lemma given_up_may_go:
  assumes "archived_runs env job s = Inr runs" and "run \<in> set (given_up env (Job_RetentionPolicy job) runs)"
  obtains row where "row \<in> set (t_runs (db_tables (ret_db s)))" "may_go env job (t_runs (db_tables (ret_db s))) row"
    "Run_ID run = rr_id row" "Run_ArchiveName run = rr_archive_name row"
proof -
  let ?t = "db_tables (ret_db s)"
  let ?rows = "archived_query (Job_ID job) ?t"
  have scan: "scan_all (scanRun (re_general env)) ?rows = Inr runs"
    using assms(1) unfolding archived_runs_def ListArchived_def query_rows_def
    by (auto simp: run_try_do run_wrap_err run_query split: option.splits sum.splits)
  from assms(2) obtain i where i: "i < length runs" "run = runs ! i" "doomed env job (i, run)"
    by (auto simp: given_up_doomed in_set_enumerate_eq)
  then have len: "i < length ?rows" and row: "scanRun (re_general env) (?rows ! i) = Inr run"
    using scan_all_nth [OF scan] by auto
  have mem: "?rows ! i \<in> set ?rows" using len by simp
  have "may_go env job (t_runs ?t) (?rows ! i)"
    using i(3) newer_count [OF len] scanned_run(3) [OF row] mem
    by (auto simp: may_go_def doomed_iff HasLimit_def archived_row_def archived_query_def split: option.splits)
  then show thesis using that [of "?rows ! i"] mem scanned_run(1,2) [OF row] by (auto simp: archived_query_def)
qed

text \<open>C7: Retention takes only what the policy allows. Whatever fails on the way, on disk or in the
  database, no file appears; every file that disappears is, in the job's destination, the archive
  of a run of this very job that is beyond the newest keep_last archived runs of the job and older
  than max_age_days (of those limits that are set); and the history keeps its rows in their order,
  with every row unchanged that is no such run. The condition is read off the rows of the history
  before the sweep, not off the list that the code asks for.\<close>

theorem retention_spares_protected:
  "let t = snd (run_state (Apply env job) s); rows = t_runs (db_tables (ret_db s)) in
   set (ret_files t) \<subseteq> set (ret_files s) \<and>
   (\<forall>path. path \<in> set (ret_files s) \<and> path \<notin> set (ret_files t) \<longrightarrow>
      (\<exists>row \<in> set rows. may_go env job rows row \<and> path = path_join (Job_LocalDestination job) (rr_archive_name row))) \<and>
   (\<exists>f. t_runs (db_tables (ret_db t)) = map f rows \<and>
      (\<forall>row \<in> set rows. rr_id (f row) = rr_id row \<and>
         (f row = row \<or> (\<exists>row' \<in> set rows. rr_id row' = rr_id row \<and> may_go env job rows row'))))"
proof -
  define t where "t = snd (run_state (Apply env job) s)"
  define rows where "rows = t_runs (db_tables (ret_db s))"
  define D where "D = (case archived_runs env job s of Inl e \<Rightarrow> [] | Inr runs \<Rightarrow> given_up env (Job_RetentionPolicy job) runs)"
  have gone: "\<exists>row \<in> set rows. may_go env job rows row \<and> Run_ID run = rr_id row \<and> Run_ArchiveName run = rr_archive_name row"
    if "run \<in> set D" for run
  proof (cases "archived_runs env job s")
    case (Inr runs)
    with that have "run \<in> set (given_up env (Job_RetentionPolicy job) runs)" by (simp add: D_def)
    from given_up_may_go [OF Inr this] show ?thesis unfolding rows_def by metis
  qed (use that in \<open>simp add: D_def\<close>)
  have sp: "spares job D s t" unfolding t_def D_def by (rule apply_spares)
  then have "set (ret_files t) \<subseteq> set (ret_files s)" by (simp add: spares_def)
  moreover have "\<exists>row \<in> set rows. may_go env job rows row \<and> path = path_join (Job_LocalDestination job) (rr_archive_name row)"
    if "path \<in> set (ret_files s)" "path \<notin> set (ret_files t)" for path
  proof -
    have "path \<in> archive_path job ` set D" using sp that by (auto simp: spares_def)
    then obtain run where "run \<in> set D" "path = archive_path job run" by blast
    with gone [of run] show ?thesis by (auto simp: archive_path_def)
  qed
  moreover from sp obtain f where f: "t_runs (db_tables (ret_db t)) = map f rows"
      "\<And>row. rr_id (f row) = rr_id row \<and> (rr_id row \<notin> Run_ID ` set D \<longrightarrow> f row = row)"
    by (auto simp: spares_def rows_def)
  have "f row = row \<or> (\<exists>row' \<in> set rows. rr_id row' = rr_id row \<and> may_go env job rows row')" for row
  proof (cases "rr_id row \<in> Run_ID ` set D")
    case True
    then obtain run where "run \<in> set D" "rr_id row = Run_ID run" by blast
    with gone [of run] show ?thesis by auto
  qed (use f in simp)
  with f have "\<exists>f. t_runs (db_tables (ret_db t)) = map f rows \<and> (\<forall>row \<in> set rows. rr_id (f row) = rr_id row \<and>
      (f row = row \<or> (\<exists>row' \<in> set rows. rr_id row' = rr_id row \<and> may_go env job rows row')))"
    by blast
  ultimately show ?thesis unfolding t_def [symmetric] rows_def [symmetric] Let_def by blast
qed

section \<open>A sweep with nothing in its way\<close>

lemma remove_clear:
  assumes "re_remove_fault env = (\<lambda>_. None)"
  obtains r where "run_state (os_remove env path) s = (r, s\<lparr>ret_files := removeAll path (ret_files s)\<rparr>)"
    and "(case r of Some e \<Rightarrow> if os_is_not_exist e then None else Some e | None \<Rightarrow> None) = None"
  by (rule that [of "if path \<in> set (ret_files s) then None else Some (NotExist (''remove '' @ path))"])
    (simp_all add: run_os_remove assms os_is_not_exist_def)

lemma sweep_one_clear:
  assumes "healthy (ret_db s)" "re_remove_fault env = (\<lambda>_. None)"
    and "Run_ID (snd ir) \<in> set (map rr_id (t_runs (db_tables (ret_db s))))"
  obtains s' where "run_state (sweep_one env job ir (n, ws)) s = ((if doomed env job ir then n + 1 else n, ws), s')"
    and "ret_files s' = (if doomed env job ir then removeAll (archive_path job (snd ir)) (ret_files s) else ret_files s)"
    and "healthy (ret_db s')" and "map rr_id (t_runs (db_tables (ret_db s'))) = map rr_id (t_runs (db_tables (ret_db s)))"
proof (cases "doomed env job ir")
  case True
  have check: "affected (\<lambda>row. rr_id row = Run_ID (snd ir)) (t_runs (db_tables (ret_db s))) \<noteq> 0"
    using assms(3) by (auto simp: affected_def filter_empty_conv)
  have ids: "map rr_id (update_rows (\<lambda>row. rr_id row = Run_ID (snd ir)) (set_run_columns row) rows) = map rr_id rows" for row rows
    by (simp add: update_rows_def set_run_columns_def)
  obtain r where rm: "run_state (os_remove env (archive_path job (snd ir))) s =
      (r, s\<lparr>ret_files := removeAll (archive_path job (snd ir)) (ret_files s)\<rparr>)"
    and none: "(case r of Some e \<Rightarrow> if os_is_not_exist e then None else Some e | None \<Rightarrow> None) = None"
    by (rule remove_clear [OF assms(2)])
  let ?u = "run_state (UpdateRun ((snd ir)\<lparr>Run_ArchiveName := []\<rparr>)) (ret_db s)"
  have u: "fst ?u = Inr ()" "healthy (snd ?u)" "map rr_id (t_runs (db_tables (snd ?u))) = map rr_id (t_runs (db_tables (ret_db s)))"
    using assms(1) by (simp_all add: update_run_result check ids)
  have "run_state (sweep_one env job ir (n, ws)) s =
      ((n + 1, ws), s\<lparr>ret_files := removeAll (archive_path job (snd ir)) (ret_files s), ret_db := snd ?u\<rparr>)"
    using True by (simp add: sweep_one_def Let_def rm none run_on_db u(1))
  then show ?thesis by (rule that [unfolded if_P [OF True]]) (simp_all add: u)
next
  case False
  with assms that show ?thesis by (simp add: sweep_one_def)
qed

lemma sweep_clear:
  assumes "healthy (ret_db s)" "re_remove_fault env = (\<lambda>_. None)"
    and "\<And>ir. ir \<in> set irs \<Longrightarrow> Run_ID (snd ir) \<in> set (map rr_id (t_runs (db_tables (ret_db s))))"
  shows "\<exists>s'. run_state (sweep env job irs (n, ws)) s = ((n + length (filter (doomed env job) irs), ws), s') \<and>
    ret_files s' = filter (\<lambda>f. f \<notin> archive_path job ` snd ` set (filter (doomed env job) irs)) (ret_files s)"
  using assms
proof (induction irs arbitrary: s n)
  case (Cons ir irs)
  obtain s1 where 1: "run_state (sweep_one env job ir (n, ws)) s = ((if doomed env job ir then n + 1 else n, ws), s1)"
    and files: "ret_files s1 = (if doomed env job ir then removeAll (archive_path job (snd ir)) (ret_files s) else ret_files s)"
    and "healthy (ret_db s1)" and ids: "map rr_id (t_runs (db_tables (ret_db s1))) = map rr_id (t_runs (db_tables (ret_db s)))"
    by (rule sweep_one_clear [of s env ir job n ws]) (use Cons.prems in auto)
  have "Run_ID (snd ir') \<in> set (map rr_id (t_runs (db_tables (ret_db s1))))" if "ir' \<in> set irs" for ir'
    unfolding ids using Cons.prems(3) that by simp
  from Cons.IH [OF \<open>healthy (ret_db s1)\<close> Cons.prems(2) this] obtain s2
    where "run_state (sweep env job irs (if doomed env job ir then n + 1 else n, ws)) s1 =
        (((if doomed env job ir then n + 1 else n) + length (filter (doomed env job) irs), ws), s2)"
      and "ret_files s2 = filter (\<lambda>f. f \<notin> archive_path job ` snd ` set (filter (doomed env job) irs)) (ret_files s1)"
    by blast
  with 1 files show ?case
    by (auto simp: removeAll_filter_not_eq conj_commute intro!: filter_cong)
qed simp

lemma list_archived_tables: "db_tables (snd (run_state (ListArchived general ident) db)) = db_tables db"
  using read_only_rows unfolding ListArchived_def read_only_def by blast

lemma list_archived_ids:
  assumes "archived_runs env job s = Inr runs" "healthy (ret_db s)"
  shows "map Run_ID runs = map rr_id (archived_query (Job_ID job) (db_tables (ret_db s)))"
proof -
  have scan: "scan_all (scanRun g) rows = Inr xs \<Longrightarrow> map Run_ID xs = map rr_id rows" for g rows xs
    by (induction rows arbitrary: xs) (auto simp: scanRun_def split: sum.splits)
  show ?thesis
    using assms by (intro scan [where g = "re_general env"])
      (simp add: archived_runs_def ListArchived_def run_query_rows split: sum.splits)
qed

lemma sweep_exact:
  assumes "healthy (ret_db s)" and "re_remove_fault env = (\<lambda>_. None)" and "archived_runs env job s = Inr runs"
  shows "fst (run_state (Apply env job) s) = Inr (length (given_up env (Job_RetentionPolicy job) runs), []) \<and>
    ret_files (snd (run_state (Apply env job) s)) =
      filter (\<lambda>f. f \<notin> archive_path job ` set (given_up env (Job_RetentionPolicy job) runs)) (ret_files s)"
proof (cases "HasLimit (Job_RetentionPolicy job)")
  case False
  then show ?thesis by (simp add: Apply_def given_up_def)
next
  case True
  let ?s1 = "s\<lparr>ret_db := snd (run_state (ListArchived (re_general env) (Job_ID job)) (ret_db s))\<rparr>"
  have tables: "db_tables (ret_db ?s1) = db_tables (ret_db s)"
    by (simp add: list_archived_tables)
  have "healthy (ret_db ?s1)"
    using assms(1) by (simp add: ListArchived_def run_query_rows split: sum.split)
  have "Run_ID (snd ir) \<in> set (map rr_id (t_runs (db_tables (ret_db ?s1))))" if "ir \<in> set (List.enumerate 0 runs)" for ir
  proof -
    have "snd ir \<in> snd ` set (List.enumerate 0 runs)" using that by simp
    then have "snd ir \<in> set runs" by (metis map_snd_enumerate set_map)
    then have "Run_ID (snd ir) \<in> set (map rr_id (archived_query (Job_ID job) (db_tables (ret_db s))))"
      unfolding list_archived_ids [OF assms(3,1), symmetric] by simp
    then show ?thesis unfolding tables by (auto simp: archived_query_def)
  qed
  from sweep_clear [where job = job and n = 0 and ws = "[]" and irs = "List.enumerate 0 runs",
      OF \<open>healthy (ret_db ?s1)\<close> assms(2) this]
  obtain s' where "run_state (sweep env job (List.enumerate 0 runs) (0, [])) ?s1 =
      ((length (filter (doomed env job) (List.enumerate 0 runs)), []), s')"
    and "ret_files s' = filter (\<lambda>f. f \<notin> archive_path job ` snd ` set (filter (doomed env job) (List.enumerate 0 runs))) (ret_files s)"
    by auto
  moreover have "set (given_up env (Job_RetentionPolicy job) runs) = snd ` set (filter (doomed env job) (List.enumerate 0 runs))"
    by (simp only: given_up_doomed set_map)
  moreover have "length (given_up env (Job_RetentionPolicy job) runs) = length (filter (doomed env job) (List.enumerate 0 runs))"
    by (simp only: given_up_doomed length_map)
  ultimately show ?thesis using True assms(3) by (simp add: Apply_def run_on_db archived_runs_def)
qed

text \<open>C37: Retention removes all that the policy gives up. On a healthy database and a disk that lets files
  go, Apply reports no warning and no error, exactly the archives of the runs beyond both limits
  are removed, whether or not their files were still there, and it counts each of them once.\<close>

theorem retention_removes_given_up:
  assumes "healthy (ret_db s)" and "re_remove_fault env = (\<lambda>_. None)" and "archived_runs env job s = Inr runs"
  shows "fst (run_state (Apply env job) s) = Inr (length (given_up env (Job_RetentionPolicy job) runs), []) \<and>
    ret_files (snd (run_state (Apply env job) s)) =
      filter (\<lambda>f. f \<notin> archive_path job ` set (given_up env (Job_RetentionPolicy job) runs)) (ret_files s)"
  by (rule sweep_exact [OF assms])

section \<open>Failed runs\<close>

text \<open>Three recorded runs: a success, a run whose archive command failed, a success; the failed run
  has a name but no file.\<close>

definition history_row :: "string \<Rightarrow> string \<Rightarrow> RunStatus \<Rightarrow> RunRow" where
  "history_row ident startedAt status = \<lparr>rr_id = ident, rr_job_id = ''job1'', rr_server_id = ''srv1'', rr_source_paths = [],
     rr_trigger = ''SCHEDULE'', rr_started_at = startedAt, rr_finished_at = None, rr_status = RunStatus_str status,
     rr_archive_name = ident @ ''.tar.gz'', rr_archive_size = 0, rr_checksum = [], rr_error_code = [], rr_error_message = [],
     rr_recovery_outcome = ''NOT_APPLICABLE''\<rparr>"

definition history_state :: RetentionState where
  "history_state = \<lparr>
     ret_db = \<lparr>db_tables = empty_tables\<lparr>t_runs := [history_row ''a'' ''1970-01-01T00:00:00Z'' RunSuccess,
       history_row ''b'' ''1970-01-02T00:00:00Z'' RunFailed, history_row ''c'' ''1970-01-03T00:00:00Z'' RunSuccess]\<rparr>,
       db_fault = (\<lambda>_. None), db_calls = 0\<rparr>,
     ret_files = [path_join ''D:'' ''a.tar.gz'', path_join ''D:'' ''c.tar.gz'']\<rparr>"

lemma history_query:
  "archived_query (Job_ID sample_job) (db_tables (ret_db history_state)) =
     [history_row ''c'' ''1970-01-03T00:00:00Z'' RunSuccess, history_row ''b'' ''1970-01-02T00:00:00Z'' RunFailed,
      history_row ''a'' ''1970-01-01T00:00:00Z'' RunSuccess]"
  by (simp add: history_state_def archived_query_def history_row_def sample_job_def order_by_def newer_first_def empty_tables_def)

lemma history_times:
  "\<exists>t. parseTime general ''1970-01-01T00:00:00Z'' = Inr t" "\<exists>t. parseTime general ''1970-01-02T00:00:00Z'' = Inr t"
  "\<exists>t. parseTime general ''1970-01-03T00:00:00Z'' = Inr t"
proof -
  have "parse_rfc3339 ''1970-01-01T00:00:00Z'' \<noteq> None" "parse_rfc3339 ''1970-01-02T00:00:00Z'' \<noteq> None"
    "parse_rfc3339 ''1970-01-03T00:00:00Z'' \<noteq> None"
    by code_simp+
  then show "\<exists>t. parseTime general ''1970-01-01T00:00:00Z'' = Inr t" "\<exists>t. parseTime general ''1970-01-02T00:00:00Z'' = Inr t"
    "\<exists>t. parseTime general ''1970-01-03T00:00:00Z'' = Inr t"
    by (auto simp: parseTime_def)
qed

lemma history_archived:
  "\<exists>c b a. archived_runs env sample_job history_state = Inr [c, b, a] \<and>
     Run_ArchiveName c = ''c.tar.gz'' \<and> Run_ArchiveName b = ''b.tar.gz'' \<and> Run_ArchiveName a = ''a.tar.gz''"
proof -
  have "healthy (ret_db history_state)" by (simp add: history_state_def healthy_def)
  then have "archived_runs env sample_job history_state =
      (case scan_all (scanRun (re_general env)) (archived_query (Job_ID sample_job) (db_tables (ret_db history_state))) of
         Inl e \<Rightarrow> Inl (Wrapped ''scan run row'' e) | Inr xs \<Rightarrow> Inr xs)"
    by (simp add: archived_runs_def ListArchived_def run_query_rows split: sum.split)
  moreover obtain t1 t2 t3 where "parseTime (re_general env) ''1970-01-01T00:00:00Z'' = Inr t1"
    "parseTime (re_general env) ''1970-01-02T00:00:00Z'' = Inr t2" "parseTime (re_general env) ''1970-01-03T00:00:00Z'' = Inr t3"
    using history_times by blast
  ultimately show ?thesis
    by (simp add: history_query history_row_def scanRun_def parseTimePtr_def)
qed

text \<open>Failed runs use up the archives to keep. The archive stage names a run's archive before it
  creates it, and a run that fails keeps that name in the history, so the list that retention
  counts contains runs that have no archive. With keep_last = 2 and a failed run between two
  successful ones, the sweep deletes the older of the two archives and one is left, although two
  were to be kept.\<close>

theorem failed_run_uses_up_keep_last:
  "ret_files history_state = [path_join ''D:'' ''a.tar.gz'', path_join ''D:'' ''c.tar.gz''] \<and>
   KeepLast (Job_RetentionPolicy sample_job) = Some 2 \<and> MaxAgeDays (Job_RetentionPolicy sample_job) = None \<and>
   ret_files (snd (run_state (Apply \<lparr>re_now = t, re_remove_fault = (\<lambda>_. None), re_general = general\<rparr> sample_job) history_state)) =
     [path_join ''D:'' ''c.tar.gz'']"
proof -
  let ?env = "\<lparr>re_now = t, re_remove_fault = (\<lambda>_. None), re_general = general\<rparr>"
  have policy: "KeepLast (Job_RetentionPolicy sample_job) = Some 2" "MaxAgeDays (Job_RetentionPolicy sample_job) = None"
    by (simp_all add: sample_defs)
  obtain c b a where runs: "archived_runs ?env sample_job history_state = Inr [c, b, a]"
    and "Run_ArchiveName a = ''a.tar.gz''" using history_archived by blast
  have "given_up ?env (Job_RetentionPolicy sample_job) [c, b, a] = [a]"
    by (simp add: given_up_def HasLimit_def policy)
  moreover have "healthy (ret_db history_state)" by (simp add: history_state_def healthy_def)
  ultimately have "ret_files (snd (run_state (Apply ?env sample_job) history_state)) =
      filter (\<lambda>f. f \<noteq> archive_path sample_job a) (ret_files history_state)"
    using sweep_exact [OF _ _ runs] by simp
  then show ?thesis
    using policy \<open>Run_ArchiveName a = ''a.tar.gz''\<close>
    by (simp add: history_state_def archive_path_def path_join_def sample_job_def)
qed

text \<open>The oldest of the three archives is gone, and it was allowed to go.\<close>

lemma retention_spares_witness:
  "let rows = t_runs (db_tables (ret_db history_state))
   in \<exists>row \<in> set rows. may_go \<lparr>re_now = epoch, re_remove_fault = (\<lambda>_. None), re_general = (\<lambda>_. Inl EndOfFile)\<rparr> sample_job rows row \<and>
        path_join ''D:'' ''a.tar.gz'' = path_join (Job_LocalDestination sample_job) (rr_archive_name row)"
proof -
  let ?env = "\<lparr>re_now = epoch, re_remove_fault = (\<lambda>_. None), re_general = (\<lambda>_. Inl EndOfFile)\<rparr>"
  have "path_join ''D:'' ''a.tar.gz'' \<in> set (ret_files history_state)"
    "path_join ''D:'' ''a.tar.gz'' \<notin> set (ret_files (snd (run_state (Apply ?env sample_job) history_state)))"
    using failed_run_uses_up_keep_last [of epoch "\<lambda>_. Inl EndOfFile"] by (simp_all add: path_join_def)
  then show ?thesis
    using retention_spares_protected [of ?env sample_job history_state] by (simp add: Let_def)
qed

lemma retention_removes_witness:
  "\<exists>runs. fst (run_state (Apply \<lparr>re_now = epoch, re_remove_fault = (\<lambda>_. None), re_general = (\<lambda>_. Inl EndOfFile)\<rparr> sample_job) history_state) =
     Inr (length (given_up \<lparr>re_now = epoch, re_remove_fault = (\<lambda>_. None), re_general = (\<lambda>_. Inl EndOfFile)\<rparr> (Job_RetentionPolicy sample_job) runs), []) \<and>
    ret_files (snd (run_state (Apply \<lparr>re_now = epoch, re_remove_fault = (\<lambda>_. None), re_general = (\<lambda>_. Inl EndOfFile)\<rparr> sample_job) history_state)) =
      filter (\<lambda>f. f \<notin> archive_path sample_job ` set (given_up \<lparr>re_now = epoch, re_remove_fault = (\<lambda>_. None), re_general = (\<lambda>_. Inl EndOfFile)\<rparr>
        (Job_RetentionPolicy sample_job) runs)) (ret_files history_state)"
proof -
  let ?env = "\<lparr>re_now = epoch, re_remove_fault = (\<lambda>_. None), re_general = (\<lambda>_. Inl EndOfFile)\<rparr>"
  obtain c b a where runs: "archived_runs ?env sample_job history_state = Inr [c, b, a]" using history_archived by blast
  have "healthy (ret_db history_state)" by (simp add: history_state_def healthy_def)
  from retention_removes_given_up [OF this _ runs] show ?thesis by auto
qed

section \<open>Stale files on the remote host\<close>

text \<open>
  \<^verbatim>\<open>RemoteCleaner.Scan\<close>. The lock check, the connection and every remote command are parameters;
  the trace lists the commands in the order they ran, then the close of the connection.
\<close>

record ScanEnv =
  sn_locked :: "string \<Rightarrow> err + bool"
  sn_connect :: "err option"
  sn_run :: "string list \<Rightarrow> string \<Rightarrow> err + RunResult"

record StaleFinding =
  sf_job_id :: string
  sf_path :: string

datatype ScanEvent = RemoteCommand string | ConnectionClosed

definition find_stale_command :: "Job \<Rightarrow> int \<Rightarrow> string" where
  "find_stale_command job minutes =
     ''find '' @ shellQuote (RemoteJobDirectory job) @ '' -maxdepth 1 -type f -mmin +'' @ itoa minutes @ '' 2>/dev/null''"

definition remove_stale_command :: "string \<Rightarrow> string" where
  "remove_stale_command path = ''rm -f '' @ shellQuote path"

text \<open>\<^verbatim>\<open>int(maxAge.Minutes())\<close> of a duration: its whole minutes, rounded toward zero.\<close>

definition whole_minutes :: "Duration \<Rightarrow> int" where
  "whole_minutes d = sgn d * (\<bar>d\<bar> div minute)"

definition stale_findings :: "Job \<Rightarrow> string \<Rightarrow> StaleFinding list" where
  "stale_findings job stdout =
     map (\<lambda>p. \<lparr>sf_job_id = Job_ID job, sf_path = p\<rparr>)
       (filter (\<lambda>p. p \<noteq> []) (split_char (CHR 0x0A) (trim_space stdout)))"

primrec delete_stale :: "ScanEnv \<Rightarrow> StaleFinding list \<Rightarrow> StaleFinding list \<Rightarrow> string list \<Rightarrow> string list \<times> (StaleFinding list \<times> err option)" where
  "delete_stale env [] found cmds = (cmds, (found, None))"
| "delete_stale env (f # fs) found cmds =
     (let cmd = remove_stale_command (sf_path f)
      in case sn_run env cmds cmd of
           Inl e \<Rightarrow> (cmds @ [cmd], (found, Some (Wrapped (''delete stale remote archive '' @ go_quote (sf_path f)) e)))
         | Inr _ \<Rightarrow> delete_stale env fs found (cmds @ [cmd]))"

definition Scan :: "ScanEnv \<Rightarrow> Job \<Rightarrow> Duration \<Rightarrow> bool \<Rightarrow> ScanEvent list \<times> (StaleFinding list \<times> err option)" where
  "Scan env job maxAge autoDelete =
     (case sn_locked env (Job_ID job) of
        Inl e \<Rightarrow> ([], ([], Some (Wrapped (''check active lock for job '' @ go_quote (Job_ID job)) e)))
      | Inr True \<Rightarrow> ([], ([], None))
      | Inr False \<Rightarrow>
          (case sn_connect env of
             Some e \<Rightarrow> ([], ([], Some e))
           | None \<Rightarrow>
               (let cmd = find_stale_command job (whole_minutes maxAge)
                in case sn_run env [] cmd of
                     Inl e \<Rightarrow> ([RemoteCommand cmd, ConnectionClosed], ([], None))
                   | Inr res \<Rightarrow>
                       if rr_exit res \<noteq> 0 then ([RemoteCommand cmd, ConnectionClosed], ([], None))
                       else (let found = stale_findings job (rr_stdout res);
                                 (cmds, r) = (if autoDelete then delete_stale env found found [cmd] else ([cmd], (found, None)))
                             in (map RemoteCommand cmds @ [ConnectionClosed], r)))))"

text \<open>The commands are the search, then a prefix of the deletions, one per finding and in their order.\<close>

lemma delete_stale_prefix:
  "\<exists>n \<le> length fs. fst (delete_stale env fs found cmds) = cmds @ map (remove_stale_command \<circ> sf_path) (take n fs)"
proof (induction fs arbitrary: cmds)
  case (Cons f fs)
  let ?c = "remove_stale_command (sf_path f)"
  show ?case
  proof (cases "sn_run env cmds ?c")
    case (Inl e)
    then show ?thesis by (intro exI [of _ 1]) (simp add: Let_def)
  next
    case (Inr r)
    obtain n where "n \<le> length fs" "fst (delete_stale env fs found (cmds @ [?c])) = (cmds @ [?c]) @ map (remove_stale_command \<circ> sf_path) (take n fs)"
      using Cons.IH by blast
    with Inr show ?thesis by (intro exI [of _ "Suc n"]) (simp add: Let_def)
  qed
qed simp

lemma scan_locked_silent: "sn_locked env (Job_ID job) = Inr True \<Longrightarrow> Scan env job maxAge autoDelete = ([], ([], None))"
  by (simp add: Scan_def)

lemma scan_only_reads: "set (fst (Scan env job maxAge False)) \<subseteq> {RemoteCommand (find_stale_command job (whole_minutes maxAge)), ConnectionClosed}"
  by (auto simp: Scan_def Let_def split: sum.splits bool.splits option.splits)

end
