(* ===== verification/Store_Servers.thy ===== *)
theory Store_Servers
  imports Store_Db
begin

text \<open>
  \<^verbatim>\<open>internal/store/servers.go\<close> and \<^verbatim>\<open>settings.go\<close>: server records, their refusal to be deleted
  while a job refers to them, and the global settings row.
\<close>

section \<open>Servers\<close>

definition server_row :: "Server \<Rightarrow> ServerRow" where
  "server_row s = \<lparr>
     sr_id = Server_ID s, sr_name = Server_Name s, sr_host = Server_Host s, sr_port = Server_Port s,
     sr_username = Server_Username s, sr_authentication_type = AuthenticationType_str (Server_AuthType s),
     sr_credential_reference = Server_CredentialReference s, sr_private_key_path = Server_PrivateKeyPath s,
     sr_host_key_algorithm = Server_HostKeyAlgorithm s, sr_host_key_fingerprint = Server_HostKeyFingerprint s,
     sr_connection_timeout_seconds = Server_ConnectionTimeoutSeconds s,
     sr_command_timeout_seconds = Server_CommandTimeoutSeconds s,
     sr_created_at = formatTime (Server_CreatedAt s), sr_updated_at = formatTime (Server_UpdatedAt s)\<rparr>"

definition scanServer :: "TimeParser \<Rightarrow> ServerRow \<Rightarrow> err + Server" where
  "scanServer general row =
     (case parseTime general (sr_created_at row) of
        Inl e \<Rightarrow> Inl e
      | Inr createdAt \<Rightarrow>
          (case parseTime general (sr_updated_at row) of
             Inl e \<Rightarrow> Inl e
           | Inr updatedAt \<Rightarrow> Inr \<lparr>
               Server_ID = sr_id row, Server_Name = sr_name row, Server_Host = sr_host row, Server_Port = sr_port row,
               Server_Username = sr_username row, Server_AuthType = AuthenticationType_of (sr_authentication_type row),
               Server_CredentialReference = sr_credential_reference row, Server_PrivateKeyPath = sr_private_key_path row,
               Server_HostKeyAlgorithm = sr_host_key_algorithm row,
               Server_HostKeyFingerprint = sr_host_key_fingerprint row,
               Server_ConnectionTimeoutSeconds = sr_connection_timeout_seconds row,
               Server_CommandTimeoutSeconds = sr_command_timeout_seconds row,
               Server_CreatedAt = createdAt, Server_UpdatedAt = updatedAt\<rparr>))"

definition insert_server :: "ServerRow \<Rightarrow> Tables \<Rightarrow> err + Tables \<times> nat" where
  "insert_server row t =
     (case insert_row sr_id True row (t_servers t) of
        Inl e \<Rightarrow> Inl e
      | Inr rs \<Rightarrow> Inr (t\<lparr>t_servers := rs\<rparr>, 1))"

definition CreateServer :: "Server \<Rightarrow> unit Sql" where
  "CreateServer s =
     try_do (wrap_err (''insert server '' @ go_quote (Server_ID s)) (exec (insert_server (server_row s)))) (\<lambda>_. ret (Inr ()))"

text \<open>The columns of \<^verbatim>\<open>UPDATE servers\<close>: all but the identifier and \<^verbatim>\<open>created_at\<close>.\<close>

definition set_server_columns :: "ServerRow \<Rightarrow> ServerRow \<Rightarrow> ServerRow" where
  "set_server_columns new row = new\<lparr>sr_id := sr_id row, sr_created_at := sr_created_at row\<rparr>"

definition update_server_rows :: "Server \<Rightarrow> Tables \<Rightarrow> err + Tables \<times> nat" where
  "update_server_rows s t =
     Inr (t\<lparr>t_servers := update_rows (\<lambda>r. sr_id r = Server_ID s) (set_server_columns (server_row s)) (t_servers t)\<rparr>,
       affected (\<lambda>r. sr_id r = Server_ID s) (t_servers t))"

definition UpdateServer :: "Server \<Rightarrow> unit Sql" where
  "UpdateServer s =
     try_do (wrap_err (''update server '' @ go_quote (Server_ID s)) (exec (update_server_rows s)))
       (\<lambda>n. checkRowsAffected n ''server'' (Server_ID s))"

definition find_server :: "string \<Rightarrow> Tables \<Rightarrow> ServerRow option" where
  "find_server ident t = find (\<lambda>r. sr_id r = ident) (t_servers t)"

definition GetServer :: "TimeParser \<Rightarrow> string \<Rightarrow> Server Sql" where
  "GetServer general ident =
     not_found_or ''server'' ''get server '' ident (query_one (find_server ident) (scanServer general))"

definition ListServers :: "TimeParser \<Rightarrow> Server list Sql" where
  "ListServers general =
     query_rows ''list servers'' ''scan server row'' ''iterate servers''
       (\<lambda>t. order_by (\<lambda>a b. text_less (sr_name a) (sr_name b)) (t_servers t)) (scanServer general)"

definition job_names_of :: "string \<Rightarrow> Tables \<Rightarrow> string list" where
  "job_names_of serverID t = order_by text_less (map jr_name (filter (\<lambda>j. jr_server_id j = serverID) (t_jobs t)))"

definition JobsReferencing :: "string \<Rightarrow> string list Sql" where
  "JobsReferencing serverID =
     query_rows (''list jobs referencing server '' @ go_quote serverID) ''scan job name''
       (''iterate jobs referencing server '' @ go_quote serverID) (job_names_of serverID) Inr"

text \<open>The foreign key of \<^verbatim>\<open>backup_jobs.server_id\<close> restricts the delete.\<close>

definition delete_server_row :: "string \<Rightarrow> Tables \<Rightarrow> err + Tables \<times> nat" where
  "delete_server_row ident t =
     (if server_exists ident t \<and> ident \<in> set (map jr_server_id (t_jobs t)) then Inl foreign_key_error
      else Inr (t\<lparr>t_servers := delete_rows (\<lambda>r. sr_id r = ident) (t_servers t)\<rparr>,
             affected (\<lambda>r. sr_id r = ident) (t_servers t)))"

text \<open>The \<^verbatim>\<open>%v\<close> verb of a list of strings.\<close>

definition fmt_strings :: "string list \<Rightarrow> string" where
  "fmt_strings xs = ''['' @ join '' '' xs @ '']''"

definition DeleteServer :: "string \<Rightarrow> unit Sql" where
  "DeleteServer ident =
     try_do (JobsReferencing ident) (\<lambda>jobs.
       if jobs \<noteq> [] then ret (Inl (NewCodedError ErrInvalidConfig
         (''server is referenced by '' @ itoa (int (length jobs)) @ '' job(s): '' @ fmt_strings jobs) None))
       else try_do (wrap_err (''delete server '' @ go_quote ident) (exec (delete_server_row ident)))
              (\<lambda>n. checkRowsAffected n ''server'' ident))"

section \<open>Settings\<close>

definition settings_of_row :: "SettingsRow \<Rightarrow> Settings" where
  "settings_of_row r = \<lparr>
     SchedulesPaused = intToBool (sg_schedules_paused r), GlobalConcurrencyLimit = sg_global_concurrency_limit r,
     NotifySuccess = intToBool (sg_notify_success r), NotifyFailure = intToBool (sg_notify_failure r),
     StaleRemoteCleanupEnabled = intToBool (sg_stale_remote_cleanup_enabled r),
     StaleRemoteCleanupAgeHours = sg_stale_remote_cleanup_age_hours r\<rparr>"

definition settings_row :: "Settings \<Rightarrow> SettingsRow" where
  "settings_row s = \<lparr>
     sg_schedules_paused = boolToInt (SchedulesPaused s), sg_global_concurrency_limit = GlobalConcurrencyLimit s,
     sg_notify_success = boolToInt (NotifySuccess s), sg_notify_failure = boolToInt (NotifyFailure s),
     sg_stale_remote_cleanup_enabled = boolToInt (StaleRemoteCleanupEnabled s),
     sg_stale_remote_cleanup_age_hours = StaleRemoteCleanupAgeHours s\<rparr>"

definition GetSettings :: "Settings Sql" where
  "GetSettings = wrap_err ''get settings'' (query_one t_settings (\<lambda>r. Inr (settings_of_row r)))"

definition UpdateSettings :: "Settings \<Rightarrow> unit Sql" where
  "UpdateSettings s =
     try_do (wrap_err ''update settings'' (exec (\<lambda>t. Inr (t\<lparr>t_settings := map_option (\<lambda>_. settings_row s) (t_settings t)\<rparr>,
       case t_settings t of None \<Rightarrow> 0 | Some _ \<Rightarrow> 1)))) (\<lambda>_. ret (Inr ()))"

lemma settings_roundtrip [simp]: "settings_of_row (settings_row s) = s"
  by (simp add: settings_of_row_def settings_row_def)

lemma settings_seed: "map_option settings_of_row (t_settings empty_tables) = Some DefaultSettings"
  by (simp add: empty_tables_def settings_of_row_def DefaultSettings_def intToBool_def)

lemma update_get_settings:
  assumes "healthy db" and "t_settings (db_tables db) \<noteq> None"
  shows "fst (run_state (try_do (UpdateSettings s) (\<lambda>_. GetSettings)) db) = Inr s"
  using assms
  by (auto simp: UpdateSettings_def GetSettings_def query_one_def run_try_do run_wrap_err run_exec run_query Let_def
      split: option.splits)

section \<open>Facts about servers\<close>

definition storable_server :: "Server \<Rightarrow> bool" where
  "storable_server s \<longleftrightarrow> AuthenticationType_of (AuthenticationType_str (Server_AuthType s)) = Server_AuthType s \<and>
     storable_time (Server_CreatedAt s) \<and> storable_time (Server_UpdatedAt s)"

definition utc_server :: "Server \<Rightarrow> Server" where
  "utc_server s = s\<lparr>Server_CreatedAt := to_utc (Server_CreatedAt s), Server_UpdatedAt := to_utc (Server_UpdatedAt s)\<rparr>"

lemma scan_server_row: "storable_server s \<Longrightarrow> scanServer general (server_row s) = Inr (utc_server s)"
  by (cases s) (simp add: scanServer_def server_row_def storable_server_def storable_roundtrip utc_server_def)

lemma jobs_referencing_result:
  assumes "healthy db"
  shows "run_state (JobsReferencing ident) db =
    (Inr (job_names_of ident (db_tables db)), db\<lparr>db_calls := Suc (Suc (db_calls db))\<rparr>)"
proof -
  have "scan_all Inr xs = (Inr xs :: err + string list)" for xs by (induction xs) simp_all
  with assms show ?thesis by (simp add: JobsReferencing_def run_query_rows)
qed

text \<open>The server of every job exists.\<close>

definition servers_of_jobs_exist :: "Tables \<Rightarrow> bool" where
  "servers_of_jobs_exist t \<longleftrightarrow> (\<forall>j \<in> set (t_jobs t). server_exists (jr_server_id j) t)"

lemma job_names_empty: "job_names_of ident t = [] \<longleftrightarrow> ident \<notin> set (map jr_server_id (t_jobs t))"
proof -
  have "job_names_of ident t = [] \<longleftrightarrow> length (job_names_of ident t) = 0" by simp
  then show ?thesis by (auto simp: job_names_of_def filter_empty_conv simp del: length_0_conv)
qed

lemma jobs_referencing_value:
  assumes "run_state (JobsReferencing ident) db = (r, db')"
  shows "db_tables db' = db_tables db" and "r = Inr jobs \<Longrightarrow> jobs = job_names_of ident (db_tables db)"
proof -
  show "db_tables db' = db_tables db"
    using read_only_rows assms unfolding JobsReferencing_def read_only_def by (metis snd_conv)
  have "scan_all Inr xs = (Inr xs :: err + string list)" for xs by (induction xs) simp_all
  with assms show "r = Inr jobs \<Longrightarrow> jobs = job_names_of ident (db_tables db)"
    by (auto simp: JobsReferencing_def query_rows_def run_try_do run_wrap_err run_query split: option.splits)
qed

lemma delete_server_statement:
  assumes "run_state (exec (delete_server_row ident)) db = (r, db')" and "ident \<notin> set (map jr_server_id (t_jobs (db_tables db)))"
  shows "t_jobs (db_tables db') = t_jobs (db_tables db)"
    and "\<And>k. k \<noteq> ident \<Longrightarrow> server_exists k (db_tables db') = server_exists k (db_tables db)"
    and "r = Inr n \<Longrightarrow> \<not> server_exists ident (db_tables db')"
  using assms
  by (auto simp: run_exec delete_server_row_def delete_rows_def server_exists_def Let_def split: option.splits)

text \<open>C34: A server is deleted only when no job uses it, and deleting one never leaves a job behind
  without its server. On every path, a broken database included, the server of every job
  exists after the call if it did before; a referenced server is refused with INVALID_CONFIG on
  a healthy database and nothing is changed.\<close>

theorem server_delete_keeps_references:
  assumes "servers_of_jobs_exist (db_tables db)" and "run_state (DeleteServer ident) db = (r, db')"
  shows "servers_of_jobs_exist (db_tables db') \<and>
    (r = Inr () \<longrightarrow> \<not> server_exists ident (db_tables db') \<and> ident \<notin> set (map jr_server_id (t_jobs (db_tables db')))) \<and>
    (healthy db \<and> ident \<in> set (map jr_server_id (t_jobs (db_tables db))) \<longrightarrow>
       db_tables db' = db_tables db \<and> (\<exists>e. r = Inl e \<and> CodeOf e = Some ErrInvalidConfig))"
proof -
  obtain rj dbj where j: "run_state (JobsReferencing ident) db = (rj, dbj)" by fastforce
  note tables = jobs_referencing_value(1) [OF j]
  show ?thesis
  proof (cases rj)
    case (Inl e)
    moreover from this j have "\<not> healthy db" using jobs_referencing_result [of db ident] by auto
    ultimately show ?thesis using assms j tables by (auto simp: DeleteServer_def run_try_do)
  next
    case (Inr jobs)
    then have jobs: "jobs = job_names_of ident (db_tables db)" using jobs_referencing_value(2) [OF j] by simp
    show ?thesis
    proof (cases "jobs = []")
      case False
      then show ?thesis
        using assms j tables Inr jobs job_names_empty [of ident "db_tables db"]
        by (auto simp: DeleteServer_def run_try_do)
    next
      case True
      then have free: "ident \<notin> set (map jr_server_id (t_jobs (db_tables db)))" using jobs job_names_empty by metis
      obtain rd dbd where d: "run_state (exec (delete_server_row ident)) dbj = (rd, dbd)" by fastforce
      note del = delete_server_statement [OF d, unfolded tables, OF free]
      have ends: "db_tables db' = db_tables dbd" and "r = Inr () \<Longrightarrow> \<exists>n. rd = Inr n"
        using assms(2) j Inr True d
        by (auto simp: DeleteServer_def run_try_do run_wrap_err run_checkRowsAffected split: sum.splits)
      moreover have "servers_of_jobs_exist (db_tables dbd)"
        unfolding servers_of_jobs_exist_def del(1)
      proof
        fix j assume j: "j \<in> set (t_jobs (db_tables db))"
        with free have "jr_server_id j \<noteq> ident" by auto
        from del(2) [OF this] assms(1) j show "server_exists (jr_server_id j) (db_tables dbd)"
          by (simp add: servers_of_jobs_exist_def)
      qed
      ultimately show ?thesis using del free by (auto simp: ends servers_of_jobs_exist_def)
    qed
  qed
qed

definition server_db :: Db where
  "server_db = \<lparr>db_tables = empty_tables\<lparr>t_servers := [server_row sample_server]\<rparr>, db_fault = (\<lambda>_. None), db_calls = 0\<rparr>"

lemma server_delete_witness:
  "servers_of_jobs_exist (db_tables (snd (run_state (DeleteServer (Server_ID sample_server)) server_db)))"
  using server_delete_keeps_references [of server_db "Server_ID sample_server"]
  by (simp add: servers_of_jobs_exist_def server_db_def empty_tables_def prod_eq_iff)

end
