(* ===== verification/Store_Locks.thy ===== *)
theory Store_Locks
  imports Store_Db
begin

text \<open>
  \<^verbatim>\<open>internal/store/locks.go\<close>: the job locks, the contract the run engine relies on as a locale,
  and its discharge on the repository.
\<close>

section \<open>The repository\<close>

text \<open>\<^verbatim>\<open>errors.As(err, &sqliteErr)\<close>.\<close>

fun as_sqlite :: "err \<Rightarrow> int option" where
  "as_sqlite (SqliteError k t) = Some k"
| "as_sqlite (CodedError c m (Some e)) = as_sqlite e"
| "as_sqlite (Wrapped p e) = as_sqlite e"
| "as_sqlite (Joined es) = (case filter (\<lambda>r. r \<noteq> None) (map as_sqlite es) of [] \<Rightarrow> None | r # _ \<Rightarrow> r)"
| "as_sqlite _ = None"

text \<open>\<^verbatim>\<open>sqliteErr.Code()&0xff == sqlite3.SQLITE_CONSTRAINT\<close>.\<close>

definition isUniqueConstraintErr :: "err \<Rightarrow> bool" where
  "isUniqueConstraintErr e = (case as_sqlite e of None \<Rightarrow> False | Some k \<Rightarrow> k mod 256 = 19)"

definition insert_lock :: "JobLock \<Rightarrow> Tables \<Rightarrow> err + Tables \<times> nat" where
  "insert_lock l t =
     (case insert_row lk_job_id (job_exists (lk_job_id l) t) l (t_locks t) of
        Inl e \<Rightarrow> Inl e
      | Inr ls \<Rightarrow> Inr (t\<lparr>t_locks := ls\<rparr>, 1))"

definition Acquire :: "string \<Rightarrow> string \<Rightarrow> string \<Rightarrow> int \<Rightarrow> unit Sql" where
  "Acquire jobID runID startedAt processID = do {
     r \<leftarrow> exec (insert_lock \<lparr>lk_job_id = jobID, lk_run_id = runID, lk_started_at = startedAt, lk_process_id = processID\<rparr>);
     ret (case r of
            Inl e \<Rightarrow>
              if isUniqueConstraintErr e
              then Inl (NewCodedError ErrJobAlreadyRunning ''Job already running'' (Some e))
              else Inl (Wrapped (''acquire lock for job '' @ go_quote jobID) e)
          | Inr n \<Rightarrow> Inr ())
   }"

definition delete_lock :: "string \<Rightarrow> Tables \<Rightarrow> err + Tables \<times> nat" where
  "delete_lock jobID t =
     Inr (t\<lparr>t_locks := delete_rows (\<lambda>l. lk_job_id l = jobID) (t_locks t)\<rparr>, affected (\<lambda>l. lk_job_id l = jobID) (t_locks t))"

definition Release :: "string \<Rightarrow> unit Sql" where
  "Release jobID = do {
     r \<leftarrow> exec (delete_lock jobID);
     ret (case r of Inl e \<Rightarrow> Inl (Wrapped (''release lock for job '' @ go_quote jobID) e) | Inr n \<Rightarrow> Inr ())
   }"

definition find_lock :: "string \<Rightarrow> Tables \<Rightarrow> JobLock option" where
  "find_lock jobID t = find (\<lambda>l. lk_job_id l = jobID) (t_locks t)"

definition GetLock :: "string \<Rightarrow> JobLock option Sql" where
  "GetLock jobID = wrap_err (''get lock for job '' @ go_quote jobID) (query (find_lock jobID))"

definition ListLocks :: "JobLock list Sql" where
  "ListLocks = query_rows ''list locks'' ''scan lock row'' ''iterate locks'' t_locks Inr"

section \<open>The contract\<close>

text \<open>
  What the engine relies on: a lock is given only when it is free, to one run, and stays with
  it until it is released; an operation that fails changes no lock.
\<close>

locale lock_store =
  fixes acquire :: "string \<Rightarrow> string \<Rightarrow> 'i \<Rightarrow> 's \<Rightarrow> bool \<times> 's"
    and release :: "string \<Rightarrow> 's \<Rightarrow> bool \<times> 's"
    and holder :: "string \<Rightarrow> 's \<Rightarrow> string option"
  assumes acquire_ok: "acquire j r i s = (True, t) \<Longrightarrow>
      holder j s = None \<and> holder j t = Some r \<and> (\<forall>k. k \<noteq> j \<longrightarrow> holder k t = holder k s)"
    and acquire_failed: "acquire j r i s = (False, t) \<Longrightarrow> holder k t = holder k s"
    and release_ok: "release j s = (True, t) \<Longrightarrow> holder j t = None \<and> (\<forall>k. k \<noteq> j \<longrightarrow> holder k t = holder k s)"
    and release_failed: "release j s = (False, t) \<Longrightarrow> holder k t = holder k s"
begin

lemma acquire_held: "holder j s \<noteq> None \<Longrightarrow> \<not> fst (acquire j r i s)"
  using acquire_ok [of j r i s] by (cases "acquire j r i s") auto

lemma acquire_keeps: "holder j s = Some r \<Longrightarrow> holder j (snd (acquire k q i s)) = Some r"
  using acquire_ok [of k q i s] acquire_failed [of k q i s]
  by (cases "acquire k q i s"; cases "fst (acquire k q i s)"; cases "k = j") auto

lemma release_keeps: "k \<noteq> j \<Longrightarrow> holder j (snd (release k s)) = holder j s"
  using release_ok [of k s] release_failed [of k s]
  by (cases "release k s"; cases "fst (release k s)") auto

lemma taken_until_released: "acquire j r i s = (True, t) \<Longrightarrow> \<not> fst (acquire j q i' t)"
  using acquire_ok acquire_held by (metis option.distinct(1))

end

section \<open>The repository keeps the contract\<close>

definition lock_holder :: "string \<Rightarrow> Db \<Rightarrow> string option" where
  "lock_holder jobID db = map_option lk_run_id (find_lock jobID (db_tables db))"

definition succeeds :: "unit Sql \<Rightarrow> Db \<Rightarrow> bool \<times> Db" where
  "succeeds m db = (let (r, db') = run_state m db in (r = Inr (), db'))"

definition acquire_step :: "string \<Rightarrow> string \<Rightarrow> string \<times> int \<Rightarrow> Db \<Rightarrow> bool \<times> Db" where
  "acquire_step jobID runID i db = succeeds (Acquire jobID runID (fst i) (snd i)) db"

definition release_step :: "string \<Rightarrow> Db \<Rightarrow> bool \<times> Db" where
  "release_step jobID db = succeeds (Release jobID) db"

lemma find_lock_append:
  "find_lock j (t\<lparr>t_locks := t_locks t @ [l]\<rparr>) =
     (case find_lock j t of Some x \<Rightarrow> Some x | None \<Rightarrow> if lk_job_id l = j then Some l else None)"
proof -
  have "find P (xs @ [l]) = (case find P xs of Some x \<Rightarrow> Some x | None \<Rightarrow> if P l then Some l else None)"
    for P and xs :: "JobLock list"
    by (induction xs) simp_all
  then show ?thesis by (simp add: find_lock_def)
qed

lemma find_lock_delete:
  "find_lock j (t\<lparr>t_locks := delete_rows (\<lambda>l. lk_job_id l = k) (t_locks t)\<rparr>) = (if j = k then None else find_lock j t)"
proof -
  have "find (\<lambda>l. lk_job_id l = j) (filter (\<lambda>l. lk_job_id l \<noteq> k) xs) =
      (if j = k then None else find (\<lambda>l. lk_job_id l = j) xs)" for xs
    by (induction xs) auto
  from this [of "t_locks t"] show ?thesis by (auto simp: find_lock_def delete_rows_def)
qed

lemma find_lock_None: "find_lock j t = None \<longleftrightarrow> j \<notin> set (map lk_job_id (t_locks t))"
  by (auto simp: find_lock_def find_None_iff)

interpretation job_locks: lock_store acquire_step release_step lock_holder
proof unfold_locales
  fix j r i s t k
  show "acquire_step j r i s = (True, t) \<Longrightarrow>
      lock_holder j s = None \<and> lock_holder j t = Some r \<and> (\<forall>k. k \<noteq> j \<longrightarrow> lock_holder k t = lock_holder k s)"
    using find_lock_None [of j "db_tables s"]
    by (auto simp: acquire_step_def succeeds_def Acquire_def run_exec insert_lock_def insert_row_def lock_holder_def Let_def
        find_lock_append split: option.splits sum.splits if_splits)
  show "acquire_step j r i s = (False, t) \<Longrightarrow> lock_holder k t = lock_holder k s"
    by (auto simp: acquire_step_def succeeds_def Acquire_def run_exec insert_lock_def insert_row_def lock_holder_def Let_def
        split: option.splits sum.splits if_splits)
  show "release_step j s = (True, t) \<Longrightarrow>
      lock_holder j t = None \<and> (\<forall>k. k \<noteq> j \<longrightarrow> lock_holder k t = lock_holder k s)"
    by (auto simp: release_step_def succeeds_def Release_def run_exec delete_lock_def lock_holder_def Let_def
        find_lock_delete split: option.splits sum.splits)
  show "release_step j s = (False, t) \<Longrightarrow> lock_holder k t = lock_holder k s"
    by (auto simp: release_step_def succeeds_def Release_def run_exec delete_lock_def lock_holder_def Let_def
        split: option.splits sum.splits)
qed

section \<open>Sequences of lock operations\<close>

datatype LockOp = AcquireOp string string string int | ReleaseOp string

primrec run_lock_op :: "LockOp \<Rightarrow> Db \<Rightarrow> bool \<times> Db" where
  "run_lock_op (AcquireOp jobID runID startedAt pid) db = acquire_step jobID runID (startedAt, pid) db"
| "run_lock_op (ReleaseOp jobID) db = release_step jobID db"

text \<open>The operations of all runs in the order the database serves them, with their results.\<close>

primrec run_lock_ops :: "LockOp list \<Rightarrow> Db \<Rightarrow> (LockOp \<times> bool) list" where
  "run_lock_ops [] db = []"
| "run_lock_ops (p # ps) db = (p, fst (run_lock_op p db)) # run_lock_ops ps (snd (run_lock_op p db))"

text \<open>The runs that were given the lock of a job.\<close>

fun granted :: "string \<Rightarrow> (LockOp \<times> bool) list \<Rightarrow> string list" where
  "granted jobID [] = []"
| "granted jobID ((AcquireOp j runID t pid, ok) # log) =
     (if j = jobID \<and> ok then runID # granted jobID log else granted jobID log)"
| "granted jobID ((ReleaseOp j, ok) # log) = granted jobID log"

lemma granted_held:
  assumes "lock_holder j db = Some r" and "ReleaseOp j \<notin> set ps"
  shows "granted j (run_lock_ops ps db) = []"
  using assms
proof (induction ps arbitrary: db)
  case (Cons p ps)
  show ?case
  proof (cases p)
    case (AcquireOp k q t pid)
    have "lock_holder j (snd (run_lock_op p db)) = Some r"
      using job_locks.acquire_keeps Cons.prems(1) by (simp add: AcquireOp)
    moreover have "k = j \<Longrightarrow> \<not> fst (run_lock_op p db)"
      using job_locks.acquire_held [of j db] Cons.prems(1) by (simp add: AcquireOp)
    ultimately show ?thesis using Cons by (auto simp: AcquireOp)
  next
    case (ReleaseOp k)
    then have "lock_holder j (snd (run_lock_op p db)) = Some r"
      using job_locks.release_keeps [of k j db] Cons.prems by auto
    then show ?thesis using Cons by (simp add: ReleaseOp)
  qed
qed simp

text \<open>C23: The job lock excludes. After a run has taken the lock of a job, no other run is given it by
  any sequence of acquisitions and releases in which the job is not released, in whatever
  order the runs' calls interleave and whichever calls the database fails.\<close>

theorem job_lock_excludes:
  assumes "acquire_step jobID runID i db = (True, db')" and "ReleaseOp jobID \<notin> set ops"
  shows "granted jobID (run_lock_ops ops db') = []"
  using job_locks.acquire_ok [OF assms(1)] granted_held [OF _ assms(2)] by blast

definition sample_job_row :: JobRow where
  "sample_job_row = \<lparr>jr_id = ''job1'', jr_name = ''web'', jr_server_id = ''srv1'', jr_enabled = 1,
     jr_archive_format = ''TAR_GZ'', jr_remote_temp_directory = ''/tmp'', jr_local_destination = ''D:'',
     jr_archive_timeout_seconds = 7200, jr_health_check_command = [], jr_health_check_attempts = 0,
     jr_health_check_interval_seconds = 0, jr_created_at = ''1970-01-01T00:00:00Z'',
     jr_updated_at = ''1970-01-01T00:00:00Z''\<rparr>"

definition sample_db :: Db where
  "sample_db = \<lparr>db_tables = empty_tables\<lparr>t_jobs := [sample_job_row]\<rparr>, db_fault = (\<lambda>_. None), db_calls = 0\<rparr>"

lemma job_lock_excludes_witness:
  "granted ''job1'' (run_lock_ops [AcquireOp ''job1'' ''run2'' ''t'' 7, ReleaseOp ''job2'', AcquireOp ''job1'' ''run3'' ''t'' 7]
     (snd (acquire_step ''job1'' ''run1'' (''t'', 7) sample_db))) = []"
  by (rule job_lock_excludes [of "''job1''" "''run1''" "(''t'', 7)" sample_db])
    (simp_all add: prod_eq_iff acquire_step_def succeeds_def Acquire_def run_exec sample_db_def insert_lock_def insert_row_def
      job_exists_def sample_job_row_def empty_tables_def Let_def)

text \<open>A missing job is reported as a running one. The driver's code for any constraint is taken for
  the primary key of the lock table, but the table also has a foreign key to the jobs: taking
  the lock of a job that was deleted, and that nobody holds, fails with JOB_ALREADY_RUNNING on
  a healthy database, so the engine records a SKIPPED run instead of an error.\<close>

theorem deleted_job_reported_running:
  assumes "healthy db" and "\<not> job_exists jobID (db_tables db)" and "lock_holder jobID db = None"
  shows "\<exists>e. fst (run_state (Acquire jobID runID startedAt pid) db) = Inl e \<and> CodeOf e = Some ErrJobAlreadyRunning"
  using assms find_lock_None [of jobID "db_tables db"]
  by (simp add: Acquire_def run_exec insert_lock_def insert_row_def lock_holder_def job_exists_def Let_def
      isUniqueConstraintErr_def foreign_key_error_def constraint_error_def)

lemma deleted_job_witness:
  "\<exists>e. fst (run_state (Acquire ''gone'' ''run1'' ''t'' 7) sample_db) = Inl e \<and> CodeOf e = Some ErrJobAlreadyRunning"
  by (rule deleted_job_reported_running)
    (simp_all add: sample_db_def healthy_def job_exists_def sample_job_row_def empty_tables_def lock_holder_def find_lock_def)

end
