(* ===== verification/Store_Jobs.thy ===== *)
theory Store_Jobs
  imports Store_Servers Store_Runs Store_Locks
begin

text \<open>
  \<^verbatim>\<open>internal/store/jobs.go\<close> and \<^verbatim>\<open>jobs_children.go\<close>: the job aggregate (the job row, its sources,
  scripts, schedule and retention policy) written in one transaction and loaded in batches.
\<close>

section \<open>Columns\<close>

text \<open>
  \<^verbatim>\<open>int(d.Seconds())\<close>: the whole seconds of a duration. (Go computes through \<^verbatim>\<open>float64\<close>, which is
  exact for a whole number of seconds, the only durations the service stores.)
\<close>

definition whole_seconds :: "Duration \<Rightarrow> int" where
  "whole_seconds d = sgn d * (\<bar>d\<bar> div second)"

definition healthCheckCommand :: "HealthCheck option \<Rightarrow> string" where
  "healthCheckCommand h = (case h of None \<Rightarrow> [] | Some hc \<Rightarrow> HealthCheck_Command hc)"

definition healthCheckAttempts :: "HealthCheck option \<Rightarrow> int" where
  "healthCheckAttempts h = (case h of None \<Rightarrow> 0 | Some hc \<Rightarrow> HealthCheck_Attempts hc)"

definition healthCheckIntervalSeconds :: "HealthCheck option \<Rightarrow> int" where
  "healthCheckIntervalSeconds h = (case h of None \<Rightarrow> 0 | Some hc \<Rightarrow> HealthCheck_IntervalSeconds hc)"

definition job_row :: "Job \<Rightarrow> JobRow" where
  "job_row j = \<lparr>
     jr_id = Job_ID j, jr_name = Job_Name j, jr_server_id = Job_ServerID j, jr_enabled = boolToInt (Job_Enabled j),
     jr_archive_format = ArchiveFormat_str (Job_ArchiveFormat j), jr_remote_temp_directory = Job_RemoteTempDirectory j,
     jr_local_destination = Job_LocalDestination j, jr_archive_timeout_seconds = whole_seconds (Job_ArchiveTimeout j),
     jr_health_check_command = healthCheckCommand (Job_HealthCheck j),
     jr_health_check_attempts = healthCheckAttempts (Job_HealthCheck j),
     jr_health_check_interval_seconds = healthCheckIntervalSeconds (Job_HealthCheck j),
     jr_created_at = formatTime (Job_CreatedAt j), jr_updated_at = formatTime (Job_UpdatedAt j)\<rparr>"

definition source_row :: "string \<Rightarrow> Source \<Rightarrow> SourceRow" where
  "source_row jobID s = \<lparr>
     so_id = Source_ID s, so_job_id = jobID, so_remote_path = Source_RemotePath s, so_position = Source_Position s,
     so_include_patterns = joinStrings (Source_Include s), so_exclude_patterns = joinStrings (Source_Exclude s)\<rparr>"

definition script_row :: "string \<Rightarrow> Script \<Rightarrow> ScriptRow" where
  "script_row jobID sc = \<lparr>
     sc_id = Script_ID sc, sc_job_id = jobID, sc_script_type = ScriptType_str (Script_Type sc),
     sc_command = Script_Command sc, sc_position = Script_Position sc, sc_timeout_seconds = Script_TimeoutSeconds sc,
     sc_run_condition = RunCondition_str (Script_RunCondition sc),
     sc_critical_cleanup = boolToInt (Script_CriticalCleanup sc),
     sc_retry_on_failure = boolToInt (Script_RetryOnFailure sc)\<rparr>"

definition schedule_row :: "string \<Rightarrow> Schedule \<Rightarrow> ScheduleRow" where
  "schedule_row jobID s = \<lparr>
     sd_id = Schedule_ID s, sd_job_id = jobID, sd_schedule_type = ScheduleType_str (Schedule_Type s),
     sd_hour = Schedule_Hour s, sd_minute = Schedule_Minute s, sd_weekdays = joinInts (Schedule_Weekdays s),
     sd_day_of_month = Schedule_DayOfMonth s, sd_cron_expression = Schedule_CronExpression s,
     sd_missed_run_policy = MissedRunPolicy_str (Schedule_MissedRunPolicy s)\<rparr>"

definition retention_row :: "string \<Rightarrow> RetentionPolicy \<Rightarrow> RetentionRow" where
  "retention_row jobID p = \<lparr>
     rp_id = RetentionPolicy_ID p, rp_job_id = jobID, rp_keep_last = nullInt (KeepLast p),
     rp_max_age_days = nullInt (MaxAgeDays p)\<rparr>"

section \<open>Writing\<close>

definition insert_job :: "JobRow \<Rightarrow> Tables \<Rightarrow> err + Tables \<times> nat" where
  "insert_job row t =
     (case insert_row jr_id (server_exists (jr_server_id row) t) row (t_jobs t) of
        Inl e \<Rightarrow> Inl e
      | Inr rs \<Rightarrow> Inr (t\<lparr>t_jobs := rs\<rparr>, 1))"

definition insertJobRow :: "Job \<Rightarrow> unit Sql" where
  "insertJobRow j =
     try_do (wrap_err (''insert job '' @ go_quote (Job_ID j)) (exec (insert_job (job_row j)))) (\<lambda>_. ret (Inr ()))"

definition insert_source :: "SourceRow \<Rightarrow> Tables \<Rightarrow> err + Tables \<times> nat" where
  "insert_source row t =
     (case insert_row so_id (job_exists (so_job_id row) t) row (t_sources t) of
        Inl e \<Rightarrow> Inl e
      | Inr rs \<Rightarrow> Inr (t\<lparr>t_sources := rs\<rparr>, 1))"

definition insert_script :: "ScriptRow \<Rightarrow> Tables \<Rightarrow> err + Tables \<times> nat" where
  "insert_script row t =
     (case insert_row sc_id (job_exists (sc_job_id row) t) row (t_scripts t) of
        Inl e \<Rightarrow> Inl e
      | Inr rs \<Rightarrow> Inr (t\<lparr>t_scripts := rs\<rparr>, 1))"

text \<open>
  \<^verbatim>\<open>INSERT ... ON CONFLICT(job_id) DO UPDATE\<close>: a row of the job is updated, all columns but its
  identifier; otherwise the row is inserted.
\<close>

definition upsert_schedule_row :: "ScheduleRow \<Rightarrow> Tables \<Rightarrow> err + Tables \<times> nat" where
  "upsert_schedule_row row t =
     (if sd_job_id row \<in> set (map sd_job_id (t_schedules t))
      then Inr (t\<lparr>t_schedules := update_rows (\<lambda>r. sd_job_id r = sd_job_id row) (\<lambda>r. row\<lparr>sd_id := sd_id r\<rparr>) (t_schedules t)\<rparr>, 1)
      else (case insert_row sd_id (job_exists (sd_job_id row) t) row (t_schedules t) of
              Inl e \<Rightarrow> Inl e
            | Inr rs \<Rightarrow> Inr (t\<lparr>t_schedules := rs\<rparr>, 1)))"

definition upsert_retention_row :: "RetentionRow \<Rightarrow> Tables \<Rightarrow> err + Tables \<times> nat" where
  "upsert_retention_row row t =
     (if rp_job_id row \<in> set (map rp_job_id (t_retention t))
      then Inr (t\<lparr>t_retention := update_rows (\<lambda>r. rp_job_id r = rp_job_id row) (\<lambda>r. row\<lparr>rp_id := rp_id r\<rparr>) (t_retention t)\<rparr>, 1)
      else (case insert_row rp_id (job_exists (rp_job_id row) t) row (t_retention t) of
              Inl e \<Rightarrow> Inl e
            | Inr rs \<Rightarrow> Inr (t\<lparr>t_retention := rs\<rparr>, 1)))"

definition upsertSchedule :: "string \<Rightarrow> Schedule \<Rightarrow> unit Sql" where
  "upsertSchedule jobID s =
     try_do (wrap_err (''upsert schedule for job '' @ go_quote jobID) (exec (upsert_schedule_row (schedule_row jobID s))))
       (\<lambda>_. ret (Inr ()))"

definition upsertRetention :: "string \<Rightarrow> RetentionPolicy \<Rightarrow> unit Sql" where
  "upsertRetention jobID p =
     try_do (wrap_err (''upsert retention policy for job '' @ go_quote jobID)
       (exec (upsert_retention_row (retention_row jobID p)))) (\<lambda>_. ret (Inr ()))"

definition insertSource :: "string \<Rightarrow> Source \<Rightarrow> nat Sql" where
  "insertSource jobID s =
     wrap_err (''insert source '' @ go_quote (Source_ID s) @ '' for job '' @ go_quote jobID)
       (exec (insert_source (source_row jobID s)))"

definition insertScript :: "string \<Rightarrow> Script \<Rightarrow> nat Sql" where
  "insertScript jobID sc =
     wrap_err (''insert script '' @ go_quote (Script_ID sc) @ '' for job '' @ go_quote jobID)
       (exec (insert_script (script_row jobID sc)))"

definition replaceJobChildren :: "Job \<Rightarrow> unit Sql" where
  "replaceJobChildren j =
     try_do (try_each (insertSource (Job_ID j)) (Job_Sources j)) (\<lambda>_.
     try_do (try_each (insertScript (Job_ID j)) (Job_Scripts j)) (\<lambda>_.
     try_do (upsertSchedule (Job_ID j) (Job_Schedule j)) (\<lambda>_.
       upsertRetention (Job_ID j) (Job_RetentionPolicy j))))"

definition CreateJob :: "Job \<Rightarrow> unit Sql" where
  "CreateJob j = transaction (''commit create job '' @ go_quote (Job_ID j))
     (try_do (insertJobRow j) (\<lambda>_. replaceJobChildren j))"

text \<open>The columns of \<^verbatim>\<open>UPDATE backup_jobs\<close>: all but the identifier and \<^verbatim>\<open>created_at\<close>.\<close>

definition set_job_columns :: "JobRow \<Rightarrow> JobRow \<Rightarrow> JobRow" where
  "set_job_columns new row = new\<lparr>jr_id := jr_id row, jr_created_at := jr_created_at row\<rparr>"

definition update_job_row :: "Job \<Rightarrow> Tables \<Rightarrow> err + Tables \<times> nat" where
  "update_job_row j t =
     (if job_exists (Job_ID j) t \<and> \<not> server_exists (Job_ServerID j) t then Inl foreign_key_error
      else Inr (t\<lparr>t_jobs := update_rows (\<lambda>r. jr_id r = Job_ID j) (set_job_columns (job_row j)) (t_jobs t)\<rparr>,
             affected (\<lambda>r. jr_id r = Job_ID j) (t_jobs t)))"

definition delete_sources :: "string \<Rightarrow> Tables \<Rightarrow> err + Tables \<times> nat" where
  "delete_sources jobID t =
     Inr (t\<lparr>t_sources := delete_rows (\<lambda>r. so_job_id r = jobID) (t_sources t)\<rparr>, affected (\<lambda>r. so_job_id r = jobID) (t_sources t))"

definition delete_scripts :: "string \<Rightarrow> Tables \<Rightarrow> err + Tables \<times> nat" where
  "delete_scripts jobID t =
     Inr (t\<lparr>t_scripts := delete_rows (\<lambda>r. sc_job_id r = jobID) (t_scripts t)\<rparr>, affected (\<lambda>r. sc_job_id r = jobID) (t_scripts t))"

definition UpdateJob :: "Job \<Rightarrow> unit Sql" where
  "UpdateJob j = transaction (''commit update job '' @ go_quote (Job_ID j))
     (try_do (wrap_err (''update job '' @ go_quote (Job_ID j)) (exec (update_job_row j))) (\<lambda>n.
      try_do (checkRowsAffected n ''job'' (Job_ID j)) (\<lambda>_.
      try_do (wrap_err (''clear job children for '' @ go_quote (Job_ID j)) (exec (delete_sources (Job_ID j)))) (\<lambda>_.
      try_do (wrap_err (''clear job children for '' @ go_quote (Job_ID j)) (exec (delete_scripts (Job_ID j)))) (\<lambda>_.
      try_do (replaceJobChildren j) (\<lambda>_.
      try_do (upsertSchedule (Job_ID j) (Job_Schedule j)) (\<lambda>_.
        upsertRetention (Job_ID j) (Job_RetentionPolicy j))))))))"

definition set_enabled_row :: "string \<Rightarrow> bool \<Rightarrow> Tables \<Rightarrow> err + Tables \<times> nat" where
  "set_enabled_row ident enabled t =
     Inr (t\<lparr>t_jobs := update_rows (\<lambda>r. jr_id r = ident) (\<lambda>r. r\<lparr>jr_enabled := boolToInt enabled\<rparr>) (t_jobs t)\<rparr>,
       affected (\<lambda>r. jr_id r = ident) (t_jobs t))"

definition SetEnabled :: "string \<Rightarrow> bool \<Rightarrow> unit Sql" where
  "SetEnabled ident enabled =
     try_do (wrap_err (''set job '' @ go_quote ident @ '' enabled='' @ (if enabled then ''true'' else ''false''))
       (exec (set_enabled_row ident enabled))) (\<lambda>n. checkRowsAffected n ''job'' ident)"

text \<open>The steps of a deleted run go with it.\<close>

definition delete_runs_of :: "string \<Rightarrow> Tables \<Rightarrow> err + Tables \<times> nat" where
  "delete_runs_of jobID t =
     (let gone = map rr_id (filter (\<lambda>r. rr_job_id r = jobID) (t_runs t))
      in Inr (t\<lparr>t_runs := delete_rows (\<lambda>r. rr_job_id r = jobID) (t_runs t),
               t_steps := delete_rows (\<lambda>s. st_run_id s \<in> set gone) (t_steps t)\<rparr>, length gone))"

text \<open>With a job go its sources, scripts, schedule, retention policy and lock.\<close>

definition delete_job_row :: "string \<Rightarrow> Tables \<Rightarrow> err + Tables \<times> nat" where
  "delete_job_row ident t =
     (if \<not> job_exists ident t then Inr (t, 0)
      else Inr (t\<lparr>t_jobs := delete_rows (\<lambda>r. jr_id r = ident) (t_jobs t),
                t_sources := delete_rows (\<lambda>r. so_job_id r = ident) (t_sources t),
                t_scripts := delete_rows (\<lambda>r. sc_job_id r = ident) (t_scripts t),
                t_schedules := delete_rows (\<lambda>r. sd_job_id r = ident) (t_schedules t),
                t_retention := delete_rows (\<lambda>r. rp_job_id r = ident) (t_retention t),
                t_locks := delete_rows (\<lambda>l. lk_job_id l = ident) (t_locks t)\<rparr>,
              affected (\<lambda>r. jr_id r = ident) (t_jobs t)))"

definition active_run_message :: string where
  "active_run_message = ''cannot delete a job with an active run; wait for it to finish or cancel it''"

definition refuse_if_locked :: "string \<Rightarrow> unit Sql" where
  "refuse_if_locked ident = do {
     r \<leftarrow> query_one (find_lock ident) (\<lambda>l. Inr (lk_job_id l));
     ret (case r of
            Inr _ \<Rightarrow> Inl (NewCodedError ErrJobAlreadyRunning active_run_message None)
          | Inl e \<Rightarrow>
              if is_err (\<lambda>x. x = NoRows) e then Inr ()
              else Inl (Wrapped (''check active lock for job '' @ go_quote ident) e))
   }"

definition DeleteJob :: "string \<Rightarrow> bool \<Rightarrow> unit Sql" where
  "DeleteJob ident deleteHistory = transaction (''commit delete job '' @ go_quote ident)
     (try_do (refuse_if_locked ident) (\<lambda>_.
      try_do (if deleteHistory
              then wrap_err (''delete run history for job '' @ go_quote ident) (exec (delete_runs_of ident))
              else ret (Inr 0)) (\<lambda>_.
      try_do (wrap_err (''delete job '' @ go_quote ident) (exec (delete_job_row ident))) (\<lambda>n.
        checkRowsAffected n ''job'' ident))))"

section \<open>Loading\<close>

definition no_schedule :: Schedule where
  "no_schedule = \<lparr>Schedule_ID = [], Schedule_JobID = [], Schedule_Type = ScheduleType_of [], Schedule_Hour = 0,
     Schedule_Minute = 0, Schedule_Weekdays = [], Schedule_DayOfMonth = 0, Schedule_CronExpression = [],
     Schedule_MissedRunPolicy = MissedRunPolicy_of []\<rparr>"

definition no_retention :: RetentionPolicy where
  "no_retention = \<lparr>RetentionPolicy_ID = [], RetentionPolicy_JobID = [], KeepLast = None, MaxAgeDays = None\<rparr>"

definition scanJobRow :: "TimeParser \<Rightarrow> JobRow \<Rightarrow> err + Job" where
  "scanJobRow general row =
     (case parseTime general (jr_created_at row) of
        Inl e \<Rightarrow> Inl e
      | Inr createdAt \<Rightarrow>
          (case parseTime general (jr_updated_at row) of
             Inl e \<Rightarrow> Inl e
           | Inr updatedAt \<Rightarrow> Inr \<lparr>
               Job_ID = jr_id row, Job_Name = jr_name row, Job_ServerID = jr_server_id row,
               Job_Enabled = intToBool (jr_enabled row), Job_Sources = [], Job_Scripts = [],
               Job_Schedule = no_schedule, Job_RetentionPolicy = no_retention,
               Job_HealthCheck =
                 (if jr_health_check_command row \<noteq> []
                  then Some \<lparr>HealthCheck_Command = jr_health_check_command row,
                         HealthCheck_Attempts = jr_health_check_attempts row,
                         HealthCheck_IntervalSeconds = jr_health_check_interval_seconds row\<rparr>
                  else None),
               Job_ArchiveFormat = ArchiveFormat_of (jr_archive_format row),
               Job_RemoteTempDirectory = jr_remote_temp_directory row, Job_LocalDestination = jr_local_destination row,
               Job_ArchiveTimeout = secondsToDuration (jr_archive_timeout_seconds row),
               Job_CreatedAt = createdAt, Job_UpdatedAt = updatedAt\<rparr>))"

definition source_of_row :: "SourceRow \<Rightarrow> Source" where
  "source_of_row r = \<lparr>
     Source_ID = so_id r, Source_JobID = so_job_id r, Source_RemotePath = so_remote_path r,
     Source_Position = so_position r, Source_Include = splitStrings (so_include_patterns r),
     Source_Exclude = splitStrings (so_exclude_patterns r)\<rparr>"

definition script_of_row :: "ScriptRow \<Rightarrow> Script" where
  "script_of_row r = \<lparr>
     Script_ID = sc_id r, Script_JobID = sc_job_id r, Script_Type = ScriptType_of (sc_script_type r),
     Script_Command = sc_command r, Script_Position = sc_position r, Script_TimeoutSeconds = sc_timeout_seconds r,
     Script_RunCondition = RunCondition_of (sc_run_condition r),
     Script_CriticalCleanup = intToBool (sc_critical_cleanup r),
     Script_RetryOnFailure = intToBool (sc_retry_on_failure r)\<rparr>"

definition schedule_of_row :: "ScheduleRow \<Rightarrow> err + Schedule" where
  "schedule_of_row r =
     (case splitInts (sd_weekdays r) of
        Inl e \<Rightarrow> Inl (Wrapped (''parse schedule weekdays for job '' @ go_quote (sd_job_id r)) e)
      | Inr ints \<Rightarrow> Inr \<lparr>
          Schedule_ID = sd_id r, Schedule_JobID = sd_job_id r, Schedule_Type = ScheduleType_of (sd_schedule_type r),
          Schedule_Hour = sd_hour r, Schedule_Minute = sd_minute r, Schedule_Weekdays = ints,
          Schedule_DayOfMonth = sd_day_of_month r, Schedule_CronExpression = sd_cron_expression r,
          Schedule_MissedRunPolicy = MissedRunPolicy_of (sd_missed_run_policy r)\<rparr>)"

definition retention_of_row :: "RetentionRow \<Rightarrow> RetentionPolicy" where
  "retention_of_row r = \<lparr>
     RetentionPolicy_ID = rp_id r, RetentionPolicy_JobID = rp_job_id r, KeepLast = intPtr (rp_keep_last r),
     MaxAgeDays = intPtr (rp_max_age_days r)\<rparr>"

text \<open>The loop over rows with \<^verbatim>\<open>if j, ok := jobs[x.JobID]; ok\<close>; the jobs are the values of the map.\<close>

definition attach :: "('x \<Rightarrow> string) \<Rightarrow> ('x \<Rightarrow> Job \<Rightarrow> Job) \<Rightarrow> 'x list \<Rightarrow> Job list \<Rightarrow> Job list" where
  "attach key f xs jobs = fold (\<lambda>x js. map (\<lambda>j. if Job_ID j = key x then f x j else j) js) xs jobs"

text \<open>\<^verbatim>\<open>ORDER BY job_id, position\<close>.\<close>

definition by_job_and_position :: "('r \<Rightarrow> string) \<Rightarrow> ('r \<Rightarrow> int) \<Rightarrow> 'r \<Rightarrow> 'r \<Rightarrow> bool" where
  "by_job_and_position job pos a b \<longleftrightarrow> text_less (job a) (job b) \<or> job a = job b \<and> pos a < pos b"

definition sources_query :: "string list \<Rightarrow> Tables \<Rightarrow> SourceRow list" where
  "sources_query ids t =
     order_by (by_job_and_position so_job_id so_position) (filter (\<lambda>r. so_job_id r \<in> set ids) (t_sources t))"

definition scripts_query :: "string list \<Rightarrow> Tables \<Rightarrow> ScriptRow list" where
  "scripts_query ids t =
     order_by (by_job_and_position sc_job_id sc_position) (filter (\<lambda>r. sc_job_id r \<in> set ids) (t_scripts t))"

definition attachSources :: "Job list \<Rightarrow> Job list Sql" where
  "attachSources jobs =
     try_do (query_rows ''query backup sources'' ''scan backup source'' ''iterate backup sources''
       (sources_query (map Job_ID jobs)) (\<lambda>r. Inr (source_of_row r)))
     (\<lambda>xs. ret (Inr (attach Source_JobID (\<lambda>s j. j\<lparr>Job_Sources := Job_Sources j @ [s]\<rparr>) xs jobs)))"

definition attachScripts :: "Job list \<Rightarrow> Job list Sql" where
  "attachScripts jobs =
     try_do (query_rows ''query job scripts'' ''scan job script'' ''iterate job scripts''
       (scripts_query (map Job_ID jobs)) (\<lambda>r. Inr (script_of_row r)))
     (\<lambda>xs. ret (Inr (attach Script_JobID (\<lambda>s j. j\<lparr>Job_Scripts := Job_Scripts j @ [s]\<rparr>) xs jobs)))"

text \<open>The error of a bad weekday list carries its own text.\<close>

definition attachSchedules :: "Job list \<Rightarrow> Job list Sql" where
  "attachSchedules jobs =
     try_do (wrap_err ''query schedules'' (query (\<lambda>t. filter (\<lambda>r. sd_job_id r \<in> set (map Job_ID jobs)) (t_schedules t)))) (\<lambda>rows.
       case scan_all schedule_of_row rows of
         Inl e \<Rightarrow> ret (Inl e)
       | Inr xs \<Rightarrow>
           try_do (wrap_err ''iterate schedules'' (query (\<lambda>_. ()))) (\<lambda>_.
             ret (Inr (attach Schedule_JobID (\<lambda>s j. j\<lparr>Job_Schedule := s\<rparr>) xs jobs))))"

definition attachRetention :: "Job list \<Rightarrow> Job list Sql" where
  "attachRetention jobs =
     try_do (query_rows ''query retention policies'' ''scan retention policy'' ''iterate retention policies''
       (\<lambda>t. filter (\<lambda>r. rp_job_id r \<in> set (map Job_ID jobs)) (t_retention t)) (\<lambda>r. Inr (retention_of_row r)))
     (\<lambda>xs. ret (Inr (attach RetentionPolicy_JobID (\<lambda>p j. j\<lparr>Job_RetentionPolicy := p\<rparr>) xs jobs)))"

definition loadJobs :: "TimeParser \<Rightarrow> (Tables \<Rightarrow> JobRow list) \<Rightarrow> Job list Sql" where
  "loadJobs general select =
     try_do (query_rows ''query jobs'' ''scan job row'' ''iterate jobs'' select (scanJobRow general)) (\<lambda>jobs.
       if jobs = [] then ret (Inr [])
       else try_do (attachSources jobs) (\<lambda>jobs1.
            try_do (attachScripts jobs1) (\<lambda>jobs2.
            try_do (attachSchedules jobs2) attachRetention)))"

definition GetJob :: "TimeParser \<Rightarrow> string \<Rightarrow> Job Sql" where
  "GetJob general ident =
     try_do (loadJobs general (\<lambda>t. filter (\<lambda>r. jr_id r = ident) (t_jobs t))) (\<lambda>jobs.
       ret (case jobs of
              [] \<Rightarrow> Inl (NewCodedError ErrNotFound (''job '' @ go_quote ident @ '' not found'') None)
            | j # _ \<Rightarrow> Inr j))"

definition ListJobs :: "TimeParser \<Rightarrow> Job list Sql" where
  "ListJobs general = loadJobs general (\<lambda>t. order_by (\<lambda>a b. text_less (jr_name a) (jr_name b)) (t_jobs t))"

end
