(* ===== verification/Store_Jobs_Facts.thy ===== *)
theory Store_Jobs_Facts
  imports Store_Jobs
begin

text \<open>
  What the job repository promises: a write of the aggregate happens entirely or not at all
  whatever the database does, a job comes back from the database as it was stored, and a deletion
  takes the configuration and only what it was asked to take.
\<close>

section \<open>Success and failure of a statement\<close>

lemma exec_Inr: "run_state (exec stmt) db = (Inr n, db') \<Longrightarrow> stmt (db_tables db) = Inr (db_tables db', n)"
  by (auto simp: run_exec Let_def split: option.splits sum.splits prod.splits)

lemma exec_tables: "run_state (exec stmt) db = (Inr n, db') \<Longrightarrow> db_tables db' = fst (projr (stmt (db_tables db)))"
  by (drule exec_Inr) simp

lemma wrap_Inr: "run_state (wrap_err msg m) db = (Inr x, db') \<Longrightarrow> run_state m db = (Inr x, db')"
  by (auto simp: run_wrap_err split: prod.splits sum.splits)

lemma transaction_Inr:
  assumes "run_state (transaction msg body) db = (Inr x, db')"
  obtains db1 db2 where "run_state body db1 = (Inr x, db2)" and "db_tables db1 = db_tables db"
    and "db_tables db' = db_tables db2" and "db_fault db1 = db_fault db"
  using assms by (auto simp: transaction_def run_driver_call split: option.splits sum.splits prod.splits)

text \<open>On a database that answers, \<open>m\<close> takes the tables \<open>t\<close> to \<open>t'\<close> and returns \<open>x\<close>.\<close>

definition yields :: "'a Sql \<Rightarrow> Tables \<Rightarrow> 'a \<Rightarrow> Tables \<Rightarrow> bool" where
  "yields m t x t' \<longleftrightarrow> (\<forall>db. healthy db \<longrightarrow> db_tables db = t \<longrightarrow>
     (\<exists>db'. run_state m db = (Inr x, db') \<and> healthy db' \<and> db_tables db' = t'))"

lemma yields_ret: "yields (ret (Inr x)) t x t"
  by (simp add: yields_def)

lemma yields_exec: "stmt t = Inr (t', n) \<Longrightarrow> yields (exec stmt) t n t'"
  by (simp add: yields_def run_exec Let_def)

lemma yields_query: "yields (query q) t (q t) t"
  by (simp add: yields_def run_query)

lemma yields_wrap:
  assumes "yields m t x t'"
  shows "yields (wrap_err msg m) t x t'"
  unfolding yields_def
proof (intro allI impI)
  fix db assume "healthy db" "db_tables db = t"
  with assms obtain db' where "run_state m db = (Inr x, db')" "healthy db'" "db_tables db' = t'"
    unfolding yields_def by blast
  then show "\<exists>db'. run_state (wrap_err msg m) db = (Inr x, db') \<and> healthy db' \<and> db_tables db' = t'"
    by (simp add: run_wrap_err)
qed

lemma yields_try:
  assumes "yields m t x t'" and "yields (f x) t' y t''"
  shows "yields (try_do m f) t y t''"
  unfolding yields_def
proof (intro allI impI)
  fix db assume "healthy db" "db_tables db = t"
  with assms(1) obtain db1 where 1: "run_state m db = (Inr x, db1)" "healthy db1" "db_tables db1 = t'"
    unfolding yields_def by blast
  with assms(2) obtain db2 where "run_state (f x) db1 = (Inr y, db2)" "healthy db2" "db_tables db2 = t''"
    unfolding yields_def by blast
  with 1 show "\<exists>db'. run_state (try_do m f) db = (Inr y, db') \<and> healthy db' \<and> db_tables db' = t''"
    by (simp add: run_try_do)
qed

lemma yields_stmt:
  assumes "stmt t = Inr (t', n)"
  shows "yields (try_do (wrap_err msg (exec stmt)) (\<lambda>_. ret (Inr ()))) t () t'"
  by (rule yields_try [where x = n and t' = t']) (rule yields_wrap yields_exec yields_ret assms)+

lemma yields_cons:
  assumes "yields (f x) t y t'" and "yields (try_each f xs) t' ys t''"
  shows "yields (try_each f (x # xs)) t (y # ys) t''"
  unfolding try_each.simps
  by (rule yields_try [OF assms(1)], rule yields_try [OF assms(2)], rule yields_ret)

lemma yields_transaction:
  assumes "yields m t x t'"
  shows "yields (transaction msg m) t x t'"
  unfolding yields_def
proof (intro allI impI)
  fix db assume db: "healthy db" "db_tables db = t"
  let ?db = "db\<lparr>db_calls := Suc (db_calls db)\<rparr>"
  have "healthy ?db" "db_tables ?db = t" using db by simp_all
  with assms obtain db' where "run_state m ?db = (Inr x, db')" "healthy db'" "db_tables db' = t'"
    unfolding yields_def by blast
  with db show "\<exists>db'. run_state (transaction msg m) db = (Inr x, db') \<and> healthy db' \<and> db_tables db' = t'"
    by (simp add: transaction_def run_driver_call)
qed

lemma yields_rows:
  assumes "scan_all scan (q t) = Inr xs"
  shows "yields (query_rows a b c q scan) t xs t"
  using assms by (simp add: yields_def run_query_rows)

lemma yieldsD: "yields m t x t' \<Longrightarrow> healthy db \<Longrightarrow> db_tables db = t \<Longrightarrow> fst (run_state m db) = Inr x"
  unfolding yields_def by fastforce

section \<open>The tables with a job added\<close>

definition put_row :: "('r \<Rightarrow> string) \<Rightarrow> ('r \<Rightarrow> 'r) \<Rightarrow> 'r \<Rightarrow> 'r list \<Rightarrow> 'r list" where
  "put_row key set_columns row rows =
     (if key row \<in> set (map key rows) then update_rows (\<lambda>r. key r = key row) set_columns rows else rows @ [row])"

definition add_children :: "Job \<Rightarrow> Tables \<Rightarrow> Tables" where
  "add_children j t = t\<lparr>
     t_sources := t_sources t @ map (source_row (Job_ID j)) (Job_Sources j),
     t_scripts := t_scripts t @ map (script_row (Job_ID j)) (Job_Scripts j),
     t_schedules := put_row sd_job_id (\<lambda>r. (schedule_row (Job_ID j) (Job_Schedule j))\<lparr>sd_id := sd_id r\<rparr>)
       (schedule_row (Job_ID j) (Job_Schedule j)) (t_schedules t),
     t_retention := put_row rp_job_id (\<lambda>r. (retention_row (Job_ID j) (Job_RetentionPolicy j))\<lparr>rp_id := rp_id r\<rparr>)
       (retention_row (Job_ID j) (Job_RetentionPolicy j)) (t_retention t)\<rparr>"

definition add_job :: "Job \<Rightarrow> Tables \<Rightarrow> Tables" where
  "add_job j t = add_children j (t\<lparr>t_jobs := t_jobs t @ [job_row j]\<rparr>)"

lemma insert_source_Inr:
  "run_state (insertSource ident s) db = (Inr n, db') \<Longrightarrow>
   db_tables db' = (db_tables db)\<lparr>t_sources := t_sources (db_tables db) @ [source_row ident s]\<rparr>"
  unfolding insertSource_def
  by (drule wrap_Inr, drule exec_Inr) (auto simp: insert_source_def insert_row_def split: if_splits)

lemma insert_script_Inr:
  "run_state (insertScript ident s) db = (Inr n, db') \<Longrightarrow>
   db_tables db' = (db_tables db)\<lparr>t_scripts := t_scripts (db_tables db) @ [script_row ident s]\<rparr>"
  unfolding insertScript_def
  by (drule wrap_Inr, drule exec_Inr) (auto simp: insert_script_def insert_row_def split: if_splits)

lemma insert_sources_Inr:
  "run_state (try_each (insertSource ident) ss) db = (Inr ns, db') \<Longrightarrow>
   db_tables db' = (db_tables db)\<lparr>t_sources := t_sources (db_tables db) @ map (source_row ident) ss\<rparr>"
proof (induction ss arbitrary: db ns)
  case (Cons s ss)
  from Cons.prems obtain n db1 where 1: "run_state (insertSource ident s) db = (Inr n, db1)"
    and rest: "run_state (try_do (try_each (insertSource ident) ss) (\<lambda>ys. ret (Inr (n # ys)))) db1 = (Inr ns, db')"
    by (auto elim: try_do_Inr)
  from rest obtain ms where "run_state (try_each (insertSource ident) ss) db1 = (Inr ms, db')"
    by (auto elim: try_do_Inr)
  from Cons.IH [OF this] insert_source_Inr [OF 1] show ?case by simp
qed simp

lemma insert_scripts_Inr:
  "run_state (try_each (insertScript ident) ss) db = (Inr ns, db') \<Longrightarrow>
   db_tables db' = (db_tables db)\<lparr>t_scripts := t_scripts (db_tables db) @ map (script_row ident) ss\<rparr>"
proof (induction ss arbitrary: db ns)
  case (Cons s ss)
  from Cons.prems obtain n db1 where 1: "run_state (insertScript ident s) db = (Inr n, db1)"
    and rest: "run_state (try_do (try_each (insertScript ident) ss) (\<lambda>ys. ret (Inr (n # ys)))) db1 = (Inr ns, db')"
    by (auto elim: try_do_Inr)
  from rest obtain ms where "run_state (try_each (insertScript ident) ss) db1 = (Inr ms, db')"
    by (auto elim: try_do_Inr)
  from Cons.IH [OF this] insert_script_Inr [OF 1] show ?case by simp
qed simp

lemma upsert_schedule_Inr:
  assumes "run_state (upsertSchedule ident s) db = (Inr u, db')"
  shows "db_tables db' = (db_tables db)\<lparr>t_schedules :=
    put_row sd_job_id (\<lambda>r. (schedule_row ident s)\<lparr>sd_id := sd_id r\<rparr>) (schedule_row ident s) (t_schedules (db_tables db))\<rparr>"
proof -
  from assms obtain n where "run_state (exec (upsert_schedule_row (schedule_row ident s))) db = (Inr n, db')"
    unfolding upsertSchedule_def by (auto elim!: try_do_Inr dest!: wrap_Inr)
  from exec_Inr [OF this] show ?thesis
    by (auto simp: upsert_schedule_row_def put_row_def insert_row_def split: if_splits)
qed

lemma upsert_retention_Inr:
  assumes "run_state (upsertRetention ident p) db = (Inr u, db')"
  shows "db_tables db' = (db_tables db)\<lparr>t_retention :=
    put_row rp_job_id (\<lambda>r. (retention_row ident p)\<lparr>rp_id := rp_id r\<rparr>) (retention_row ident p) (t_retention (db_tables db))\<rparr>"
proof -
  from assms obtain n where "run_state (exec (upsert_retention_row (retention_row ident p))) db = (Inr n, db')"
    unfolding upsertRetention_def by (auto elim!: try_do_Inr dest!: wrap_Inr)
  from exec_Inr [OF this] show ?thesis
    by (auto simp: upsert_retention_row_def put_row_def insert_row_def split: if_splits)
qed

lemma replace_children_Inr:
  assumes "run_state (replaceJobChildren j) db = (Inr u, db')"
  shows "db_tables db' = add_children j (db_tables db)"
proof -
  from assms obtain ns db1 ms db2 v db3
    where "run_state (try_each (insertSource (Job_ID j)) (Job_Sources j)) db = (Inr ns, db1)"
      and "run_state (try_each (insertScript (Job_ID j)) (Job_Scripts j)) db1 = (Inr ms, db2)"
      and "run_state (upsertSchedule (Job_ID j) (Job_Schedule j)) db2 = (Inr v, db3)"
      and "run_state (upsertRetention (Job_ID j) (Job_RetentionPolicy j)) db3 = (Inr u, db')"
    unfolding replaceJobChildren_def by (elim try_do_Inr)
  then show ?thesis
    by (simp add: add_children_def insert_sources_Inr insert_scripts_Inr upsert_schedule_Inr upsert_retention_Inr)
qed

lemma insert_job_row_Inr:
  assumes "run_state (insertJobRow j) db = (Inr u, db')"
  shows "db_tables db' = (db_tables db)\<lparr>t_jobs := t_jobs (db_tables db) @ [job_row j]\<rparr>"
proof -
  from assms obtain n where "run_state (exec (insert_job (job_row j))) db = (Inr n, db')"
    unfolding insertJobRow_def by (auto elim!: try_do_Inr dest!: wrap_Inr)
  from exec_Inr [OF this] show ?thesis
    by (auto simp: insert_job_def insert_row_def split: if_splits)
qed

section \<open>All or nothing\<close>

lemma create_job_Inr:
  assumes "run_state (CreateJob j) db = (Inr u, db')"
  shows "db_tables db' = add_job j (db_tables db)"
proof -
  from assms obtain db1 db2
    where body: "run_state (try_do (insertJobRow j) (\<lambda>_. replaceJobChildren j)) db1 = (Inr u, db2)"
      and "db_tables db1 = db_tables db" and "db_tables db' = db_tables db2"
    unfolding CreateJob_def by (elim transaction_Inr)
  moreover from body obtain v db3 where "run_state (insertJobRow j) db1 = (Inr v, db3)"
    and "run_state (replaceJobChildren j) db3 = (Inr u, db2)"
    by (elim try_do_Inr)
  ultimately show ?thesis by (simp add: add_job_def insert_job_row_Inr replace_children_Inr)
qed

lemma atomic_create_job: "atomic (CreateJob j)"
  unfolding CreateJob_def by (rule atomic_transaction)

lemma atomic_cases:
  assumes "atomic m" and "\<And>x db'. run_state m db = (Inr x, db') \<Longrightarrow> db_tables db' = t"
  shows "case run_state m db of (Inl e, db') \<Rightarrow> db_tables db' = db_tables db | (Inr x, db') \<Rightarrow> db_tables db' = t"
  using assms by (cases "run_state m db") (auto simp: atomicD split: sum.split)

text \<open>C24: A job is created entirely or not at all. Whatever the database does, at whichever of the
  calls it fails, Create either returns an error and leaves every table as it was, or succeeds,
  and then the tables are those before with exactly the job's row, one row per source and per
  script in their order, its schedule and its retention policy.\<close>

theorem create_job_all_or_nothing:
  "case run_state (CreateJob j) db of
     (Inl e, db') \<Rightarrow> db_tables db' = db_tables db
   | (Inr u, db') \<Rightarrow> db_tables db' = add_job j (db_tables db)"
  by (intro atomic_cases atomic_create_job create_job_Inr)

text \<open>The tables with a job replaced.\<close>

definition replace_job :: "Job \<Rightarrow> Tables \<Rightarrow> Tables" where
  "replace_job j t = add_children j (t\<lparr>
     t_jobs := update_rows (\<lambda>r. jr_id r = Job_ID j) (set_job_columns (job_row j)) (t_jobs t),
     t_sources := delete_rows (\<lambda>r. so_job_id r = Job_ID j) (t_sources t),
     t_scripts := delete_rows (\<lambda>r. sc_job_id r = Job_ID j) (t_scripts t)\<rparr>)"

lemma put_row_twice:
  assumes "\<And>r. key (f r) = key row" and "\<And>r. f (f r) = f r" and "f row = row"
  shows "put_row key f row (put_row key f row rows) = put_row key f row rows"
proof (cases "key row \<in> set (map key rows)")
  case True
  have keys: "map key (update_rows (\<lambda>r. key r = key row) f rows) = map key rows"
    using assms(1) by (simp add: update_rows_def)
  have "update_rows (\<lambda>r. key r = key row) f (update_rows (\<lambda>r. key r = key row) f rows) =
      update_rows (\<lambda>r. key r = key row) f rows"
    using assms(1,2) by (simp add: update_rows_def)
  moreover have "put_row key f row rows = update_rows (\<lambda>r. key r = key row) f rows"
    using True by (simp only: put_row_def if_True)
  moreover have "put_row key f row (update_rows (\<lambda>r. key r = key row) f rows) =
      update_rows (\<lambda>r. key r = key row) f (update_rows (\<lambda>r. key r = key row) f rows)"
    using True keys by (simp only: put_row_def if_True)
  ultimately show ?thesis by (simp only:)
next
  case False
  then have "update_rows (\<lambda>r. key r = key row) f rows = rows"
    unfolding update_rows_def by (intro map_idI) (auto simp: image_iff)
  with False assms(3) show ?thesis by (simp add: put_row_def update_rows_def)
qed

lemma schedule_put_twice:
  "put_row sd_job_id (\<lambda>r. (schedule_row ident s)\<lparr>sd_id := sd_id r\<rparr>) (schedule_row ident s)
     (put_row sd_job_id (\<lambda>r. (schedule_row ident s)\<lparr>sd_id := sd_id r\<rparr>) (schedule_row ident s) rows) =
   put_row sd_job_id (\<lambda>r. (schedule_row ident s)\<lparr>sd_id := sd_id r\<rparr>) (schedule_row ident s) rows"
  by (rule put_row_twice) simp_all

lemma retention_put_twice:
  "put_row rp_job_id (\<lambda>r. (retention_row ident p)\<lparr>rp_id := rp_id r\<rparr>) (retention_row ident p)
     (put_row rp_job_id (\<lambda>r. (retention_row ident p)\<lparr>rp_id := rp_id r\<rparr>) (retention_row ident p) rows) =
   put_row rp_job_id (\<lambda>r. (retention_row ident p)\<lparr>rp_id := rp_id r\<rparr>) (retention_row ident p) rows"
  by (rule put_row_twice) simp_all

lemma update_job_Inr:
  assumes "run_state (UpdateJob j) db = (Inr u, db')"
  shows "job_exists (Job_ID j) (db_tables db) \<and> db_tables db' = replace_job j (db_tables db)"
proof -
  from assms obtain db0 db9
    where body: "run_state (try_do (wrap_err (''update job '' @ go_quote (Job_ID j)) (exec (update_job_row j))) (\<lambda>n.
      try_do (checkRowsAffected n ''job'' (Job_ID j)) (\<lambda>_.
      try_do (wrap_err (''clear job children for '' @ go_quote (Job_ID j)) (exec (delete_sources (Job_ID j)))) (\<lambda>_.
      try_do (wrap_err (''clear job children for '' @ go_quote (Job_ID j)) (exec (delete_scripts (Job_ID j)))) (\<lambda>_.
      try_do (replaceJobChildren j) (\<lambda>_.
      try_do (upsertSchedule (Job_ID j) (Job_Schedule j)) (\<lambda>_.
        upsertRetention (Job_ID j) (Job_RetentionPolicy j)))))))) db0 = (Inr u, db9)"
      and ends: "db_tables db0 = db_tables db" "db_tables db' = db_tables db9"
    unfolding UpdateJob_def by (elim transaction_Inr)
  from body obtain n db1 v db2 k db3 l db4 w db5 x db6
    where "run_state (exec (update_job_row j)) db0 = (Inr n, db1)"
      and rows: "run_state (checkRowsAffected n ''job'' (Job_ID j)) db1 = (Inr v, db2)"
      and "run_state (exec (delete_sources (Job_ID j))) db2 = (Inr k, db3)"
      and "run_state (exec (delete_scripts (Job_ID j))) db3 = (Inr l, db4)"
      and "run_state (replaceJobChildren j) db4 = (Inr w, db5)"
      and "run_state (upsertSchedule (Job_ID j) (Job_Schedule j)) db5 = (Inr x, db6)"
      and "run_state (upsertRetention (Job_ID j) (Job_RetentionPolicy j)) db6 = (Inr u, db9)"
    by (elim try_do_Inr) (blast dest: wrap_Inr)
  note ops = this
  note deletes = exec_tables [OF ops(3)] exec_tables [OF ops(4)]
  note steps = exec_Inr [OF ops(1)]
    replace_children_Inr [OF ops(5)] upsert_schedule_Inr [OF ops(6)] upsert_retention_Inr [OF ops(7)]
  have same: "db_tables db2 = db_tables db1" and "n \<noteq> 0" using checkRowsAffected_Inr [OF rows] by simp_all
  have t1: "db_tables db1 = (db_tables db)\<lparr>t_jobs := update_rows (\<lambda>r. jr_id r = Job_ID j) (set_job_columns (job_row j)) (t_jobs (db_tables db))\<rparr>"
    and "n = affected (\<lambda>r. jr_id r = Job_ID j) (t_jobs (db_tables db))"
    using steps(1) ends(1) by (auto simp: update_job_row_def split: if_splits)
  with \<open>n \<noteq> 0\<close> have "job_exists (Job_ID j) (db_tables db)"
    by (auto simp: affected_def job_exists_def filter_empty_conv intro: rev_image_eqI)
  have "db_tables db3 = (db_tables db1)\<lparr>t_sources := delete_rows (\<lambda>r. so_job_id r = Job_ID j) (t_sources (db_tables db1))\<rparr>"
    using deletes(1) same by (simp add: delete_sources_def)
  moreover have "db_tables db4 = (db_tables db3)\<lparr>t_scripts := delete_rows (\<lambda>r. sc_job_id r = Job_ID j) (t_scripts (db_tables db3))\<rparr>"
    using deletes(2) by (simp add: delete_scripts_def)
  ultimately have t4: "db_tables db4 = (db_tables db1)\<lparr>
      t_sources := delete_rows (\<lambda>r. so_job_id r = Job_ID j) (t_sources (db_tables db)),
      t_scripts := delete_rows (\<lambda>r. sc_job_id r = Job_ID j) (t_scripts (db_tables db))\<rparr>"
    using t1 by simp
  have "db_tables db9 = replace_job j (db_tables db)"
    by (simp add: steps(2-4) t4 t1 replace_job_def add_children_def schedule_put_twice retention_put_twice)
  with ends(2) \<open>job_exists (Job_ID j) (db_tables db)\<close> show ?thesis by simp
qed

text \<open>A job is replaced entirely or not at all. Whatever the database does, Update either returns
  an error and leaves every table as it was, or the job existed and exactly its row, its sources,
  its scripts, its schedule and its retention policy are those of the new definition; the second
  upsert of schedule and policy, which the code repeats, changes nothing.\<close>

theorem update_job_all_or_nothing:
  "case run_state (UpdateJob j) db of
     (Inl e, db') \<Rightarrow> db_tables db' = db_tables db
   | (Inr u, db') \<Rightarrow> job_exists (Job_ID j) (db_tables db) \<and> db_tables db' = replace_job j (db_tables db)"
proof -
  have "atomic (UpdateJob j)" unfolding UpdateJob_def by (rule atomic_transaction)
  then show ?thesis
    by (cases "run_state (UpdateJob j) db") (auto simp: atomicD update_job_Inr split: sum.split)
qed

section \<open>Deleting\<close>

definition remove_job :: "string \<Rightarrow> bool \<Rightarrow> Tables \<Rightarrow> Tables" where
  "remove_job ident deleteHistory t = t\<lparr>
     t_jobs := filter (\<lambda>r. jr_id r \<noteq> ident) (t_jobs t),
     t_sources := filter (\<lambda>r. so_job_id r \<noteq> ident) (t_sources t),
     t_scripts := filter (\<lambda>r. sc_job_id r \<noteq> ident) (t_scripts t),
     t_schedules := filter (\<lambda>r. sd_job_id r \<noteq> ident) (t_schedules t),
     t_retention := filter (\<lambda>r. rp_job_id r \<noteq> ident) (t_retention t),
     t_locks := filter (\<lambda>l. lk_job_id l \<noteq> ident) (t_locks t),
     t_runs := (if deleteHistory then filter (\<lambda>r. rr_job_id r \<noteq> ident) (t_runs t) else t_runs t),
     t_steps := (if deleteHistory
       then filter (\<lambda>s. st_run_id s \<notin> set (map rr_id (filter (\<lambda>r. rr_job_id r = ident) (t_runs t)))) (t_steps t)
       else t_steps t)\<rparr>"

text \<open>What \<^verbatim>\<open>database/sql\<close> documents: \<^verbatim>\<open>ErrNoRows\<close> means that the query found no row; it is no fault of the driver.\<close>

definition no_rows_is_no_fault :: "Db \<Rightarrow> bool" where
  "no_rows_is_no_fault db \<longleftrightarrow> (\<forall>n e. db_fault db n = Some e \<longrightarrow> \<not> is_err (\<lambda>x. x = NoRows) e)"

lemma refuse_if_locked_Inr:
  assumes "run_state (refuse_if_locked ident) db = (Inr u, db')" and "no_rows_is_no_fault db"
  shows "find_lock ident (db_tables db) = None \<and> db_tables db' = db_tables db"
  using assms
  by (auto simp: no_rows_is_no_fault_def refuse_if_locked_def query_one_def run_try_do run_query NewCodedError_def
      split: option.splits if_splits)

lemma delete_runs_Inr:
  assumes "run_state (if deleteHistory then wrap_err msg (exec (delete_runs_of ident)) else ret (Inr 0)) db = (Inr n, db')"
  shows "db_tables db' = (db_tables db)\<lparr>
     t_runs := (if deleteHistory then filter (\<lambda>r. rr_job_id r \<noteq> ident) (t_runs (db_tables db)) else t_runs (db_tables db)),
     t_steps := (if deleteHistory
       then filter (\<lambda>s. st_run_id s \<notin> set (map rr_id (filter (\<lambda>r. rr_job_id r = ident) (t_runs (db_tables db))))) (t_steps (db_tables db))
       else t_steps (db_tables db))\<rparr>"
  using assms by (cases deleteHistory) (auto dest!: wrap_Inr exec_Inr simp: delete_runs_of_def delete_rows_def Let_def)

lemma delete_job_Inr:
  assumes "run_state (DeleteJob ident deleteHistory) db = (Inr u, db')" and "no_rows_is_no_fault db"
  shows "job_exists ident (db_tables db) \<and> find_lock ident (db_tables db) = None \<and>
    db_tables db' = remove_job ident deleteHistory (db_tables db)"
proof -
  from assms(1) obtain db0 db9
    where body: "run_state (try_do (refuse_if_locked ident) (\<lambda>_.
      try_do (if deleteHistory
              then wrap_err (''delete run history for job '' @ go_quote ident) (exec (delete_runs_of ident))
              else ret (Inr 0)) (\<lambda>_.
      try_do (wrap_err (''delete job '' @ go_quote ident) (exec (delete_job_row ident))) (\<lambda>n.
        checkRowsAffected n ''job'' ident)))) db0 = (Inr u, db9)"
      and ends: "db_tables db0 = db_tables db" "db_tables db' = db_tables db9" "db_fault db0 = db_fault db"
    unfolding DeleteJob_def by (elim transaction_Inr)
  have "no_rows_is_no_fault db0" using assms(2) ends(3) by (simp add: no_rows_is_no_fault_def)
  from body obtain v db1 k db2 n db3
    where 1: "run_state (refuse_if_locked ident) db0 = (Inr v, db1)"
      and 2: "run_state (if deleteHistory
              then wrap_err (''delete run history for job '' @ go_quote ident) (exec (delete_runs_of ident))
              else ret (Inr 0)) db1 = (Inr k, db2)"
      and 3: "run_state (exec (delete_job_row ident)) db2 = (Inr n, db3)"
      and 4: "run_state (checkRowsAffected n ''job'' ident) db3 = (Inr u, db9)"
    by (elim try_do_Inr) (blast dest: wrap_Inr)
  have n: "n \<noteq> 0" "db_tables db9 = db_tables db3" using checkRowsAffected_Inr [OF 4] by simp_all
  from exec_Inr [OF 3] n(1) have "job_exists ident (db_tables db2)"
    by (auto simp: delete_job_row_def split: if_splits)
  moreover have "find_lock ident (db_tables db) = None" "db_tables db1 = db_tables db"
    using refuse_if_locked_Inr [OF 1 \<open>no_rows_is_no_fault db0\<close>] ends by simp_all
  moreover note delete_runs_Inr [OF 2]
  ultimately show ?thesis
    using exec_tables [OF 3] n(2) ends(2) by (simp add: delete_job_row_def remove_job_def delete_rows_def job_exists_def)
qed

text \<open>C8: Deleting a job takes exactly what it should. Whatever the database does, Delete either returns
  an error and leaves every table as it was, or the job existed, had no lock, and exactly its row,
  sources, scripts, schedule and retention policy are gone, together with its runs and their steps
  if the history was to be deleted, and with no run or step gone otherwise.\<close>

theorem delete_job_exact:
  assumes "no_rows_is_no_fault db"
  shows "case run_state (DeleteJob ident deleteHistory) db of
     (Inl e, db') \<Rightarrow> db_tables db' = db_tables db
   | (Inr u, db') \<Rightarrow> job_exists ident (db_tables db) \<and> find_lock ident (db_tables db) = None \<and>
       db_tables db' = remove_job ident deleteHistory (db_tables db)"
proof -
  have "atomic (DeleteJob ident deleteHistory)" unfolding DeleteJob_def by (rule atomic_transaction)
  then show ?thesis
    by (cases "run_state (DeleteJob ident deleteHistory) db") (auto simp: atomicD delete_job_Inr assms split: sum.split)
qed

lemma delete_job_witness:
  "case run_state (DeleteJob ''job1'' True) sample_db of
     (Inl e, db') \<Rightarrow> db_tables db' = db_tables sample_db
   | (Inr u, db') \<Rightarrow> job_exists ''job1'' (db_tables sample_db) \<and> find_lock ''job1'' (db_tables sample_db) = None \<and>
       db_tables db' = remove_job ''job1'' True (db_tables sample_db)"
  by (rule delete_job_exact) (simp add: no_rows_is_no_fault_def sample_db_def)

section \<open>What comes back\<close>

text \<open>The values the columns can hold.\<close>

definition storable_source :: "string \<Rightarrow> Source \<Rightarrow> bool" where
  "storable_source ident s \<longleftrightarrow> Source_JobID s = ident \<and> storable_strings (Source_Include s) \<and> storable_strings (Source_Exclude s)"

definition storable_script :: "string \<Rightarrow> Script \<Rightarrow> bool" where
  "storable_script ident sc \<longleftrightarrow> Script_JobID sc = ident \<and> ScriptType_of (ScriptType_str (Script_Type sc)) = Script_Type sc \<and>
     RunCondition_of (RunCondition_str (Script_RunCondition sc)) = Script_RunCondition sc"

definition storable_schedule :: "string \<Rightarrow> Schedule \<Rightarrow> bool" where
  "storable_schedule ident s \<longleftrightarrow> Schedule_JobID s = ident \<and> ScheduleType_of (ScheduleType_str (Schedule_Type s)) = Schedule_Type s \<and>
     list_all int64_range (Schedule_Weekdays s) \<and>
     MissedRunPolicy_of (MissedRunPolicy_str (Schedule_MissedRunPolicy s)) = Schedule_MissedRunPolicy s"

definition storable_job :: "Job \<Rightarrow> bool" where
  "storable_job j \<longleftrightarrow> list_all (storable_source (Job_ID j)) (Job_Sources j) \<and> sorted (map Source_Position (Job_Sources j)) \<and>
     list_all (storable_script (Job_ID j)) (Job_Scripts j) \<and> sorted (map Script_Position (Job_Scripts j)) \<and>
     storable_schedule (Job_ID j) (Job_Schedule j) \<and> RetentionPolicy_JobID (Job_RetentionPolicy j) = Job_ID j \<and>
     pred_option (\<lambda>h. HealthCheck_Command h \<noteq> []) (Job_HealthCheck j) \<and>
     ArchiveFormat_of (ArchiveFormat_str (Job_ArchiveFormat j)) = Job_ArchiveFormat j \<and>
     secondsToDuration (whole_seconds (Job_ArchiveTimeout j)) = Job_ArchiveTimeout j \<and>
     storable_time (Job_CreatedAt j) \<and> storable_time (Job_UpdatedAt j)"

text \<open>A timeout of whole seconds that fits into 64 bits of nanoseconds is one of them.\<close>

lemma whole_seconds_roundtrip:
  assumes "int64_range (k * second)"
  shows "secondsToDuration (whole_seconds (k * second)) = k * second"
proof -
  have "whole_seconds (k * second) = k"
    by (simp add: whole_seconds_def second_def abs_mult sgn_mult sgn_mult_abs)
  with assms show ?thesis by (simp add: secondsToDuration_def wrap64_id)
qed

text \<open>New identifiers everywhere, a server that exists, and no row that belongs to a job that does not.\<close>

definition new_aggregate :: "Job \<Rightarrow> Tables \<Rightarrow> bool" where
  "new_aggregate j t \<longleftrightarrow> \<not> job_exists (Job_ID j) t \<and> server_exists (Job_ServerID j) t \<and>
     distinct (map Source_ID (Job_Sources j)) \<and> set (map Source_ID (Job_Sources j)) \<inter> set (map so_id (t_sources t)) = {} \<and>
     distinct (map Script_ID (Job_Scripts j)) \<and> set (map Script_ID (Job_Scripts j)) \<inter> set (map sc_id (t_scripts t)) = {} \<and>
     Schedule_ID (Job_Schedule j) \<notin> set (map sd_id (t_schedules t)) \<and>
     RetentionPolicy_ID (Job_RetentionPolicy j) \<notin> set (map rp_id (t_retention t)) \<and>
     set (map so_job_id (t_sources t)) \<union> set (map sc_job_id (t_scripts t)) \<union> set (map sd_job_id (t_schedules t)) \<union>
       set (map rp_job_id (t_retention t)) \<subseteq> set (map jr_id (t_jobs t))"

definition utc_job :: "Job \<Rightarrow> Job" where
  "utc_job j = j\<lparr>Job_CreatedAt := to_utc (Job_CreatedAt j), Job_UpdatedAt := to_utc (Job_UpdatedAt j)\<rparr>"

lemma source_of_source_row: "storable_source ident s \<Longrightarrow> source_of_row (source_row ident s) = s"
  by (cases s) (simp add: storable_source_def source_of_row_def source_row_def strings_roundtrip)

lemma script_of_script_row: "storable_script ident s \<Longrightarrow> script_of_row (script_row ident s) = s"
  by (cases s) (simp add: storable_script_def script_of_row_def script_row_def)

lemma schedule_of_schedule_row: "storable_schedule ident s \<Longrightarrow> schedule_of_row (schedule_row ident s) = Inr s"
  by (cases s) (simp add: storable_schedule_def schedule_of_row_def schedule_row_def ints_roundtrip)

lemma retention_of_retention_row: "RetentionPolicy_JobID p = ident \<Longrightarrow> retention_of_row (retention_row ident p) = p"
  by (cases p) (simp add: retention_of_row_def retention_row_def)

section \<open>Creating succeeds\<close>

lemma yields_sources:
  assumes "job_exists ident t" "distinct (map Source_ID ss)" "set (map Source_ID ss) \<inter> set (map so_id (t_sources t)) = {}"
  shows "\<exists>ns. yields (try_each (insertSource ident) ss) t ns (t\<lparr>t_sources := t_sources t @ map (source_row ident) ss\<rparr>)"
  using assms
proof (induction ss arbitrary: t)
  case Nil
  then show ?case by (auto intro: yields_ret)
next
  case (Cons s ss)
  let ?t = "t\<lparr>t_sources := t_sources t @ [source_row ident s]\<rparr>"
  have row: "so_id (source_row ident s) = Source_ID s" "so_job_id (source_row ident s) = ident"
    by (simp_all add: source_row_def)
  have one: "yields (insertSource ident s) t 1 ?t"
    unfolding insertSource_def using Cons.prems
    by (intro yields_wrap yields_exec) (simp add: insert_source_def insert_row_def row)
  have "job_exists ident ?t" "distinct (map Source_ID ss)" "set (map Source_ID ss) \<inter> set (map so_id (t_sources ?t)) = {}"
    using Cons.prems by (auto simp: job_exists_def row)
  from Cons.IH [OF this] obtain ns where
    "yields (try_each (insertSource ident) ss) ?t ns (?t\<lparr>t_sources := t_sources ?t @ map (source_row ident) ss\<rparr>)" by blast
  then have "yields (try_each (insertSource ident) (s # ss)) t (1 # ns) (?t\<lparr>t_sources := t_sources ?t @ map (source_row ident) ss\<rparr>)"
    by (rule yields_cons [where f = "insertSource ident" and x = s, OF one])
  then show ?case by auto
qed

lemma yields_scripts:
  assumes "job_exists ident t" "distinct (map Script_ID ss)" "set (map Script_ID ss) \<inter> set (map sc_id (t_scripts t)) = {}"
  shows "\<exists>ns. yields (try_each (insertScript ident) ss) t ns (t\<lparr>t_scripts := t_scripts t @ map (script_row ident) ss\<rparr>)"
  using assms
proof (induction ss arbitrary: t)
  case Nil
  then show ?case by (auto intro: yields_ret)
next
  case (Cons s ss)
  let ?t = "t\<lparr>t_scripts := t_scripts t @ [script_row ident s]\<rparr>"
  have row: "sc_id (script_row ident s) = Script_ID s" "sc_job_id (script_row ident s) = ident"
    by (simp_all add: script_row_def)
  have one: "yields (insertScript ident s) t 1 ?t"
    unfolding insertScript_def using Cons.prems
    by (intro yields_wrap yields_exec) (simp add: insert_script_def insert_row_def row)
  have "job_exists ident ?t" "distinct (map Script_ID ss)" "set (map Script_ID ss) \<inter> set (map sc_id (t_scripts ?t)) = {}"
    using Cons.prems by (auto simp: job_exists_def row)
  from Cons.IH [OF this] obtain ns where
    "yields (try_each (insertScript ident) ss) ?t ns (?t\<lparr>t_scripts := t_scripts ?t @ map (script_row ident) ss\<rparr>)" by blast
  then have "yields (try_each (insertScript ident) (s # ss)) t (1 # ns) (?t\<lparr>t_scripts := t_scripts ?t @ map (script_row ident) ss\<rparr>)"
    by (rule yields_cons [where f = "insertScript ident" and x = s, OF one])
  then show ?case by auto
qed

lemma yields_schedule:
  "job_exists ident t \<Longrightarrow> Schedule_ID s \<notin> set (map sd_id (t_schedules t)) \<Longrightarrow>
   yields (upsertSchedule ident s) t () (t\<lparr>t_schedules :=
      put_row sd_job_id (\<lambda>r. (schedule_row ident s)\<lparr>sd_id := sd_id r\<rparr>) (schedule_row ident s) (t_schedules t)\<rparr>)"
  unfolding upsertSchedule_def
  by (auto intro!: yields_stmt simp: upsert_schedule_row_def put_row_def insert_row_def schedule_row_def)

lemma yields_retention:
  "job_exists ident t \<Longrightarrow> RetentionPolicy_ID p \<notin> set (map rp_id (t_retention t)) \<Longrightarrow>
   yields (upsertRetention ident p) t () (t\<lparr>t_retention :=
      put_row rp_job_id (\<lambda>r. (retention_row ident p)\<lparr>rp_id := rp_id r\<rparr>) (retention_row ident p) (t_retention t)\<rparr>)"
  unfolding upsertRetention_def
  by (auto intro!: yields_stmt simp: upsert_retention_row_def put_row_def insert_row_def retention_row_def)

lemma yields_create:
  assumes "new_aggregate j t"
  shows "yields (CreateJob j) t () (add_job j t)"
proof -
  let ?t1 = "t\<lparr>t_jobs := t_jobs t @ [job_row j]\<rparr>"
  let ?t2 = "?t1\<lparr>t_sources := t_sources t @ map (source_row (Job_ID j)) (Job_Sources j)\<rparr>"
  let ?t3 = "?t2\<lparr>t_scripts := t_scripts t @ map (script_row (Job_ID j)) (Job_Scripts j)\<rparr>"
  note new = assms [unfolded new_aggregate_def]
  have row: "jr_id (job_row j) = Job_ID j" "jr_server_id (job_row j) = Job_ServerID j" by (simp_all add: job_row_def)
  have 1: "yields (insertJobRow j) t () ?t1"
    unfolding insertJobRow_def using new
    by (intro yields_stmt) (auto simp: insert_job_def insert_row_def row job_exists_def)
  have ex: "job_exists (Job_ID j) ?t1" "job_exists (Job_ID j) ?t2" "job_exists (Job_ID j) ?t3"
    by (simp_all add: job_exists_def row)
  obtain ns where 2: "yields (try_each (insertSource (Job_ID j)) (Job_Sources j)) ?t1 ns ?t2"
    using yields_sources [OF ex(1), of "Job_Sources j"] new by auto
  obtain ms where 3: "yields (try_each (insertScript (Job_ID j)) (Job_Scripts j)) ?t2 ms ?t3"
    using yields_scripts [OF ex(2), of "Job_Scripts j"] new by auto
  let ?t4 = "?t3\<lparr>t_schedules := put_row sd_job_id (\<lambda>r. (schedule_row (Job_ID j) (Job_Schedule j))\<lparr>sd_id := sd_id r\<rparr>)
       (schedule_row (Job_ID j) (Job_Schedule j)) (t_schedules t)\<rparr>"
  have 4: "yields (upsertSchedule (Job_ID j) (Job_Schedule j)) ?t3 () ?t4"
    using yields_schedule [OF ex(3)] new by simp
  have "job_exists (Job_ID j) ?t4" by (simp add: job_exists_def row)
  from yields_retention [OF this] have 5: "yields (upsertRetention (Job_ID j) (Job_RetentionPolicy j)) ?t4 () (add_job j t)"
    using new by (simp add: add_job_def add_children_def)
  show ?thesis unfolding CreateJob_def replaceJobChildren_def
    by (intro yields_transaction yields_try [OF 1] yields_try [OF 2] yields_try [OF 3] yields_try [OF 4] 5)
qed

section \<open>Loading what was created\<close>

lemma scan_all_map: "(\<And>x. x \<in> set xs \<Longrightarrow> scan (row x) = Inr x) \<Longrightarrow> scan_all scan (map row xs) = Inr xs"
  by (induction xs) simp_all

lemma attach_one:
  "(\<And>x. x \<in> set xs \<Longrightarrow> key x = Job_ID j) \<Longrightarrow> (\<And>x k. Job_ID (f x k) = Job_ID k) \<Longrightarrow> attach key f xs [j] = [fold f xs j]"
  unfolding attach_def by (induction xs arbitrary: j) simp_all

lemma fold_sources: "fold (\<lambda>s j. j\<lparr>Job_Sources := Job_Sources j @ [s]\<rparr>) xs j = j\<lparr>Job_Sources := Job_Sources j @ xs\<rparr>"
  by (induction xs arbitrary: j) simp_all

lemma fold_scripts: "fold (\<lambda>s j. j\<lparr>Job_Scripts := Job_Scripts j @ [s]\<rparr>) xs j = j\<lparr>Job_Scripts := Job_Scripts j @ xs\<rparr>"
  by (induction xs arbitrary: j) simp_all

lemma not_text_less_self [simp]: "\<not> text_less xs xs"
  by (rule text_less_irrefl)

lemma filter_key_none: "k \<notin> set (map key rows) \<Longrightarrow> filter (\<lambda>r. key r = k) rows = []"
  by (induction rows) auto

lemma new_no_children:
  assumes "new_aggregate j t"
  shows "Job_ID j \<notin> set (map jr_id (t_jobs t))" "Job_ID j \<notin> set (map so_job_id (t_sources t))"
    "Job_ID j \<notin> set (map sc_job_id (t_scripts t))" "Job_ID j \<notin> set (map sd_job_id (t_schedules t))"
    "Job_ID j \<notin> set (map rp_job_id (t_retention t))"
proof -
  show none: "Job_ID j \<notin> set (map jr_id (t_jobs t))" using assms unfolding new_aggregate_def job_exists_def by (elim conjE)
  have "set (map so_job_id (t_sources t)) \<union> set (map sc_job_id (t_scripts t)) \<union> set (map sd_job_id (t_schedules t)) \<union>
       set (map rp_job_id (t_retention t)) \<subseteq> set (map jr_id (t_jobs t))"
    using assms unfolding new_aggregate_def by (elim conjE)
  with none show "Job_ID j \<notin> set (map so_job_id (t_sources t))"
    "Job_ID j \<notin> set (map sc_job_id (t_scripts t))" "Job_ID j \<notin> set (map sd_job_id (t_schedules t))"
    "Job_ID j \<notin> set (map rp_job_id (t_retention t))" by blast+
qed

lemma created_sources:
  assumes "new_aggregate j t" "storable_job j"
  shows "sources_query [Job_ID j] (add_job j t) = map (source_row (Job_ID j)) (Job_Sources j)"
proof -
  have "filter (\<lambda>r. so_job_id r = Job_ID j) (t_sources t) = []"
    by (rule filter_key_none) (rule new_no_children [OF assms(1)])
  then have "filter (\<lambda>r. so_job_id r \<in> set [Job_ID j]) (t_sources (add_job j t)) = map (source_row (Job_ID j)) (Job_Sources j)"
    by (simp add: add_job_def add_children_def filter_map comp_def source_row_def)
  moreover have "sorted_wrt (\<lambda>a b. \<not> by_job_and_position so_job_id so_position b a) (map (source_row (Job_ID j)) (Job_Sources j))"
    using assms(2) by (simp add: storable_job_def sorted_wrt_map by_job_and_position_def source_row_def not_less)
  ultimately show ?thesis by (simp add: sources_query_def order_by_sorted_id)
qed

lemma created_scripts:
  assumes "new_aggregate j t" "storable_job j"
  shows "scripts_query [Job_ID j] (add_job j t) = map (script_row (Job_ID j)) (Job_Scripts j)"
proof -
  have "filter (\<lambda>r. sc_job_id r = Job_ID j) (t_scripts t) = []"
    by (rule filter_key_none) (rule new_no_children [OF assms(1)])
  then have "filter (\<lambda>r. sc_job_id r \<in> set [Job_ID j]) (t_scripts (add_job j t)) = map (script_row (Job_ID j)) (Job_Scripts j)"
    by (simp add: add_job_def add_children_def filter_map comp_def script_row_def)
  moreover have "sorted_wrt (\<lambda>a b. \<not> by_job_and_position sc_job_id sc_position b a) (map (script_row (Job_ID j)) (Job_Scripts j))"
    using assms(2) by (simp add: storable_job_def sorted_wrt_map by_job_and_position_def script_row_def not_less)
  ultimately show ?thesis by (simp add: scripts_query_def order_by_sorted_id)
qed

lemma created_rows:
  assumes "new_aggregate j t"
  shows "filter (\<lambda>r. jr_id r = Job_ID j) (t_jobs (add_job j t)) = [job_row j]"
    and "filter (\<lambda>r. sd_job_id r \<in> set [Job_ID j]) (t_schedules (add_job j t)) = [schedule_row (Job_ID j) (Job_Schedule j)]"
    and "filter (\<lambda>r. rp_job_id r \<in> set [Job_ID j]) (t_retention (add_job j t)) = [retention_row (Job_ID j) (Job_RetentionPolicy j)]"
proof -
  have none: "filter (\<lambda>r. jr_id r = Job_ID j) (t_jobs t) = []" "filter (\<lambda>r. sd_job_id r = Job_ID j) (t_schedules t) = []"
      "filter (\<lambda>r. rp_job_id r = Job_ID j) (t_retention t) = []"
    and fresh: "Job_ID j \<notin> sd_job_id ` set (t_schedules t)" "Job_ID j \<notin> rp_job_id ` set (t_retention t)"
    using new_no_children [OF assms] by (simp_all add: filter_key_none)
  show "filter (\<lambda>r. jr_id r = Job_ID j) (t_jobs (add_job j t)) = [job_row j]"
    by (simp add: add_job_def add_children_def none job_row_def)
  show "filter (\<lambda>r. sd_job_id r \<in> set [Job_ID j]) (t_schedules (add_job j t)) = [schedule_row (Job_ID j) (Job_Schedule j)]"
    by (simp add: add_job_def add_children_def put_row_def none fresh schedule_row_def)
  show "filter (\<lambda>r. rp_job_id r \<in> set [Job_ID j]) (t_retention (add_job j t)) = [retention_row (Job_ID j) (Job_RetentionPolicy j)]"
    by (simp add: add_job_def add_children_def put_row_def none fresh retention_row_def)
qed

text \<open>The job without its children, then with each group of them attached.\<close>

definition bare_job :: "Job \<Rightarrow> Job" where
  "bare_job j = (utc_job j)\<lparr>Job_Sources := [], Job_Scripts := [], Job_Schedule := no_schedule, Job_RetentionPolicy := no_retention\<rparr>"

lemma scan_job_row: "storable_job j \<Longrightarrow> scanJobRow general (job_row j) = Inr (bare_job j)"
  by (cases j; cases "Job_HealthCheck j")
    (auto simp: scanJobRow_def job_row_def storable_job_def storable_roundtrip bare_job_def utc_job_def
      healthCheckCommand_def healthCheckAttempts_def healthCheckIntervalSeconds_def)

lemma yields_get_created:
  assumes "new_aggregate j t" "storable_job j"
  shows "yields (GetJob general (Job_ID j)) (add_job j t) (utc_job j) (add_job j t)"
proof -
  let ?t = "add_job j t"
  let ?j0 = "bare_job j"
  let ?j1 = "?j0\<lparr>Job_Sources := Job_Sources j\<rparr>"
  let ?j2 = "?j1\<lparr>Job_Scripts := Job_Scripts j\<rparr>"
  let ?j3 = "?j2\<lparr>Job_Schedule := Job_Schedule j\<rparr>"
  let ?j4 = "?j3\<lparr>Job_RetentionPolicy := Job_RetentionPolicy j\<rparr>"
  note st = assms(2) [unfolded storable_job_def list_all_iff]
  have bare: "Job_Sources ?j0 = []" "Job_Scripts ?j0 = []" "Job_ID ?j0 = Job_ID j" by (simp_all add: bare_job_def utc_job_def)
  have ids: "Job_ID ?j0 = Job_ID j" "Job_ID ?j1 = Job_ID j" "Job_ID ?j2 = Job_ID j" "Job_ID ?j3 = Job_ID j"
    by (simp_all add: bare_job_def utc_job_def)
  have rows: "yields (query_rows ''query jobs'' ''scan job row'' ''iterate jobs'' (\<lambda>t. filter (\<lambda>r. jr_id r = Job_ID j) (t_jobs t))
      (scanJobRow general)) ?t [?j0] ?t"
    by (rule yields_rows) (simp add: created_rows(1) [OF assms(1)] scan_job_row [OF assms(2)])
  have "scan_all (\<lambda>r. Inr (source_of_row r)) (sources_query [Job_ID j] ?t) = Inr (Job_Sources j)"
    unfolding created_sources [OF assms] using st by (intro scan_all_map) (simp add: source_of_source_row)
  moreover have "attach Source_JobID (\<lambda>s j. j\<lparr>Job_Sources := Job_Sources j @ [s]\<rparr>) (Job_Sources j) [?j0] = [?j1]"
    using st by (subst attach_one) (auto simp: ids fold_sources storable_source_def bare)
  ultimately have 1: "yields (attachSources [?j0]) ?t [?j1] ?t"
    unfolding attachSources_def
    by (intro yields_try [where x = "Job_Sources j", OF yields_rows]) (simp_all add: ids yields_ret)
  have "scan_all (\<lambda>r. Inr (script_of_row r)) (scripts_query [Job_ID j] ?t) = Inr (Job_Scripts j)"
    unfolding created_scripts [OF assms] using st by (intro scan_all_map) (simp add: script_of_script_row)
  moreover have "attach Script_JobID (\<lambda>s j. j\<lparr>Job_Scripts := Job_Scripts j @ [s]\<rparr>) (Job_Scripts j) [?j1] = [?j2]"
    using st by (subst attach_one) (auto simp: ids fold_scripts storable_script_def bare)
  ultimately have 2: "yields (attachScripts [?j1]) ?t [?j2] ?t"
    unfolding attachScripts_def
    by (intro yields_try [where x = "Job_Scripts j", OF yields_rows]) (simp_all add: ids yields_ret)
  have sd: "scan_all schedule_of_row [schedule_row (Job_ID j) (Job_Schedule j)] = Inr [Job_Schedule j]"
    using st by (simp add: schedule_of_schedule_row)
  have "attach Schedule_JobID (\<lambda>s j. j\<lparr>Job_Schedule := s\<rparr>) [Job_Schedule j] [?j2] = [?j3]"
    using st by (simp add: attach_def ids storable_schedule_def)
  then have "yields (try_do (wrap_err ''iterate schedules'' (query (\<lambda>_. ()))) (\<lambda>_.
      ret (Inr (attach Schedule_JobID (\<lambda>s j. j\<lparr>Job_Schedule := s\<rparr>) [Job_Schedule j] [?j2])))) ?t [?j3] ?t"
    by (intro yields_try [OF yields_wrap [OF yields_query]]) (simp add: yields_ret)
  with sd have 3: "yields (attachSchedules [?j2]) ?t [?j3] ?t"
    unfolding attachSchedules_def
    by (intro yields_try [OF yields_wrap [OF yields_query]]) (simp only: list.map ids created_rows(2) [OF assms(1)] sum.case)
  have "scan_all (\<lambda>r. Inr (retention_of_row r)) [retention_row (Job_ID j) (Job_RetentionPolicy j)] = Inr [Job_RetentionPolicy j]"
    using st by (simp add: retention_of_retention_row)
  moreover have "attach RetentionPolicy_JobID (\<lambda>p j. j\<lparr>Job_RetentionPolicy := p\<rparr>) [Job_RetentionPolicy j] [?j3] = [?j4]"
    using st by (simp add: attach_def ids)
  ultimately have 4: "yields (attachRetention [?j3]) ?t [?j4] ?t"
    unfolding attachRetention_def
    by (intro yields_try [where x = "[Job_RetentionPolicy j]", OF yields_rows])
      (simp_all only: list.map ids created_rows(3) [OF assms(1)] yields_ret)
  have "?j4 = utc_job j" by (cases j) (simp add: bare_job_def utc_job_def)
  with 4 have 4: "yields (attachRetention [?j3]) ?t [utc_job j] ?t" by simp
  have "yields (loadJobs general (\<lambda>t. filter (\<lambda>r. jr_id r = Job_ID j) (t_jobs t))) ?t [utc_job j] ?t"
    unfolding loadJobs_def
    by (rule yields_try [OF rows], simp only: list.distinct if_False, rule yields_try [OF 1], rule yields_try [OF 2],
        rule yields_try [OF 3], rule 4)
  then show ?thesis unfolding GetJob_def by (rule yields_try) (simp add: yields_ret)
qed

text \<open>C18: A job survives the database. Creating a job of the storable kind with new identifiers on a server
  that exists, then getting it by its identifier, returns exactly that job: every source and script
  in order with its lists and flags, the schedule with its weekdays, the retention policy, the
  health check and the timeout; only the times change their location to UTC.\<close>

theorem job_roundtrip:
  assumes "healthy db" and "new_aggregate j (db_tables db)" and "storable_job j"
  shows "fst (run_state (try_do (CreateJob j) (\<lambda>_. GetJob general (Job_ID j))) db) = Inr (utc_job j)"
  by (rule yieldsD [OF yields_try [OF yields_create [OF assms(2)] yields_get_created [OF assms(2,3)]] assms(1)]) simp

definition empty_db :: Db where
  "empty_db = \<lparr>db_tables = empty_tables\<lparr>t_servers := [server_row sample_server]\<rparr>, db_fault = (\<lambda>_. None), db_calls = 0\<rparr>"

lemma sample_job_storable: "storable_job sample_job"
  by (simp add: storable_job_def sample_job_def sample_source_def sample_schedule_def sample_retention_def
      storable_source_def storable_schedule_def storable_strings_def storable_time_def epoch_year
      ScheduleType_of_def MissedRunPolicy_of_def ArchiveFormat_of_def whole_seconds_def secondsToDuration_def wrap64_def second_def)

lemma job_roundtrip_witness:
  "fst (run_state (try_do (CreateJob sample_job) (\<lambda>_. GetJob (\<lambda>_. Inl EndOfFile) (Job_ID sample_job))) empty_db) = Inr (utc_job sample_job)"
  by (rule job_roundtrip [OF _ _ sample_job_storable])
    (simp_all add: empty_db_def healthy_def new_aggregate_def job_exists_def server_exists_def server_row_def
      empty_tables_def sample_job_def sample_server_def sample_source_def)

end
