(* ===== verification/Ipc_Messages.thy ===== *)
theory Ipc_Messages
  imports Store_Jobs_Facts
begin

text \<open>
  \<^verbatim>\<open>internal/ipc/messages.go\<close> and \<^verbatim>\<open>convert.go\<close>: the records that travel over the pipe and the
  conversions between them and the entities. A slice that is nil and an empty one are the same
  list, as in the entities.
\<close>

section \<open>Times\<close>

text \<open>\<^verbatim>\<open>time.RFC3339\<close> has no fraction of a second.\<close>

definition rfc3339 :: "Time \<Rightarrow> string" where
  "rfc3339 t = fmt_date t @ ''T'' @ fmt_clock (CHR '':'') t @ fmt_zone t"

definition dtoTime :: "Time \<Rightarrow> string" where
  "dtoTime t = (if is_zero_time t then [] else rfc3339 (to_utc t))"

definition dtoTimePtr :: "Time option \<Rightarrow> string" where
  "dtoTimePtr t = (case t of None \<Rightarrow> [] | Some u \<Rightarrow> dtoTime u)"

section \<open>Servers\<close>

record ServerDTO =
  sD_ID :: string
  sD_Name :: string
  sD_Host :: string
  sD_Port :: int
  sD_Username :: string
  sD_AuthType :: string
  sD_HasCredential :: bool
  sD_HostKeyAlgorithm :: string
  sD_HostKeyFingerprint :: string
  sD_ConnectionTimeoutSeconds :: int
  sD_CommandTimeoutSeconds :: int
  sD_CreatedAt :: string
  sD_UpdatedAt :: string

definition serverToDTO :: "Server \<Rightarrow> ServerDTO" where
  "serverToDTO s = \<lparr>
     sD_ID = Server_ID s, sD_Name = Server_Name s, sD_Host = Server_Host s, sD_Port = Server_Port s,
     sD_Username = Server_Username s, sD_AuthType = AuthenticationType_str (Server_AuthType s),
     sD_HasCredential = (Server_CredentialReference s \<noteq> []),
     sD_HostKeyAlgorithm = Server_HostKeyAlgorithm s, sD_HostKeyFingerprint = Server_HostKeyFingerprint s,
     sD_ConnectionTimeoutSeconds = Server_ConnectionTimeoutSeconds s,
     sD_CommandTimeoutSeconds = Server_CommandTimeoutSeconds s,
     sD_CreatedAt = dtoTime (Server_CreatedAt s), sD_UpdatedAt = dtoTime (Server_UpdatedAt s)\<rparr>"

record SaveServerRequest =
  sS_ID :: string
  sS_Name :: string
  sS_Host :: string
  sS_Port :: int
  sS_Username :: string
  sS_AuthType :: string
  sS_PrivateKeyPath :: string
  sS_Passphrase :: string
  sS_ConnectionTimeoutSeconds :: int
  sS_CommandTimeoutSeconds :: int

record TestConnectionResponse =
  tC_Success :: bool
  tC_FailedStage :: string
  tC_Message :: string
  tC_HostKeyAlgorithm :: string
  tC_HostKeyFingerprint :: string
  tC_FingerprintChanged :: bool
  tC_RemoteOSInfo :: string
  tC_SSHServerVersion :: string

record ConfirmHostKeyRequest =
  cH_ServerID :: string
  cH_Fingerprint :: string
  cH_Algorithm :: string

section \<open>Jobs\<close>

record SourceDTO =
  oD_RemotePath :: string
  oD_Position :: int
  oD_Include :: "string list"
  oD_Exclude :: "string list"

record ScriptDTO =
  cD_Type :: string
  cD_Command :: string
  cD_Position :: int
  cD_TimeoutSeconds :: int
  cD_RunCondition :: string
  cD_CriticalCleanup :: bool
  cD_RetryOnFailure :: bool

record ScheduleDTO =
  dD_Type :: string
  dD_Hour :: int
  dD_Minute :: int
  dD_Weekdays :: "int list"
  dD_DayOfMonth :: int
  dD_CronExpression :: string
  dD_MissedRunPolicy :: string

record RetentionPolicyDTO =
  pD_KeepLast :: "int option"
  pD_MaxAgeDays :: "int option"

record HealthCheckDTO =
  hD_Command :: string
  hD_Attempts :: int
  hD_IntervalSeconds :: int

record JobDTO =
  jD_ID :: string
  jD_Name :: string
  jD_ServerID :: string
  jD_Enabled :: bool
  jD_Sources :: "SourceDTO list"
  jD_Scripts :: "ScriptDTO list"
  jD_Schedule :: ScheduleDTO
  jD_RetentionPolicy :: RetentionPolicyDTO
  jD_HealthCheck :: "HealthCheckDTO option"
  jD_ArchiveFormat :: string
  jD_RemoteTempDirectory :: string
  jD_LocalDestination :: string
  jD_ArchiveTimeoutSeconds :: int
  jD_NextRunAt :: string
  jD_CreatedAt :: string
  jD_UpdatedAt :: string

definition sourceToDTO :: "Source \<Rightarrow> SourceDTO" where
  "sourceToDTO s = \<lparr>oD_RemotePath = Source_RemotePath s, oD_Position = Source_Position s,
     oD_Include = Source_Include s, oD_Exclude = Source_Exclude s\<rparr>"

definition scriptToDTO :: "Script \<Rightarrow> ScriptDTO" where
  "scriptToDTO sc = \<lparr>cD_Type = ScriptType_str (Script_Type sc), cD_Command = Script_Command sc,
     cD_Position = Script_Position sc, cD_TimeoutSeconds = Script_TimeoutSeconds sc,
     cD_RunCondition = RunCondition_str (Script_RunCondition sc), cD_CriticalCleanup = Script_CriticalCleanup sc,
     cD_RetryOnFailure = Script_RetryOnFailure sc\<rparr>"

definition jobToDTO :: "Job \<Rightarrow> string \<Rightarrow> JobDTO" where
  "jobToDTO j nextRunAt = \<lparr>
     jD_ID = Job_ID j, jD_Name = Job_Name j, jD_ServerID = Job_ServerID j, jD_Enabled = Job_Enabled j,
     jD_Sources = map sourceToDTO (Job_Sources j), jD_Scripts = map scriptToDTO (Job_Scripts j),
     jD_Schedule = (let s = Job_Schedule j in \<lparr>
       dD_Type = ScheduleType_str (Schedule_Type s), dD_Hour = Schedule_Hour s, dD_Minute = Schedule_Minute s,
       dD_Weekdays = Schedule_Weekdays s, dD_DayOfMonth = Schedule_DayOfMonth s,
       dD_CronExpression = Schedule_CronExpression s,
       dD_MissedRunPolicy = MissedRunPolicy_str (Schedule_MissedRunPolicy s)\<rparr>),
     jD_RetentionPolicy = \<lparr>pD_KeepLast = KeepLast (Job_RetentionPolicy j), pD_MaxAgeDays = MaxAgeDays (Job_RetentionPolicy j)\<rparr>,
     jD_HealthCheck = map_option (\<lambda>h. \<lparr>hD_Command = HealthCheck_Command h, hD_Attempts = HealthCheck_Attempts h,
       hD_IntervalSeconds = HealthCheck_IntervalSeconds h\<rparr>) (Job_HealthCheck j),
     jD_ArchiveFormat = ArchiveFormat_str (Job_ArchiveFormat j), jD_RemoteTempDirectory = Job_RemoteTempDirectory j,
     jD_LocalDestination = Job_LocalDestination j,
     jD_ArchiveTimeoutSeconds = whole_seconds (Job_ArchiveTimeout j), jD_NextRunAt = nextRunAt,
     jD_CreatedAt = dtoTime (Job_CreatedAt j), jD_UpdatedAt = dtoTime (Job_UpdatedAt j)\<rparr>"

definition dtoToSource :: "SourceDTO \<Rightarrow> Source" where
  "dtoToSource s = \<lparr>Source_ID = [], Source_JobID = [], Source_RemotePath = oD_RemotePath s, Source_Position = oD_Position s,
     Source_Include = oD_Include s, Source_Exclude = oD_Exclude s\<rparr>"

definition dtoToScript :: "ScriptDTO \<Rightarrow> Script" where
  "dtoToScript sc = \<lparr>Script_ID = [], Script_JobID = [], Script_Type = ScriptType_of (cD_Type sc),
     Script_Command = cD_Command sc, Script_Position = cD_Position sc, Script_TimeoutSeconds = cD_TimeoutSeconds sc,
     Script_RunCondition = RunCondition_of (cD_RunCondition sc), Script_CriticalCleanup = cD_CriticalCleanup sc,
     Script_RetryOnFailure = cD_RetryOnFailure sc\<rparr>"

definition dtoToJobParams :: "JobDTO \<Rightarrow> NewJobParams" where
  "dtoToJobParams dto = \<lparr>
     PJ_Name = jD_Name dto, PJ_ServerID = jD_ServerID dto, PJ_Enabled = jD_Enabled dto,
     PJ_Sources = map dtoToSource (jD_Sources dto), PJ_Scripts = map dtoToScript (jD_Scripts dto),
     PJ_Schedule = (let s = jD_Schedule dto in \<lparr>
       Schedule_ID = [], Schedule_JobID = [], Schedule_Type = ScheduleType_of (dD_Type s), Schedule_Hour = dD_Hour s,
       Schedule_Minute = dD_Minute s, Schedule_Weekdays = dD_Weekdays s, Schedule_DayOfMonth = dD_DayOfMonth s,
       Schedule_CronExpression = dD_CronExpression s,
       Schedule_MissedRunPolicy = MissedRunPolicy_of (dD_MissedRunPolicy s)\<rparr>),
     PJ_RetentionPolicy = \<lparr>RetentionPolicy_ID = [], RetentionPolicy_JobID = [],
       KeepLast = pD_KeepLast (jD_RetentionPolicy dto), MaxAgeDays = pD_MaxAgeDays (jD_RetentionPolicy dto)\<rparr>,
     PJ_HealthCheck = map_option (\<lambda>h. \<lparr>HealthCheck_Command = hD_Command h, HealthCheck_Attempts = hD_Attempts h,
       HealthCheck_IntervalSeconds = hD_IntervalSeconds h\<rparr>) (jD_HealthCheck dto),
     PJ_RemoteTempDirectory = jD_RemoteTempDirectory dto, PJ_LocalDestination = jD_LocalDestination dto,
     PJ_ArchiveTimeout = wrap64 (jD_ArchiveTimeoutSeconds dto * second)\<rparr>"

section \<open>Runs\<close>

record RunDTO =
  rD_ID :: string
  rD_JobID :: string
  rD_ServerID :: string
  rD_SourcePaths :: "string list"
  rD_Trigger :: string
  rD_StartedAt :: string
  rD_FinishedAt :: string
  rD_Status :: string
  rD_ArchiveName :: string
  rD_ArchiveSize :: int
  rD_Checksum :: string
  rD_ErrorCode :: string
  rD_ErrorMessage :: string
  rD_RecoveryOutcome :: string

definition runToDTO :: "Run \<Rightarrow> RunDTO" where
  "runToDTO r = \<lparr>
     rD_ID = Run_ID r, rD_JobID = Run_JobID r, rD_ServerID = Run_ServerID r, rD_SourcePaths = Run_SourcePaths r,
     rD_Trigger = Trigger_str (Run_Trigger r), rD_StartedAt = dtoTime (Run_StartedAt r),
     rD_FinishedAt = dtoTimePtr (Run_FinishedAt r), rD_Status = RunStatus_str (Run_Status r),
     rD_ArchiveName = Run_ArchiveName r, rD_ArchiveSize = Run_ArchiveSize r, rD_Checksum = Run_Checksum r,
     rD_ErrorCode = ErrorCode_str (Run_ErrorCode r), rD_ErrorMessage = Run_ErrorMessage r,
     rD_RecoveryOutcome = RecoveryOutcome_str (Run_RecoveryOutcome r)\<rparr>"

record StepDTO =
  tD_ID :: string
  tD_Type :: string
  tD_StartedAt :: string
  tD_FinishedAt :: string
  tD_Status :: string
  tD_Output :: string
  tD_Truncated :: bool
  tD_Error :: string
  tD_ExitCode :: "int option"
  tD_DurationMs :: int
  tD_Command :: string

definition stepToDTO :: "RunStep \<Rightarrow> StepDTO" where
  "stepToDTO s = \<lparr>
     tD_ID = Step_ID s, tD_Type = StepType_str (Step_Type s), tD_StartedAt = dtoTime (Step_StartedAt s),
     tD_FinishedAt = dtoTimePtr (Step_FinishedAt s), tD_Status = StepStatus_str (Step_Status s),
     tD_Output = Step_Output s, tD_Truncated = Step_Truncated s, tD_Error = Step_Error s,
     tD_ExitCode = Step_ExitCode s, tD_DurationMs = Milliseconds (Step_Duration s), tD_Command = Step_Command s\<rparr>"

record ListRunsRequest =
  lR_JobID :: string
  lR_Status :: string
  lR_Limit :: int

section \<open>Settings\<close>

record SettingsDTO =
  gD_SchedulesPaused :: bool
  gD_GlobalConcurrencyLimit :: int
  gD_NotifySuccess :: bool
  gD_NotifyFailure :: bool
  gD_StaleRemoteCleanupEnabled :: bool
  gD_StaleRemoteCleanupAgeHours :: int

definition settingsToDTO :: "Settings \<Rightarrow> SettingsDTO" where
  "settingsToDTO s = \<lparr>
     gD_SchedulesPaused = SchedulesPaused s, gD_GlobalConcurrencyLimit = GlobalConcurrencyLimit s,
     gD_NotifySuccess = NotifySuccess s, gD_NotifyFailure = NotifyFailure s,
     gD_StaleRemoteCleanupEnabled = StaleRemoteCleanupEnabled s,
     gD_StaleRemoteCleanupAgeHours = StaleRemoteCleanupAgeHours s\<rparr>"

definition dtoToSettings :: "SettingsDTO \<Rightarrow> Settings" where
  "dtoToSettings dto = \<lparr>
     SchedulesPaused = gD_SchedulesPaused dto, GlobalConcurrencyLimit = gD_GlobalConcurrencyLimit dto,
     NotifySuccess = gD_NotifySuccess dto, NotifyFailure = gD_NotifyFailure dto,
     StaleRemoteCleanupEnabled = gD_StaleRemoteCleanupEnabled dto,
     StaleRemoteCleanupAgeHours = gD_StaleRemoteCleanupAgeHours dto\<rparr>"

lemma settings_dto_roundtrip [simp]: "dtoToSettings (settingsToDTO s) = s" "settingsToDTO (dtoToSettings dto) = dto"
  by (simp_all add: dtoToSettings_def settingsToDTO_def)

section \<open>Editing without a change\<close>

text \<open>A job and new parameters describe the same job, identifiers of the children aside.\<close>

definition same_source :: "Source \<Rightarrow> Source \<Rightarrow> bool" where
  "same_source s t \<longleftrightarrow> t = s\<lparr>Source_ID := Source_ID t, Source_JobID := Source_JobID t\<rparr>"

definition same_script :: "Script \<Rightarrow> Script \<Rightarrow> bool" where
  "same_script s t \<longleftrightarrow> t = s\<lparr>Script_ID := Script_ID t, Script_JobID := Script_JobID t\<rparr>"

definition same_job :: "Job \<Rightarrow> Job \<Rightarrow> bool" where
  "same_job j k \<longleftrightarrow> list_all2 same_source (Job_Sources j) (Job_Sources k) \<and> list_all2 same_script (Job_Scripts j) (Job_Scripts k) \<and>
     k = j\<lparr>Job_ID := Job_ID k, Job_Sources := Job_Sources k, Job_Scripts := Job_Scripts k,
       Job_Schedule := (Job_Schedule j)\<lparr>Schedule_ID := Schedule_ID (Job_Schedule k), Schedule_JobID := Schedule_JobID (Job_Schedule k)\<rparr>,
       Job_RetentionPolicy := (Job_RetentionPolicy j)\<lparr>RetentionPolicy_ID := RetentionPolicy_ID (Job_RetentionPolicy k),
         RetentionPolicy_JobID := RetentionPolicy_JobID (Job_RetentionPolicy k)\<rparr>,
       Job_CreatedAt := Job_CreatedAt k, Job_UpdatedAt := Job_UpdatedAt k\<rparr>"

text \<open>What the form shows and the constructor's defaults leave alone.\<close>

definition editable_job :: "Job \<Rightarrow> bool" where
  "editable_job j \<longleftrightarrow> list_all (\<lambda>sc. ScriptType_of (ScriptType_str (Script_Type sc)) = Script_Type sc \<and>
       RunCondition_of (RunCondition_str (Script_RunCondition sc)) = Script_RunCondition sc \<and> Script_TimeoutSeconds sc \<noteq> 0) (Job_Scripts j) \<and>
     ScheduleType_of (ScheduleType_str (Schedule_Type (Job_Schedule j))) = Schedule_Type (Job_Schedule j) \<and>
     MissedRunPolicy_of (MissedRunPolicy_str (Schedule_MissedRunPolicy (Job_Schedule j))) = Schedule_MissedRunPolicy (Job_Schedule j) \<and>
     MissedRunPolicy_str (Schedule_MissedRunPolicy (Job_Schedule j)) \<noteq> [] \<and>
     Job_RemoteTempDirectory j \<noteq> [] \<and> Job_ArchiveTimeout j \<noteq> 0 \<and> Job_ArchiveFormat j = ArchiveTarGz \<and>
     secondsToDuration (whole_seconds (Job_ArchiveTimeout j)) = Job_ArchiveTimeout j"

lemma adopt_keeps_source:
  "run_state (adopt_source rand jobID (dtoToSource (sourceToDTO s))) n = (Inr t, m) \<Longrightarrow> same_source s t"
  by (cases s; cases t) (auto simp: adopt_source_def same_source_def dtoToSource_def sourceToDTO_def elim!: try_do_Inr)

lemma adopt_keeps_script:
  "run_state (adopt_script rand jobID (dtoToScript (scriptToDTO s))) n = (Inr t, m) \<Longrightarrow>
   ScriptType_of (ScriptType_str (Script_Type s)) = Script_Type s \<Longrightarrow>
   RunCondition_of (RunCondition_str (Script_RunCondition s)) = Script_RunCondition s \<Longrightarrow>
   Script_TimeoutSeconds s \<noteq> 0 \<Longrightarrow> same_script s t"
  by (cases s; cases t) (auto simp: adopt_script_def same_script_def dtoToScript_def scriptToDTO_def elim!: try_do_Inr)

lemma adopt_same_sources:
  "run_state (try_each (adopt_source rand jobID) (map (dtoToSource \<circ> sourceToDTO) ss)) n = (Inr ss', m) \<Longrightarrow>
   list_all2 same_source ss ss'"
  by (induction ss arbitrary: n ss') (auto elim!: try_do_Inr intro: adopt_keeps_source)

lemma adopt_same_scripts:
  "run_state (try_each (adopt_script rand jobID) (map (dtoToScript \<circ> scriptToDTO) ss)) n = (Inr ss', m) \<Longrightarrow>
   list_all (\<lambda>sc. ScriptType_of (ScriptType_str (Script_Type sc)) = Script_Type sc \<and>
       RunCondition_of (RunCondition_str (Script_RunCondition sc)) = Script_RunCondition sc \<and> Script_TimeoutSeconds sc \<noteq> 0) ss \<Longrightarrow>
   list_all2 same_script ss ss'"
  by (induction ss arbitrary: n ss') (auto elim!: try_do_Inr intro: adopt_keeps_script)

text \<open>C31: Saving a job as the form shows it changes nothing but identifiers. For a job with known enum
  values, an archive timeout of whole seconds (the form counts in seconds) and no field at a
  default that the constructor replaces, the parameters made from the
  job's own message give back the same job: sources and scripts in order with all their fields,
  schedule, retention, health check and timeouts; only identifiers and times are new.\<close>

theorem job_dto_roundtrip:
  assumes "run_state (NewJob rand cron now (dtoToJobParams (jobToDTO j nextRunAt))) n = (Inr k, m)" and "editable_job j"
  shows "same_job j k"
proof -
  let ?p = "dtoToJobParams (jobToDTO j nextRunAt)"
  from assms(1) obtain jobID a ss b cs c sid d rid e
    where ss: "run_state (try_each (adopt_source rand jobID) (PJ_Sources ?p)) a = (Inr ss, b)"
      and cs: "run_state (try_each (adopt_script rand jobID) (PJ_Scripts ?p)) b = (Inr cs, c)"
      and k: "k = \<lparr>
         Job_ID = jobID, Job_Name = PJ_Name ?p, Job_ServerID = PJ_ServerID ?p, Job_Enabled = PJ_Enabled ?p,
         Job_Sources = ss, Job_Scripts = cs,
         Job_Schedule = (PJ_Schedule ?p)\<lparr>Schedule_JobID := jobID, Schedule_ID := sid,
           Schedule_MissedRunPolicy :=
             (if MissedRunPolicy_str (Schedule_MissedRunPolicy (PJ_Schedule ?p)) = []
              then MissedRunAsSoonAsPossible else Schedule_MissedRunPolicy (PJ_Schedule ?p))\<rparr>,
         Job_RetentionPolicy = (PJ_RetentionPolicy ?p)\<lparr>RetentionPolicy_JobID := jobID, RetentionPolicy_ID := rid\<rparr>,
         Job_HealthCheck = PJ_HealthCheck ?p, Job_ArchiveFormat = ArchiveTarGz,
         Job_RemoteTempDirectory = (if PJ_RemoteTempDirectory ?p = [] then DefaultRemoteTempDirectory else PJ_RemoteTempDirectory ?p),
         Job_LocalDestination = PJ_LocalDestination ?p,
         Job_ArchiveTimeout = (if PJ_ArchiveTimeout ?p = 0 then DefaultArchiveTimeout else PJ_ArchiveTimeout ?p),
         Job_CreatedAt = now, Job_UpdatedAt = now\<rparr>"
    unfolding NewJob_def Let_def by (elim try_do_Inr) (auto split: option.splits)
  have "list_all2 same_source (Job_Sources j) ss"
    by (rule adopt_same_sources) (use ss in \<open>simp add: dtoToJobParams_def jobToDTO_def\<close>)
  moreover have "list_all2 same_script (Job_Scripts j) cs"
    by (rule adopt_same_scripts) (use cs assms(2) in \<open>simp_all add: dtoToJobParams_def jobToDTO_def editable_job_def\<close>)
  moreover have "map_option (\<lambda>h. \<lparr>HealthCheck_Command = hD_Command h, HealthCheck_Attempts = hD_Attempts h,
       HealthCheck_IntervalSeconds = hD_IntervalSeconds h\<rparr>) (jD_HealthCheck (jobToDTO j nextRunAt)) = Job_HealthCheck j"
    by (cases "Job_HealthCheck j") (simp_all add: jobToDTO_def)
  ultimately show ?thesis
    using assms(2) unfolding k same_job_def
    by (cases j) (simp add: dtoToJobParams_def jobToDTO_def Let_def editable_job_def secondsToDuration_def)
qed

end
