(* ===== verification/Ipc_Router.thy ===== *)
theory Ipc_Router
  imports Ipc_Messages
begin

text \<open>
  \<^verbatim>\<open>internal/ipc\<close> below the handlers: \<^verbatim>\<open>envelope.go\<close>, \<^verbatim>\<open>codec.go\<close>, \<^verbatim>\<open>router.go\<close>, \<^verbatim>\<open>eventhub.go\<close>,
  \<^verbatim>\<open>activeruns.go\<close> and \<^verbatim>\<open>session.go\<close>. JSON is a parameter: how a line decodes to an envelope,
  whether an envelope can be encoded, and how a payload is encoded. The two goroutines of a
  session, the read loop and the pusher of events, are the steps of a relation, in any
  interleaving with the rest of the service.
\<close>

section \<open>Envelopes\<close>

definition ProtocolVersion :: int where
  "ProtocolVersion = 1"

datatype MessageType = MessageRequest | MessageResponse | MessageEvent | MessageTypeOther string

record ErrorPayload =
  ep_Code :: string
  ep_Message :: string

text \<open>A payload that is absent is the empty text.\<close>

record Envelope =
  ev_Type :: MessageType
  ev_ID :: string
  ev_ProtocolVersion :: int
  ev_Command :: string
  ev_Event :: string
  ev_Success :: "bool option"
  ev_Payload :: string
  ev_Error :: "ErrorPayload option"

definition empty_envelope :: Envelope where
  "empty_envelope = \<lparr>ev_Type = MessageTypeOther [], ev_ID = [], ev_ProtocolVersion = 0, ev_Command = [], ev_Event = [],
     ev_Success = None, ev_Payload = [], ev_Error = None\<rparr>"

definition NewRequest :: "('p \<Rightarrow> string) \<Rightarrow> string \<Rightarrow> string \<Rightarrow> 'p \<Rightarrow> Envelope" where
  "NewRequest marshal ident command payload =
     empty_envelope\<lparr>ev_Type := MessageRequest, ev_ID := ident, ev_ProtocolVersion := ProtocolVersion,
       ev_Command := command, ev_Payload := marshal payload\<rparr>"

definition NewSuccessResponse :: "('p \<Rightarrow> string) \<Rightarrow> string \<Rightarrow> 'p \<Rightarrow> Envelope" where
  "NewSuccessResponse marshal ident payload =
     empty_envelope\<lparr>ev_Type := MessageResponse, ev_ID := ident, ev_Success := Some True, ev_Payload := marshal payload\<rparr>"

definition NewErrorResponse :: "string \<Rightarrow> string \<Rightarrow> string \<Rightarrow> Envelope" where
  "NewErrorResponse ident code message =
     empty_envelope\<lparr>ev_Type := MessageResponse, ev_ID := ident, ev_Success := Some False,
       ev_Error := Some \<lparr>ep_Code = code, ep_Message = message\<rparr>\<rparr>"

definition NewEvent :: "('p \<Rightarrow> string) \<Rightarrow> string \<Rightarrow> 'p \<Rightarrow> Envelope" where
  "NewEvent marshal eventName payload =
     empty_envelope\<lparr>ev_Type := MessageEvent, ev_Event := eventName, ev_Payload := marshal payload\<rparr>"

definition ErrVersionMismatch :: string where "ErrVersionMismatch = ''PROTOCOL_VERSION_MISMATCH''"
definition ErrUnsupportedCommand :: string where "ErrUnsupportedCommand = ''UNSUPPORTED_COMMAND''"

section \<open>The codec\<close>

text \<open>What the connection delivers: a line without its terminator, or a failure to read.\<close>

datatype Incoming = Line string | Broken err

definition maxLineBytes :: nat where
  "maxLineBytes = 16 * 1024 * 1024"

definition ReadEnvelope :: "(string \<Rightarrow> err + Envelope) \<Rightarrow> Incoming list \<Rightarrow> (err + Envelope) \<times> Incoming list" where
  "ReadEnvelope decode inbox =
     (case inbox of
        [] \<Rightarrow> (Inl EndOfFile, [])
      | Broken e # rest \<Rightarrow> (Inl (Wrapped ''read envelope'' e), rest)
      | Line l # rest \<Rightarrow>
          if maxLineBytes \<le> length l
          then (Inl (Wrapped ''read envelope'' (ErrorText ''bufio.Scanner: token too long'')), rest)
          else (case decode l of
                  Inl e \<Rightarrow> (Inl (Wrapped ''decode envelope'' e), rest)
                | Inr env \<Rightarrow> (Inr env, rest)))"

text \<open>An envelope is on the wire once it is encoded and written without an error.\<close>

definition WriteEnvelope :: "(Envelope \<Rightarrow> err + string) \<Rightarrow> err option \<Rightarrow> Envelope \<Rightarrow> Envelope list \<Rightarrow> Envelope list \<times> err option" where
  "WriteEnvelope encode writeFault env wire =
     (case encode env of
        Inl e \<Rightarrow> (wire, Some (Wrapped ''encode envelope'' e))
      | Inr data \<Rightarrow>
          (case writeFault of
             Some e \<Rightarrow> (wire, Some (Wrapped ''write envelope'' e))
           | None \<Rightarrow> (wire @ [env], None)))"

definition UnmarshalPayload :: "(string \<Rightarrow> err + 'p) \<Rightarrow> string \<Rightarrow> err + 'p" where
  "UnmarshalPayload decode payload =
     (if payload = [] then Inl (ErrorText ''empty payload'')
      else (case decode payload of Inl e \<Rightarrow> Inl (Wrapped ''decode payload'' e) | Inr p \<Rightarrow> Inr p))"

section \<open>The router\<close>

type_synonym ('s, 'p) Handler = "string \<Rightarrow> ('s, err + 'p) state"

record ('s, 'p) Router =
  ro_handlers :: "string \<rightharpoonup> ('s, 'p) Handler"
  ro_onError :: "string \<Rightarrow> err \<Rightarrow> ('s, unit) state"

definition NewRouter :: "(string \<Rightarrow> err \<Rightarrow> ('s, unit) state) \<Rightarrow> ('s, 'p) Router" where
  "NewRouter onError = \<lparr>ro_handlers = Map.empty, ro_onError = onError\<rparr>"

definition Handle :: "string \<Rightarrow> ('s, 'p) Handler \<Rightarrow> ('s, 'p) Router \<Rightarrow> ('s, 'p) Router" where
  "Handle command fn r = r\<lparr>ro_handlers := (ro_handlers r)(command \<mapsto> fn)\<rparr>"

definition Dispatch :: "('p \<Rightarrow> string) \<Rightarrow> ('s, 'p) Router \<Rightarrow> Envelope \<Rightarrow> ('s, Envelope) state" where
  "Dispatch marshal r env =
     (if ev_ProtocolVersion env \<noteq> ProtocolVersion then
        ret (NewErrorResponse (ev_ID env) ErrVersionMismatch
          (''protocol version mismatch: service supports '' @ itoa ProtocolVersion @ '', client sent '' @
           itoa (ev_ProtocolVersion env) @ ''; please update the application''))
      else
        (case ro_handlers r (ev_Command env) of
           None \<Rightarrow> ret (NewErrorResponse (ev_ID env) ErrUnsupportedCommand (''unsupported command '' @ go_quote (ev_Command env)))
         | Some fn \<Rightarrow> do {
             result \<leftarrow> fn (ev_Payload env);
             case result of
               Inl e \<Rightarrow>
                 (case as_coded e of
                    Some (code, message) \<Rightarrow> ret (NewErrorResponse (ev_ID env) (ErrorCode_str code) message)
                  | None \<Rightarrow> do {
                      ro_onError r (ev_Command env) e;
                      ret (NewErrorResponse (ev_ID env) (ErrorCode_str ErrInternal) ''an internal error occurred'')
                    })
             | Inr payload \<Rightarrow> ret (NewSuccessResponse marshal (ev_ID env) payload)
           }))"

text \<open>What the comment on \<^verbatim>\<open>Envelope\<close> says a response and an event are.\<close>

definition well_formed_response :: "string \<Rightarrow> Envelope \<Rightarrow> bool" where
  "well_formed_response ident env \<longleftrightarrow> ev_Type env = MessageResponse \<and> ev_ID env = ident \<and> ev_Event env = [] \<and> ev_Command env = [] \<and>
     (ev_Success env = Some True \<and> ev_Error env = None \<or>
      ev_Success env = Some False \<and> ev_Error env \<noteq> None \<and> ev_Payload env = [])"

definition well_formed_event :: "Envelope \<Rightarrow> bool" where
  "well_formed_event env \<longleftrightarrow> ev_Type env = MessageEvent \<and> ev_ID env = [] \<and> ev_Success env = None \<and> ev_Error env = None"

lemmas response_defs = NewErrorResponse_def NewSuccessResponse_def empty_envelope_def well_formed_response_def

lemma dispatch_well_formed: "well_formed_response (ev_ID env) (fst (run_state (Dispatch marshal r env) s))"
  by (auto simp: Dispatch_def response_defs case_prod_unfold split: option.split sum.split)

lemma dispatch_unknown_keeps_state:
  "ev_ProtocolVersion env \<noteq> ProtocolVersion \<or> ro_handlers r (ev_Command env) = None \<Longrightarrow>
   snd (run_state (Dispatch marshal r env) s) = s"
  by (auto simp: Dispatch_def)

lemma new_event_well_formed [simp]: "well_formed_event (NewEvent marshal n p)"
  by (simp add: NewEvent_def empty_envelope_def well_formed_event_def)

text \<open>An internal error never reaches the client. When a handler fails with an error that carries no
  code, the response is the same whatever the error is and whatever it says, and the error is
  handed to the log together with its command; when it carries a code, the client gets exactly
  the code and the message of the outermost coded error, not the cause below it.\<close>

theorem internal_errors_do_not_leak:
  assumes "ev_ProtocolVersion env = ProtocolVersion" and "ro_handlers r (ev_Command env) = Some fn"
    and "run_state (fn (ev_Payload env)) s = (Inl e, s')"
  shows "run_state (Dispatch marshal r env) s =
    (case as_coded e of
       None \<Rightarrow> (NewErrorResponse (ev_ID env) ''INTERNAL_ERROR'' ''an internal error occurred'',
                snd (run_state (ro_onError r (ev_Command env) e) s'))
     | Some (code, message) \<Rightarrow> (NewErrorResponse (ev_ID env) (ErrorCode_str code) message, s'))"
  using assms by (simp add: Dispatch_def case_prod_unfold split: option.split prod.split)

section \<open>Active runs\<close>

text \<open>A cancel function is the context that it cancels; cancelling marks the context.\<close>

record Registry =
  ar_cancels :: "string \<rightharpoonup> nat"
  ar_cancelled :: "nat set"

definition NewActiveRunRegistry :: Registry where
  "NewActiveRunRegistry = \<lparr>ar_cancels = Map.empty, ar_cancelled = {}\<rparr>"

definition RegisterRun :: "string \<Rightarrow> nat \<Rightarrow> Registry \<Rightarrow> Registry" where
  "RegisterRun runID cancel r = r\<lparr>ar_cancels := (ar_cancels r)(runID \<mapsto> cancel)\<rparr>"

definition UnregisterRun :: "string \<Rightarrow> Registry \<Rightarrow> Registry" where
  "UnregisterRun runID r = r\<lparr>ar_cancels := (ar_cancels r)(runID := None)\<rparr>"

definition CancelRun :: "string \<Rightarrow> Registry \<Rightarrow> bool \<times> Registry" where
  "CancelRun runID r =
     (case ar_cancels r runID of
        None \<Rightarrow> (False, r)
      | Some c \<Rightarrow> (True, r\<lparr>ar_cancelled := insert c (ar_cancelled r)\<rparr>))"

definition CancelAll :: "Registry \<Rightarrow> Registry" where
  "CancelAll r = r\<lparr>ar_cancelled := ran (ar_cancels r) \<union> ar_cancelled r\<rparr>"

section \<open>The event hub\<close>

text \<open>
  The channels of the subscribers: what they hold, oldest first. A closed channel is no subscriber any
  more, but what it held can still be received (\<open>hub_left\<close>). Channels are numbered as they are made.
\<close>

record EventHub =
  hub_subs :: "nat \<rightharpoonup> Envelope list"
  hub_left :: "nat \<Rightarrow> Envelope list"
  hub_next :: nat

definition eventBufferSize :: nat where
  "eventBufferSize = 64"

definition NewEventHub :: EventHub where
  "NewEventHub = \<lparr>hub_subs = Map.empty, hub_left = (\<lambda>_. []), hub_next = 0\<rparr>"

definition Subscribe :: "EventHub \<Rightarrow> nat \<times> EventHub" where
  "Subscribe h = (hub_next h, h\<lparr>hub_subs := (hub_subs h)(hub_next h \<mapsto> []), hub_left := (hub_left h)(hub_next h := []),
     hub_next := Suc (hub_next h)\<rparr>)"

text \<open>A subscriber is deleted and its channel closed, once.\<close>

definition Unsubscribe :: "nat \<Rightarrow> EventHub \<Rightarrow> EventHub" where
  "Unsubscribe ch h =
     (case hub_subs h ch of
        None \<Rightarrow> h
      | Some buf \<Rightarrow> h\<lparr>hub_subs := (hub_subs h)(ch := None), hub_left := (hub_left h)(ch := buf)\<rparr>)"

text \<open>A send to a buffered channel that does not block: a full buffer drops the event.\<close>

definition offer :: "Envelope \<Rightarrow> Envelope list \<Rightarrow> Envelope list" where
  "offer env buf = (if length buf < eventBufferSize then buf @ [env] else buf)"

definition Publish :: "Envelope \<Rightarrow> EventHub \<Rightarrow> EventHub" where
  "Publish env h = h\<lparr>hub_subs := map_option (offer env) \<circ> hub_subs h\<rparr>"

text \<open>The pusher takes the oldest event of its channel, of a closed channel as long as one is left.\<close>

definition Receive :: "nat \<Rightarrow> EventHub \<Rightarrow> Envelope option \<times> EventHub" where
  "Receive ch h =
     (case hub_subs h ch of
        Some (env # rest) \<Rightarrow> (Some env, h\<lparr>hub_subs := (hub_subs h)(ch \<mapsto> rest)\<rparr>)
      | Some [] \<Rightarrow> (None, h)
      | None \<Rightarrow>
          (case hub_left h ch of
             [] \<Rightarrow> (None, h)
           | env # rest \<Rightarrow> (Some env, h\<lparr>hub_left := (hub_left h)(ch := rest)\<rparr>)))"

definition hub_bounded :: "EventHub \<Rightarrow> bool" where
  "hub_bounded h \<longleftrightarrow> (\<forall>ch buf. hub_subs h ch = Some buf \<longrightarrow> length buf \<le> eventBufferSize) \<and>
     (\<forall>ch. length (hub_left h ch) \<le> eventBufferSize)"

lemma offer_bounded: "length buf \<le> eventBufferSize \<Longrightarrow> length (offer env buf) \<le> eventBufferSize"
  by (simp add: offer_def)

lemma receive_bounded:
  assumes "hub_bounded h"
  shows "hub_bounded (snd (Receive ch h))"
proof (cases "hub_subs h ch")
  case None
  have "length (hub_left h ch) \<le> eventBufferSize" using assms by (simp add: hub_bounded_def)
  with None assms show ?thesis by (cases "hub_left h ch") (simp_all add: hub_bounded_def Receive_def)
next
  case (Some buf)
  have "length buf \<le> eventBufferSize" using assms Some by (simp add: hub_bounded_def)
  with Some assms show ?thesis by (cases buf) (simp_all add: hub_bounded_def Receive_def)
qed

lemma hub_bounded_ops:
  "hub_bounded NewEventHub"
  "hub_bounded h \<Longrightarrow> hub_bounded (snd (Subscribe h))"
  "hub_bounded h \<Longrightarrow> hub_bounded (Unsubscribe ch h)"
  "hub_bounded h \<Longrightarrow> hub_bounded (Publish env h)"
  by (auto simp: hub_bounded_def NewEventHub_def Subscribe_def Unsubscribe_def Publish_def
    intro: offer_bounded split: option.splits)

text \<open>What can be received from a channel, open or closed, and what a property of all of it gives.\<close>

definition channel_all :: "(Envelope \<Rightarrow> bool) \<Rightarrow> nat \<Rightarrow> EventHub \<Rightarrow> bool" where
  "channel_all P ch h \<longleftrightarrow> (\<forall>buf. hub_subs h ch = Some buf \<longrightarrow> list_all P buf) \<and> list_all P (hub_left h ch)"

lemma receive_all:
  assumes "channel_all P ch h"
  shows "channel_all P ch (snd (Receive ch h))" and "fst (Receive ch h) = Some env \<Longrightarrow> P env"
  using assms by (auto simp: channel_all_def Receive_def split: option.splits list.splits)

lemma channel_all_ops:
  "channel_all P (hub_next h) (snd (Subscribe h))" "channel_all P ch h \<Longrightarrow> channel_all P ch (Unsubscribe ch h)"
  "channel_all P ch h \<Longrightarrow> P env \<Longrightarrow> channel_all P ch (Publish env h)"
  by (auto simp: channel_all_def Subscribe_def Unsubscribe_def Publish_def offer_def split: option.splits)

text \<open>Publishing to one channel never depends on the others.\<close>

lemma publish_isolated: "hub_subs (Publish env h) ch = map_option (offer env) (hub_subs h ch)"
  by (simp add: Publish_def)

end
