(* ===== verification/Ipc_Session.thy ===== *)
theory Ipc_Session
  imports Ipc_Router
begin

text \<open>
  \<^verbatim>\<open>internal/ipc/session.go\<close>: the read loop of \<^verbatim>\<open>Serve\<close> and the pusher of events as the steps of a
  relation. Between two steps the rest of the service may publish events, change the state
  behind the handlers and the other channels of the hub, and cancel the context.
\<close>

section \<open>State\<close>

datatype Phase = Reading | Dispatching Envelope | Writing Envelope | Checking | Returned err

text \<open>The last field records the requests that were read, for the statements below.\<close>

record 's SessionState =
  ss_inbox :: "Incoming list"
  ss_phase :: Phase
  ss_channel :: nat
  ss_hub :: EventHub
  ss_pushing :: bool
  ss_pushErr :: "err option"
  ss_wire :: "Envelope list"
  ss_backend :: 's
  ss_requests :: "Envelope list"

record ('s, 'p) Conn =
  cn_decode :: "string \<Rightarrow> err + Envelope"
  cn_encode :: "Envelope \<Rightarrow> err + string"
  cn_marshal :: "'p \<Rightarrow> string"
  cn_router :: "('s, 'p) Router"

section \<open>The steps of the code\<close>

definition serve_start :: "Incoming list \<Rightarrow> EventHub \<Rightarrow> 's \<Rightarrow> 's SessionState" where
  "serve_start inbox hub b =
     (case Subscribe hub of (ch, hub') \<Rightarrow>
        \<lparr>ss_inbox = inbox, ss_phase = Reading, ss_channel = ch, ss_hub = hub', ss_pushing = True, ss_pushErr = None,
         ss_wire = [], ss_backend = b, ss_requests = []\<rparr>)"

text \<open>A return runs the deferred unsubscribe.\<close>

definition serve_return :: "err \<Rightarrow> 's SessionState \<Rightarrow> 's SessionState" where
  "serve_return e s = s\<lparr>ss_phase := Returned e, ss_hub := Unsubscribe (ss_channel s) (ss_hub s)\<rparr>"

definition serve_read :: "('s, 'p) Conn \<Rightarrow> 's SessionState \<Rightarrow> 's SessionState" where
  "serve_read c s =
     (case ReadEnvelope (cn_decode c) (ss_inbox s) of
        (Inl e, rest) \<Rightarrow> serve_return e (s\<lparr>ss_inbox := rest\<rparr>)
      | (Inr env, rest) \<Rightarrow>
          if ev_Type env \<noteq> MessageRequest then s\<lparr>ss_inbox := rest\<rparr>
          else s\<lparr>ss_inbox := rest, ss_phase := Dispatching env, ss_requests := ss_requests s @ [env]\<rparr>)"

definition serve_dispatch :: "('s, 'p) Conn \<Rightarrow> Envelope \<Rightarrow> 's SessionState \<Rightarrow> 's SessionState" where
  "serve_dispatch c env s =
     (case run_state (Dispatch (cn_marshal c) (cn_router c) env) (ss_backend s) of
        (resp, b) \<Rightarrow> s\<lparr>ss_backend := b, ss_phase := Writing resp\<rparr>)"

definition serve_write :: "('s, 'p) Conn \<Rightarrow> err option \<Rightarrow> Envelope \<Rightarrow> 's SessionState \<Rightarrow> 's SessionState" where
  "serve_write c fault resp s =
     (case WriteEnvelope (cn_encode c) fault resp (ss_wire s) of
        (wire, Some e) \<Rightarrow> serve_return e (s\<lparr>ss_wire := wire\<rparr>)
      | (wire, None) \<Rightarrow> s\<lparr>ss_wire := wire, ss_phase := Checking\<rparr>)"

definition serve_check :: "'s SessionState \<Rightarrow> 's SessionState" where
  "serve_check s =
     (case ss_pushErr s of
        Some e \<Rightarrow> serve_return e (s\<lparr>ss_pushErr := None\<rparr>)
      | None \<Rightarrow> s\<lparr>ss_phase := Reading\<rparr>)"

definition push_event :: "('s, 'p) Conn \<Rightarrow> err option \<Rightarrow> 's SessionState \<Rightarrow> 's SessionState" where
  "push_event c fault s =
     (case Receive (ss_channel s) (ss_hub s) of
        (None, hub) \<Rightarrow> s
      | (Some env, hub) \<Rightarrow>
          (case WriteEnvelope (cn_encode c) fault env (ss_wire s) of
             (wire, Some e) \<Rightarrow> s\<lparr>ss_hub := hub, ss_wire := wire, ss_pushing := False, ss_pushErr := Some e\<rparr>
           | (wire, None) \<Rightarrow> s\<lparr>ss_hub := hub, ss_wire := wire\<rparr>))"

section \<open>The step relation\<close>

text \<open>
  The steps of the session's own two goroutines. \<open>push_stop\<close> is the end of the pusher (context cancelled
  or channel closed).
\<close>

inductive own_step :: "('s, 'p) Conn \<Rightarrow> 's SessionState \<Rightarrow> 's SessionState \<Rightarrow> bool" for c where
  own_read: "ss_phase s = Reading \<Longrightarrow> own_step c s (serve_read c s)"
| own_dispatch: "ss_phase s = Dispatching env \<Longrightarrow> own_step c s (serve_dispatch c env s)"
| own_write: "ss_phase s = Writing resp \<Longrightarrow> own_step c s (serve_write c fault resp s)"
| own_check: "ss_phase s = Checking \<Longrightarrow> own_step c s (serve_check s)"
| own_push: "ss_pushing s \<Longrightarrow> own_step c s (push_event c fault s)"
| own_push_stop: "own_step c s (s\<lparr>ss_pushing := False\<rparr>)"

text \<open>
  The rest of the service: an event is published, the state behind the handlers changes, the channels
  of other subscribers change.
\<close>

inductive session_step :: "('s, 'p) Conn \<Rightarrow> 's SessionState \<Rightarrow> 's SessionState \<Rightarrow> bool" for c where
  step_own: "own_step c s t \<Longrightarrow> session_step c s t"
| step_publish: "session_step c s (s\<lparr>ss_hub := Publish (NewEvent (cn_marshal c) n p) (ss_hub s)\<rparr>)"
| step_elsewhere: "session_step c s (s\<lparr>ss_backend := b\<rparr>)"
| step_others: "hub_subs h (ss_channel s) = hub_subs (ss_hub s) (ss_channel s) \<Longrightarrow>
    hub_left h (ss_channel s) = hub_left (ss_hub s) (ss_channel s) \<Longrightarrow> hub_bounded h \<Longrightarrow> session_step c s (s\<lparr>ss_hub := h\<rparr>)"

inductive session_reachable :: "('s, 'p) Conn \<Rightarrow> Incoming list \<Rightarrow> 's SessionState \<Rightarrow> bool" for c inbox where
  session_init: "hub_bounded hub \<Longrightarrow> session_reachable c inbox (serve_start inbox hub b)"
| session_next: "session_reachable c inbox s \<Longrightarrow> session_step c s t \<Longrightarrow> session_reachable c inbox t"

section \<open>The invariant\<close>

text \<open>The request in a piece of input, if it is one.\<close>

definition request_in :: "('s, 'p) Conn \<Rightarrow> Incoming \<Rightarrow> Envelope list" where
  "request_in c i =
     (case ReadEnvelope (cn_decode c) [i] of
        (Inr env, _) \<Rightarrow> if ev_Type env = MessageRequest then [env] else []
      | (Inl _, _) \<Rightarrow> [])"

definition is_response :: "Envelope \<Rightarrow> bool" where
  "is_response env \<longleftrightarrow> ev_Type env = MessageResponse"

text \<open>An answer is what \<^verbatim>\<open>Dispatch\<close> gives in some state of the service.\<close>

definition answers :: "('s, 'p) Conn \<Rightarrow> Envelope \<Rightarrow> Envelope \<Rightarrow> bool" where
  "answers c req resp \<longleftrightarrow> (\<exists>b. resp = fst (run_state (Dispatch (cn_marshal c) (cn_router c) req) b))"

text \<open>The requests that still have no response on the wire.\<close>

definition open_requests :: "('s, 'p) Conn \<Rightarrow> Phase \<Rightarrow> Envelope list \<Rightarrow> bool" where
  "open_requests c ph rs \<longleftrightarrow>
     (case ph of
        Reading \<Rightarrow> rs = []
      | Checking \<Rightarrow> rs = []
      | Dispatching env \<Rightarrow> rs = [env]
      | Writing resp \<Rightarrow> (\<exists>env. rs = [env] \<and> answers c env resp)
      | Returned e \<Rightarrow> length rs \<le> 1)"

definition session_inv :: "('s, 'p) Conn \<Rightarrow> Incoming list \<Rightarrow> 's SessionState \<Rightarrow> bool" where
  "session_inv c inbox s \<longleftrightarrow>
     (\<exists>consumed. inbox = consumed @ ss_inbox s \<and> ss_requests s = concat (map (request_in c) consumed)) \<and>
     (\<exists>answered pending. ss_requests s = answered @ pending \<and> open_requests c (ss_phase s) pending \<and>
        list_all2 (answers c) answered (filter is_response (ss_wire s))) \<and>
     list_all (\<lambda>env. is_response env \<or> well_formed_event env) (ss_wire s) \<and>
     channel_all well_formed_event (ss_channel s) (ss_hub s) \<and>
     hub_bounded (ss_hub s)"

lemma session_invE:
  assumes "session_inv c inbox s"
  obtains consumed answered pending where "inbox = consumed @ ss_inbox s" "ss_requests s = concat (map (request_in c) consumed)"
    "ss_requests s = answered @ pending" "open_requests c (ss_phase s) pending"
    "list_all2 (answers c) answered (filter is_response (ss_wire s))"
  using assms by (auto simp: session_inv_def)

lemma answers_response: "answers c req resp \<Longrightarrow> well_formed_response (ev_ID req) resp"
  by (auto simp: answers_def dispatch_well_formed)

lemma answers_is_response: "answers c req resp \<Longrightarrow> is_response resp"
  using answers_response [of c req resp] by (simp add: well_formed_response_def is_response_def)

lemma event_no_response: "well_formed_event env \<Longrightarrow> \<not> is_response env"
  by (simp add: well_formed_event_def is_response_def)

lemma read_envelope_cases:
  "(case ReadEnvelope d inbox of (Inl e, rest) \<Rightarrow> (inbox = [] \<and> rest = []) \<or> (\<exists>i. inbox = i # rest \<and> ReadEnvelope d [i] = (Inl e, []))
    | (Inr env, rest) \<Rightarrow> \<exists>i. inbox = i # rest \<and> ReadEnvelope d [i] = (Inr env, []))"
  by (auto simp: ReadEnvelope_def split: list.split Incoming.split sum.split)

lemma write_envelope_cases:
  obtains e where "WriteEnvelope enc f env wire = (wire, Some e)" | "WriteEnvelope enc f env wire = (wire @ [env], None)"
  using that by (cases "enc env"; cases f) (auto simp: WriteEnvelope_def)

lemma inv_start: "hub_bounded hub \<Longrightarrow> session_inv c inbox (serve_start inbox hub b)"
  using hub_bounded_ops(2) [of hub] channel_all_ops(1) [of well_formed_event hub]
  by (simp add: session_inv_def serve_start_def Subscribe_def open_requests_def)

lemma inv_return:
  assumes "session_inv c inbox s"
  shows "session_inv c inbox (serve_return e s)"
proof -
  obtain consumed answered pending where x: "inbox = consumed @ ss_inbox s" "ss_requests s = concat (map (request_in c) consumed)"
    "ss_requests s = answered @ pending" "open_requests c (ss_phase s) pending"
    "list_all2 (answers c) answered (filter is_response (ss_wire s))"
    using assms by (elim session_invE)
  have "length pending \<le> 1"
    using x(4) by (auto simp: open_requests_def split: Phase.splits)
  then have "\<exists>answered pending. ss_requests s = answered @ pending \<and> open_requests c (Returned e) pending \<and>
      list_all2 (answers c) answered (filter is_response (ss_wire s))"
    using x(3,5) by (auto simp: open_requests_def)
  moreover have "hub_bounded (Unsubscribe (ss_channel s) (ss_hub s))"
    using assms by (simp add: session_inv_def hub_bounded_ops(3))
  ultimately show ?thesis
    using assms by (simp add: session_inv_def serve_return_def channel_all_ops(2))
qed

lemma inv_read:
  assumes inv: "session_inv c inbox s" and "ss_phase s = Reading"
  shows "session_inv c inbox (serve_read c s)"
proof -
  from inv assms(2) obtain consumed where c: "inbox = consumed @ ss_inbox s" "ss_requests s = concat (map (request_in c) consumed)"
    and a: "list_all2 (answers c) (ss_requests s) (filter is_response (ss_wire s))"
    by (auto simp: session_inv_def open_requests_def)
  show ?thesis
  proof (cases "ReadEnvelope (cn_decode c) (ss_inbox s)")
    case (Pair r rest)
    show ?thesis
    proof (cases r)
      case (Inl e)
      have "session_inv c inbox (s\<lparr>ss_inbox := rest\<rparr>)"
      proof (cases "ss_inbox s")
        case Nil
        with Pair have "s\<lparr>ss_inbox := rest\<rparr> = s" by (cases s) (simp add: ReadEnvelope_def)
        with inv show ?thesis by simp
      next
        case (Cons i rest')
        with Pair Inl read_envelope_cases [where d = "cn_decode c" and inbox = "ss_inbox s"] have "rest' = rest" "request_in c i = []"
          by (auto simp: request_in_def)
        with Cons c have "inbox = (consumed @ [i]) @ rest \<and> ss_requests s = concat (map (request_in c) (consumed @ [i]))" by simp
        then have "\<exists>consumed. inbox = consumed @ rest \<and> ss_requests s = concat (map (request_in c) consumed)" by blast
        with inv show ?thesis by (simp add: session_inv_def)
      qed
      then show ?thesis using Pair Inl by (simp add: serve_read_def inv_return)
    next
      case (Inr env)
      with Pair read_envelope_cases [where d = "cn_decode c" and inbox = "ss_inbox s"] obtain i where i: "ss_inbox s = i # rest"
        "ReadEnvelope (cn_decode c) [i] = (Inr env, [])" by auto
      have req: "request_in c i = (if ev_Type env = MessageRequest then [env] else [])"
        by (simp add: request_in_def i)
      have "inbox = (consumed @ [i]) @ rest" using c i by simp
      then have "\<exists>consumed. inbox = consumed @ rest \<and>
          (if ev_Type env = MessageRequest then ss_requests s @ [env] else ss_requests s) = concat (map (request_in c) consumed)"
        using c(2) req by (intro exI [of _ "consumed @ [i]"]) simp
      then show ?thesis using inv a Pair Inr assms(2)
        by (auto simp: session_inv_def serve_read_def open_requests_def)
    qed
  qed
qed

lemma inv_dispatch:
  assumes "session_inv c inbox s" and "ss_phase s = Dispatching env"
  shows "session_inv c inbox (serve_dispatch c env s)"
  using assms by (auto simp: session_inv_def serve_dispatch_def open_requests_def answers_def case_prod_unfold)

lemma inv_write:
  assumes inv: "session_inv c inbox s" and ph: "ss_phase s = Writing resp"
  shows "session_inv c inbox (serve_write c fault resp s)"
proof (cases rule: write_envelope_cases [of "cn_encode c" fault resp "ss_wire s"])
  case (1 e)
  have "session_inv c inbox (s\<lparr>ss_wire := ss_wire s\<rparr>)" using inv by simp
  then show ?thesis using 1 inv_return [OF inv] by (simp add: serve_write_def)
next
  case 2
  from inv ph obtain answered env where a: "ss_requests s = answered @ [env]" "answers c env resp"
    "list_all2 (answers c) answered (filter is_response (ss_wire s))"
    by (auto simp: session_inv_def open_requests_def)
  then have "list_all2 (answers c) (ss_requests s) (filter is_response (ss_wire s @ [resp]))"
    by (simp add: answers_is_response list_all2_appendI)
  with inv 2 a(2) show ?thesis
    by (simp add: session_inv_def serve_write_def open_requests_def answers_is_response)
qed

lemma inv_check:
  assumes inv: "session_inv c inbox s" and "ss_phase s = Checking"
  shows "session_inv c inbox (serve_check s)"
proof (cases "ss_pushErr s")
  case None
  then show ?thesis using assms by (simp add: serve_check_def session_inv_def open_requests_def)
next
  case (Some e)
  have "session_inv c inbox (s\<lparr>ss_pushErr := None\<rparr>)" using inv by (simp add: session_inv_def)
  then show ?thesis by (simp add: serve_check_def Some inv_return)
qed

lemma inv_push:
  assumes inv: "session_inv c inbox s"
  shows "session_inv c inbox (push_event c fault s)"
proof -
  obtain r hub where rcv: "Receive (ss_channel s) (ss_hub s) = (r, hub)" by fastforce
  have old: "channel_all well_formed_event (ss_channel s) (ss_hub s)" "hub_bounded (ss_hub s)"
    using inv by (simp_all add: session_inv_def)
  have hub: "channel_all well_formed_event (ss_channel s) hub" "hub_bounded hub"
    using receive_all(1) [OF old(1)] receive_bounded [OF old(2), of "ss_channel s"] rcv by simp_all
  show ?thesis
  proof (cases r)
    case (Some env)
    have ev: "well_formed_event env" using receive_all(2) [OF old(1)] rcv Some by simp
    show ?thesis
      by (cases rule: write_envelope_cases [of "cn_encode c" fault env "ss_wire s"])
        (use inv ev hub in \<open>simp_all add: push_event_def rcv Some session_inv_def event_no_response\<close>)
  qed (use inv in \<open>simp add: push_event_def rcv\<close>)
qed

lemma inv_publish:
  assumes "session_inv c inbox s"
  shows "session_inv c inbox (s\<lparr>ss_hub := Publish (NewEvent m n p) (ss_hub s)\<rparr>)"
  using assms hub_bounded_ops(4) [of "ss_hub s"]
  by (auto simp: session_inv_def channel_all_ops(3))

lemma inv_own: "own_step c s t \<Longrightarrow> session_inv c inbox s \<Longrightarrow> session_inv c inbox t"
  by (cases rule: own_step.cases, assumption)
    (simp_all add: inv_read inv_dispatch inv_write inv_check inv_push, simp_all add: session_inv_def)

lemma session_invariant: "session_reachable c inbox s \<Longrightarrow> session_inv c inbox s"
proof (induction rule: session_reachable.induct)
  case (session_next s t)
  from session_next(2,3) show ?case
    by (cases rule: session_step.cases) (simp_all add: inv_own inv_publish, simp_all add: session_inv_def channel_all_def)
qed (rule inv_start)

text \<open>C10: Every request is answered once, in order, with a well-typed response. In every state that a session
  reaches, with writes that may fail at any moment and events pushed in between, each message
  on the wire is a response or a well-formed event; the responses belong, one each and in
  order, to the requests of the input read so far, carry their ids and are either a success
  with a payload or a failure with an error; only the newest request may still be without one,
  and none is when the loop reads on; and the event buffer never holds more than 64.\<close>

theorem session_answers_each_request:
  assumes "session_reachable c inbox s"
  shows "\<exists>answered pending consumed. inbox = consumed @ ss_inbox s \<and> answered @ pending = concat (map (request_in c) consumed) \<and>
    list_all2 (\<lambda>req resp. answers c req resp \<and> well_formed_response (ev_ID req) resp) answered (filter is_response (ss_wire s)) \<and>
    length pending \<le> 1 \<and> (if ss_phase s = Reading then pending = [] else True) \<and>
    list_all (\<lambda>env. is_response env \<or> well_formed_event env) (ss_wire s) \<and>
    (case hub_subs (ss_hub s) (ss_channel s) of None \<Rightarrow> True | Some buf \<Rightarrow> length buf \<le> 64)"
proof -
  note inv = session_invariant [OF assms]
  from inv obtain consumed answered pending where x: "inbox = consumed @ ss_inbox s"
    "answered @ pending = concat (map (request_in c) consumed)" "open_requests c (ss_phase s) pending"
    "list_all2 (answers c) answered (filter is_response (ss_wire s))"
    unfolding session_inv_def by metis
  have "length pending \<le> 1" "if ss_phase s = Reading then pending = [] else True"
    using x(3) by (auto simp: open_requests_def split: Phase.splits)
  moreover have "list_all2 (\<lambda>req resp. answers c req resp \<and> well_formed_response (ev_ID req) resp) answered (filter is_response (ss_wire s))"
    using x(4) by (rule list_all2_mono) (simp add: answers_response)
  moreover have "list_all (\<lambda>env. is_response env \<or> well_formed_event env) (ss_wire s)"
    using inv by (simp add: session_inv_def)
  moreover have "case hub_subs (ss_hub s) (ss_channel s) of None \<Rightarrow> True | Some buf \<Rightarrow> length buf \<le> 64"
    using inv by (auto simp: session_inv_def hub_bounded_def eventBufferSize_def split: option.split)
  ultimately show ?thesis using x(1,2) by blast
qed

text \<open>A session that was sent an unknown command and then another one.\<close>

definition echo_conn :: "(unit, unit) Conn" where
  "echo_conn = \<lparr>cn_decode = (\<lambda>l. Inr (NewRequest (\<lambda>_. []) l ''jobs.nothing'' ())), cn_encode = (\<lambda>_. Inr []),
     cn_marshal = (\<lambda>_. []), cn_router = NewRouter (\<lambda>_ _. ret ())\<rparr>"

definition echo_session :: "unit SessionState" where
  "echo_session =
     (let s = serve_read echo_conn (serve_start [Line ''1'', Line ''2''] NewEventHub ()) in
      let s = serve_dispatch echo_conn (NewRequest (\<lambda>_. []) ''1'' ''jobs.nothing'' ()) s in
      serve_check (serve_write echo_conn None (NewErrorResponse ''1'' ErrUnsupportedCommand (''unsupported command '' @ go_quote ''jobs.nothing'')) s))"

lemmas echo_defs = echo_conn_def serve_start_def Subscribe_def NewEventHub_def serve_read_def ReadEnvelope_def maxLineBytes_def
  NewRequest_def empty_envelope_def serve_dispatch_def Dispatch_def NewRouter_def serve_write_def WriteEnvelope_def serve_check_def
  NewErrorResponse_def

lemma session_witness:
  "\<exists>answered pending consumed. [Line ''1'', Line ''2''] = consumed @ ss_inbox echo_session \<and>
    answered @ pending = concat (map (request_in echo_conn) consumed) \<and>
    list_all2 (\<lambda>req resp. answers echo_conn req resp \<and> well_formed_response (ev_ID req) resp) answered (filter is_response (ss_wire echo_session)) \<and>
    length pending \<le> 1 \<and> (if ss_phase echo_session = Reading then pending = [] else True) \<and>
    list_all (\<lambda>env. is_response env \<or> well_formed_event env) (ss_wire echo_session) \<and>
    (case hub_subs (ss_hub echo_session) (ss_channel echo_session) of None \<Rightarrow> True | Some buf \<Rightarrow> length buf \<le> 64)"
proof (rule session_answers_each_request)
  let ?s0 = "serve_start [Line ''1'', Line ''2''] NewEventHub ()"
  let ?s1 = "serve_read echo_conn ?s0"
  let ?req = "NewRequest (\<lambda>_. []) ''1'' ''jobs.nothing'' ()"
  let ?resp = "NewErrorResponse ''1'' ErrUnsupportedCommand (''unsupported command '' @ go_quote ''jobs.nothing'')"
  let ?s2 = "serve_dispatch echo_conn ?req ?s1"
  let ?s3 = "serve_write echo_conn None ?resp ?s2"
  have "session_reachable echo_conn [Line ''1'', Line ''2''] ?s0"
    by (rule session_init) (rule hub_bounded_ops(1))
  then have "session_reachable echo_conn [Line ''1'', Line ''2''] ?s1"
    by (rule session_next) (rule step_own, rule own_read, simp add: echo_defs)
  then have "session_reachable echo_conn [Line ''1'', Line ''2''] ?s2"
    by (rule session_next) (rule step_own, rule own_dispatch, simp add: echo_defs)
  then have "session_reachable echo_conn [Line ''1'', Line ''2''] ?s3"
    by (rule session_next) (rule step_own, rule own_write, simp add: echo_defs ProtocolVersion_def)
  then have "session_reachable echo_conn [Line ''1'', Line ''2''] (serve_check ?s3)"
    by (rule session_next) (rule step_own, rule own_check, simp add: echo_defs)
  then show "session_reachable echo_conn [Line ''1'', Line ''2''] echo_session"
    by (simp add: echo_session_def Let_def)
qed

lemma session_witness_wire: "map ev_ID (ss_wire echo_session) = [''1'']" "ss_inbox echo_session = [Line ''2'']"
  by (simp_all add: echo_session_def Let_def echo_defs)

text \<open>A line that is no JSON ends the session, unlike a message of another type, which is skipped.\<close>

lemma malformed_line_ends_session:
  "ss_inbox s = Line l # rest \<Longrightarrow> length l < maxLineBytes \<Longrightarrow> cn_decode c l = Inl e \<Longrightarrow>
   ss_phase (serve_read c s) = Returned (Wrapped ''decode envelope'' e)"
  "ss_inbox s = Line l # rest \<Longrightarrow> length l < maxLineBytes \<Longrightarrow> cn_decode c l = Inr env \<Longrightarrow> ev_Type env \<noteq> MessageRequest \<Longrightarrow>
   serve_read c s = s\<lparr>ss_inbox := rest\<rparr>"
  by (simp_all add: serve_read_def ReadEnvelope_def serve_return_def)

end
