(* ===== verification/Secrets.thy ===== *)
theory Secrets
  imports Engine_State
begin

text \<open>
  \<^verbatim>\<open>internal/secrets\<close>: the redactor that keeps secret values out of logs and messages, the handler
  that puts it before the log, and the store of protected credentials. DPAPI (\<^verbatim>\<open>dpapi.go\<close>) and the
  random source are parameters.
\<close>

section \<open>The redactor\<close>

definition RedactedPlaceholder :: string where
  "RedactedPlaceholder = ''***''"

type_synonym Redactor = "string list"

definition NewRedactor :: Redactor where
  "NewRedactor = []"

definition RegisterSecret :: "string \<Rightarrow> Redactor \<Rightarrow> Redactor" where
  "RegisterSecret secret r = (if secret = [] then r else List.insert secret r)"

definition UnregisterSecret :: "string \<Rightarrow> Redactor \<Rightarrow> Redactor" where
  "UnregisterSecret secret r = (if secret = [] then r else removeAll secret r)"

text \<open>The loop over the map visits the secrets in any order; \<open>order\<close> is the one it takes.\<close>

definition Redact :: "string list \<Rightarrow> string \<Rightarrow> string" where
  "Redact order s = fold (\<lambda>secret s. replace_all s secret RedactedPlaceholder) order s"

definition redactor_wf :: "Redactor \<Rightarrow> bool" where
  "redactor_wf r \<longleftrightarrow> distinct r \<and> [] \<notin> set r"

lemma redactor_wf_simps [simp]:
  "redactor_wf NewRedactor" "redactor_wf r \<Longrightarrow> redactor_wf (RegisterSecret s r)" "redactor_wf r \<Longrightarrow> redactor_wf (UnregisterSecret s r)"
  by (auto simp: redactor_wf_def NewRedactor_def RegisterSecret_def UnregisterSecret_def distinct_removeAll)

lemma placeholder_not_in: "CHR ''*'' \<notin> set q \<Longrightarrow> q \<noteq> [] \<Longrightarrow> \<not> prefix q (RedactedPlaceholder @ t)"
  by (cases q) (auto simp: RedactedPlaceholder_def)

lemma sublist_placeholder:
  assumes "CHR ''*'' \<notin> set q" "q \<noteq> []" "sublist q (RedactedPlaceholder @ t)"
  shows "sublist q t"
proof -
  have no: "\<not> prefix q (CHR ''*'' # u)" for u using assms(1,2) by (cases q) auto
  from assms(3) no show ?thesis by (simp add: RedactedPlaceholder_def sublist_Cons_right)
qed

text \<open>What stands before the first star of the output stood there before.\<close>

lemma prefix_replace_all:
  assumes "prefix q (replace_all s old RedactedPlaceholder)" "CHR ''*'' \<notin> set q"
  shows "prefix q s"
  using assms
proof (induction s old RedactedPlaceholder arbitrary: q rule: replace_all.induct)
  case (1 s old)
  show ?case
  proof (cases "q = [] \<or> old = [] \<or> s = []")
    case True
    with "1.prems" show ?thesis by (auto simp: replace_all.simps [of s])
  next
    case False
    show ?thesis
    proof (cases "has_prefix s old")
      case True
      with False "1.prems" show ?thesis
        using placeholder_not_in [of q] by (simp add: replace_all.simps [of s])
    next
      case no: False
      obtain x q' where q: "q = x # q'" using False by (cases q) auto
      from "1.prems" False no q have "x = hd s" "prefix q' (replace_all (tl s) old RedactedPlaceholder)" "CHR ''*'' \<notin> set q'"
        by (simp_all add: replace_all.simps [of s])
      with "1.hyps"(2) False no q show ?thesis by (cases s) auto
    qed
  qed
qed

lemma sublist_replace_all:
  assumes "sublist q (replace_all s old RedactedPlaceholder)" "CHR ''*'' \<notin> set q" "q \<noteq> []"
  shows "sublist q s"
  using assms
proof (induction s old RedactedPlaceholder rule: replace_all.induct)
  case (1 s old)
  show ?case
  proof (cases "old = [] \<or> s = []")
    case True
    with "1.prems" show ?thesis by (auto simp: replace_all.simps [of s])
  next
    case False
    show ?thesis
    proof (cases "has_prefix s old")
      case True
      with False "1.prems" have "sublist q (replace_all (drop (length old) s) old RedactedPlaceholder)"
        by - (rule sublist_placeholder, simp_all add: replace_all.simps [of s])
      then have "sublist q (drop (length old) s)" using "1.hyps"(1) [OF False True] "1.prems"(2,3) by simp
      then show ?thesis by (rule sublist_order.order_trans [OF _ suffix_imp_sublist [OF suffix_drop]])
    next
      case no: False
      then have step: "replace_all s old RedactedPlaceholder = hd s # replace_all (tl s) old RedactedPlaceholder"
        using False by (simp add: replace_all.simps [of s])
      from "1.prems"(1) consider "prefix q (replace_all s old RedactedPlaceholder)"
        | "sublist q (replace_all (tl s) old RedactedPlaceholder)"
        unfolding step by (auto simp: sublist_Cons_right)
      then show ?thesis
      proof cases
        case 1
        with "1.prems"(2) show ?thesis by (blast intro: prefix_replace_all prefix_imp_sublist)
      next
        case 2
        then have "sublist q (tl s)" using "1.hyps"(2) [OF False no] "1.prems"(2,3) by simp
        with False show ?thesis by (cases s) (auto simp: sublist_Cons_right)
      qed
    qed
  qed
qed

lemma replaced_is_gone:
  assumes "CHR ''*'' \<notin> set q" "q \<noteq> []"
  shows "\<not> sublist q (replace_all s q RedactedPlaceholder)"
  using assms
proof (induction s q RedactedPlaceholder rule: replace_all.induct)
  case (1 s q)
  show ?case
  proof (cases "s = []")
    case True
    with "1.prems" show ?thesis by simp
  next
    case False
    show ?thesis
    proof (cases "has_prefix s q")
      case True
      with "1.hyps"(1) False "1.prems" have "\<not> sublist q (replace_all (drop (length q) s) q RedactedPlaceholder)" by blast
      with True False "1.prems" show ?thesis
        using sublist_placeholder by (auto simp: replace_all.simps [of s])
    next
      case no: False
      then have step: "replace_all s q RedactedPlaceholder = hd s # replace_all (tl s) q RedactedPlaceholder"
        using False "1.prems" by (simp add: replace_all.simps [of s])
      have "\<not> prefix q s" using no by (auto simp: has_prefix_iff prefix_def)
      then have "\<not> prefix q (replace_all s q RedactedPlaceholder)" using prefix_replace_all "1.prems"(1) by blast
      moreover have "\<not> sublist q (replace_all (tl s) q RedactedPlaceholder)" using "1.hyps"(2) False no "1.prems" by blast
      ultimately show ?thesis unfolding step by (simp add: sublist_Cons_right)
    qed
  qed
qed

lemma sublist_Redact:
  "sublist q (Redact order s) \<Longrightarrow> CHR ''*'' \<notin> set q \<Longrightarrow> q \<noteq> [] \<Longrightarrow> sublist q s"
  unfolding Redact_def by (induction order arbitrary: s) (auto dest: sublist_replace_all)

lemma redact_removes:
  "q \<in> set order \<Longrightarrow> CHR ''*'' \<notin> set q \<Longrightarrow> q \<noteq> [] \<Longrightarrow> \<not> sublist q (Redact order s)"
proof (induction order arbitrary: s)
  case (Cons p order)
  show ?case
  proof (cases "q = p")
    case True
    then show ?thesis
      using replaced_is_gone [OF Cons.prems(2,3), of s] sublist_Redact [of q order, OF _ Cons.prems(2,3)]
      by (auto simp: Redact_def)
  next
    case False
    with Cons show ?thesis by (auto simp: Redact_def)
  qed
qed simp

text \<open>C30: No registered secret survives redaction. In whatever order the loop takes the registered
  secrets, if none of them contains a star, no secret occurs anywhere in the result, whole; a
  later replacement never brings one back.\<close>

theorem redaction_is_complete:
  assumes "set order = set r" and "redactor_wf r" and "list_all (\<lambda>s. CHR ''*'' \<notin> set s) r"
  shows "list_all (\<lambda>s. \<not> sublist s (Redact order line)) r"
  using assms redact_removes unfolding list_all_iff redactor_wf_def by metis

lemma redaction_witness:
  "list_all (\<lambda>s. \<not> sublist s (Redact [''abcd'', ''pw''] ''login abcd with pw'')) [''pw'', ''abcd'']"
  by (rule redaction_is_complete) (auto simp: redactor_wf_def)

text \<open>A secret that contains another one may leave its rest behind, depending on the order.\<close>

lemma overlapping_secrets_leak:
  "Redact [''abc'', ''abcd''] ''key=abcd'' = ''key=***d''" "Redact [''abcd'', ''abc''] ''key=abcd'' = ''key=***''"
  by (simp_all add: Redact_def RedactedPlaceholder_def replace_all.simps has_prefix_def)

text \<open>The service builds its redactor with \<^verbatim>\<open>NewRedactor\<close> and registers nothing, so it changes nothing.\<close>

lemma empty_redactor_keeps: "set order = set NewRedactor \<Longrightarrow> Redact order s = s"
  by (simp add: NewRedactor_def Redact_def)

section \<open>The log handler\<close>

text \<open>A value of another kind (a number, a duration, an error passed as \<^verbatim>\<open>any\<close>) is the text it prints as.\<close>

datatype AttrValue = StringValue string | GroupValue "(string \<times> AttrValue) list" | OtherValue string

record LogRecord =
  lr_message :: string
  lr_attrs :: "(string \<times> AttrValue) list"

primrec redactAttr :: "string list \<Rightarrow> AttrValue \<Rightarrow> AttrValue" where
  "redactAttr order (StringValue s) = StringValue (Redact order s)"
| "redactAttr order (GroupValue as) = GroupValue (map (map_prod id (redactAttr order)) as)"
| "redactAttr order (OtherValue s) = OtherValue s"

definition redactAttrs :: "string list \<Rightarrow> (string \<times> AttrValue) list \<Rightarrow> (string \<times> AttrValue) list" where
  "redactAttrs order as = map (map_prod id (redactAttr order)) as"

text \<open>What reaches the wrapped handler, from \<^verbatim>\<open>Handle\<close> and from \<^verbatim>\<open>WithAttrs\<close>.\<close>

definition HandleRecord :: "string list \<Rightarrow> LogRecord \<Rightarrow> LogRecord" where
  "HandleRecord order rec = \<lparr>lr_message = Redact order (lr_message rec), lr_attrs = redactAttrs order (lr_attrs rec)\<rparr>"

text \<open>The string values of a record, at any depth.\<close>

primrec string_values :: "AttrValue \<Rightarrow> string list" where
  "string_values (StringValue s) = [s]"
| "string_values (GroupValue as) = concat (map snd (map (map_prod id string_values) as))"
| "string_values (OtherValue s) = []"

primrec other_values :: "AttrValue \<Rightarrow> string list" where
  "other_values (StringValue s) = []"
| "other_values (GroupValue as) = concat (map snd (map (map_prod id other_values) as))"
| "other_values (OtherValue s) = [s]"

lemma string_values_redacted: "string_values (redactAttr order v) = map (Redact order) (string_values v)"
  by (induction v) (auto simp: map_concat comp_def snds.simps intro!: arg_cong [where f = concat])

lemma other_values_kept: "other_values (redactAttr order v) = other_values v"
  by (induction v) (auto simp: comp_def snds.simps intro!: arg_cong [where f = concat])

section \<open>The credential store\<close>

text \<open>
  One file per reference; a file operation may fail on any path. \<^verbatim>\<open>os.WriteFile\<close> opens the file with
  \<^verbatim>\<open>O_TRUNC\<close>: when the open fails nothing has happened, when a later write or the close fails the
  file holds what is left of it.
\<close>

datatype WriteFault = OpenFailed err | WriteFailed err string

record SecretEnv =
  se_dir :: string
  se_rand :: Rand
  se_protect :: "string \<Rightarrow> err + string"
  se_unprotect :: "string \<Rightarrow> err + string"
  se_write_fault :: "string \<Rightarrow> WriteFault option"
  se_read_fault :: "string \<Rightarrow> err option"
  se_remove_fault :: "string \<Rightarrow> err option"

text \<open>
  The files by their folded paths: the file system of Windows does not tell names apart that differ
  only in the case of their letters. The paths of the store differ in their hexadecimal digits only,
  so folding the ASCII letters is enough.
\<close>

type_synonym Files = "string \<rightharpoonup> string"

definition lower_char :: "char \<Rightarrow> char" where
  "lower_char c = (let k = of_char c :: nat in if 65 \<le> k \<and> k \<le> 90 then char_of (k + 32) else c)"

definition lower_case :: "string \<Rightarrow> string" where
  "lower_case s = map lower_char s"

definition file_at :: "Files \<Rightarrow> string \<Rightarrow> string option" where
  "file_at files path = files (lower_case path)"

definition put_file :: "string \<Rightarrow> string option \<Rightarrow> Files \<Rightarrow> Files" where
  "put_file path content files = files(lower_case path := content)"

definition hex_value :: "char \<Rightarrow> nat option" where
  "hex_value c = (let k = of_char c :: nat in
     if 48 \<le> k \<and> k \<le> 57 then Some (k - 48)
     else if 97 \<le> k \<and> k \<le> 102 then Some (k - 87)
     else if 65 \<le> k \<and> k \<le> 70 then Some (k - 55)
     else None)"

text \<open>\<^verbatim>\<open>hex.DecodeString\<close>; an odd length or a character that is no hexadecimal digit is an error.\<close>

fun hex_decode :: "string \<Rightarrow> nat list option" where
  "hex_decode [] = Some []"
| "hex_decode [c] = None"
| "hex_decode (c # d # s) =
     (case (hex_value c, hex_value d) of
        (Some a, Some b) \<Rightarrow> map_option ((#) (16 * a + b)) (hex_decode s)
      | _ \<Rightarrow> None)"

definition referenceByteLen :: nat where
  "referenceByteLen = 16"

definition secret_path :: "string \<Rightarrow> string \<Rightarrow> err + string" where
  "secret_path dir reference =
     (case hex_decode reference of
        Some raw \<Rightarrow>
          if length raw = referenceByteLen then Inr (path_join dir reference)
          else Inl (ErrorText (''invalid credential reference '' @ go_quote reference))
      | None \<Rightarrow> Inl (ErrorText (''invalid credential reference '' @ go_quote reference)))"

definition writeProtected :: "SecretEnv \<Rightarrow> string \<Rightarrow> string \<Rightarrow> Files \<Rightarrow> Files \<times> err option" where
  "writeProtected env reference plaintext files =
     (case secret_path (se_dir env) reference of
        Inl e \<Rightarrow> (files, Some e)
      | Inr path \<Rightarrow>
          (case se_protect env plaintext of
             Inl e \<Rightarrow> (files, Some (Wrapped (''protect secret '' @ go_quote reference) e))
           | Inr protected \<Rightarrow>
               (case se_write_fault env path of
                  Some (OpenFailed e) \<Rightarrow> (files, Some (Wrapped (''write secret '' @ go_quote reference) e))
                | Some (WriteFailed e left) \<Rightarrow>
                    (put_file path (Some left) files, Some (Wrapped (''write secret '' @ go_quote reference) e))
                | None \<Rightarrow> (put_file path (Some protected) files, None))))"

text \<open>The n-th read of the random source names the new secret.\<close>

definition SaveSecret :: "SecretEnv \<Rightarrow> nat \<Rightarrow> string \<Rightarrow> Files \<Rightarrow> Files \<times> (err + string)" where
  "SaveSecret env n plaintext files =
     (case NewID (se_rand env) n of
        Inl e \<Rightarrow> (files, Inl e)
      | Inr reference \<Rightarrow>
          (case writeProtected env reference plaintext files of
             (files', Some e) \<Rightarrow> (files', Inl e)
           | (files', None) \<Rightarrow> (files', Inr reference)))"

definition ReplaceSecret :: "SecretEnv \<Rightarrow> string \<Rightarrow> string \<Rightarrow> Files \<Rightarrow> Files \<times> err option" where
  "ReplaceSecret env reference plaintext files = writeProtected env reference plaintext files"

definition LoadSecret :: "SecretEnv \<Rightarrow> string \<Rightarrow> Files \<Rightarrow> err + string" where
  "LoadSecret env reference files =
     (case secret_path (se_dir env) reference of
        Inl e \<Rightarrow> Inl e
      | Inr path \<Rightarrow>
          (case se_read_fault env path of
             Some e \<Rightarrow> Inl (Wrapped (''read secret '' @ go_quote reference) e)
           | None \<Rightarrow>
               (case file_at files path of
                  None \<Rightarrow> Inl (NewCodedError ErrSSHAuthFailed
                    ''credential not found on this machine; please re-enter the credential for this server'' (Some (NotExist path)))
                | Some protected \<Rightarrow>
                    (case se_unprotect env protected of
                       Inl e \<Rightarrow> Inl (NewCodedError ErrSSHAuthFailed
                         ''credential could not be decrypted on this machine; please re-enter the credential for this server'' (Some e))
                     | Inr plaintext \<Rightarrow> Inr plaintext))))"

definition DeleteSecret :: "SecretEnv \<Rightarrow> string \<Rightarrow> Files \<Rightarrow> Files \<times> err option" where
  "DeleteSecret env reference files =
     (case secret_path (se_dir env) reference of
        Inl e \<Rightarrow> (files, Some e)
      | Inr path \<Rightarrow>
          (case se_remove_fault env path of
             Some e \<Rightarrow> (files, Some (Wrapped (''delete secret '' @ go_quote reference) e))
           | None \<Rightarrow> (put_file path None files, None)))"

subsection \<open>References stay in the directory\<close>

definition is_hex :: "char \<Rightarrow> bool" where
  "is_hex c \<longleftrightarrow> hex_value c \<noteq> None"

lemma hex_is_no_separator: "is_hex c \<Longrightarrow> c \<notin> {CHR 0x5C, CHR ''/'', CHR ''.'', CHR '':''}"
  by (auto simp: is_hex_def hex_value_def)

lemma hex_decode_chars: "hex_decode s = Some raw \<Longrightarrow> length s = 2 * length raw \<and> list_all is_hex s"
proof (induction s arbitrary: raw rule: hex_decode.induct)
  case (3 c d s)
  then obtain a b rest where h: "hex_value c = Some a" "hex_value d = Some b" "hex_decode s = Some rest" "raw = (16 * a + b) # rest"
    by (auto split: option.splits)
  have "length s = 2 * length rest \<and> list_all is_hex s" by (rule "3.IH" [OF refl h(1,2,3)])
  moreover have "is_hex c" "is_hex d" using h by (simp_all add: is_hex_def)
  ultimately show ?case using h(4) by simp
qed auto

lemma secret_path_Inr:
  assumes "secret_path dir reference = Inr path"
  shows "path = path_join dir reference" "length reference = 32" "list_all is_hex reference"
proof -
  from assms obtain raw where "hex_decode reference = Some raw" "length raw = 16" "path = path_join dir reference"
    by (auto simp: secret_path_def referenceByteLen_def split: option.splits if_splits)
  with hex_decode_chars [of reference raw] show "path = path_join dir reference" "length reference = 32" "list_all is_hex reference" by simp_all
qed

lemma path_join_inject: "lower_case (path_join dir a) = lower_case (path_join dir b) \<longleftrightarrow> lower_case a = lower_case b"
  by (simp add: path_join_def lower_case_def)

lemma file_at_put [simp]:
  "file_at (put_file path content files) p = (if lower_case p = lower_case path then content else file_at files p)"
  by (simp add: file_at_def put_file_def)

lemma save_secret_Inr:
  assumes "SaveSecret env n plaintext files = (files', Inr reference)"
  obtains protected where "secret_path (se_dir env) reference = Inr (path_join (se_dir env) reference)"
    and "se_protect env plaintext = Inr protected" and "files' = put_file (path_join (se_dir env) reference) (Some protected) files"
proof -
  from assms have w: "writeProtected env reference plaintext files = (files', None)"
    by (auto simp: SaveSecret_def split: sum.splits option.splits prod.splits)
  then obtain path where path: "secret_path (se_dir env) reference = Inr path"
    by (auto simp: writeProtected_def split: sum.splits)
  note p = secret_path_Inr(1) [OF path]
  from w path obtain protected where "se_protect env plaintext = Inr protected" "files' = put_file path (Some protected) files"
    by (auto simp: writeProtected_def split: sum.splits option.splits WriteFault.splits)
  with path p show ?thesis by (intro that) simp_all
qed

lemma load_elsewhere:
  assumes "lower_case reference' \<noteq> lower_case reference"
  shows "LoadSecret env reference' (put_file (path_join (se_dir env) reference) v files) = LoadSecret env reference' files"
proof (cases "secret_path (se_dir env) reference'")
  case (Inr path)
  from secret_path_Inr(1) [OF Inr] assms have "lower_case path \<noteq> lower_case (path_join (se_dir env) reference)"
    by (simp add: path_join_inject)
  with Inr show ?thesis by (simp add: LoadSecret_def split: option.split)
qed (simp add: LoadSecret_def)

text \<open>C16: The credential store keeps secrets, one file each, inside its directory. When DPAPI decrypts what
  it encrypted, a saved secret loads as it was saved under a reference of 32 hexadecimal digits,
  so that its path has no separator beyond the directory; every other reference (two references
  that differ only in the case of their digits name the same file) loads what it loaded before;
  and after its deletion loading it fails with the coded error that asks for the credential to be
  entered again. Reads and removals of files are assumed to work.\<close>

theorem secret_roundtrip:
  assumes "\<And>x y. se_protect env x = Inr y \<Longrightarrow> se_unprotect env y = Inr x"
    and "se_read_fault env = (\<lambda>_. None)" and "se_remove_fault env = (\<lambda>_. None)"
    and "SaveSecret env n plaintext files = (files', Inr reference)"
  shows "LoadSecret env reference files' = Inr plaintext \<and> length reference = 32 \<and> list_all is_hex reference \<and>
    (lower_case reference' = lower_case reference \<or> LoadSecret env reference' files' = LoadSecret env reference' files) \<and>
    snd (DeleteSecret env reference files') = None \<and>
    (\<exists>e. LoadSecret env reference (fst (DeleteSecret env reference files')) = Inl e \<and> CodeOf e = Some ErrSSHAuthFailed)"
proof -
  obtain protected where path: "secret_path (se_dir env) reference = Inr (path_join (se_dir env) reference)"
    and "se_protect env plaintext = Inr protected" and files: "files' = put_file (path_join (se_dir env) reference) (Some protected) files"
    using save_secret_Inr [OF assms(4)] by blast
  with assms(1) have "se_unprotect env protected = Inr plaintext" by blast
  then have "LoadSecret env reference files' = Inr plaintext"
    by (simp add: LoadSecret_def path assms(2) files)
  moreover have "lower_case reference' = lower_case reference \<or> LoadSecret env reference' files' = LoadSecret env reference' files"
    using load_elsewhere files by blast
  moreover have "DeleteSecret env reference files' = (put_file (path_join (se_dir env) reference) None files', None)"
    by (simp add: DeleteSecret_def path assms(3))
  moreover have "\<exists>e. LoadSecret env reference (put_file (path_join (se_dir env) reference) None files') = Inl e \<and> CodeOf e = Some ErrSSHAuthFailed"
    by (simp add: LoadSecret_def path assms(2) CodeOf_def NewCodedError_def)
  ultimately show ?thesis using secret_path_Inr(2,3) [OF path] by simp
qed

definition plain_env :: SecretEnv where
  "plain_env = \<lparr>se_dir = ''D:'', se_rand = (\<lambda>_. Inr (replicate 16 0)), se_protect = (\<lambda>x. Inr (''dp'' @ x)),
     se_unprotect = (\<lambda>x. Inr (drop 2 x)), se_write_fault = (\<lambda>_. None), se_read_fault = (\<lambda>_. None), se_remove_fault = (\<lambda>_. None)\<rparr>"

lemma secret_roundtrip_witness:
  "LoadSecret plain_env (replicate 32 (CHR ''0'')) (fst (SaveSecret plain_env 0 ''hunter2'' Map.empty)) = Inr ''hunter2'' \<and>
   snd (SaveSecret plain_env 0 ''hunter2'' Map.empty) = Inr (replicate 32 (CHR ''0''))"
proof -
  have save: "snd (SaveSecret plain_env 0 ''hunter2'' Map.empty) = Inr (replicate 32 (CHR ''0''))"
    by code_simp
  then have "SaveSecret plain_env 0 ''hunter2'' Map.empty =
      (fst (SaveSecret plain_env 0 ''hunter2'' Map.empty), Inr (replicate 32 (CHR ''0'')))"
    by (metis prod.collapse)
  from secret_roundtrip [OF _ _ _ this, where reference' = "[]"] save show ?thesis
    by (auto simp: plain_env_def)
qed

end
