(* ===== verification/Remote.thy ===== *)
theory Remote
  imports Checks
begin

text \<open>
  \<^verbatim>\<open>internal/remote\<close>: the bounded output of a command, the verification of host keys, dialing with
  retries, the connection test, running a command and the download of a file. What TCP, the SSH and
  SFTP packages and the clock answer are parameters, one answer per attempt; what the code does
  with them is a trace of events next to the result.
\<close>

section \<open>Bounded output\<close>

record cappedWriter =
  cw_limit :: int
  cw_buf :: string
  cw_truncated :: bool

definition newCappedWriter :: "int \<Rightarrow> cappedWriter" where
  "newCappedWriter limit = \<lparr>cw_limit = limit, cw_buf = [], cw_truncated = False\<rparr>"

text \<open>\<^verbatim>\<open>Write\<close> returns the number of bytes it was given, and no error.\<close>

definition capped_Write :: "string \<Rightarrow> cappedWriter \<Rightarrow> nat \<times> cappedWriter" where
  "capped_Write p w =
     (let remaining = cw_limit w - int (length (cw_buf w))
      in if remaining \<le> 0 then (length p, w\<lparr>cw_truncated := True\<rparr>)
         else if int (length p) > remaining
         then (length p, w\<lparr>cw_buf := cw_buf w @ take (nat remaining) p, cw_truncated := True\<rparr>)
         else (length p, w\<lparr>cw_buf := cw_buf w @ p\<rparr>))"

definition newStepCappedWriter :: cappedWriter where
  "newStepCappedWriter = newCappedWriter (int MaxStepOutputBytes)"

definition capped_writes :: "string list \<Rightarrow> cappedWriter \<Rightarrow> cappedWriter" where
  "capped_writes ps w = fold (\<lambda>p w. snd (capped_Write p w)) ps w"

text \<open>A write without bytes that comes when \<open>n\<close> bytes or more have been written before it.\<close>

definition empty_write_after :: "int \<Rightarrow> string list \<Rightarrow> bool" where
  "empty_write_after n ps \<longleftrightarrow> (\<exists>xs ys. ps = xs @ [] # ys \<and> n \<le> int (length (concat xs)))"

lemma empty_write_after_Nil [simp]: "\<not> empty_write_after n []"
  by (simp add: empty_write_after_def)

lemma empty_write_after_Cons [simp]:
  "empty_write_after n (p # ps) \<longleftrightarrow> p = [] \<and> n \<le> 0 \<or> empty_write_after (n - int (length p)) ps"
proof
  assume "empty_write_after n (p # ps)"
  then obtain xs ys where s: "p # ps = xs @ [] # ys" "n \<le> int (length (concat xs))" unfolding empty_write_after_def by blast
  show "p = [] \<and> n \<le> 0 \<or> empty_write_after (n - int (length p)) ps"
  proof (cases xs)
    case (Cons x xs')
    with s have "ps = xs' @ [] # ys" "n - int (length p) \<le> int (length (concat xs'))" by simp_all
    then show ?thesis unfolding empty_write_after_def by blast
  qed (use s in simp)
next
  assume r: "p = [] \<and> n \<le> 0 \<or> empty_write_after (n - int (length p)) ps"
  show "empty_write_after n (p # ps)"
  proof (cases "p = [] \<and> n \<le> 0")
    case True
    then have "p # ps = [] @ [] # ps" "n \<le> int (length (concat []))" by simp_all
    then show ?thesis unfolding empty_write_after_def by blast
  next
    case False
    with r obtain xs ys where "ps = xs @ [] # ys" "n - int (length p) \<le> int (length (concat xs))"
      unfolding empty_write_after_def by blast
    then have "p # ps = (p # xs) @ [] # ys" "n \<le> int (length (concat (p # xs)))" by simp_all
    then show ?thesis unfolding empty_write_after_def by blast
  qed
qed

lemma capped_writes_result:
  assumes "0 \<le> cw_limit w" "int (length (cw_buf w)) \<le> cw_limit w"
  shows "cw_buf (capped_writes ps w) = take (nat (cw_limit w)) (cw_buf w @ concat ps) \<and>
    (cw_truncated (capped_writes ps w) \<longleftrightarrow> cw_truncated w \<or> cw_limit w < int (length (cw_buf w @ concat ps)) \<or>
       empty_write_after (cw_limit w - int (length (cw_buf w))) ps)"
  using assms
proof (induction ps arbitrary: w)
  case Nil
  then show ?case by (auto simp: capped_writes_def)
next
  case (Cons p ps)
  let ?w = "snd (capped_Write p w)" and ?n = "cw_limit w - int (length (cw_buf w))"
  have limit: "cw_limit ?w = cw_limit w" by (simp add: capped_Write_def Let_def)
  have buf: "cw_buf ?w = take (nat (cw_limit w)) (cw_buf w @ p)"
    using Cons.prems(1,2) by (auto simp: capped_Write_def Let_def nat_diff_distrib)
  have trunc: "cw_truncated ?w \<longleftrightarrow> cw_truncated w \<or> cw_limit w < int (length (cw_buf w @ p)) \<or> p = [] \<and> ?n \<le> 0"
    using Cons.prems by (cases p) (auto simp: capped_Write_def Let_def)
  have "int (length (cw_buf ?w)) \<le> cw_limit ?w" unfolding limit buf using Cons.prems(1) by simp
  then have IH: "cw_buf (capped_writes ps ?w) = take (nat (cw_limit w)) (cw_buf ?w @ concat ps)"
    "cw_truncated (capped_writes ps ?w) \<longleftrightarrow> cw_truncated ?w \<or> cw_limit w < int (length (cw_buf ?w @ concat ps)) \<or>
       empty_write_after (cw_limit w - int (length (cw_buf ?w))) ps"
    using Cons.IH [of ?w] Cons.prems limit by auto
  have step: "capped_writes (p # ps) w = capped_writes ps ?w" by (simp add: capped_writes_def)
  have "take (nat (cw_limit w)) (cw_buf ?w @ concat ps) = take (nat (cw_limit w)) (cw_buf w @ concat (p # ps))"
    by (simp add: buf min_def)
  moreover have "cw_truncated (capped_writes ps ?w) \<longleftrightarrow> cw_truncated w \<or> cw_limit w < int (length (cw_buf w @ concat (p # ps))) \<or>
      empty_write_after ?n (p # ps)"
  proof (cases "cw_limit w < int (length (cw_buf w @ p))")
    case True
    then show ?thesis by (simp add: IH(2) trunc)
  next
    case False
    then have b: "cw_buf ?w = cw_buf w @ p" by (simp add: buf)
    have n: "cw_limit w - int (length (cw_buf w @ p)) = ?n - int (length p)" by simp
    show ?thesis unfolding IH(2) trunc b n empty_write_after_Cons using False by auto
  qed
  ultimately show ?case unfolding step IH(1) by blast
qed

text \<open>C21: The output of a command is bounded. Whatever chunks a command writes, however many and however
  long, the buffer never holds more than its limit and holds exactly the first bytes of what was
  written, up to that limit; the output is marked as truncated exactly when more was written, or
  when a write without any bytes came while the buffer was full, which is marked although nothing
  was lost.\<close>

theorem capped_output_bounded:
  assumes "0 \<le> limit"
  shows "cw_buf (capped_writes ps (newCappedWriter limit)) = take (nat limit) (concat ps) \<and>
    int (length (cw_buf (capped_writes ps (newCappedWriter limit)))) \<le> limit \<and>
    cw_truncated (capped_writes ps (newCappedWriter limit)) =
      (limit < int (length (concat ps)) \<or> (\<exists>xs ys. ps = xs @ [] # ys \<and> limit \<le> int (length (concat xs))))"
  using capped_writes_result [of "newCappedWriter limit" ps] assms
  by (simp add: newCappedWriter_def empty_write_after_def)

text \<open>Too much is written; and exactly as much as fits, followed by an empty write.\<close>

lemma capped_output_witness:
  "capped_writes [''abc'', ''de''] (newCappedWriter 4) = \<lparr>cw_limit = 4, cw_buf = ''abcd'', cw_truncated = True\<rparr> \<and>
   cw_buf (capped_writes [''abcd'', []] (newCappedWriter 4)) = ''abcd'' \<and>
   cw_truncated (capped_writes [''abcd'', []] (newCappedWriter 4)) \<and>
   \<not> cw_truncated (capped_writes [[], ''abcd''] (newCappedWriter 4))"
proof -
  have "cw_limit (capped_writes [''abc'', ''de''] (newCappedWriter 4)) = 4"
    by (simp add: capped_writes_def capped_Write_def newCappedWriter_def Let_def)
  then show ?thesis
    using capped_output_bounded [of 4 "[''abc'', ''de'']"] capped_output_bounded [of 4 "[''abcd'', []]"]
      capped_output_bounded [of 4 "[[], ''abcd'']"]
    by (auto simp: Cons_eq_append_conv)
qed

section \<open>Host keys\<close>

record HostKeyInfo =
  hk_algorithm :: string
  hk_fingerprint :: string

text \<open>The key that was presented, and the error.\<close>

definition verifyHostKey :: "string \<Rightarrow> HostKeyInfo \<Rightarrow> HostKeyInfo \<times> err option" where
  "verifyHostKey trustedFingerprint info =
     (info,
      if trustedFingerprint = [] then
        Some (NewCodedError ErrSSHHostKeyUnverified
          ''no trusted host key fingerprint is stored for this server; connect interactively to confirm it first'' None)
      else if hk_fingerprint info \<noteq> trustedFingerprint then
        Some (NewCodedError ErrSSHHostKeyChanged
          (''host key changed: expected '' @ trustedFingerprint @ '', got '' @ hk_fingerprint info @ '' ('' @ hk_algorithm info @ '')'') None)
      else None)"

lemma verifyHostKey_None: "snd (verifyHostKey fp info) = None \<longleftrightarrow> fp \<noteq> [] \<and> hk_fingerprint info = fp"
  by (simp add: verifyHostKey_def)

section \<open>Dialing\<close>

record ConnectionParams =
  cp_Host :: string
  cp_Port :: int
  cp_Username :: string
  cp_AuthType :: AuthenticationType
  cp_PrivateKeyPEM :: string
  cp_Passphrase :: string
  cp_Password :: string
  cp_TrustedFingerprint :: string
  cp_ConnectTimeout :: Duration
  cp_CommandTimeout :: Duration

datatype AuthMethod = PasswordAuth string | PublicKeyAuth string string

datatype DialEvent =
    DialTCP Duration
  | KeyPresented HostKeyInfo
  | AuthAttempt AuthMethod
  | Slept Duration
  | ClosedSSH
  | ExecCommand string

text \<open>
  The answers of the outside: parsing a private key, and per attempt the TCP dial, the key
  exchange up to the host key, the authentication; opening SFTP, and the waits of the clock.
  \<^verbatim>\<open>net.JoinHostPort\<close> puts an IPv6 host in brackets.
\<close>

record DialEnv =
  dn_parse_key :: "string \<Rightarrow> string \<Rightarrow> err option"
  dn_tcp :: "nat \<Rightarrow> err option"
  dn_kex :: "nat \<Rightarrow> err + HostKeyInfo"
  dn_auth :: "nat \<Rightarrow> err option"
  dn_sftp :: "err option"
  dn_sleep :: "nat \<Rightarrow> err option"

definition addr :: "ConnectionParams \<Rightarrow> string" where
  "addr p = (if CHR '':'' \<in> set (cp_Host p) then ''['' @ cp_Host p @ '']'' else cp_Host p) @ '':'' @ itoa (cp_Port p)"

definition buildAuthMethod :: "DialEnv \<Rightarrow> ConnectionParams \<Rightarrow> err + AuthMethod" where
  "buildAuthMethod env p =
     (if cp_AuthType p = AuthPassword then
        (if cp_Password p = [] then Inl (NewCodedError ErrSSHAuthFailed ''no password is configured for this server'' None)
         else Inr (PasswordAuth (cp_Password p)))
      else (case dn_parse_key env (cp_PrivateKeyPEM p) (cp_Passphrase p) of
              Some e \<Rightarrow> Inl (NewCodedError ErrSSHAuthFailed ''could not parse the configured private key'' (Some e))
            | None \<Rightarrow> Inr (PublicKeyAuth (cp_PrivateKeyPEM p) (cp_Passphrase p))))"

text \<open>
  \<^verbatim>\<open>ssh.NewClientConn\<close> as documented: the host key callback runs during the key exchange, and an
  error of it ends the handshake, wrapped, before any authentication.
\<close>

definition NewClientConn :: "DialEnv \<Rightarrow> nat \<Rightarrow> string \<Rightarrow> AuthMethod \<Rightarrow> DialEvent list \<times> err option" where
  "NewClientConn env n trusted auth =
     (case dn_kex env n of
        Inl e \<Rightarrow> ([], Some (Wrapped ''ssh: handshake failed'' e))
      | Inr info \<Rightarrow>
          (case verifyHostKey trusted info of
             (seen, Some e) \<Rightarrow> ([KeyPresented seen], Some (Wrapped ''ssh: handshake failed'' e))
           | (seen, None) \<Rightarrow> ([KeyPresented seen, AuthAttempt auth], map_option (Wrapped ''ssh: handshake failed'') (dn_auth env n))))"

definition host_key_error :: "err \<Rightarrow> bool" where
  "host_key_error e \<longleftrightarrow> CodeOf e = Some ErrSSHHostKeyUnverified \<or> CodeOf e = Some ErrSSHHostKeyChanged"

definition dialOnce :: "DialEnv \<Rightarrow> nat \<Rightarrow> ConnectionParams \<Rightarrow> AuthMethod \<Rightarrow> DialEvent list \<times> err option" where
  "dialOnce env n p auth =
     (case dn_tcp env n of
        Some e \<Rightarrow> ([DialTCP (cp_ConnectTimeout p)], Some (NewCodedError ErrSSHConnectionFailed (''could not reach '' @ addr p) (Some e)))
      | None \<Rightarrow>
          (case NewClientConn env n (cp_TrustedFingerprint p) auth of
             (ev, None) \<Rightarrow> (DialTCP (cp_ConnectTimeout p) # ev, None)
           | (ev, Some e) \<Rightarrow> (DialTCP (cp_ConnectTimeout p) # ev,
               Some (if host_key_error e then e else NewCodedError ErrSSHAuthFailed ''SSH authentication failed'' (Some e)))))"

definition isRetryable :: "err \<Rightarrow> bool" where
  "isRetryable e = (case CodeOf e of
     None \<Rightarrow> True
   | Some code \<Rightarrow> code \<notin> {ErrSSHAuthFailed, ErrSSHHostKeyChanged, ErrSSHHostKeyUnverified})"

definition retryDelays :: "Duration list" where
  "retryDelays = [5 * second, 15 * second, 30 * second]"

text \<open>The loop from its n-th attempt on, with the delays that are left; a client is its default timeout.\<close>

fun dial_from :: "DialEnv \<Rightarrow> ConnectionParams \<Rightarrow> AuthMethod \<Rightarrow> nat \<Rightarrow> Duration list \<Rightarrow> DialEvent list \<times> (err + Duration)" where
  "dial_from env p auth n delays =
     (case dialOnce env n p auth of
        (ev, None) \<Rightarrow>
          (case dn_sftp env of
             Some e \<Rightarrow> (ev @ [ClosedSSH], Inl (Wrapped (''open sftp session to '' @ addr p) e))
           | None \<Rightarrow> (ev, Inr (cp_CommandTimeout p)))
      | (ev, Some e) \<Rightarrow>
          if \<not> isRetryable e then (ev, Inl e)
          else (case delays of
                  [] \<Rightarrow> (ev, Inl (Wrapped (''connect to '' @ addr p @ '' after '' @ itoa (int (length retryDelays) + 1) @ '' attempts'') e))
                | d # ds \<Rightarrow>
                    (case dn_sleep env n of
                       Some e' \<Rightarrow> (ev @ [Slept d], Inl e')
                     | None \<Rightarrow> (case dial_from env p auth (Suc n) ds of (ev', r) \<Rightarrow> (ev @ Slept d # ev', r)))))"

declare dial_from.simps [simp del]

definition Dial :: "DialEnv \<Rightarrow> ConnectionParams \<Rightarrow> DialEvent list \<times> (err + Duration)" where
  "Dial env p =
     (case buildAuthMethod env p of
        Inl e \<Rightarrow> ([], Inl e)
      | Inr auth \<Rightarrow>
          if cp_TrustedFingerprint p = []
          then ([], Inl (NewCodedError ErrSSHHostKeyUnverified ''no trusted host key fingerprint is stored for this server'' None))
          else dial_from env p auth 0 retryDelays)"

text \<open>\<^verbatim>\<open>NewConnector\<close>: the parameters of a server.\<close>

definition connector_params :: "Server \<Rightarrow> string \<Rightarrow> string \<Rightarrow> string \<Rightarrow> ConnectionParams" where
  "connector_params s privateKeyPEM passphrase password = \<lparr>
     cp_Host = Server_Host s, cp_Port = Server_Port s, cp_Username = Server_Username s, cp_AuthType = Server_AuthType s,
     cp_PrivateKeyPEM = privateKeyPEM, cp_Passphrase = passphrase, cp_Password = password,
     cp_TrustedFingerprint = Server_HostKeyFingerprint s,
     cp_ConnectTimeout = wrap64 (Server_ConnectionTimeoutSeconds s * second),
     cp_CommandTimeout = wrap64 (Server_CommandTimeoutSeconds s * second)\<rparr>"

section \<open>Credentials only for a trusted host\<close>

text \<open>Every authentication directly follows the presentation of the trusted key.\<close>

primrec guarded_auth :: "string \<Rightarrow> DialEvent option \<Rightarrow> DialEvent list \<Rightarrow> bool" where
  "guarded_auth fp before [] \<longleftrightarrow> True"
| "guarded_auth fp before (e # es) \<longleftrightarrow>
     (case e of AuthAttempt _ \<Rightarrow> (case before of Some (KeyPresented k) \<Rightarrow> hk_fingerprint k = fp | _ \<Rightarrow> False) | _ \<Rightarrow> True) \<and>
     guarded_auth fp (Some e) es"

lemma guarded_auth_append:
  "guarded_auth fp b xs \<Longrightarrow> (\<And>b. guarded_auth fp b ys) \<Longrightarrow> guarded_auth fp b (xs @ ys)"
  by (induction xs arbitrary: b) auto

lemma guarded_dialOnce: "guarded_auth (cp_TrustedFingerprint p) b (fst (dialOnce env n p auth))"
  by (auto simp: dialOnce_def NewClientConn_def verifyHostKey_def split: option.split sum.split prod.split)

lemma guarded_dial_from: "guarded_auth (cp_TrustedFingerprint p) b (fst (dial_from env p auth n delays))"
proof (induction delays arbitrary: n b)
  case Nil
  show ?case
    by (subst dial_from.simps)
      (use guarded_dialOnce [of p b env n auth] in \<open>auto simp: guarded_auth_append split: option.split prod.split\<close>)
next
  case (Cons d ds)
  show ?case
    by (subst dial_from.simps)
      (use guarded_dialOnce [of p b env n auth] Cons [of _ "Suc n"] in
        \<open>auto intro!: guarded_auth_append simp: case_prod_unfold split: option.split prod.split\<close>)
qed

text \<open>C3: Credentials are sent only to the host that is trusted. In every run of Dial, whatever the network
  and the servers answer on each attempt, a password or key is offered only directly after the
  host presented a key with exactly the stored fingerprint; with no stored fingerprint, nothing is
  sent at all, not even a TCP connection is opened.\<close>

theorem auth_only_after_trusted_key:
  "guarded_auth (cp_TrustedFingerprint p) None (fst (Dial env p)) \<and>
   (if cp_TrustedFingerprint p = [] then fst (Dial env p) = [] else True)"
  by (simp add: Dial_def guarded_dial_from split: sum.split)

section \<open>Retries\<close>

definition is_dial :: "DialEvent \<Rightarrow> bool" where
  "is_dial e = (case e of DialTCP _ \<Rightarrow> True | _ \<Rightarrow> False)"

fun slept :: "DialEvent list \<Rightarrow> Duration list" where
  "slept [] = []"
| "slept (Slept d # es) = d # slept es"
| "slept (e # es) = slept es"

lemma slept_append [simp]: "slept (xs @ ys) = slept xs @ slept ys"
  by (induction xs rule: slept.induct) simp_all

lemma dialOnce_counts: "slept (fst (dialOnce env n p auth)) = []" "length (filter is_dial (fst (dialOnce env n p auth))) = 1"
  by (auto simp: dialOnce_def NewClientConn_def is_dial_def split: option.split sum.split prod.split)

lemma dial_from_counts:
  "\<exists>k \<le> length delays. slept (fst (dial_from env p auth n delays)) = take k delays \<and>
     length (filter is_dial (fst (dial_from env p auth n delays))) \<le> Suc k"
proof (induction delays arbitrary: n)
  case Nil
  show ?case
    by (subst (1 2) dial_from.simps)
      (use dialOnce_counts [of env n p auth] in \<open>auto simp: is_dial_def split: option.split prod.split\<close>)
next
  case (Cons d ds)
  obtain ev r where once: "dialOnce env n p auth = (ev, r)" by fastforce
  have c: "slept ev = []" "length (filter is_dial ev) = 1"
    using dialOnce_counts [of env n p auth] by (simp_all add: once)
  obtain k where k: "k \<le> length ds" "slept (fst (dial_from env p auth (Suc n) ds)) = take k ds"
    "length (filter is_dial (fst (dial_from env p auth (Suc n) ds))) \<le> Suc k"
    using Cons by blast
  obtain ev' r' where rest: "dial_from env p auth (Suc n) ds = (ev', r')" by fastforce
  show ?case
  proof (cases "\<exists>e. r = Some e \<and> isRetryable e")
    case False
    then show ?thesis
      by (intro exI [of _ 0], subst (1 2) dial_from.simps) (auto simp: once c is_dial_def split: option.split)
  next
    case True
    then obtain e where e: "r = Some e" "isRetryable e" by blast
    show ?thesis
    proof (cases "dn_sleep env n")
      case None
      with e k show ?thesis
        by (intro exI [of _ "Suc k"], subst (1 2) dial_from.simps) (simp add: once c rest is_dial_def)
    next
      case (Some e')
      with e show ?thesis
        by (intro exI [of _ 1], subst (1 2) dial_from.simps) (simp add: once c is_dial_def)
    qed
  qed
qed

text \<open>Dialing is bounded. Dial waits for a prefix of 5, 15 and 30 seconds, 50 seconds in all at most,
  and opens at most one more TCP connection than it waited: at most four attempts, not the
  three that the comment on the delays promises; a server that is never reachable is dialed
  four times with all three waits in between.\<close>

theorem dial_attempts_bounded:
  "(\<exists>k \<le> 3. slept (fst (Dial env p)) = take k [5 * second, 15 * second, 30 * second] \<and>
     length (filter is_dial (fst (Dial env p))) \<le> Suc k) \<and>
   length (filter is_dial (fst (Dial (env\<lparr>dn_tcp := (\<lambda>_. Some EndOfFile), dn_sleep := (\<lambda>_. None)\<rparr>)
     (p\<lparr>cp_AuthType := AuthPassword, cp_Password := ''x'', cp_TrustedFingerprint := ''SHA256:y''\<rparr>)))) = 4"
proof
  show "\<exists>k \<le> 3. slept (fst (Dial env p)) = take k [5 * second, 15 * second, 30 * second] \<and>
     length (filter is_dial (fst (Dial env p))) \<le> Suc k"
    using dial_from_counts [of retryDelays env p _ 0]
    by (auto simp: Dial_def retryDelays_def numeral_3_eq_3 split: sum.split)
  show "length (filter is_dial (fst (Dial (env\<lparr>dn_tcp := (\<lambda>_. Some EndOfFile), dn_sleep := (\<lambda>_. None)\<rparr>)
     (p\<lparr>cp_AuthType := AuthPassword, cp_Password := ''x'', cp_TrustedFingerprint := ''SHA256:y''\<rparr>)))) = 4"
    by (simp add: Dial_def buildAuthMethod_def retryDelays_def dial_from.simps dialOnce_def isRetryable_def CodeOf_def
        NewCodedError_def is_dial_def)
qed

text \<open>A key exchange that breaks off is reported as a failed authentication and never tried again.\<close>

lemma broken_handshake_not_retried:
  assumes "dn_tcp env n = None" "dn_kex env n = Inl e" "CodeOf e = None"
  shows "fst (dial_from env p auth n delays) = [DialTCP (cp_ConnectTimeout p)] \<and>
    (\<exists>e'. snd (dial_from env p auth n delays) = Inl e' \<and> CodeOf e' = Some ErrSSHAuthFailed)"
  using assms
  by (subst (1 2) dial_from.simps)
    (simp add: dialOnce_def NewClientConn_def host_key_error_def CodeOf_def isRetryable_def NewCodedError_def)

section \<open>Testing a connection\<close>

datatype Stage = StageNone | StageTCP | StageHostKey | StageAuth | StageCommand

text \<open>The stages in the order in which a test goes through them.\<close>

primrec stage_rank :: "Stage \<Rightarrow> nat" where
  "stage_rank StageNone = 0"
| "stage_rank StageTCP = 1"
| "stage_rank StageHostKey = 2"
| "stage_rank StageAuth = 3"
| "stage_rank StageCommand = 4"

lemma stage_rank_inject: "stage_rank a = stage_rank b \<longleftrightarrow> a = b"
  by (cases a; cases b) simp_all

instantiation Stage :: linorder
begin

definition less_eq_Stage :: "Stage \<Rightarrow> Stage \<Rightarrow> bool" where
  "less_eq_Stage a b \<longleftrightarrow> stage_rank a \<le> stage_rank b"

definition less_Stage :: "Stage \<Rightarrow> Stage \<Rightarrow> bool" where
  "less_Stage a b \<longleftrightarrow> stage_rank a < stage_rank b"

instance
  by standard (auto simp: less_eq_Stage_def less_Stage_def stage_rank_inject)

end

record TestResult =
  tr_Success :: bool
  tr_FailedStage :: Stage
  tr_Err :: "err option"
  tr_PresentedHostKey :: "HostKeyInfo option"
  tr_RemoteOSInfo :: string
  tr_SSHServerVersion :: string

record TestEnv = DialEnv +
  te_version :: string
  te_session :: "err option"
  te_uname :: "err + string"

definition no_key :: HostKeyInfo where
  "no_key = \<lparr>hk_algorithm = [], hk_fingerprint = []\<rparr>"

definition failed_test :: "Stage \<Rightarrow> err \<Rightarrow> HostKeyInfo option \<Rightarrow> string \<Rightarrow> TestResult" where
  "failed_test stage e key version = \<lparr>tr_Success = False, tr_FailedStage = stage, tr_Err = Some e,
     tr_PresentedHostKey = key, tr_RemoteOSInfo = [], tr_SSHServerVersion = version\<rparr>"

text \<open>The key the callback recorded; the zero value when the handshake did not get that far.\<close>

definition presented_key :: "DialEvent list \<Rightarrow> HostKeyInfo" where
  "presented_key ev = (case ev of KeyPresented k # _ \<Rightarrow> k | _ \<Rightarrow> no_key)"

definition TestConnection :: "TestEnv \<Rightarrow> ConnectionParams \<Rightarrow> DialEvent list \<times> TestResult" where
  "TestConnection env p =
     (case buildAuthMethod (DialEnv.truncate env) p of
        Inl e \<Rightarrow> ([], failed_test StageAuth e None [])
      | Inr auth \<Rightarrow>
          (case dn_tcp env 0 of
             Some e \<Rightarrow> ([DialTCP (cp_ConnectTimeout p)],
               failed_test StageTCP (NewCodedError ErrSSHConnectionFailed (''could not reach '' @ addr p) (Some e)) None [])
           | None \<Rightarrow>
               (case NewClientConn (DialEnv.truncate env) 0 (cp_TrustedFingerprint p) auth of
                  (ev, Some e) \<Rightarrow> (DialTCP (cp_ConnectTimeout p) # ev,
                    if host_key_error e then failed_test StageHostKey e (Some (presented_key ev)) []
                    else failed_test StageAuth (NewCodedError ErrSSHAuthFailed ''SSH authentication failed'' (Some e))
                           (Some (presented_key ev)) [])
                | (ev, None) \<Rightarrow>
                    (case te_session env of
                       Some e \<Rightarrow> (DialTCP (cp_ConnectTimeout p) # ev @ [ClosedSSH],
                         failed_test StageCommand (Wrapped ''open diagnostic session'' e) (Some (presented_key ev)) (te_version env))
                     | None \<Rightarrow>
                         (DialTCP (cp_ConnectTimeout p) # ev @ [ExecCommand ''uname -sr'', ClosedSSH],
                          case te_uname env of
                            Inl e \<Rightarrow> failed_test StageCommand (Wrapped ''run diagnostic command'' e) (Some (presented_key ev)) (te_version env)
                          | Inr out \<Rightarrow> \<lparr>tr_Success = True, tr_FailedStage = StageNone, tr_Err = None,
                              tr_PresentedHostKey = Some (presented_key ev), tr_RemoteOSInfo = trim_space out,
                              tr_SSHServerVersion = te_version env\<rparr>)))))"

lemma build_auth_trust: "buildAuthMethod env (p\<lparr>cp_TrustedFingerprint := fp\<rparr>) = buildAuthMethod env p"
  by (simp add: buildAuthMethod_def split: option.split)

text \<open>
  A test never stops earlier than it came: when it reports a stage, the steps of all later
  stages were not taken (the errors of the ssh package carry no code of the service). The converse fails, as a key exchange that breaks off counts as a failed
  authentication.
\<close>

lemma test_stage_covers_events:
  assumes "TestConnection env p = (ev, r)" and "\<not> tr_Success r"
    and "\<And>e. dn_auth (DialEnv.truncate env) 0 = Some e \<Longrightarrow> as_coded e = None"
  shows "KeyPresented k \<in> set ev \<Longrightarrow> StageHostKey \<le> tr_FailedStage r"
    and "AuthAttempt a \<in> set ev \<Longrightarrow> StageAuth \<le> tr_FailedStage r"
    and "ExecCommand c \<in> set ev \<Longrightarrow> tr_FailedStage r = StageCommand"
  using assms
  by (auto simp: TestConnection_def NewClientConn_def verifyHostKey_def failed_test_def less_eq_Stage_def host_key_error_def
      CodeOf_def NewCodedError_def split: sum.splits option.splits prod.splits if_splits)

text \<open>Trust on first use works in two steps. Testing a server without a trusted key, when it is
  reachable, stops at the host key, offers no credentials and returns the key the host presented;
  testing it again with that key's fingerprint passes the host key check and reaches the
  authentication, with the same key presented (the errors of the ssh package's authentication
  carry no code of the service).\<close>

theorem trust_on_first_use:
  assumes "buildAuthMethod (DialEnv.truncate env) p = Inr auth" and "dn_tcp env 0 = None" and "dn_kex env 0 = Inr key"
    and "hk_fingerprint key \<noteq> []" and "pred_option (\<lambda>e. CodeOf e = None) (dn_auth env 0)"
  shows "(let (events, result) = TestConnection env (p\<lparr>cp_TrustedFingerprint := []\<rparr>)
      in events = [DialTCP (cp_ConnectTimeout p), KeyPresented key] \<and> tr_FailedStage result = StageHostKey \<and>
         tr_PresentedHostKey result = Some key) \<and>
    (let (events, result) = TestConnection env (p\<lparr>cp_TrustedFingerprint := hk_fingerprint key\<rparr>)
      in take 3 events = [DialTCP (cp_ConnectTimeout p), KeyPresented key, AuthAttempt auth] \<and>
         tr_PresentedHostKey result = Some key \<and> tr_FailedStage result \<in> {StageNone, StageAuth, StageCommand})"
proof -
  have auth: "buildAuthMethod (DialEnv.truncate env) (p\<lparr>cp_TrustedFingerprint := fp\<rparr>) = Inr auth" for fp
    using build_auth_trust assms(1) by simp
  have kex: "dn_kex (DialEnv.truncate env) 0 = Inr key" and auth_result: "dn_auth (DialEnv.truncate env) 0 = dn_auth env 0"
    using assms(3) by (simp_all add: DialEnv.truncate_def)
  have first: "NewClientConn (DialEnv.truncate env) 0 [] auth = ([KeyPresented key],
      Some (Wrapped ''ssh: handshake failed'' (the (snd (verifyHostKey [] key)))))"
    by (simp add: NewClientConn_def kex verifyHostKey_def)
  have "host_key_error (Wrapped ''ssh: handshake failed'' (the (snd (verifyHostKey [] key))))"
    by (simp add: verifyHostKey_def host_key_error_def CodeOf_def NewCodedError_def)
  then have one: "TestConnection env (p\<lparr>cp_TrustedFingerprint := []\<rparr>) =
      ([DialTCP (cp_ConnectTimeout p), KeyPresented key],
       failed_test StageHostKey (Wrapped ''ssh: handshake failed'' (the (snd (verifyHostKey [] key)))) (Some key) [])"
    using assms(2) by (simp add: TestConnection_def auth first presented_key_def)
  have second: "NewClientConn (DialEnv.truncate env) 0 (hk_fingerprint key) auth = ([KeyPresented key, AuthAttempt auth],
      map_option (Wrapped ''ssh: handshake failed'') (dn_auth env 0))"
    using assms(4) by (simp add: NewClientConn_def kex verifyHostKey_def auth_result)
  have "pred_option (\<lambda>e. \<not> host_key_error e) (map_option (Wrapped ''ssh: handshake failed'') (dn_auth env 0))"
    using assms(5) by (cases "dn_auth env 0") (simp_all add: host_key_error_def CodeOf_def)
  then have two: "fst (TestConnection env (p\<lparr>cp_TrustedFingerprint := hk_fingerprint key\<rparr>)) =
      [DialTCP (cp_ConnectTimeout p), KeyPresented key, AuthAttempt auth] @
      drop 3 (fst (TestConnection env (p\<lparr>cp_TrustedFingerprint := hk_fingerprint key\<rparr>)))"
    and key2: "tr_PresentedHostKey (snd (TestConnection env (p\<lparr>cp_TrustedFingerprint := hk_fingerprint key\<rparr>))) = Some key"
    and stage2: "tr_FailedStage (snd (TestConnection env (p\<lparr>cp_TrustedFingerprint := hk_fingerprint key\<rparr>))) \<in> {StageNone, StageAuth, StageCommand}"
    using assms(2) by (auto simp: TestConnection_def auth second presented_key_def failed_test_def split: option.split sum.split)
  from two have three: "take 3 (fst (TestConnection env (p\<lparr>cp_TrustedFingerprint := hk_fingerprint key\<rparr>))) =
      [DialTCP (cp_ConnectTimeout p), KeyPresented key, AuthAttempt auth]"
    by (metis append_eq_conv_conj length_Cons list.size(3) numeral_3_eq_3)
  show ?thesis using one three key2 stage2 by (simp add: case_prod_unfold failed_test_def Let_def)
qed

definition test_env :: TestEnv where
  "test_env = \<lparr>dn_parse_key = (\<lambda>_ _. None), dn_tcp = (\<lambda>_. None),
     dn_kex = (\<lambda>_. Inr \<lparr>hk_algorithm = ''ssh-ed25519'', hk_fingerprint = ''SHA256:abc''\<rparr>), dn_auth = (\<lambda>_. None), dn_sftp = None,
     dn_sleep = (\<lambda>_. None), te_version = ''SSH-2.0-OpenSSH_9.6'', te_session = None, te_uname = Inr ''Linux 6.8''\<rparr>"

definition test_params :: ConnectionParams where
  "test_params = connector_params sample_server ''key'' [] []"

lemma trust_on_first_use_witness:
  "(let (events, result) = TestConnection test_env (test_params\<lparr>cp_TrustedFingerprint := []\<rparr>)
      in events = [DialTCP (cp_ConnectTimeout test_params), KeyPresented (projr (dn_kex test_env 0))] \<and>
         tr_FailedStage result = StageHostKey \<and> tr_PresentedHostKey result = Some (projr (dn_kex test_env 0))) \<and>
    (let (events, result) = TestConnection test_env (test_params\<lparr>cp_TrustedFingerprint := hk_fingerprint (projr (dn_kex test_env 0))\<rparr>)
      in take 3 events = [DialTCP (cp_ConnectTimeout test_params), KeyPresented (projr (dn_kex test_env 0)), AuthAttempt (PublicKeyAuth ''key'' [])] \<and>
         tr_PresentedHostKey result = Some (projr (dn_kex test_env 0)) \<and> tr_FailedStage result \<in> {StageNone, StageAuth, StageCommand})"
  by (rule trust_on_first_use)
    (simp_all add: test_env_def test_params_def connector_params_def sample_server_def buildAuthMethod_def DialEnv.truncate_def)

section \<open>Running a command\<close>

text \<open>What became of a session: it could not be opened or started, the deadline or a cancellation came
  first, or it ended, normally, with an exit status or with another error of the connection. The
  chunks are what the session wrote to the two streams before that.\<close>

datatype SessionEnd =
    SessionRefused err
  | StartRefused err
  | ContextDone err
  | Exited int
  | WaitFailed err

record RemoteRunEnv =
  rn_end :: SessionEnd
  rn_stdout :: "string list"
  rn_stderr :: "string list"
  rn_duration :: Duration
  rn_timeout_text :: "Duration \<Rightarrow> string"

record CommandResult =
  co_ExitCode :: int
  co_Stdout :: string
  co_Stderr :: string
  co_StdoutTruncated :: bool
  co_StderrTruncated :: bool
  co_Duration :: Duration

definition no_result :: CommandResult where
  "no_result = \<lparr>co_ExitCode = 0, co_Stdout = [], co_Stderr = [], co_StdoutTruncated = False, co_StderrTruncated = False, co_Duration = 0\<rparr>"

definition captured :: "RemoteRunEnv \<Rightarrow> int \<Rightarrow> CommandResult" where
  "captured env code =
     (let out = capped_writes (rn_stdout env) newStepCappedWriter; err = capped_writes (rn_stderr env) newStepCappedWriter
      in \<lparr>co_ExitCode = code, co_Stdout = cw_buf out, co_Stderr = cw_buf err, co_StdoutTruncated = cw_truncated out,
          co_StderrTruncated = cw_truncated err, co_Duration = rn_duration env\<rparr>)"

definition effective_timeout :: "Duration \<Rightarrow> Duration \<Rightarrow> Duration" where
  "effective_timeout standard timeout = (if timeout \<le> 0 then standard else timeout)"

definition Client_Run :: "RemoteRunEnv \<Rightarrow> Duration \<Rightarrow> Duration \<Rightarrow> CommandResult \<times> err option" where
  "Client_Run env standard timeout =
     (case rn_end env of
        SessionRefused e \<Rightarrow> (no_result, Some (Wrapped ''open ssh session'' e))
      | StartRefused e \<Rightarrow> (no_result, Some (Wrapped ''start command'' e))
      | ContextDone e \<Rightarrow> (captured env 0,
          Some (Wrapped (''command timed out after '' @ rn_timeout_text env (effective_timeout standard timeout)) e))
      | Exited code \<Rightarrow> (captured env code, None)
      | WaitFailed e \<Rightarrow> (captured env 0, Some (Wrapped ''run command'' e)))"

lemma capped_step_bound: "int (length (cw_buf w)) \<le> cw_limit w \<Longrightarrow> int (length (cw_buf (capped_writes ps w))) \<le> cw_limit w"
proof (induction ps arbitrary: w)
  case (Cons p ps)
  have "cw_limit (snd (capped_Write p w)) = cw_limit w"
    and "int (length (cw_buf (snd (capped_Write p w)))) \<le> cw_limit (snd (capped_Write p w))"
    using Cons.prems by (auto simp: capped_Write_def Let_def)
  with Cons.IH [of "snd (capped_Write p w)"] show ?case by (simp add: capped_writes_def)
qed (simp add: capped_writes_def)

text \<open>Every result fits into the row of a step.\<close>

lemma run_output_bounded:
  "length (co_Stdout (fst (Client_Run env standard timeout))) \<le> MaxStepOutputBytes \<and>
   length (co_Stderr (fst (Client_Run env standard timeout))) \<le> MaxStepOutputBytes"
proof -
  have "int (length (cw_buf (capped_writes ps newStepCappedWriter))) \<le> int MaxStepOutputBytes" for ps
    using capped_step_bound [of newStepCappedWriter ps] by (simp add: newStepCappedWriter_def newCappedWriter_def)
  then have "length (cw_buf (capped_writes ps newStepCappedWriter)) \<le> MaxStepOutputBytes" for ps
    by (simp only: of_nat_le_iff)
  then show ?thesis by (simp add: Client_Run_def captured_def no_result_def Let_def split: SessionEnd.split)
qed

section \<open>Downloading\<close>

text \<open>
  \<^verbatim>\<open>Download\<close> may read for ever, so it is a partial function: \<^term>\<open>None\<close> when it does not return.
  The n-th turn asks the context, then reads: some bytes and possibly an error, and writes them;
  the result is what was written and the error.
\<close>

record DownloadEnv =
  dl_open :: "err option"
  dl_ctx :: "nat \<Rightarrow> err option"
  dl_read :: "nat \<Rightarrow> string \<times> err option"
  dl_write :: "nat \<Rightarrow> err option"

definition downloadChunkSize :: nat where
  "downloadChunkSize = 1024 * 1024"

definition download_error :: "string \<Rightarrow> err \<Rightarrow> err option" where
  "download_error msg e = Some (NewCodedError ErrDownloadFailed msg (Some e))"

partial_function (option) download_loop :: "DownloadEnv \<Rightarrow> string \<Rightarrow> nat \<Rightarrow> string \<Rightarrow> (string \<times> err option) option" where
  "download_loop env remotePath n written =
     (case dl_ctx env n of
        Some e \<Rightarrow> Some (written, download_error ''download cancelled'' e)
      | None \<Rightarrow>
          (let bytes = fst (dl_read env n); readErr = snd (dl_read env n)
           in if bytes \<noteq> [] \<and> dl_write env n \<noteq> None
              then Some (written, download_error ''write downloaded data locally'' (the (dl_write env n)))
              else (case readErr of
                      Some e \<Rightarrow> Some (written @ bytes,
                        if e = EndOfFile then None else download_error (''read remote file '' @ go_quote remotePath) e)
                    | None \<Rightarrow> download_loop env remotePath (Suc n) (written @ bytes))))"

definition Download :: "DownloadEnv \<Rightarrow> string \<Rightarrow> (string \<times> err option) option" where
  "Download env remotePath =
     (case dl_open env of
        Some e \<Rightarrow> Some ([], download_error (''open remote file '' @ go_quote remotePath) e)
      | None \<Rightarrow> download_loop env remotePath 0 [])"

text \<open>Everything read in the turns from \<open>n\<close> up to and including \<open>m\<close>.\<close>

definition bytes_read :: "DownloadEnv \<Rightarrow> nat \<Rightarrow> nat \<Rightarrow> string" where
  "bytes_read env n m = concat (map (\<lambda>i. fst (dl_read env i)) [n..<Suc m])"

lemma bytes_read_step: "n \<le> m \<Longrightarrow> bytes_read env n m = fst (dl_read env n) @ (if n = m then [] else bytes_read env (Suc n) m)"
  by (auto simp: bytes_read_def upt_conv_Cons)

lemma download_loop_returns:
  assumes "n \<le> m" "dl_ctx env m \<noteq> None \<or> snd (dl_read env m) \<noteq> None"
  shows "\<exists>w r. download_loop env remotePath n written = Some (w, r)"
  using assms
proof (induction "m - n" arbitrary: n written)
  case 0
  then have "n = m" by simp
  with 0 show ?case by (subst download_loop.simps) (auto simp: Let_def split: option.split)
next
  case (Suc k)
  then have "\<exists>w r. download_loop env remotePath (Suc n) v = Some (w, r)" for v by (intro Suc.hyps(1)) auto
  then show ?case by (subst download_loop.simps) (auto simp: Let_def split: option.split)
qed

lemma download_loop_ends:
  assumes "download_loop env remotePath n written = Some r"
  shows "snd r = None \<longrightarrow> (\<exists>m \<ge> n. snd (dl_read env m) = Some EndOfFile \<and> fst r = written @ bytes_read env n m)"
  using assms
proof (induction env remotePath n written r rule: download_loop.raw_induct [rotated 1, consumes 1])
  case (1 self env remotePath n written r)
  show ?case
  proof
    assume "snd r = None"
    then consider "snd (dl_read env n) = Some EndOfFile" "fst r = written @ fst (dl_read env n)"
      | "self env remotePath (Suc n) (written @ fst (dl_read env n)) = Some r"
      using 1(2) by (auto simp: Let_def download_error_def split: option.splits if_splits)
    then show "\<exists>m \<ge> n. snd (dl_read env m) = Some EndOfFile \<and> fst r = written @ bytes_read env n m"
    proof cases
      case a: 1
      then show ?thesis by (intro exI [of _ n]) (simp add: bytes_read_step)
    next
      case b: 2
      from mp [OF 1(1) [OF b] \<open>snd r = None\<close>] obtain m where "m \<ge> Suc n" "snd (dl_read env m) = Some EndOfFile"
        "fst r = (written @ fst (dl_read env n)) @ bytes_read env (Suc n) m" by (elim exE conjE)
      then show ?thesis by (intro exI [of _ m]) (simp add: bytes_read_step [of n])
    qed
  qed
qed

text \<open>C29: A download ends, and it ends complete or with an error. If the source reports its end or an
  error on some read, or the context is cancelled before some turn, Download returns; and when
  it returns without an error, the source reported its end of file and every byte read up to
  and including that read was written, in order, with nothing added.\<close>

theorem download_terminates:
  assumes "\<exists>m. dl_ctx env m \<noteq> None \<or> snd (dl_read env m) \<noteq> None"
  shows "\<exists>w r. Download env remotePath = Some (w, r) \<and>
    (r = None \<longrightarrow> (\<exists>m. snd (dl_read env m) = Some EndOfFile \<and> w = bytes_read env 0 m))"
proof (cases "dl_open env")
  case None
  obtain w r where loop: "download_loop env remotePath 0 [] = Some (w, r)"
    using assms download_loop_returns [of 0] by blast
  with None download_loop_ends [OF loop] show ?thesis by (auto simp: Download_def)
qed (simp add: Download_def download_error_def)

text \<open>Three chunks, the last one together with the end of the file.\<close>

definition chunk_env :: DownloadEnv where
  "chunk_env = \<lparr>dl_open = None, dl_ctx = (\<lambda>_. None),
     dl_read = (\<lambda>n. if n = 0 then (''ab'', None) else if n = 1 then (''c'', None) else (''d'', Some EndOfFile)),
     dl_write = (\<lambda>_. None)\<rparr>"

lemma chunk_env_download: "Download chunk_env ''/tmp/a'' = Some (''abcd'', None)"
  by (simp add: Download_def chunk_env_def download_loop.simps)

lemma download_witness:
  "\<exists>w m. Download chunk_env ''/tmp/a'' = Some (w, None) \<and> w = ''abcd'' \<and>
    snd (dl_read chunk_env m) = Some EndOfFile \<and> w = bytes_read chunk_env 0 m"
proof -
  have "\<exists>m. dl_ctx chunk_env m \<noteq> None \<or> snd (dl_read chunk_env m) \<noteq> None"
    by (intro exI [of _ 2]) (simp add: chunk_env_def)
  from download_terminates [OF this, of "''/tmp/a''"] chunk_env_download show ?thesis by auto
qed

text \<open>\<^verbatim>\<open>Close\<close> closes both connections and reports both errors.\<close>

definition Client_Close :: "err option \<Rightarrow> err option \<Rightarrow> err option" where
  "Client_Close sftpErr sshErr = errors_join [sftpErr, sshErr]"

lemma client_close_silent: "Client_Close a b = None \<longleftrightarrow> a = None \<and> b = None"
  by (auto simp: Client_Close_def errors_join_None_iff)

end
