(* ===== verification/Engine.thy ===== *)
theory Engine
  imports Engine_State
begin

text \<open>
  The staged workflow of \<^verbatim>\<open>internal/backup\<close>: pre-flight, scripts, archive, download and
  verification, health check, remote clean-up, retention, the deferred drain of the cleanup
  registry, and the begin and the end of a run with the job lock. One definition per Go method,
  composed as the methods call each other.
\<close>

section \<open>Scripts\<close>

text \<open>\<^verbatim>\<open>executeScript\<close>: at most \<open>n\<close> attempts left; \<open>None\<close> is success.\<close>

primrec script_attempts :: "Env \<Rightarrow> Ctx \<Rightarrow> Script \<Rightarrow> nat \<Rightarrow> err option \<Rightarrow> (err option) Step" where
  "script_attempts env ctx script 0 lastErr = ret lastErr"
| "script_attempts env ctx script (Suc n) lastErr = do {
     r \<leftarrow> transport_run env ctx (Script_Command script) (seconds_duration (Script_TimeoutSeconds script));
     case r of
       Inl e \<Rightarrow> script_attempts env ctx script n (Some e)
     | Inr res \<Rightarrow>
         if rr_exit res = 0 then ret None
         else script_attempts env ctx script n
           (Some (ErrorText (''exit code '' @ itoa (rr_exit res) @ '': '' @ e_redact env (rr_stderr res))))
   }"

definition executeScript :: "Env \<Rightarrow> Ctx \<Rightarrow> Script \<Rightarrow> (err option) Step" where
  "executeScript env ctx script =
     script_attempts env ctx script (if Script_RetryOnFailure script then 2 else 1) None"

definition runScriptRecorded :: "Env \<Rightarrow> Ctx \<Rightarrow> Script \<Rightarrow> StepType \<Rightarrow> (err option) Step" where
  "runScriptRecorded env ctx script st = do {
     record_event (EvAttempt script);
     r \<leftarrow> steps_Start env ctx st;
     case r of
       Inl e \<Rightarrow> ret (Some e)
     | Inr step0 \<Rightarrow> do {
         let step = step0\<lparr>Step_Command := Script_Command script\<rparr>;
         runErr \<leftarrow> executeScript env ctx script;
         close_step env ctx (if runErr = None then StepSuccess else StepFailed)
           (case runErr of None \<Rightarrow> step | Some e \<Rightarrow> step\<lparr>Step_Error := e_redact env (Error e)\<rparr>);
         ret runErr
       }
   }"

definition scriptStepType :: "ScriptType \<Rightarrow> StepType" where
  "scriptStepType t = (if t = ScriptPostBackup then StepPostBackupScript else StepPreBackupScript)"

definition guaranteed :: "Script \<Rightarrow> bool" where
  "guaranteed script \<longleftrightarrow>
     \<not> (Script_RunCondition script \<noteq> RunConditionAlways \<and> \<not> Script_CriticalCleanup script)"

definition register_script :: "Script \<Rightarrow> unit Step" where
  "register_script script =
     (if \<not> guaranteed script then ret ()
      else do {
        entry \<leftarrow> Register (ScriptType_str (Script_Type script) @ '' script (position '' @
          itoa (Script_Position script) @ '')'') script (scriptStepType (Script_Type script));
        modify (\<lambda>s. s\<lparr>rc_tokens := rc_tokens s @ [(script, entry)]\<rparr>)
      })"

definition registerCleanupScripts :: "Env \<Rightarrow> unit Step" where
  "registerCleanupScripts env = for_each register_script (Job_Scripts (e_job env))"

definition findCleanupEntry :: "Script \<Rightarrow> (Script \<times> nat) list \<Rightarrow> nat option" where
  "findCleanupEntry script tokens = map_option snd (find (\<lambda>t. Script_ID (fst t) = Script_ID script) tokens)"

definition skip_reason :: string where
  "skip_reason = ''preceding stage did not meet this script'' @ [CHR 0x27] @ ''s run condition''"

text \<open>One script of \<^verbatim>\<open>runScripts\<close>, once the loop has found that the run is not cancelled.\<close>

definition run_one_script :: "Env \<Rightarrow> ScriptType \<Rightarrow> Script \<Rightarrow> unit Step" where
  "run_one_script env scriptType script = do {
     failed \<leftarrow> gets rc_failed;
     if \<not> ShouldRun script failed then do {
       steps_Skip env RunCtx (scriptStepType scriptType)
         skip_reason (Script_Command script);
       ret ()
     }
     else do {
       runErr \<leftarrow> runScriptRecorded env RunCtx script (scriptStepType scriptType);
       tokens \<leftarrow> gets rc_tokens;
       (case findCleanupEntry script tokens of
          None \<Rightarrow> ret ()
        | Some entry \<Rightarrow> do { MarkDone entry; recordRecovery runErr });
       (case runErr of
          None \<Rightarrow> ret ()
        | Some e \<Rightarrow> fail (if scriptType = ScriptPreBackup then ErrPreScriptFailed else ErrPostScriptFailed)
            (ScriptType_str scriptType @ '' script at position '' @ itoa (Script_Position script) @
             '' failed: '' @ e_redact env (Error e)))
     }
   }"

primrec run_script_list :: "Env \<Rightarrow> ScriptType \<Rightarrow> Script list \<Rightarrow> unit Step" where
  "run_script_list env scriptType [] = ret ()"
| "run_script_list env scriptType (script # rest) =
     (if Script_Type script \<noteq> scriptType then run_script_list env scriptType rest
      else do {
        cancelled \<leftarrow> checkCancelled env;
        if cancelled then ret ()
        else do { run_one_script env scriptType script; run_script_list env scriptType rest }
      })"

definition runScripts :: "Env \<Rightarrow> ScriptType \<Rightarrow> unit Step" where
  "runScripts env scriptType = run_script_list env scriptType (Job_Scripts (e_job env))"

section \<open>Pre-flight\<close>

text \<open>\<^verbatim>\<open>if r := check; !r.ok { rc.fail(r.code, r.message); return false }\<close>.\<close>

definition require :: "checkResult \<Rightarrow> bool Step \<Rightarrow> bool Step" where
  "require r m = (if \<not> cr_ok r then do { fail (cr_code r) (cr_message r); ret False } else m)"

primrec require_each :: "('a \<Rightarrow> checkResult Step) \<Rightarrow> 'a list \<Rightarrow> bool Step \<Rightarrow> bool Step" where
  "require_each chk [] m = m"
| "require_each chk (x # xs) m = do { r \<leftarrow> chk x; require r (require_each chk xs m) }"

definition required_tools :: "string list" where
  "required_tools = [''tar'', ''gzip'', ''sha256sum'']"

definition no_size_message :: string where
  "no_size_message = ''could not estimate source size (du unavailable); continuing without a size check''"

definition no_remote_message :: string where
  "no_remote_message = ''could not measure remote free space (df unavailable); continuing without a space check''"

definition no_local_message :: string where
  "no_local_message = ''could not measure local free space; continuing without a space check''"

text \<open>The part of \<^verbatim>\<open>runPreflight\<close> after the connection: its checks, in their order.\<close>

definition preflight_checks :: "Env \<Rightarrow> bool Step" where
  "preflight_checks env =
     (let run = transport_run env RunCtx;
          timeout = Server_CommandTimeoutSeconds (e_server env);
          job = e_job env; dest = e_destDir env; os = local_os env
      in require_each (\<lambda>src. checkSourceReadable run timeout (Source_RemotePath src)) (Job_Sources job)
        (require_each (checkToolAvailable run timeout) required_tools
        (do {
           t \<leftarrow> checkRemoteTempWritable run timeout (RemoteJobDirectory job);
           require t (do {
             sourceSize \<leftarrow> estimateSourceSize run timeout (Job_Sources job);
             when_do (sourceSize = None) (warn ErrInternal no_size_message);
             remoteFree \<leftarrow> measureRemoteFreeSpace run timeout (Job_RemoteTempDirectory job);
             require (checkRemoteFreeSpace remoteFree sourceSize) (do {
               when_do (remoteFree = None) (warn ErrInternal no_remote_message);
               w \<leftarrow> checkLocalDestinationWritable os dest;
               require w (do {
                 localFree \<leftarrow> measureLocalFreeSpace os dest;
                 require (checkLocalFreeSpace dest localFree sourceSize) (do {
                   when_do (localFree = None) (warn ErrInternal no_local_message);
                   ret True
                 })
               })
             })
           })
         })))"

definition connect_failure :: "err \<Rightarrow> ErrorCode" where
  "connect_failure e = (case CodeOf e of Some code \<Rightarrow> code | None \<Rightarrow> ErrSSHConnectionFailed)"

definition runPreflight :: "Env \<Rightarrow> bool Step" where
  "runPreflight env =
     (case Job_Validate (e_cron env) (e_job env) of
        Some e \<Rightarrow> do { fail ErrInvalidConfig (Error e); ret False }
      | None \<Rightarrow> do {
          c \<leftarrow> ask (e_connect env) EvConnect;
          case c of
            Some e \<Rightarrow> do { fail (connect_failure e) (e_redact env (Error e)); ret False }
          | None \<Rightarrow> do {
              modify (\<lambda>s. s\<lparr>rc_transport := True\<rparr>);
              registerCleanupScripts env;
              preflight_checks env
            }
        })"

definition preflight :: "Env \<Rightarrow> bool Step" where
  "preflight env = do {
     r \<leftarrow> steps_Start env RunCtx StepPreflight;
     case r of
       Inl e \<Rightarrow> do { fail ErrInternal ''could not record preflight step''; ret False }
     | Inr step0 \<Rightarrow> do {
         ok \<leftarrow> runPreflight env;
         step \<leftarrow> with_run_error step0;
         close_step env RunCtx (stepStatus ok) step;
         ret ok
       }
   }"

section \<open>Archive\<close>

definition removePartialRemoteArchive :: "Env \<Rightarrow> unit Step" where
  "removePartialRemoteArchive env = do {
     path \<leftarrow> gets rc_remoteArchivePath;
     if path = [] then ret ()
     else do { transport_run env DetachedCtx (remove_partial_command path) 0; ret () }
   }"

text \<open>The step comes back with its error set, as the Go method sets it through the pointer.\<close>

definition runArchive :: "Env \<Rightarrow> RunStep \<Rightarrow> (bool \<times> RunStep) Step" where
  "runArchive env step = do {
     modify (\<lambda>s. s\<lparr>rc_run := (rc_run s)\<lparr>Run_ArchiveName :=
       ArchiveFileName (Job_Name (e_job env)) (Run_StartedAt (rc_run s))\<rparr>\<rparr>);
     modify (\<lambda>s. s\<lparr>rc_remoteArchivePath :=
       RemoteJobDirectory (e_job env) @ ''/'' @ Run_ArchiveName (rc_run s)\<rparr>);
     path \<leftarrow> gets rc_remoteArchivePath;
     r \<leftarrow> transport_run env RunCtx (archiveCommand (e_job env) path) (Job_ArchiveTimeout (e_job env));
     case r of
       Inl e \<Rightarrow> do {
         (if is_err (\<lambda>x. x = DeadlineExceeded) e
          then fail ErrArchiveTimeout ''archive creation exceeded its timeout''
          else fail ErrArchiveFailed (e_redact env (Error e)));
         step' \<leftarrow> with_run_error step;
         removePartialRemoteArchive env;
         ret (False, step')
       }
     | Inr res \<Rightarrow>
         if rr_exit res \<noteq> 0 then do {
           fail ErrArchiveFailed (''tar exited with code '' @ itoa (rr_exit res) @ '': '' @ e_redact env (rr_stderr res));
           step' \<leftarrow> with_run_error step;
           removePartialRemoteArchive env;
           ret (False, step')
         }
         else ret (True, step)
   }"

definition archive :: "Env \<Rightarrow> unit Step" where
  "archive env = do {
     r \<leftarrow> steps_Start env RunCtx StepArchive;
     case r of
       Inl e \<Rightarrow> fail ErrInternal ''could not record archive step''
     | Inr step0 \<Rightarrow> do {
         (ok, step) \<leftarrow> runArchive env step0;
         close_step env RunCtx (stepStatus ok) step
       }
   }"

section \<open>Download and verification\<close>

definition good_sum :: "err + RunResult \<Rightarrow> string option" where
  "good_sum r =
     (case r of
        Inl e \<Rightarrow> None
      | Inr res \<Rightarrow>
          (let digest = trim_space (rr_stdout res)
           in if rr_exit res = 0 \<and> digest \<noteq> [] then Some digest else None))"

definition remoteChecksum :: "Env \<Rightarrow> (string option) Step" where
  "remoteChecksum env = do {
     r \<leftarrow> steps_Start env RunCtx StepRemoteChecksum;
     case r of
       Inl e \<Rightarrow> do { fail ErrInternal ''could not record remote checksum step''; ret None }
     | Inr step0 \<Rightarrow> do {
         path \<leftarrow> gets rc_remoteArchivePath;
         res \<leftarrow> runRemote env (checksum_command path);
         (case good_sum res of
            None \<Rightarrow> do {
              fail ErrArchiveFailed ''could not compute the remote archive checksum'';
              step \<leftarrow> with_run_error step0;
              close_step env RunCtx (stepStatus False) step
            }
          | Some digest \<Rightarrow> close_step env RunCtx (stepStatus True) (step0\<lparr>Step_Output := digest\<rparr>));
         ret (good_sum res)
       }
   }"

definition deletePart :: "Env \<Rightarrow> unit Step" where
  "deletePart env = do {
     part \<leftarrow> gets rc_localPartPath;
     if part = [] then ret ()
     else do {
       r \<leftarrow> file_op env ''remove'' part (EvRemove part);
       when_do (r = None) (set_file part None)
     }
   }"

definition streamDownload :: "Env \<Rightarrow> (err + string) Step" where
  "streamDownload env = do {
     part \<leftarrow> gets rc_localPartPath;
     c \<leftarrow> file_op env ''create'' part (EvCreateFile part);
     case c of
       Some e \<Rightarrow> ret (Inl (Wrapped ''create local part file'' e))
     | None \<Rightarrow> do {
         path \<leftarrow> gets rc_remoteArchivePath;
         (written, d) \<leftarrow> ask (e_download env path) (\<lambda>(w, d). EvDownload path w d);
         set_file part (Some written);
         case d of
           Some e \<Rightarrow> ret (Inl e)
         | None \<Rightarrow> do {
             y \<leftarrow> file_op env ''sync'' part (EvSync part);
             ret (case y of
                    Some e \<Rightarrow> Inl (Wrapped ''flush local part file'' e)
                  | None \<Rightarrow> Inr (e_sha256 env written))
           }
       }
   }"

definition downloadArchive :: "Env \<Rightarrow> (string option) Step" where
  "downloadArchive env = do {
     r \<leftarrow> steps_Start env RunCtx StepDownload;
     case r of
       Inl e \<Rightarrow> do { fail ErrInternal ''could not record download step''; ret None }
     | Inr step0 \<Rightarrow> do {
         modify (\<lambda>s. s\<lparr>rc_localPartPath := path_join (e_destDir env) (Run_ArchiveName (rc_run s) @ ''.part'')\<rparr>);
         d \<leftarrow> streamDownload env;
         case d of
           Inl e \<Rightarrow> do {
             fail (case CodeOf e of Some code \<Rightarrow> code | None \<Rightarrow> ErrDownloadFailed) (e_redact env (Error e));
             step \<leftarrow> with_run_error step0;
             deletePart env;
             close_step env RunCtx StepFailed step;
             ret None
           }
         | Inr digest \<Rightarrow> do {
             close_step env RunCtx StepSuccess step0;
             ret (Some digest)
           }
       }
   }"

definition localChecksumStep :: "Env \<Rightarrow> string \<Rightarrow> unit Step" where
  "localChecksumStep env localSum = do {
     r \<leftarrow> steps_Start env RunCtx StepLocalChecksum;
     case r of
       Inl e \<Rightarrow> ret ()
     | Inr step0 \<Rightarrow> close_step env RunCtx StepSuccess (step0\<lparr>Step_Output := localSum\<rparr>)
   }"

text \<open>\<^verbatim>\<open>os.Rename\<close> followed by what the verified archive records.\<close>

definition finalize_archive :: "Env \<Rightarrow> string \<Rightarrow> string \<Rightarrow> unit Step" where
  "finalize_archive env finalPath localSum = do {
     modify (\<lambda>s. s\<lparr>rc_archiveVerified := True, rc_run := (rc_run s)\<lparr>Run_Checksum := localSum\<rparr>\<rparr>);
     st \<leftarrow> file_op env ''stat'' finalPath (EvStat finalPath);
     when_do (st = None) (modify (\<lambda>s. s\<lparr>rc_run := (rc_run s)\<lparr>Run_ArchiveSize :=
       (case rc_files s finalPath of Some content \<Rightarrow> int (length content) | None \<Rightarrow> 0)\<rparr>\<rparr>))
   }"

definition rename_part :: "Env \<Rightarrow> string \<Rightarrow> (err option) Step" where
  "rename_part env finalPath = do {
     part \<leftarrow> gets rc_localPartPath;
     r \<leftarrow> file_op env ''rename'' part (EvRename part finalPath);
     when_do (r = None) (modify (\<lambda>s. s\<lparr>rc_files := (rc_files s)(part := None, finalPath := rc_files s part)\<rparr>));
     ret r
   }"

definition verifyChecksums :: "Env \<Rightarrow> string \<Rightarrow> string \<Rightarrow> unit Step" where
  "verifyChecksums env remoteSum localSum = do {
     r \<leftarrow> steps_Start env RunCtx StepVerifyChecksum;
     case r of
       Inl e \<Rightarrow> fail ErrInternal ''could not record verify checksum step''
     | Inr step0 \<Rightarrow>
         if remoteSum \<noteq> localSum then do {
           fail ErrChecksumMismatch (''checksum mismatch: remote '' @ remoteSum @ '', local '' @ localSum);
           step \<leftarrow> with_run_error step0;
           deletePart env;
           close_step env RunCtx StepFailed step
         }
         else do {
           finalPath \<leftarrow> gets (\<lambda>s. path_join (e_destDir env) (Run_ArchiveName (rc_run s)));
           m \<leftarrow> rename_part env finalPath;
           case m of
             Some e \<Rightarrow> do {
               fail ErrDownloadFailed (''could not finalize downloaded archive: '' @ Error e);
               step \<leftarrow> with_run_error step0;
               close_step env RunCtx StepFailed step
             }
           | None \<Rightarrow> do {
               finalize_archive env finalPath localSum;
               close_step env RunCtx StepSuccess step0
             }
         }
   }"

definition downloadAndVerify :: "Env \<Rightarrow> unit Step" where
  "downloadAndVerify env = do {
     r \<leftarrow> remoteChecksum env;
     case r of
       None \<Rightarrow> ret ()
     | Some remoteSum \<Rightarrow> do {
         l \<leftarrow> downloadArchive env;
         case l of
           None \<Rightarrow> ret ()
         | Some localSum \<Rightarrow> do {
             localChecksumStep env localSum;
             verifyChecksums env remoteSum localSum
           }
       }
   }"

section \<open>Health check, remote clean-up, retention\<close>

text \<open>
  The loop of \<^verbatim>\<open>healthCheck\<close>: \<open>n\<close> attempts are left, \<open>first\<close> says that none was made. The
  result is \<open>None\<close> on success, otherwise the last error, as \<^verbatim>\<open>fmt.Sprint\<close> prints it.
\<close>

primrec health_attempts :: "Env \<Rightarrow> HealthCheck \<Rightarrow> bool \<Rightarrow> nat \<Rightarrow> string \<Rightarrow> (string option) Step" where
  "health_attempts env hc isfirst 0 lastErr = ret (Some lastErr)"
| "health_attempts env hc isfirst (Suc n) lastErr = do {
     slept \<leftarrow> (if isfirst then ret None
              else (let d = seconds_duration (HealthCheck_IntervalSeconds hc)
                    in ask (e_sleep env d) (EvSleep d)));
     case slept of
       Some e \<Rightarrow> ret (Some (Error e))
     | None \<Rightarrow> do {
         r \<leftarrow> runRemote env (HealthCheck_Command hc);
         case r of
           Inl e \<Rightarrow> health_attempts env hc False n (Error e)
         | Inr res \<Rightarrow>
             if rr_exit res = 0 then ret None
             else health_attempts env hc False n
               (''exit code '' @ itoa (rr_exit res) @ '': '' @ e_redact env (rr_stderr res))
       }
   }"

definition healthCheck :: "Env \<Rightarrow> unit Step" where
  "healthCheck env =
     (case Job_HealthCheck (e_job env) of
        None \<Rightarrow> ret ()
      | Some hc \<Rightarrow> do {
          r \<leftarrow> steps_Start env RunCtx StepHealthCheck;
          case r of
            Inl e \<Rightarrow> ret ()
          | Inr step0 \<Rightarrow> do {
              out \<leftarrow> health_attempts env hc True (nat (HealthCheck_Attempts hc)) ''<nil>'';
              case out of
                None \<Rightarrow> close_step env RunCtx (stepStatus True) step0
              | Some lastErr \<Rightarrow> do {
                  warn ErrHealthCheckFailed (''health check failed after '' @ itoa (HealthCheck_Attempts hc) @
                    '' attempt(s): '' @ e_redact env lastErr);
                  step \<leftarrow> with_run_error step0;
                  close_step env RunCtx (stepStatus False) step
                }
            }
        })"

definition remoteCleanup :: "Env \<Rightarrow> unit Step" where
  "remoteCleanup env = do {
     path \<leftarrow> gets rc_remoteArchivePath;
     transport \<leftarrow> gets rc_transport;
     if path = [] \<or> \<not> transport then ret ()
     else do {
       r \<leftarrow> steps_Start env RunCtx StepRemoteCleanup;
       case r of
         Inl e \<Rightarrow> ret ()
       | Inr step0 \<Rightarrow> do {
           res \<leftarrow> runRemote env (remove_command path);
           if bad_result res then do {
             warn ErrInternal (''could not remove remote temporary archive '' @ path);
             step \<leftarrow> with_run_error step0;
             close_step env RunCtx (stepStatus False) step
           }
           else close_step env RunCtx (stepStatus True) step0
         }
     }
   }"

definition update_run :: "Env \<Rightarrow> Ctx \<Rightarrow> (err option) Step" where
  "update_run env ctx = do {
     run \<leftarrow> gets rc_run;
     ask (e_update_run env ctx run) (EvRunUpdate ctx run)
   }"

text \<open>
  \<^verbatim>\<open>rc.engine.Retention.Apply\<close>: the interface of the engine to \<^verbatim>\<open>internal/retention\<close>. The
  environment answers with the paths of the files that were removed, which are gone afterwards
  whatever the answer says, with the warnings and with the error. \<^theory_text>\<open>Retention\<close> models what the
  production implementation removes.
\<close>

definition call_retention :: "Env \<Rightarrow> (string list \<times> err option) Step" where
  "call_retention env = do {
     (removed, warnings, applyErr) \<leftarrow> ask (e_retention env) (\<lambda>(fs, w, e). EvRetention fs w e);
     modify (\<lambda>s. s\<lparr>rc_files := rc_files s |` (- set removed)\<rparr>);
     ret (warnings, applyErr)
   }"

definition applyRetention :: "Env \<Rightarrow> unit Step" where
  "applyRetention env = do {
     update_run env RunCtx;
     r \<leftarrow> steps_Start env RunCtx StepRetention;
     case r of
       Inl e \<Rightarrow> ret ()
     | Inr step0 \<Rightarrow> do {
         (warnings, applyErr) \<leftarrow> call_retention env;
         case applyErr of
           Some e \<Rightarrow> do {
             warn ErrInternal (''retention: '' @ Error e);
             step \<leftarrow> with_run_error step0;
             close_step env RunCtx (stepStatus False) step
           }
         | None \<Rightarrow>
             if warnings \<noteq> [] then do {
               warn ErrInternal (''retention: '' @ join ''; '' warnings);
               step \<leftarrow> with_run_error step0;
               close_step env RunCtx (stepStatus False) step
             }
             else close_step env RunCtx (stepStatus True) step0
       }
   }"

section \<open>The workflow\<close>

definition close_transport :: "unit Step" where
  "close_transport = do {
     t \<leftarrow> gets rc_transport;
     when_do t (record_event EvClose)
   }"

definition drainCleanup :: "Env \<Rightarrow> unit Step" where
  "drainCleanup env = do {
     outs \<leftarrow> Drain (\<lambda>e. runScriptRecorded env CleanupCtx (en_script e) (en_stepType e));
     for_each (\<lambda>out. recordRecovery (snd out)) outs
   }"

text \<open>\<^verbatim>\<open>if rc.checkCancelled() { return }\<close> before the rest of a function.\<close>

definition unless_cancelled :: "Env \<Rightarrow> unit Step \<Rightarrow> unit Step" where
  "unless_cancelled env m = do { c \<leftarrow> checkCancelled env; if c then ret () else m }"

definition unless_failed :: "unit Step \<Rightarrow> unit Step" where
  "unless_failed m = do { f \<leftarrow> gets rc_failed; when_do (\<not> f) m }"

text \<open>The body of \<^verbatim>\<open>execute\<close> after a successful pre-flight.\<close>

definition stages :: "Env \<Rightarrow> unit Step" where
  "stages env = do {
     runScripts env ScriptPreBackup;
     unless_cancelled env (do {
       unless_failed (archive env);
       unless_cancelled env (do {
         unless_failed (downloadAndVerify env);
         unless_cancelled env (do {
           runScripts env ScriptPostBackup;
           unless_cancelled env (do {
             unless_failed (healthCheck env);
             remoteCleanup env;
             failed \<leftarrow> gets rc_failed;
             verified \<leftarrow> gets rc_archiveVerified;
             when_do (\<not> failed \<and> verified \<and> e_has_retention env) (applyRetention env)
           })
         })
       })
     })
   }"

text \<open>
  Deferred calls run last in, first out: the transport is closed when the stages return, and
  the drain, deferred first, runs after that. A failed pre-flight returns before the close is
  deferred.
\<close>

definition execute :: "Env \<Rightarrow> unit Step" where
  "execute env = do {
     ok \<leftarrow> preflight env;
     (if \<not> ok then ret () else do { stages env; close_transport });
     drainCleanup env
   }"

section \<open>Begin and end of a run\<close>

definition source_paths :: "Job \<Rightarrow> string list" where
  "source_paths job = map Source_RemotePath (Job_Sources job)"

text \<open>\<^verbatim>\<open>beginRun\<close>: an error, or whether the run was skipped; the run itself is in the state.\<close>

definition beginRun :: "Env \<Rightarrow> (err + bool) Step" where
  "beginRun env = do {
     t \<leftarrow> now env;
     n \<leftarrow> gets rc_ids;
     modify (\<lambda>s. s\<lparr>rc_ids := Suc n\<rparr>);
     case NewID (e_rand env) n of
       Inl e \<Rightarrow> ret (Inl e)
     | Inr ident \<Rightarrow> do {
         let job = e_job env;
         let run = NewRun ident t (Job_ID job) (Server_ID (e_server env)) (source_paths job) (e_trigger env);
         let startedAt = rfc3339nano (to_utc t);
         lockErr \<leftarrow> ask (e_acquire env (Job_ID job) ident startedAt (e_pid env))
           (EvLockAcquire (Job_ID job) ident startedAt);
         case lockErr of
           Some e \<Rightarrow>
             if CodeOf e = Some ErrJobAlreadyRunning then do {
               finished \<leftarrow> now env;
               let skipped = run\<lparr>Run_Status := RunSkipped, Run_ErrorMessage := ''Job already running'',
                 Run_FinishedAt := Some finished\<rparr>;
               c \<leftarrow> ask (e_create_run env skipped) (EvRunCreate skipped);
               (case c of
                  Some e' \<Rightarrow> ret (Inl (Wrapped ''persist skipped run'' e'))
                | None \<Rightarrow> do { modify (\<lambda>s. s\<lparr>rc_run := skipped\<rparr>); ret (Inr True) })
             }
             else ret (Inl e)
         | None \<Rightarrow> do {
             let running = run\<lparr>Run_Status := RunRunning\<rparr>;
             c \<leftarrow> ask (e_create_run env running) (EvRunCreate running);
             case c of
               Some e \<Rightarrow> do {
                 ask (e_release env DetachedCtx (Job_ID job)) (EvLockRelease DetachedCtx (Job_ID job));
                 ret (Inl (Wrapped ''persist run'' e))
               }
             | None \<Rightarrow> do {
                 when_do (e_has_events env) (record_event (EvRunStarted running));
                 modify (\<lambda>s. s\<lparr>rc_run := running\<rparr>);
                 ret (Inr False)
               }
           }
       }
   }"

definition finishRun :: "Env \<Rightarrow> unit Step" where
  "finishRun env = do {
     execute env;
     finished \<leftarrow> now env;
     modify (\<lambda>s. s\<lparr>rc_run := (Run_Finish finished (finalStatus s) (rc_run s))\<lparr>Run_RecoveryOutcome := rc_recoveryOut s\<rparr>\<rparr>);
     update_run env RunCtx;
     run \<leftarrow> gets rc_run;
     when_do (e_has_events env) (record_event (EvRunFinished run));
     ask (e_release env DetachedCtx (Job_ID (e_job env))) (EvLockRelease DetachedCtx (Job_ID (e_job env)));
     ret ()
   }"

definition Engine_Run :: "Env \<Rightarrow> (err + Run) Step" where
  "Engine_Run env = do {
     r \<leftarrow> beginRun env;
     case r of
       Inl e \<Rightarrow> ret (Inl e)
     | Inr skipped \<Rightarrow> do {
         when_do (\<not> skipped) (finishRun env);
         run \<leftarrow> gets rc_run;
         ret (Inr run)
       }
   }"

text \<open>
  \<^verbatim>\<open>Engine.Start\<close> returns the run of \<^verbatim>\<open>beginRun\<close>; the second component says that a goroutine
  goes on with \<^verbatim>\<open>finishRun\<close> from the state reached.
\<close>

definition Engine_Start :: "Env \<Rightarrow> (err + Run \<times> bool) Step" where
  "Engine_Start env = do {
     r \<leftarrow> beginRun env;
     run \<leftarrow> gets rc_run;
     ret (case r of Inl e \<Rightarrow> Inl e | Inr skipped \<Rightarrow> Inr (run, \<not> skipped))
   }"

end
