(* ===== verification/Engine_Relations.thy ===== *)
theory Engine_Relations
  imports Engine
begin

text \<open>
  What holds of a whole stage because it holds of every single effect. A relation between the
  state before and the state after that is reflexive, transitive and kept by the primitive
  effects of the engine is kept by every stage; the locales below state the primitives as
  assumptions, level by level, and prove the stages once. Each invariant of the engine is an
  interpretation.
\<close>

section \<open>Commands, steps and outcomes\<close>

text \<open>The events of the workflow itself: not the lock, the run's record, the close, a new step, a
  script attempt or a remote command.\<close>

definition workflow_event :: "Event \<Rightarrow> bool" where
  "workflow_event ev = (case ev of
     EvClose \<Rightarrow> False
   | EvRun c cmd t r \<Rightarrow> False
   | EvStepCreate c st p r \<Rightarrow> False
   | EvRunCreate r e \<Rightarrow> False
   | EvRunUpdate c r e \<Rightarrow> False
   | EvLockAcquire j r t e \<Rightarrow> False
   | EvLockRelease c j e \<Rightarrow> False
   | EvRunStarted r \<Rightarrow> False
   | EvRunFinished r \<Rightarrow> False
   | EvAttempt script \<Rightarrow> False
   | _ \<Rightarrow> True)"

locale engine_rel = state_preorder R for R :: "Rc \<Rightarrow> Rc \<Rightarrow> bool" +
  fixes env :: Env
  assumes prim_event: "workflow_event ev \<Longrightarrow> R s (s\<lparr>rc_trace := ev # rc_trace s\<rparr>)"
    and prim_run: "state_io_rel R (transport_run env ctx cmd t)"
    and prim_persist: "state_io_rel R (persist_step env ctx step)"
    and prim_update: "state_io_rel R (update_run env ctx)"
    and prim_fail: "state_io_rel R (fail code message)"
    and prim_warn: "state_io_rel R (warn code message)"
    and prim_recovery: "state_io_rel R (recordRecovery e)"
    and prim_cancel: "state_io_rel R (checkCancelled env)"
    and prim_ids: "R s (s\<lparr>rc_ids := Suc (rc_ids s)\<rparr>)"
begin

lemma io_ask: "(\<And>r. workflow_event (ev r)) \<Longrightarrow> state_io_rel R (ask f ev)"
  by (simp add: state_io_rel_def prim_event)

lemma io_record: "workflow_event ev \<Longrightarrow> state_io_rel R (record_event ev)"
  by (simp add: state_io_rel_def record_event_def prim_event)

lemma io_now: "state_io_rel R (now env)"
  unfolding now_def by (rule io_ask) (simp add: workflow_event_def)

lemmas io_transport_run = prim_run

lemma io_runOnTransport: "state_io_rel R (runOnTransport (transport_run env ctx) n cmd)"
  unfolding runOnTransport_def by (rule io_transport_run)

lemma io_runRemote: "state_io_rel R (runRemote env cmd)"
  unfolding runRemote_def by (rule io_runOnTransport)

lemma io_new_step: "state_io_rel R (new_step env t st)"
  by (simp add: state_io_rel_def new_step_def prim_ids)

lemma io_step_changed: "state_io_rel R (step_changed env step)"
  unfolding step_changed_def by (intro io_when io_record) (simp add: workflow_event_def)

lemma io_steps_Start: "state_io_rel R (steps_Start env ctx st)"
  unfolding steps_Start_def by (intro io_bind io_try_do io_now io_new_step prim_persist io_return)

lemma io_steps_Finish: "state_io_rel R (steps_Finish env ctx step)"
  unfolding steps_Finish_def
  by (intro io_bind io_option io_ask io_step_changed io_return) (simp add: workflow_event_def)

lemma io_steps_Skip: "state_io_rel R (steps_Skip env ctx st reason cmd)"
  unfolding steps_Skip_def Let_def
  by (intro io_bind io_sum io_now io_new_step prim_persist io_step_changed io_return)

lemma io_close_step: "state_io_rel R (close_step env ctx status step)"
  unfolding close_step_def by (intro io_bind io_now io_steps_Finish io_return)

lemma io_with_run_error: "state_io_rel R (with_run_error step)"
  unfolding with_run_error_def by (rule io_gets)

lemmas step_rules = io_now io_transport_run io_runOnTransport io_runRemote io_steps_Start io_steps_Skip
  io_close_step io_with_run_error prim_fail prim_warn prim_recovery prim_cancel

lemma io_script_attempts: "state_io_rel R (script_attempts env ctx script n e)"
proof (induction n arbitrary: e)
  case 0
  show ?case by (simp add: io_return)
next
  case (Suc n)
  then show ?case by (auto intro!: io_bind io_sum io_if io_transport_run io_return)
qed

lemma io_executeScript: "state_io_rel R (executeScript env ctx script)"
  unfolding executeScript_def by (rule io_script_attempts)

lemma io_require: "state_io_rel R m \<Longrightarrow> state_io_rel R (require r m)"
  unfolding require_def by (intro io_if io_bind prim_fail io_return)

lemma io_require_each:
  "(\<And>x. state_io_rel R (chk x)) \<Longrightarrow> state_io_rel R m \<Longrightarrow> state_io_rel R (require_each chk xs m)"
  by (induction xs) (auto intro!: io_bind io_require)

lemma io_checks:
  "state_io_rel R (checkSourceReadable (transport_run env ctx) n path)"
  "state_io_rel R (checkToolAvailable (transport_run env ctx) n tool)"
  "state_io_rel R (checkRemoteTempWritable (transport_run env ctx) n dir)"
  "state_io_rel R (estimateSourceSize (transport_run env ctx) n srcs)"
  "state_io_rel R (measureRemoteFreeSpace (transport_run env ctx) n dir)"
  unfolding checkSourceReadable_def checkSourceExists_def checkToolAvailable_def checkRemoteTempWritable_def
    estimateSourceSize_def measureRemoteFreeSpace_def
  by (intro io_bind io_if io_return io_runOnTransport)+

lemma io_local:
  "state_io_rel R (checkLocalDestinationWritable (local_os env) dir)"
  "state_io_rel R (measureLocalFreeSpace (local_os env) dir)"
  unfolding checkLocalDestinationWritable_def measureLocalFreeSpace_def localFreeBytes_def local_os_def file_op_def
  by (auto intro!: io_bind io_option io_return io_ask simp: workflow_event_def)

lemma io_preflight_checks: "state_io_rel R (preflight_checks env)"
  unfolding preflight_checks_def Let_def
  by (intro io_require_each io_require io_bind io_when io_checks io_local prim_warn io_return)

lemma io_health_attempts: "state_io_rel R (health_attempts env hc b n e)"
proof (induction n arbitrary: b e)
  case 0
  show ?case by (simp add: io_return)
next
  case (Suc n)
  show ?case
    unfolding health_attempts.simps Let_def
    by (intro io_bind io_if io_option io_sum io_ask io_runRemote io_return Suc.IH)
      (simp add: workflow_event_def)
qed

lemma io_healthCheck: "state_io_rel R (healthCheck env)"
  unfolding healthCheck_def
  by (intro io_option io_bind io_sum io_return step_rules io_health_attempts)

lemma io_remoteCleanup: "state_io_rel R (remoteCleanup env)"
  unfolding remoteCleanup_def
  by (intro io_bind io_if io_sum io_gets io_return step_rules)

text \<open>The retention stage around the call that may remove files.\<close>

lemma io_applyRetention_around:
  "state_io_rel R (call_retention env) \<Longrightarrow> state_io_rel R (applyRetention env)"
  unfolding applyRetention_def
  by (intro io_bind io_sum io_prod io_option io_if io_return step_rules prim_update)

lemma io_unless_cancelled: "state_io_rel R m \<Longrightarrow> state_io_rel R (unless_cancelled env m)"
  unfolding unless_cancelled_def by (intro io_bind io_if io_return prim_cancel)

lemma io_unless_failed: "state_io_rel R m \<Longrightarrow> state_io_rel R (unless_failed m)"
  unfolding unless_failed_def by (intro io_bind io_gets io_when)

end

section \<open>The archive\<close>

locale engine_archive_rel = engine_rel R env for R :: "Rc \<Rightarrow> Rc \<Rightarrow> bool" and env :: Env +
  assumes prim_name: "R s (s\<lparr>rc_run := (rc_run s)\<lparr>Run_ArchiveName := n\<rparr>\<rparr>)"
    and prim_remote_path: "R s (s\<lparr>rc_remoteArchivePath := p\<rparr>)"
begin

lemma io_removePartial: "state_io_rel R (removePartialRemoteArchive env)"
  unfolding removePartialRemoteArchive_def by (intro io_bind io_if io_gets io_return io_transport_run)

lemma io_runArchive: "state_io_rel R (runArchive env step)"
  unfolding runArchive_def
  by (intro io_bind io_sum io_if io_modify io_gets io_return prim_name prim_remote_path step_rules io_removePartial)

lemma io_archive: "state_io_rel R (archive env)"
  unfolding archive_def by (intro io_bind io_sum io_prod io_return step_rules io_runArchive)

lemma io_remoteChecksum: "state_io_rel R (remoteChecksum env)"
  unfolding remoteChecksum_def by (intro io_bind io_sum io_option io_gets io_return step_rules)

end

section \<open>The download\<close>

locale engine_download_rel = engine_archive_rel R env for R :: "Rc \<Rightarrow> Rc \<Rightarrow> bool" and env :: Env +
  assumes prim_part: "R s (s\<lparr>rc_localPartPath := p\<rparr>)"
    and prim_files: "R s (s\<lparr>rc_files := fs\<rparr>)"
begin

lemma io_set_file: "state_io_rel R (set_file p c)"
  unfolding set_file_def by (intro io_modify prim_files)

lemma io_applyRetention: "state_io_rel R (applyRetention env)"
  by (rule io_applyRetention_around, unfold call_retention_def,
      intro io_bind io_prod io_modify io_return prim_files io_ask)
    (simp add: workflow_event_def split: prod.split)

lemma io_file_op: "(\<And>r. workflow_event (ev r)) \<Longrightarrow> state_io_rel R (file_op env op path ev)"
  unfolding file_op_def by (rule io_ask)

lemma io_deletePart: "state_io_rel R (deletePart env)"
  unfolding deletePart_def
  by (intro io_bind io_if io_when io_gets io_return io_file_op io_set_file) (simp add: workflow_event_def)

lemma io_streamDownload: "state_io_rel R (streamDownload env)"
  unfolding streamDownload_def
  by (intro io_bind io_option io_prod io_gets io_return io_file_op io_set_file io_ask)
    (simp_all add: workflow_event_def split: prod.split)

lemma io_downloadArchive: "state_io_rel R (downloadArchive env)"
  unfolding downloadArchive_def
  by (intro io_bind io_sum io_option io_modify io_return prim_part step_rules io_streamDownload io_deletePart)

lemma io_localChecksumStep: "state_io_rel R (localChecksumStep env digest)"
  unfolding localChecksumStep_def by (intro io_bind io_sum io_return step_rules)

lemma io_rename_part: "state_io_rel R (rename_part env p)"
  unfolding rename_part_def
  by (intro io_bind io_when io_modify io_gets io_return io_file_op prim_files) (simp add: workflow_event_def)

end

section \<open>The verification\<close>

locale engine_verify_rel = engine_download_rel R env for R :: "Rc \<Rightarrow> Rc \<Rightarrow> bool" and env :: Env +
  assumes prim_verified: "R s (s\<lparr>rc_archiveVerified := True, rc_run := (rc_run s)\<lparr>Run_Checksum := c\<rparr>\<rparr>)"
    and prim_size: "R s (s\<lparr>rc_run := (rc_run s)\<lparr>Run_ArchiveSize := k\<rparr>\<rparr>)"
begin

lemma io_finalize: "state_io_rel R (finalize_archive env p c)"
  unfolding finalize_archive_def
  by (intro io_bind io_when io_modify io_file_op prim_verified prim_size) (simp add: workflow_event_def)

lemma io_verifyChecksums: "state_io_rel R (verifyChecksums env a b)"
  unfolding verifyChecksums_def
  by (intro io_bind io_sum io_option io_if io_gets io_return step_rules io_deletePart io_rename_part io_finalize)

lemma io_downloadAndVerify: "state_io_rel R (downloadAndVerify env)"
  unfolding downloadAndVerify_def
  by (intro io_bind io_option io_return io_remoteChecksum io_downloadArchive io_localChecksumStep io_verifyChecksums)

end

section \<open>Scripts and the cleanup registry\<close>

locale engine_script_rel = engine_rel R env for R :: "Rc \<Rightarrow> Rc \<Rightarrow> bool" and env :: Env +
  assumes prim_attempt: "R s (s\<lparr>rc_trace := EvAttempt script # rc_trace s\<rparr>)"
    and prim_done: "state_io_rel R (MarkDone i)"
    and prim_register: "state_io_rel R (register_script script)"
    and prim_transport: "R s (s\<lparr>rc_transport := True\<rparr>)"
begin

lemma io_attempt: "state_io_rel R (record_event (EvAttempt script))"
  by (simp add: state_io_rel_def record_event_def prim_attempt)

lemma io_runScriptRecorded: "state_io_rel R (runScriptRecorded env ctx script st)"
  unfolding runScriptRecorded_def Let_def
  by (intro io_bind io_sum io_attempt io_steps_Start io_executeScript io_close_step io_return)

lemma io_run_one_script: "state_io_rel R (run_one_script env ty script)"
  unfolding run_one_script_def
  by (intro io_bind io_if io_option io_gets io_return step_rules prim_done io_runScriptRecorded)

lemma io_run_script_list: "state_io_rel R (run_script_list env ty scripts)"
proof (induction scripts)
  case Nil
  show ?case by (simp add: io_return)
next
  case (Cons script rest)
  then show ?case by (auto intro!: io_bind io_if io_return prim_cancel io_run_one_script)
qed

lemma io_runScripts: "state_io_rel R (runScripts env ty)"
  unfolding runScripts_def by (rule io_run_script_list)

lemma io_registerCleanupScripts: "state_io_rel R (registerCleanupScripts env)"
  unfolding registerCleanupScripts_def by (intro io_for_each prim_register)

lemma io_runPreflight: "state_io_rel R (runPreflight env)"
  unfolding runPreflight_def
  by (intro io_option io_bind io_ask io_modify prim_fail prim_transport io_registerCleanupScripts
      io_preflight_checks io_return) (simp add: workflow_event_def)

lemma io_preflight: "state_io_rel R (preflight env)"
  unfolding preflight_def by (intro io_bind io_sum io_return step_rules io_runPreflight)

lemma io_drain_entries:
  "(\<And>e. state_io_rel R (run e)) \<Longrightarrow> state_io_rel R (drain_entries run is)"
  by (induction "is") (auto intro!: io_bind io_gets io_return prim_done)

lemma io_drainCleanup: "state_io_rel R (drainCleanup env)"
  unfolding drainCleanup_def Drain_def
  by (intro io_bind io_for_each io_gets io_drain_entries io_runScriptRecorded prim_recovery)

end

section \<open>The whole workflow\<close>

locale engine_stage_rel = engine_verify_rel R env + engine_script_rel R env
  for R :: "Rc \<Rightarrow> Rc \<Rightarrow> bool" and env :: Env
begin

lemma io_stages: "state_io_rel R (stages env)"
  unfolding stages_def
  by (intro io_bind io_unless_cancelled io_unless_failed io_when io_gets io_runScripts io_archive
      io_downloadAndVerify io_healthCheck io_remoteCleanup io_applyRetention)

end

locale engine_run_rel = engine_stage_rel R env for R :: "Rc \<Rightarrow> Rc \<Rightarrow> bool" and env :: Env +
  assumes prim_close: "R s (s\<lparr>rc_trace := EvClose # rc_trace s\<rparr>)"
begin

lemma io_close_transport: "state_io_rel R close_transport"
  unfolding close_transport_def record_event_def by (intro io_bind io_gets io_when io_modify prim_close)

lemma io_execute: "state_io_rel R (execute env)"
  unfolding execute_def
  by (intro io_bind io_if io_return io_preflight io_stages io_close_transport io_drainCleanup)

end

end
