(* ===== verification/Engine_Facts.thy ===== *)
theory Engine_Facts
  imports Engine_Relations
begin

text \<open>
  The invariants of a run, each an interpretation of the relation locales of
  \<^theory_text>\<open>Engine_Relations\<close>, and the facts about the order of the stages that need a
  condition before and after.
\<close>

section \<open>What only grows: the trace, the first failure, the flags\<close>

definition bookkeeping :: "Event \<Rightarrow> bool" where
  "bookkeeping ev = (case ev of
     EvRunCreate r e \<Rightarrow> True
   | EvLockAcquire j r t e \<Rightarrow> True
   | EvLockRelease c j e \<Rightarrow> True
   | EvRunStarted r \<Rightarrow> True
   | EvRunFinished r \<Rightarrow> True
   | _ \<Rightarrow> False)"

definition grows :: "Rc \<Rightarrow> Rc \<Rightarrow> bool" where
  "grows s t \<longleftrightarrow> (\<exists>evs. rc_trace t = evs @ rc_trace s \<and> \<not> list_ex bookkeeping evs)"

definition latched :: "Rc \<Rightarrow> Rc \<Rightarrow> bool" where
  "latched s t \<longleftrightarrow>
     (rc_failed s \<longrightarrow> rc_failed t \<and> Run_ErrorCode (rc_run t) = Run_ErrorCode (rc_run s) \<and>
        Run_ErrorMessage (rc_run t) = Run_ErrorMessage (rc_run s)) \<and>
     (rc_recoveryOut s = RecoveryFailed \<longrightarrow> rc_recoveryOut t = RecoveryFailed) \<and>
     (rc_cancelled s \<longrightarrow> rc_cancelled t) \<and> (rc_hasWarn s \<longrightarrow> rc_hasWarn t) \<and>
     (rc_archiveVerified s \<longrightarrow> rc_archiveVerified t) \<and> (rc_transport s \<longrightarrow> rc_transport t) \<and>
     Run_ID (rc_run t) = Run_ID (rc_run s) \<and> Run_Status (rc_run t) = Run_Status (rc_run s) \<and>
     Run_StartedAt (rc_run t) = Run_StartedAt (rc_run s)"

definition later :: "Rc \<Rightarrow> Rc \<Rightarrow> bool" where
  "later s t \<longleftrightarrow> grows s t \<and> latched s t"

lemma grows_refl: "grows s s"
  by (auto simp: grows_def)

lemma grows_trans: "grows s t \<Longrightarrow> grows t u \<Longrightarrow> grows s u"
  unfolding grows_def by (metis append.assoc list_ex_append)

lemma grows_event: "rc_trace t = ev # rc_trace s \<Longrightarrow> \<not> bookkeeping ev \<Longrightarrow> grows s t"
  unfolding grows_def by (intro exI [of _ "[ev]"]) simp

lemma grows_same: "rc_trace t = rc_trace s \<Longrightarrow> grows s t"
  by (simp add: grows_def)

lemma workflow_not_bookkeeping: "workflow_event ev \<Longrightarrow> \<not> bookkeeping ev"
  by (cases ev) (simp_all add: workflow_event_def bookkeeping_def)

text \<open>How the primitive effects act, for every relation below.\<close>

lemma state_io_persist:
  assumes "\<And>s r. R s (s\<lparr>rc_trace := EvStepCreate ctx step (rc_position s) (Some r) # rc_trace s\<rparr>)"
    and "\<And>s. R s (s\<lparr>rc_trace := EvStepCreate ctx step (rc_position s) None # rc_trace s,
                    rc_position := rc_position s + 1\<rparr>)"
  shows "state_io_rel R (persist_step env ctx step)"
proof -
  have "R s (snd (run_state (persist_step env ctx step) s))" for s
    using assms(1) [of s] assms(2) [of s]
    by (auto simp: persist_step_def split: option.split)
  then show ?thesis by (simp add: state_io_rel_def)
qed

lemma state_io_run:
  assumes "\<And>s. R s (s\<lparr>rc_trace := EvRun ctx cmd t (e_run env ctx cmd t (rc_trace s)) # rc_trace s\<rparr>)"
  shows "state_io_rel R (transport_run env ctx cmd t)"
  using assms by (simp add: state_io_rel_def transport_run_def)

lemma state_io_update:
  assumes "\<And>s r. R s (s\<lparr>rc_trace := EvRunUpdate ctx (rc_run s) r # rc_trace s\<rparr>)"
  shows "state_io_rel R (update_run env ctx)"
  using assms by (simp add: state_io_rel_def update_run_def)

lemma state_io_cancel:
  assumes "\<And>s e. e_ctx_err env (rc_trace s) = Some e \<Longrightarrow> R s (s\<lparr>rc_cancelled := True\<rparr>)" and "\<And>s. R s s"
  shows "state_io_rel R (checkCancelled env)"
proof -
  have "R s (snd (run_state (checkCancelled env) s))" for s
    using assms(1) [of s] assms(2) [of s] by (auto simp: checkCancelled_def split: option.split)
  then show ?thesis by (simp add: state_io_rel_def)
qed

lemma state_io_register:
  assumes "\<And>s. R s s"
    and "\<And>s e t. R s (s\<lparr>rc_entries := rc_entries s @ [e], rc_tokens := rc_tokens s @ [t]\<rparr>)"
  shows "state_io_rel R (register_script script)"
  using assms by (simp add: state_io_rel_def register_script_def Register_def)

lemma later_state: "rc_trace t = rc_trace s \<Longrightarrow> latched s t \<Longrightarrow> later s t"
  by (simp add: later_def grows_same)

interpretation later: engine_run_rel later env for env
proof unfold_locales
  show "later s s" for s by (simp add: later_def latched_def grows_refl)
  show "later s u" if "later s t" "later t u" for s t u
    using that grows_trans [of s t u] unfolding later_def latched_def by auto
  show "later s (s\<lparr>rc_trace := ev # rc_trace s\<rparr>)" if "workflow_event ev" for ev s
    using workflow_not_bookkeeping [OF that] by (auto simp: later_def latched_def intro!: grows_event)
  show "state_io_rel later (transport_run env ctx cmd t)" for ctx cmd t
    by (rule state_io_run) (auto simp: later_def latched_def bookkeeping_def intro!: grows_event)
  show "state_io_rel later (update_run env ctx)" for ctx
    by (rule state_io_update) (auto simp: later_def latched_def bookkeeping_def intro!: grows_event)
  show "state_io_rel later (persist_step env ctx step)" for ctx step
    by (rule state_io_persist) (auto simp: later_def latched_def bookkeeping_def intro!: grows_event)
  show "state_io_rel later (fail c m)" for c m
    by (auto simp: state_io_rel_def fail_def intro!: later_state simp: latched_def)
  show "state_io_rel later (warn c m)" for c m
    by (auto simp: state_io_rel_def warn_def Let_def intro!: later_state simp: latched_def)
  show "state_io_rel later (recordRecovery e)" for e
    by (auto simp: state_io_rel_def recordRecovery_def Let_def intro!: later_state simp: latched_def split: option.splits)
  show "state_io_rel later (checkCancelled env)"
    by (rule state_io_cancel) (auto intro!: later_state simp: latched_def)
  show "later s (s\<lparr>rc_trace := EvAttempt script # rc_trace s\<rparr>)" for s script
    by (auto simp: later_def latched_def bookkeeping_def intro!: grows_event)
  show "state_io_rel later (register_script script)" for script
    by (rule state_io_register) (auto intro!: later_state simp: latched_def)
  show "later s (s\<lparr>rc_trace := EvClose # rc_trace s\<rparr>)" for s
    by (auto simp: later_def latched_def bookkeeping_def intro!: grows_event)
qed (auto simp: state_io_rel_def MarkDone_def intro!: later_state simp: latched_def)

section \<open>What the stages leave alone\<close>

definition same_archive :: "Rc \<Rightarrow> Rc \<Rightarrow> bool" where
  "same_archive s t \<longleftrightarrow> rc_files t = rc_files s \<and> rc_archiveVerified t = rc_archiveVerified s \<and>
     Run_ArchiveName (rc_run t) = Run_ArchiveName (rc_run s) \<and> Run_Checksum (rc_run t) = Run_Checksum (rc_run s) \<and>
     rc_localPartPath t = rc_localPartPath s \<and> suffix (rc_trace s) (rc_trace t)"

text \<open>Scripts, checks, health check, clean-up and drain leave the archive alone.\<close>

lemma suffix_event [simp]: "suffix h (ev # h)"
  by (simp add: suffix_ConsI)

interpretation same_archive: engine_script_rel same_archive env for env
proof unfold_locales
  show "state_io_rel same_archive (transport_run env ctx cmd t)" for ctx cmd t
    by (rule state_io_run) (auto simp: same_archive_def)
  show "state_io_rel same_archive (update_run env ctx)" for ctx
    by (rule state_io_update) (auto simp: same_archive_def)
  show "state_io_rel same_archive (persist_step env ctx step)" for ctx step
    by (rule state_io_persist) (auto simp: same_archive_def)
  show "state_io_rel same_archive (checkCancelled env)"
    by (rule state_io_cancel) (auto simp: same_archive_def)
  show "state_io_rel same_archive (register_script script)" for script
    by (rule state_io_register) (auto simp: same_archive_def)
  show "state_io_rel same_archive (recordRecovery e)" for e
    by (auto simp: state_io_rel_def recordRecovery_def Let_def same_archive_def split: option.splits)
  show "same_archive s u" if "same_archive s t" "same_archive t u" for s t u
    using that by (auto simp: same_archive_def intro: suffix_order.trans)
qed (auto simp: same_archive_def state_io_rel_def fail_def warn_def MarkDone_def Let_def)

definition same_verified :: "Rc \<Rightarrow> Rc \<Rightarrow> bool" where
  "same_verified s t \<longleftrightarrow> rc_archiveVerified t = rc_archiveVerified s \<and> set (rc_trace s) \<subseteq> set (rc_trace t)"

text \<open>Only the verification sets the flag.\<close>

interpretation same_verified: engine_download_rel same_verified env for env
proof unfold_locales
  show "state_io_rel same_verified (transport_run env ctx cmd t)" for ctx cmd t
    by (rule state_io_run) (auto simp: same_verified_def)
  show "state_io_rel same_verified (update_run env ctx)" for ctx
    by (rule state_io_update) (auto simp: same_verified_def)
  show "state_io_rel same_verified (persist_step env ctx step)" for ctx step
    by (rule state_io_persist) (auto simp: same_verified_def)
  show "state_io_rel same_verified (checkCancelled env)"
    by (rule state_io_cancel) (auto simp: same_verified_def)
  show "state_io_rel same_verified (recordRecovery e)" for e
    by (auto simp: state_io_rel_def recordRecovery_def Let_def same_verified_def split: option.splits)
qed (auto simp: same_verified_def state_io_rel_def fail_def warn_def Let_def)

section \<open>Cancellation is final\<close>

text \<open>The law of Go contexts: once done, a context stays done.\<close>

definition ctx_sticky :: "Env \<Rightarrow> bool" where
  "ctx_sticky env \<longleftrightarrow> (\<forall>h ev. e_ctx_err env h \<noteq> None \<longrightarrow> e_ctx_err env (ev # h) \<noteq> None)"

definition cancel_seen :: "Env \<Rightarrow> Rc \<Rightarrow> bool" where
  "cancel_seen env s \<longleftrightarrow> (rc_cancelled s \<longrightarrow> e_ctx_err env (rc_trace s) \<noteq> None)"

definition keeps_cancel :: "Env \<Rightarrow> Rc \<Rightarrow> Rc \<Rightarrow> bool" where
  "keeps_cancel env s t \<longleftrightarrow> (ctx_sticky env \<longrightarrow> cancel_seen env s \<longrightarrow> cancel_seen env t)"

lemma keeps_cancel_event:
  "rc_trace t = ev # rc_trace s \<Longrightarrow> rc_cancelled t = rc_cancelled s \<Longrightarrow> keeps_cancel env s t"
  by (auto simp: keeps_cancel_def ctx_sticky_def cancel_seen_def)

lemma keeps_cancel_same:
  "rc_trace t = rc_trace s \<Longrightarrow> rc_cancelled t = rc_cancelled s \<Longrightarrow> keeps_cancel env s t"
  by (auto simp: keeps_cancel_def cancel_seen_def)

interpretation keeps_cancel: engine_run_rel "keeps_cancel env" env for env
proof unfold_locales
  show "state_io_rel (keeps_cancel env) (transport_run env ctx cmd t)" for ctx cmd t
    by (rule state_io_run) (rule keeps_cancel_event, simp_all)
  show "state_io_rel (keeps_cancel env) (update_run env ctx)" for ctx
    by (rule state_io_update) (rule keeps_cancel_event, simp_all)
  show "state_io_rel (keeps_cancel env) (persist_step env ctx step)" for ctx step
    by (rule state_io_persist) (auto intro!: keeps_cancel_event)
  show "state_io_rel (keeps_cancel env) (checkCancelled env)"
    by (rule state_io_cancel) (auto simp: keeps_cancel_def cancel_seen_def)
  show "state_io_rel (keeps_cancel env) (register_script script)" for script
    by (rule state_io_register) (auto intro!: keeps_cancel_same)
  show "state_io_rel (keeps_cancel env) (recordRecovery e)" for e
    by (auto simp: state_io_rel_def recordRecovery_def Let_def intro!: keeps_cancel_same split: option.splits)
  show "keeps_cancel env s u" if "keeps_cancel env s t" "keeps_cancel env t u" for s t u
    using that by (auto simp: keeps_cancel_def)
  show "keeps_cancel env s (s\<lparr>rc_trace := ev # rc_trace s\<rparr>)" for s ev
    by (rule keeps_cancel_event) simp_all
  show "keeps_cancel env s (s\<lparr>rc_trace := EvAttempt script # rc_trace s\<rparr>)" for s script
    by (rule keeps_cancel_event) simp_all
  show "keeps_cancel env s (s\<lparr>rc_trace := EvClose # rc_trace s\<rparr>)" for s
    by (rule keeps_cancel_event) simp_all
qed (auto simp: state_io_rel_def fail_def warn_def MarkDone_def Let_def intro!: keeps_cancel_same)

section \<open>Step positions\<close>

text \<open>The positions of the steps that were persisted, newest first.\<close>

fun created_positions :: "Trace \<Rightarrow> int list" where
  "created_positions [] = []"
| "created_positions (EvStepCreate c st p None # h) = p # created_positions h"
| "created_positions (ev # h) = created_positions h"

definition positions_ok :: "Rc \<Rightarrow> bool" where
  "positions_ok s \<longleftrightarrow> (\<exists>n. rc_position s = int n \<and> created_positions (rc_trace s) = rev (map int [0 ..< n]))"

definition keeps_positions :: "Rc \<Rightarrow> Rc \<Rightarrow> bool" where
  "keeps_positions s t \<longleftrightarrow> (positions_ok s \<longrightarrow> positions_ok t)"

lemma created_positions_workflow:
  "workflow_event ev \<Longrightarrow> created_positions (ev # h) = created_positions h"
  by (cases ev) (simp_all add: workflow_event_def)

lemma keeps_positions_same:
  "created_positions (rc_trace t) = created_positions (rc_trace s) \<Longrightarrow> rc_position t = rc_position s \<Longrightarrow>
   keeps_positions s t"
  by (simp add: keeps_positions_def positions_ok_def)

interpretation keeps_positions: engine_run_rel keeps_positions env for env
proof unfold_locales
  show "state_io_rel keeps_positions (transport_run env ctx cmd t)" for ctx cmd t
    by (rule state_io_run) (rule keeps_positions_same, simp_all)
  show "state_io_rel keeps_positions (update_run env ctx)" for ctx
    by (rule state_io_update) (rule keeps_positions_same, simp_all)
  show "state_io_rel keeps_positions (persist_step env ctx step)" for ctx step
  proof (rule state_io_persist)
    show "keeps_positions s (s\<lparr>rc_trace := EvStepCreate ctx step (rc_position s) None # rc_trace s,
        rc_position := rc_position s + 1\<rparr>)" for s
      unfolding keeps_positions_def positions_ok_def
    proof (rule impI, elim exE conjE)
      fix n
      assume "rc_position s = int n" and "created_positions (rc_trace s) = rev (map int [0 ..< n])"
      then show "\<exists>m. rc_position (s\<lparr>rc_trace := EvStepCreate ctx step (rc_position s) None # rc_trace s,
            rc_position := rc_position s + 1\<rparr>) = int m \<and>
          created_positions (rc_trace (s\<lparr>rc_trace := EvStepCreate ctx step (rc_position s) None # rc_trace s,
            rc_position := rc_position s + 1\<rparr>)) = rev (map int [0 ..< m])"
        by (intro exI [of _ "Suc n"]) simp
    qed
  qed (auto intro!: keeps_positions_same)
  show "state_io_rel keeps_positions (checkCancelled env)"
    by (rule state_io_cancel) (auto intro!: keeps_positions_same)
  show "state_io_rel keeps_positions (register_script script)" for script
    by (rule state_io_register) (auto intro!: keeps_positions_same)
  show "state_io_rel keeps_positions (recordRecovery e)" for e
    by (auto simp: state_io_rel_def recordRecovery_def Let_def intro!: keeps_positions_same split: option.splits)
  show "keeps_positions s u" if "keeps_positions s t" "keeps_positions t u" for s t u
    using that by (auto simp: keeps_positions_def)
  show "keeps_positions s (s\<lparr>rc_trace := ev # rc_trace s\<rparr>)" if "workflow_event ev" for ev s
    using created_positions_workflow [OF that] by (intro keeps_positions_same) simp_all
qed (auto simp: state_io_rel_def fail_def warn_def MarkDone_def Let_def intro!: keeps_positions_same)

section \<open>A stage that gives up has recorded the failure\<close>

lemma hoare_fail: "hoare P (fail c m) (\<lambda>_. rc_failed)"
  by (simp add: hoare_def fail_def)

lemma hoare_failed_keep: "state_io_rel later m \<Longrightarrow> hoare rc_failed m (\<lambda>_. rc_failed)"
  by (rule hoare_keep [where R = later]) (auto simp: later_def latched_def)

lemma hoare_fail_rest:
  assumes "\<And>x. state_io_rel later (f x)" and "\<And>x s. rc_failed s \<Longrightarrow> Q x s"
  shows "hoare P (State_Monad.bind (fail c m) f) Q"
  by (rule hoare_bind [OF hoare_fail], rule hoare_post [OF hoare_failed_keep [OF assms(1)]], rule assms(2))

lemma remoteChecksum_None: "hoare P (remoteChecksum env) (\<lambda>r s. r = None \<longrightarrow> rc_failed s)"
  unfolding remoteChecksum_def
proof (rule hoare_skip, rule hoare_sum)
  fix start
  show "hoare (\<lambda>_. True) (do { fail ErrInternal ''could not record remote checksum step''; ret None })
      (\<lambda>r s. r = None \<longrightarrow> rc_failed s)"
    by (rule hoare_fail_rest) (auto intro: later.io_return)
next
  fix step0
  show "hoare (\<lambda>_. True)
     (do { path \<leftarrow> gets rc_remoteArchivePath;
           res \<leftarrow> runRemote env (checksum_command path);
           (case good_sum res of
              None \<Rightarrow> do {
                fail ErrArchiveFailed ''could not compute the remote archive checksum'';
                step \<leftarrow> with_run_error step0;
                close_step env RunCtx (stepStatus False) step
              }
            | Some digest \<Rightarrow> close_step env RunCtx (stepStatus True) (step0\<lparr>Step_Output := digest\<rparr>));
           ret (good_sum res) })
     (\<lambda>r s. r = None \<longrightarrow> rc_failed s)" (is "hoare _ ?m _")
  proof (rule hoare_skip, rule hoare_skip)
    fix path res
    show "hoare (\<lambda>_. True)
     (do { (case good_sum res of
              None \<Rightarrow> do {
                fail ErrArchiveFailed ''could not compute the remote archive checksum'';
                step \<leftarrow> with_run_error step0;
                close_step env RunCtx (stepStatus False) step
              }
            | Some digest \<Rightarrow> close_step env RunCtx (stepStatus True) (step0\<lparr>Step_Output := digest\<rparr>));
           ret (good_sum res) })
     (\<lambda>r s. r = None \<longrightarrow> rc_failed s)"
    proof (cases "good_sum res")
      case None
      have "hoare (\<lambda>_. True)
        (do { fail ErrArchiveFailed ''could not compute the remote archive checksum'';
              step \<leftarrow> with_run_error step0;
              close_step env RunCtx (stepStatus False) step }) (\<lambda>_. rc_failed)"
        by (rule hoare_fail_rest) (intro later.io_bind later.step_rules)
      then show ?thesis unfolding None option.simps by (rule hoare_then) (rule hoare_return, simp)
    next
      case (Some d)
      show ?thesis unfolding Some option.simps by (rule hoare_skip) (rule hoare_return, simp)
    qed
  qed
qed

lemma downloadArchive_None: "hoare P (downloadArchive env) (\<lambda>r s. r = None \<longrightarrow> rc_failed s)"
  unfolding downloadArchive_def
proof (rule hoare_skip, rule hoare_sum)
  show "hoare (\<lambda>_. True) (do { fail ErrInternal ''could not record download step''; ret None })
      (\<lambda>r s. r = None \<longrightarrow> rc_failed s)"
    by (rule hoare_fail_rest) (auto intro: later.io_return)
next
  fix step0
  show "hoare (\<lambda>_. True)
     (do { modify (\<lambda>s. s\<lparr>rc_localPartPath := path_join (e_destDir env) (Run_ArchiveName (rc_run s) @ ''.part'')\<rparr>);
           d \<leftarrow> streamDownload env;
           case d of
             Inl e \<Rightarrow> do {
               fail (case CodeOf e of Some code \<Rightarrow> code | None \<Rightarrow> ErrDownloadFailed) (e_redact env (Error e));
               step \<leftarrow> with_run_error step0;
               deletePart env;
               close_step env RunCtx StepFailed step;
               ret None
             }
           | Inr digest \<Rightarrow> do { close_step env RunCtx StepSuccess step0; ret (Some digest) } })
     (\<lambda>r s. r = None \<longrightarrow> rc_failed s)"
  proof (rule hoare_skip, rule hoare_skip, rule hoare_sum)
    fix e
    show "hoare (\<lambda>_. True)
      (do { fail (case CodeOf e of Some code \<Rightarrow> code | None \<Rightarrow> ErrDownloadFailed) (e_redact env (Error e));
            step \<leftarrow> with_run_error step0;
            deletePart env;
            close_step env RunCtx StepFailed step;
            ret None }) (\<lambda>r s. r = None \<longrightarrow> rc_failed s)"
      by (rule hoare_fail_rest) (intro later.io_bind later.step_rules later.io_deletePart later.io_return, simp_all)
  next
    fix d
    show "hoare (\<lambda>_. True) (do { close_step env RunCtx StepSuccess step0; ret (Some d) })
        (\<lambda>r s. r = None \<longrightarrow> rc_failed s)"
      by (rule hoare_skip) (rule hoare_return, simp)
  qed
qed

text \<open>What \<^verbatim>\<open>verifyChecksums\<close> does once its step is recorded.\<close>

lemma mismatch_outcome:
  "hoare P (do { fail c m; step \<leftarrow> with_run_error step0; deletePart env; close_step env RunCtx StepFailed step })
     (\<lambda>_ s. rc_failed s \<or> rc_archiveVerified s)"
  by (rule hoare_fail_rest) (intro later.io_bind later.step_rules later.io_deletePart, simp_all)

lemma rename_failed_outcome:
  "hoare P (do { fail c m; step \<leftarrow> with_run_error step0; close_step env RunCtx StepFailed step })
     (\<lambda>_ s. rc_failed s \<or> rc_archiveVerified s)"
  by (rule hoare_fail_rest) (intro later.io_bind later.step_rules, simp_all)

lemma finalize_outcome:
  "hoare P (do { finalize_archive env p d; close_step env RunCtx StepSuccess step0 })
     (\<lambda>_ s. rc_failed s \<or> rc_archiveVerified s)"
proof (rule hoare_then)
  show "hoare P (finalize_archive env p d) (\<lambda>_. rc_archiveVerified)"
    by (simp add: hoare_def finalize_archive_def file_op_def)
  show "hoare rc_archiveVerified (close_step env RunCtx StepSuccess step0) (\<lambda>_ s. rc_failed s \<or> rc_archiveVerified s)"
    by (rule hoare_keep [OF later.io_close_step]) (auto simp: later_def latched_def)
qed

lemma verifyChecksums_outcome:
  "hoare P (verifyChecksums env a b) (\<lambda>_ s. rc_failed s \<or> rc_archiveVerified s)"
  unfolding verifyChecksums_def
proof (rule hoare_skip, rule hoare_sum)
  show "hoare (\<lambda>_. True) (fail c m) (\<lambda>_ s. rc_failed s \<or> rc_archiveVerified s)" for c m
    by (rule hoare_post [OF hoare_fail]) simp
  fix step0
  show "hoare (\<lambda>_. True)
      (if a \<noteq> b then do {
           fail ErrChecksumMismatch (''checksum mismatch: remote '' @ a @ '', local '' @ b);
           step \<leftarrow> with_run_error step0;
           deletePart env;
           close_step env RunCtx StepFailed step
         }
       else do {
           finalPath \<leftarrow> gets (\<lambda>s. path_join (e_destDir env) (Run_ArchiveName (rc_run s)));
           m \<leftarrow> rename_part env finalPath;
           case m of
             Some e \<Rightarrow> do {
               fail ErrDownloadFailed (''could not finalize downloaded archive: '' @ Error e);
               step \<leftarrow> with_run_error step0;
               close_step env RunCtx StepFailed step
             }
           | None \<Rightarrow> do { finalize_archive env finalPath b; close_step env RunCtx StepSuccess step0 }
         }) (\<lambda>_ s. rc_failed s \<or> rc_archiveVerified s)"
    by (rule hoare_if, rule mismatch_outcome, rule hoare_skip, rule hoare_skip, rule hoare_option,
        rule finalize_outcome, rule rename_failed_outcome)
qed

lemma downloadAndVerify_outcome:
  "hoare P (downloadAndVerify env) (\<lambda>_ s. rc_failed s \<or> rc_archiveVerified s)"
  unfolding downloadAndVerify_def
proof (rule hoare_bind [OF remoteChecksum_None], intro hoare_option)
  fix r :: "string option"
  assume "r = None"
  then show "hoare (\<lambda>s. r = None \<longrightarrow> rc_failed s) (ret ()) (\<lambda>_ s. rc_failed s \<or> rc_archiveVerified s)"
    by (intro hoare_return) simp
next
  fix r :: "string option" and remoteSum
  show "hoare (\<lambda>s. r = None \<longrightarrow> rc_failed s)
      (do { l \<leftarrow> downloadArchive env;
            case l of
              None \<Rightarrow> ret ()
            | Some localSum \<Rightarrow> do { localChecksumStep env localSum; verifyChecksums env remoteSum localSum } })
      (\<lambda>_ s. rc_failed s \<or> rc_archiveVerified s)"
  proof (rule hoare_bind [OF downloadArchive_None], rule hoare_option)
    show "hoare (\<lambda>s. l = None \<longrightarrow> rc_failed s) (ret ()) (\<lambda>_ s. rc_failed s \<or> rc_archiveVerified s)"
      if "l = None" for l :: "string option"
      using that by (intro hoare_return) simp
    show "hoare (\<lambda>s. l = None \<longrightarrow> rc_failed s)
        (do { localChecksumStep env d; verifyChecksums env remoteSum d })
        (\<lambda>_ s. rc_failed s \<or> rc_archiveVerified s)" for l d
      by (rule hoare_skip) (rule verifyChecksums_outcome)
  qed
qed

text \<open>The stages end cancelled, failed or with a verified archive.\<close>

definition outcome_known :: "Rc \<Rightarrow> bool" where
  "outcome_known s \<longleftrightarrow> rc_cancelled s \<or> rc_failed s \<or> rc_archiveVerified s"

lemma outcome_known_later: "later s t \<Longrightarrow> outcome_known s \<Longrightarrow> outcome_known t"
  by (auto simp: later_def latched_def outcome_known_def)

lemma hoare_outcome_keep: "state_io_rel later m \<Longrightarrow> hoare outcome_known m (\<lambda>_. outcome_known)"
  by (rule hoare_keep [where R = later]) (auto intro: outcome_known_later)

lemma hoare_unless_cancelled:
  "(hoare (\<lambda>_. True) m (\<lambda>_. outcome_known)) \<Longrightarrow> hoare P (unless_cancelled env m) (\<lambda>_. outcome_known)"
  unfolding unless_cancelled_def
proof (rule hoare_bind)
  show "hoare P (checkCancelled env) (\<lambda>c s. c \<longrightarrow> rc_cancelled s)"
    by (simp add: hoare_def checkCancelled_def split: option.split)
  assume m: "hoare (\<lambda>_. True) m (\<lambda>_. outcome_known)"
  show "hoare (\<lambda>s. c \<longrightarrow> rc_cancelled s) (if c then ret () else m) (\<lambda>_. outcome_known)" for c
    by (intro hoare_if hoare_return hoare_pre [OF m]) (auto simp: outcome_known_def)
qed

lemma hoare_unless_failed_download:
  "hoare P (unless_failed (downloadAndVerify env)) (\<lambda>_. outcome_known)"
  unfolding unless_failed_def
proof (rule hoare_bind)
  show "hoare P (gets rc_failed) (\<lambda>f s. f = rc_failed s)" by (rule hoare_gets) simp
  show "hoare (\<lambda>s. f = rc_failed s) (when_do (\<not> f) (downloadAndVerify env)) (\<lambda>_. outcome_known)" for f
    by (intro hoare_when hoare_post [OF downloadAndVerify_outcome]) (auto simp: outcome_known_def)
qed

lemma stages_outcome: "hoare P (stages env) (\<lambda>_. outcome_known)"
proof -
  let ?final = "do {
      unless_failed (healthCheck env);
      remoteCleanup env;
      failed \<leftarrow> gets rc_failed;
      verified \<leftarrow> gets rc_archiveVerified;
      when_do (\<not> failed \<and> verified \<and> e_has_retention env) (applyRetention env)
    }"
  let ?rest = "unless_cancelled env (do { runScripts env ScriptPostBackup; unless_cancelled env ?final })"
  have rest: "state_io_rel later ?rest"
    by (intro later.io_bind later.io_unless_failed later.io_when later.io_gets later.io_healthCheck
        later.io_remoteCleanup later.io_applyRetention later.io_unless_cancelled later.io_runScripts)
  show ?thesis
    unfolding stages_def
    by (rule hoare_skip, rule hoare_unless_cancelled, rule hoare_skip, rule hoare_unless_cancelled,
        rule hoare_then [OF hoare_unless_failed_download], rule hoare_outcome_keep [OF rest])
qed

abbreviation says_why :: "bool \<Rightarrow> Rc \<Rightarrow> bool" where
  "says_why \<equiv> \<lambda>ok s. \<not> ok \<longrightarrow> rc_failed s"

lemma fail_False: "hoare P (do { fail c m; ret False }) says_why"
  by (rule hoare_fail_rest) (simp_all add: later.io_return)

lemma hoare_require:
  assumes "hoare (\<lambda>_. True) m says_why"
  shows "hoare P (require r m) says_why"
  unfolding require_def by (rule hoare_if, rule fail_False, rule hoare_pre [OF assms], simp)

lemma hoare_require_each:
  assumes "hoare (\<lambda>_. True) m says_why"
  shows "hoare (\<lambda>_. True) (require_each chk xs m) says_why"
  by (induction xs) (auto intro: assms hoare_skip hoare_require)

lemma preflight_checks_outcome: "hoare (\<lambda>_. True) (preflight_checks env) says_why"
  unfolding preflight_checks_def Let_def
  by (rule hoare_require_each, rule hoare_require_each, rule hoare_skip, rule hoare_require,
      rule hoare_skip, rule hoare_skip, rule hoare_skip, rule hoare_require, rule hoare_skip, rule hoare_skip,
      rule hoare_require, rule hoare_skip, rule hoare_require, rule hoare_skip, rule hoare_return, simp)

lemma runPreflight_outcome: "hoare (\<lambda>_. True) (runPreflight env) says_why"
  unfolding runPreflight_def
  by (rule hoare_option, rule hoare_skip, rule hoare_option, rule hoare_skip, rule hoare_skip,
      rule preflight_checks_outcome, rule fail_False, rule fail_False)

lemma preflight_outcome: "hoare P (preflight env) says_why"
  unfolding preflight_def
proof (rule hoare_skip, rule hoare_sum, rule fail_False)
  fix step0
  have keep: "state_io_rel later m \<Longrightarrow> hoare (says_why ok) m (\<lambda>_. says_why ok)" for m :: "'a Step" and ok
    by (rule hoare_keep [where R = later]) (auto simp: later_def latched_def)
  show "hoare (\<lambda>_. True)
      (do { ok \<leftarrow> runPreflight env;
            step \<leftarrow> with_run_error step0;
            close_step env RunCtx (stepStatus ok) step;
            ret ok }) says_why"
    by (rule hoare_bind [OF runPreflight_outcome], rule hoare_then [OF keep [OF later.io_with_run_error]],
        rule hoare_then [OF keep [OF later.io_close_step]], rule hoare_return)
qed

lemma execute_outcome: "hoare P (execute env) (\<lambda>_. outcome_known)"
  unfolding execute_def
proof (rule hoare_bind [OF preflight_outcome])
  fix ok
  have "hoare (says_why ok) (if \<not> ok then ret () else do { stages env; close_transport }) (\<lambda>_. outcome_known)"
    by (rule hoare_if, rule hoare_return, simp add: outcome_known_def,
        rule hoare_then [OF stages_outcome], rule hoare_outcome_keep [OF later.io_close_transport])
  then show "hoare (says_why ok)
      (do { (if \<not> ok then ret () else do { stages env; close_transport }); drainCleanup env }) (\<lambda>_. outcome_known)"
    by (rule hoare_then) (rule hoare_outcome_keep [OF later.io_drainCleanup])
qed

section \<open>A verified archive is on disk with the remote checksum\<close>

definition digest_seen :: "string \<Rightarrow> Rc \<Rightarrow> bool" where
  "digest_seen d s \<longleftrightarrow> (\<exists>path t res. EvRun RunCtx (checksum_command path) t res \<in> set (rc_trace s) \<and>
     good_sum res = Some d)"

definition part_digest :: "Env \<Rightarrow> string \<Rightarrow> Rc \<Rightarrow> bool" where
  "part_digest env d s \<longleftrightarrow> (\<exists>c. rc_files s (rc_localPartPath s) = Some c \<and> e_sha256 env c = d)"

text \<open>
  The archive was renamed to \<open>fp\<close> after the remote digest \<open>d\<close> was read, and it is still there with
  that digest, or the retention has removed it since.
\<close>

definition retention_took :: "string \<Rightarrow> Trace \<Rightarrow> bool" where
  "retention_took fp h \<longleftrightarrow> (\<exists>removed warnings e. EvRetention removed warnings e \<in> set h \<and> fp \<in> set removed)"

definition placed :: "Env \<Rightarrow> string \<Rightarrow> string \<Rightarrow> Rc \<Rightarrow> bool" where
  "placed env fp d s \<longleftrightarrow> (\<exists>newer part older path t res.
     rc_trace s = newer @ EvRename part fp None # older \<and>
     EvRun RunCtx (checksum_command path) t res \<in> set older \<and> good_sum res = Some d \<and>
     ((\<exists>content. rc_files s fp = Some content \<and> e_sha256 env content = d) \<or> retention_took fp newer))"

definition archive_on_disk :: "Env \<Rightarrow> Rc \<Rightarrow> bool" where
  "archive_on_disk env s \<longleftrightarrow>
     placed env (path_join (e_destDir env) (Run_ArchiveName (rc_run s))) (Run_Checksum (rc_run s)) s"

definition verified_ok :: "Env \<Rightarrow> Rc \<Rightarrow> bool" where
  "verified_ok env s \<longleftrightarrow> (rc_archiveVerified s \<longrightarrow> archive_on_disk env s)"

abbreviation unverified :: "Rc \<Rightarrow> bool" where
  "unverified s \<equiv> \<not> rc_archiveVerified s"

lemma digest_seen_mono: "set (rc_trace s) \<subseteq> set (rc_trace t) \<Longrightarrow> digest_seen d s \<Longrightarrow> digest_seen d t"
  by (auto simp: digest_seen_def)

lemma digest_seen_later: "later s t \<Longrightarrow> digest_seen d s \<Longrightarrow> digest_seen d t"
  by (rule digest_seen_mono [of s]) (auto simp: later_def grows_def)

lemma placed_later:
  assumes "placed env fp d s" and "rc_trace t = evs @ rc_trace s"
    and "rc_files t fp = rc_files s fp \<or> retention_took fp evs"
  shows "placed env fp d t"
proof -
  from assms(1) obtain newer part older path k res where
    h: "rc_trace s = newer @ EvRename part fp None # older"
      "EvRun RunCtx (checksum_command path) k res \<in> set older" "good_sum res = Some d"
    and f: "(\<exists>content. rc_files s fp = Some content \<and> e_sha256 env content = d) \<or> retention_took fp newer"
    by (auto simp: placed_def)
  have "(\<exists>content. rc_files t fp = Some content \<and> e_sha256 env content = d) \<or> retention_took fp (evs @ newer)"
    using f assms(3) by (auto simp: retention_took_def)
  then show ?thesis
    unfolding placed_def using h assms(2) by (intro exI [of _ "evs @ newer"]) auto
qed

lemma same_archive_keeps:
  assumes "same_archive s t"
  shows "verified_ok env s \<Longrightarrow> verified_ok env t" and "digest_seen d s \<Longrightarrow> digest_seen d t"
    and "part_digest env d s \<Longrightarrow> part_digest env d t" and "unverified s \<Longrightarrow> unverified t"
proof -
  have m: "digest_seen d s \<Longrightarrow> digest_seen d t" for d
    using assms digest_seen_mono [of s t] by (auto simp: same_archive_def dest: set_mono_suffix)
  obtain evs where "rc_trace t = evs @ rc_trace s"
    using assms by (auto simp: same_archive_def suffix_def)
  then show "verified_ok env s \<Longrightarrow> verified_ok env t"
    using assms placed_later [where s = s and t = t and evs = evs]
    by (auto simp: verified_ok_def archive_on_disk_def same_archive_def)
  show "digest_seen d s \<Longrightarrow> digest_seen d t" by (rule m)
  show "part_digest env d s \<Longrightarrow> part_digest env d t" "unverified s \<Longrightarrow> unverified t"
    using assms by (simp_all add: part_digest_def same_archive_def)
qed

lemma unverified_ok: "unverified s \<Longrightarrow> verified_ok env s"
  by (simp add: verified_ok_def)

lemma hoare_quiet:
  assumes "state_io_rel same_archive m"
  shows "hoare (verified_ok env) m (\<lambda>_. verified_ok env)"
    and "hoare (\<lambda>s. unverified s \<and> digest_seen a s \<and> part_digest env b s) m
      (\<lambda>_ s. unverified s \<and> digest_seen a s \<and> part_digest env b s)"
    and "hoare (\<lambda>s. unverified s \<and> digest_seen a s) m (\<lambda>_ s. unverified s \<and> digest_seen a s)"
    and "hoare unverified m (\<lambda>_. unverified)"
  by (rule hoare_keep [OF assms]; use same_archive_keeps in blast)+

lemma hoare_download_keep:
  assumes "state_io_rel same_verified m"
  shows "hoare unverified m (\<lambda>_. unverified)"
    and "hoare (\<lambda>s. unverified s \<and> digest_seen a s) m (\<lambda>_ s. unverified s \<and> digest_seen a s)"
  by (rule hoare_keep [OF assms]; simp add: same_verified_def; use digest_seen_mono in blast)+

lemma remoteChecksum_digest:
  "hoare unverified (remoteChecksum env) (\<lambda>r s. unverified s \<and> (\<forall>d. r = Some d \<longrightarrow> digest_seen d s))"
proof (rule hoare_conj)
  show "hoare unverified (remoteChecksum env) (\<lambda>_. unverified)"
    by (rule hoare_download_keep [OF same_verified.io_remoteChecksum])
  have run: "hoare P (runRemote env (checksum_command path)) (\<lambda>res s. \<forall>d. good_sum res = Some d \<longrightarrow> digest_seen d s)"
    for P path
    by (auto simp: hoare_def runRemote_def runOnTransport_def transport_run_def digest_seen_def)
  have keep: "state_io_rel later m \<Longrightarrow> hoare (\<lambda>s. \<forall>d. r = Some d \<longrightarrow> digest_seen d s) m
      (\<lambda>_ s. \<forall>d. r = Some d \<longrightarrow> digest_seen d s)" for m :: "unit Step" and r
    by (rule hoare_keep [where R = later]) (use digest_seen_later in auto)
  show "hoare unverified (remoteChecksum env) (\<lambda>r s. \<forall>d. r = Some d \<longrightarrow> digest_seen d s)"
    unfolding remoteChecksum_def
    by (rule hoare_skip, rule hoare_sum, rule hoare_skip, rule hoare_return, simp, rule hoare_skip,
        rule hoare_bind [OF run], rule hoare_then [OF keep], rule later.io_option,
        intro later.io_bind later.step_rules, rule later.io_close_step, rule hoare_return)
qed

lemma streamDownload_digest:
  "hoare P (streamDownload env) (\<lambda>r s. \<forall>d. r = Inr d \<longrightarrow> part_digest env d s)"
  by (auto simp: hoare_def streamDownload_def file_op_def set_file_def part_digest_def
      split: prod.split option.split)

lemma downloadArchive_digest:
  "hoare (\<lambda>s. unverified s \<and> digest_seen a s) (downloadArchive env)
     (\<lambda>r s. unverified s \<and> digest_seen a s \<and> (\<forall>d. r = Some d \<longrightarrow> part_digest env d s))"
proof -
  have part: "hoare P (downloadArchive env) (\<lambda>r s. \<forall>d. r = Some d \<longrightarrow> part_digest env d s)" for P
    unfolding downloadArchive_def
  proof (rule hoare_skip, rule hoare_sum)
    show "hoare (\<lambda>_. True) (do { fail c m; ret None }) (\<lambda>r s. \<forall>d. r = Some d \<longrightarrow> part_digest env d s)" for c m
      by (rule hoare_skip) (rule hoare_return, simp)
  next
    fix step0
    have close: "hoare (part_digest env d) (close_step env RunCtx StepSuccess step0) (\<lambda>_. part_digest env d)" for d
      by (rule hoare_keep [OF same_archive.io_close_step]) (rule same_archive_keeps)
    show "hoare (\<lambda>_. True)
     (do { modify (\<lambda>s. s\<lparr>rc_localPartPath := path_join (e_destDir env) (Run_ArchiveName (rc_run s) @ ''.part'')\<rparr>);
           d \<leftarrow> streamDownload env;
           case d of
             Inl e \<Rightarrow> do {
               fail (case CodeOf e of Some code \<Rightarrow> code | None \<Rightarrow> ErrDownloadFailed) (e_redact env (Error e));
               step \<leftarrow> with_run_error step0;
               deletePart env;
               close_step env RunCtx StepFailed step;
               ret None
             }
           | Inr digest \<Rightarrow> do { close_step env RunCtx StepSuccess step0; ret (Some digest) } })
     (\<lambda>r s. \<forall>d. r = Some d \<longrightarrow> part_digest env d s)"
      by (rule hoare_skip, rule hoare_bind [OF streamDownload_digest], rule hoare_sum,
          rule hoare_skip, rule hoare_skip, rule hoare_skip, rule hoare_skip, rule hoare_return, simp,
          rule hoare_then [OF hoare_pre [OF close]], simp, rule hoare_return, simp)
  qed
  show ?thesis
    by (rule hoare_post [OF hoare_conj [OF hoare_download_keep(2) [OF same_verified.io_downloadArchive] part]]) simp
qed

definition final_digest :: "Env \<Rightarrow> string \<Rightarrow> string \<Rightarrow> string \<Rightarrow> Rc \<Rightarrow> bool" where
  "final_digest env fp a b s \<longleftrightarrow> fp = path_join (e_destDir env) (Run_ArchiveName (rc_run s)) \<and>
     (a = b \<longrightarrow> placed env fp b s)"

lemma rename_part_final:
  "hoare (\<lambda>s. unverified s \<and> digest_seen a s \<and> part_digest env b s \<and>
       fp = path_join (e_destDir env) (Run_ArchiveName (rc_run s)))
     (rename_part env fp)
     (\<lambda>r s. unverified s \<and> (r = None \<longrightarrow> final_digest env fp a b s))"
proof -
  have "placed env fp b t"
    if s: "digest_seen b s" "part_digest env b s"
      and t: "rc_trace t = EvRename (rc_localPartPath s) fp None # rc_trace s" "rc_files t fp = rc_files s (rc_localPartPath s)"
    for s t
  proof -
    obtain path k res where r: "EvRun RunCtx (checksum_command path) k res \<in> set (rc_trace s)" "good_sum res = Some b"
      using s(1) by (auto simp: digest_seen_def)
    obtain c where c: "rc_files t fp = Some c" "e_sha256 env c = b"
      using s(2) t(2) by (auto simp: part_digest_def)
    show ?thesis
      unfolding placed_def
      by (rule exI [of _ "[]"], rule exI [of _ "rc_localPartPath s"], rule exI [of _ "rc_trace s"],
          rule exI [of _ path], rule exI [of _ k], rule exI [of _ res]) (use r c t(1) in simp)
  qed
  then show ?thesis
    by (auto simp: hoare_def rename_part_def file_op_def final_digest_def)
qed

lemma finalize_ok:
  "hoare (\<lambda>s. unverified s \<and> final_digest env fp b b s) (finalize_archive env fp b) (\<lambda>_. verified_ok env)"
proof -
  have "verified_ok env (snd (run_state (finalize_archive env fp b) s))" if s: "final_digest env fp b b s" for s
    using s placed_later [of env fp b s "snd (run_state (finalize_archive env fp b) s)"
        "[EvStat fp (e_file_op env ''stat'' fp (rc_trace s))]"]
    by (auto simp: finalize_archive_def file_op_def final_digest_def verified_ok_def archive_on_disk_def)
  then show ?thesis by (simp add: hoare_def)
qed

lemma verifyChecksums_ok:
  "hoare (\<lambda>s. unverified s \<and> digest_seen a s \<and> part_digest env b s) (verifyChecksums env a b)
     (\<lambda>_. verified_ok env)"
  unfolding verifyChecksums_def
proof (rule hoare_then [OF hoare_quiet(2) [OF same_archive.io_steps_Start]], rule hoare_sum)
  have un: "hoare unverified m (\<lambda>_. verified_ok env)" if "state_io_rel same_verified m" for m :: "unit Step"
    by (rule hoare_post [OF hoare_download_keep(1) [OF that]]) (simp add: unverified_ok)
  let ?pre = "\<lambda>s. unverified s \<and> digest_seen a s \<and> part_digest env b s"
  show "hoare ?pre (fail c m) (\<lambda>_. verified_ok env)" for c m
    by (rule hoare_pre [OF un [OF same_verified.prim_fail]]) simp
  fix step0
  have mismatch: "hoare ?pre
      (do { fail c m; step \<leftarrow> with_run_error step0; deletePart env; close_step env RunCtx StepFailed step })
      (\<lambda>_. verified_ok env)" for c m
    by (rule hoare_pre [OF un], intro same_verified.io_bind same_verified.step_rules same_verified.io_deletePart, simp)
  have failed: "hoare (\<lambda>s. unverified s \<and> (r = None \<longrightarrow> final_digest env fp a b s))
      (do { fail c m; step \<leftarrow> with_run_error step0; close_step env RunCtx StepFailed step })
      (\<lambda>_. verified_ok env)" for c m r fp
    by (rule hoare_pre [OF un], intro same_verified.io_bind same_verified.step_rules, simp)
  have verified: "hoare (\<lambda>s. unverified s \<and> (r = None \<longrightarrow> final_digest env fp a b s))
      (do { finalize_archive env fp b; close_step env RunCtx StepSuccess step0 }) (\<lambda>_. verified_ok env)"
    if "r = None" "a = b" for r :: "err option" and fp
    using that
    by (intro hoare_then [OF hoare_pre [OF finalize_ok] hoare_quiet(1) [OF same_archive.io_close_step]]) simp
  show "hoare ?pre
      (if a \<noteq> b then do {
           fail ErrChecksumMismatch (''checksum mismatch: remote '' @ a @ '', local '' @ b);
           step \<leftarrow> with_run_error step0;
           deletePart env;
           close_step env RunCtx StepFailed step
         }
       else do {
           finalPath \<leftarrow> gets (\<lambda>s. path_join (e_destDir env) (Run_ArchiveName (rc_run s)));
           m \<leftarrow> rename_part env finalPath;
           case m of
             Some e \<Rightarrow> do {
               fail ErrDownloadFailed (''could not finalize downloaded archive: '' @ Error e);
               step \<leftarrow> with_run_error step0;
               close_step env RunCtx StepFailed step
             }
           | None \<Rightarrow> do { finalize_archive env finalPath b; close_step env RunCtx StepSuccess step0 }
         }) (\<lambda>_. verified_ok env)"
  proof (rule hoare_if, rule mismatch, rule hoare_bind)
    show "hoare ?pre (gets (\<lambda>s. path_join (e_destDir env) (Run_ArchiveName (rc_run s))))
        (\<lambda>fp s. ?pre s \<and> fp = path_join (e_destDir env) (Run_ArchiveName (rc_run s)))"
      by (rule hoare_gets) simp
    assume ab: "\<not> a \<noteq> b"
    show "hoare (\<lambda>s. ?pre s \<and> fp = path_join (e_destDir env) (Run_ArchiveName (rc_run s)))
        (do { m \<leftarrow> rename_part env fp;
              case m of
                Some e \<Rightarrow> do {
                  fail ErrDownloadFailed (''could not finalize downloaded archive: '' @ Error e);
                  step \<leftarrow> with_run_error step0;
                  close_step env RunCtx StepFailed step
                }
              | None \<Rightarrow> do { finalize_archive env fp b; close_step env RunCtx StepSuccess step0 } })
        (\<lambda>_. verified_ok env)" for fp
    proof (rule hoare_bind [OF hoare_pre [OF rename_part_final [of a env b fp]]], simp, rule hoare_option)
      show "hoare (\<lambda>s. unverified s \<and> (r = None \<longrightarrow> final_digest env fp a b s))
          (do { finalize_archive env fp b; close_step env RunCtx StepSuccess step0 }) (\<lambda>_. verified_ok env)"
        if "r = None" for r :: "err option"
        using verified [OF that] ab by simp
    qed (rule failed)
  qed
qed

lemma downloadAndVerify_ok: "hoare unverified (downloadAndVerify env) (\<lambda>_. verified_ok env)"
  unfolding downloadAndVerify_def
proof (rule hoare_bind [OF remoteChecksum_digest], rule hoare_option)
  show "hoare (\<lambda>s. unverified s \<and> Q s) (ret ()) (\<lambda>_. verified_ok env)" for Q
    by (rule hoare_return) (simp add: unverified_ok)
  fix r :: "string option" and a
  assume r: "r = Some a"
  show "hoare (\<lambda>s. unverified s \<and> (\<forall>d. r = Some d \<longrightarrow> digest_seen d s))
      (do { l \<leftarrow> downloadArchive env;
            case l of
              None \<Rightarrow> ret ()
            | Some localSum \<Rightarrow> do { localChecksumStep env localSum; verifyChecksums env a localSum } })
      (\<lambda>_. verified_ok env)"
  proof (rule hoare_bind, rule hoare_pre [OF downloadArchive_digest [of a]])
    show "unverified s \<and> (\<forall>d. r = Some d \<longrightarrow> digest_seen d s) \<Longrightarrow> unverified s \<and> digest_seen a s" for s
      using r by simp
    fix l :: "string option"
    let ?pre = "\<lambda>s. unverified s \<and> digest_seen a s \<and> (\<forall>d. l = Some d \<longrightarrow> part_digest env d s)"
    have quiet: "state_io_rel same_archive (localChecksumStep env d)" for d
      unfolding localChecksumStep_def
      by (intro same_archive.io_bind same_archive.io_sum same_archive.io_return same_archive.step_rules)
    show "hoare ?pre (case l of None \<Rightarrow> ret ()
        | Some localSum \<Rightarrow> do { localChecksumStep env localSum; verifyChecksums env a localSum })
        (\<lambda>_. verified_ok env)"
    proof (rule hoare_option)
      show "hoare ?pre (ret ()) (\<lambda>_. verified_ok env)"
        by (rule hoare_return) (simp add: unverified_ok)
      fix b
      assume l: "l = Some b"
      have "hoare (\<lambda>s. unverified s \<and> digest_seen a s \<and> part_digest env b s)
          (do { localChecksumStep env b; verifyChecksums env a b }) (\<lambda>_. verified_ok env)"
        by (rule hoare_then [OF hoare_quiet(2) [OF quiet] verifyChecksums_ok])
      then show "hoare ?pre (do { localChecksumStep env b; verifyChecksums env a b }) (\<lambda>_. verified_ok env)"
        by (rule hoare_pre) (simp add: l)
    qed
  qed
qed

lemma hoare_unless_cancelled_ok:
  assumes "hoare P m (\<lambda>_. verified_ok env)" and "\<And>s t. same_archive s t \<Longrightarrow> P s \<Longrightarrow> P t"
    and "\<And>s. P s \<Longrightarrow> verified_ok env s"
  shows "hoare P (unless_cancelled env m) (\<lambda>_. verified_ok env)"
  unfolding unless_cancelled_def
  by (rule hoare_then, rule hoare_keep [OF same_archive.prim_cancel], erule (1) assms(2), rule hoare_if,
      rule hoare_return, erule assms(3), rule assms(1))

lemma unless_failed_same_verified:
  "state_io_rel same_verified m \<Longrightarrow> hoare unverified (unless_failed m) (\<lambda>_. unverified)"
  by (rule hoare_download_keep(1)) (rule same_verified.io_unless_failed)

lemma call_retention_ok: "hoare (verified_ok env) (call_retention env) (\<lambda>_. verified_ok env)"
proof -
  have "verified_ok env (snd (run_state (call_retention env) s))" if s: "verified_ok env s" for s
  proof -
    obtain removed warnings e where r: "e_retention env (rc_trace s) = (removed, warnings, e)" by (metis prod_cases3)
    let ?fp = "path_join (e_destDir env) (Run_ArchiveName (rc_run s))"
    define t where "t = snd (run_state (call_retention env) s)"
    have t: "rc_trace t = [EvRetention removed warnings e] @ rc_trace s" "rc_files t = rc_files s |` (- set removed)"
      "rc_run t = rc_run s" "rc_archiveVerified t = rc_archiveVerified s"
      by (simp_all add: t_def call_retention_def r)
    have gone: "rc_files t ?fp = rc_files s ?fp \<or> retention_took ?fp [EvRetention removed warnings e]"
      by (auto simp: retention_took_def restrict_map_def t(2))
    have "placed env ?fp d s \<Longrightarrow> placed env ?fp d t" for d
      by (erule placed_later [OF _ t(1) gone])
    with s show ?thesis unfolding t_def [symmetric] by (simp add: verified_ok_def archive_on_disk_def t(3,4))
  qed
  then show ?thesis by (simp add: hoare_def)
qed

lemma applyRetention_ok: "hoare (verified_ok env) (applyRetention env) (\<lambda>_. verified_ok env)"
  unfolding applyRetention_def
proof (rule hoare_then [OF hoare_quiet(1) [OF same_archive.prim_update]],
    rule hoare_then [OF hoare_quiet(1) [OF same_archive.io_steps_Start]], rule hoare_sum)
  show "hoare (verified_ok env) (ret ()) (\<lambda>_. verified_ok env)" by (rule hoare_return)
  fix step0
  have close: "state_io_rel same_archive (case p of (warnings, applyErr) \<Rightarrow> (case applyErr of
      Some e \<Rightarrow> do { warn ErrInternal (''retention: '' @ Error e); step \<leftarrow> with_run_error step0;
        close_step env RunCtx (stepStatus False) step }
    | None \<Rightarrow> if warnings \<noteq> [] then do { warn ErrInternal (''retention: '' @ join ''; '' warnings);
          step \<leftarrow> with_run_error step0; close_step env RunCtx (stepStatus False) step }
        else close_step env RunCtx (stepStatus True) step0))" for p
    by (intro same_archive.io_bind same_archive.io_prod same_archive.io_option same_archive.io_if same_archive.step_rules)
  show "hoare (verified_ok env) (do { (warnings, applyErr) \<leftarrow> call_retention env;
      case applyErr of
        Some e \<Rightarrow> do { warn ErrInternal (''retention: '' @ Error e); step \<leftarrow> with_run_error step0;
          close_step env RunCtx (stepStatus False) step }
      | None \<Rightarrow> if warnings \<noteq> [] then do { warn ErrInternal (''retention: '' @ join ''; '' warnings);
            step \<leftarrow> with_run_error step0; close_step env RunCtx (stepStatus False) step }
          else close_step env RunCtx (stepStatus True) step0 }) (\<lambda>_. verified_ok env)"
    by (rule hoare_then [OF call_retention_ok hoare_quiet(1) [OF close]])
qed

lemma stages_ok: "hoare unverified (stages env) (\<lambda>_. verified_ok env)"
proof -
  let ?final = "do {
      unless_failed (healthCheck env);
      remoteCleanup env;
      failed \<leftarrow> gets rc_failed;
      verified \<leftarrow> gets rc_archiveVerified;
      when_do (\<not> failed \<and> verified \<and> e_has_retention env) (applyRetention env)
    }"
  have final: "hoare (verified_ok env) ?final (\<lambda>_. verified_ok env)"
    by (rule hoare_then [OF hoare_quiet(1) [OF same_archive.io_unless_failed [OF same_archive.io_healthCheck]]],
        rule hoare_then [OF hoare_quiet(1) [OF same_archive.io_remoteCleanup]],
        rule hoare_then [OF hoare_quiet(1) [OF same_archive.io_gets]],
        rule hoare_then [OF hoare_quiet(1) [OF same_archive.io_gets]], rule hoare_when, rule applyRetention_ok, assumption)
  have rest: "hoare (verified_ok env)
      (unless_cancelled env (do { runScripts env ScriptPostBackup; unless_cancelled env ?final })) (\<lambda>_. verified_ok env)"
    by (rule hoare_unless_cancelled_ok [OF _ same_archive_keeps(1)],
        rule hoare_then [OF hoare_quiet(1) [OF same_archive.io_runScripts]],
        rule hoare_unless_cancelled_ok [OF final same_archive_keeps(1)])
  have dl: "hoare unverified (unless_failed (downloadAndVerify env)) (\<lambda>_. verified_ok env)"
    unfolding unless_failed_def
    by (rule hoare_then, rule hoare_gets, assumption, rule hoare_when, rule downloadAndVerify_ok,
        simp add: unverified_ok)
  show ?thesis
    unfolding stages_def
    by (rule hoare_then [OF hoare_quiet(4) [OF same_archive.io_runScripts]],
        rule hoare_unless_cancelled_ok [OF _ same_archive_keeps(4) unverified_ok],
        rule hoare_then [OF unless_failed_same_verified [OF same_verified.io_archive]],
        rule hoare_unless_cancelled_ok [OF _ same_archive_keeps(4) unverified_ok],
        rule hoare_then [OF dl rest]; assumption?)
qed

lemma close_transport_same: "state_io_rel same_archive close_transport"
  by (auto simp: state_io_rel_def close_transport_def record_event_def same_archive_def)

lemma execute_ok: "hoare unverified (execute env) (\<lambda>_. verified_ok env)"
  unfolding execute_def
proof (rule hoare_then [OF hoare_quiet(4) [OF same_archive.io_preflight]])
  fix ok
  have "hoare unverified (if \<not> ok then ret () else do { stages env; close_transport }) (\<lambda>_. verified_ok env)"
    by (rule hoare_if, rule hoare_return, simp add: unverified_ok,
        rule hoare_then [OF stages_ok hoare_quiet(1) [OF close_transport_same]])
  then show "hoare unverified
      (do { (if \<not> ok then ret () else do { stages env; close_transport }); drainCleanup env }) (\<lambda>_. verified_ok env)"
    by (rule hoare_then) (rule hoare_quiet(1) [OF same_archive.io_drainCleanup])
qed

end
