(* ===== verification/Cleanup_Once.thy ===== *)
theory Cleanup_Once
  imports Engine_Facts
begin

text \<open>
  The recovery guarantee of \<^verbatim>\<open>cleanup.go\<close> and \<^verbatim>\<open>scripts.go\<close>: once the transport is open, every
  ALWAYS or critical_cleanup script is attempted exactly once, in the script loops or in the
  deferred drain, whatever fails and whenever the run is cancelled.
\<close>

section \<open>Counting attempts\<close>

definition is_attempt :: "string \<Rightarrow> Event \<Rightarrow> bool" where
  "is_attempt ident ev = (case ev of EvAttempt script \<Rightarrow> Script_ID script = ident | _ \<Rightarrow> False)"

definition attempts :: "string \<Rightarrow> Trace \<Rightarrow> nat" where
  "attempts ident h = length (filter (is_attempt ident) h)"

lemma attempts_Nil [simp]: "attempts ident [] = 0"
  by (simp add: attempts_def)

lemma attempts_Cons: "attempts ident (ev # h) = (if is_attempt ident ev then 1 else 0) + attempts ident h"
  by (simp add: attempts_def)

lemma attempts_other [simp]: "\<not> is_attempt ident ev \<Longrightarrow> attempts ident (ev # h) = attempts ident h"
  by (simp add: attempts_Cons)

definition same_registry :: "Rc \<Rightarrow> Rc \<Rightarrow> bool" where
  "same_registry s t \<longleftrightarrow> rc_entries t = rc_entries s \<and> rc_tokens t = rc_tokens s \<and>
     rc_transport t = rc_transport s \<and> (\<forall>ident. attempts ident (rc_trace t) = attempts ident (rc_trace s))"

lemma workflow_not_attempt: "workflow_event ev \<Longrightarrow> \<not> is_attempt ident ev"
  by (cases ev) (simp_all add: workflow_event_def is_attempt_def)

interpretation same_registry: engine_verify_rel same_registry env for env
proof unfold_locales
  show "state_io_rel same_registry (transport_run env ctx cmd t)" for ctx cmd t
    by (rule state_io_run) (auto simp: same_registry_def is_attempt_def)
  show "state_io_rel same_registry (update_run env ctx)" for ctx
    by (rule state_io_update) (auto simp: same_registry_def is_attempt_def)
  show "state_io_rel same_registry (persist_step env ctx step)" for ctx step
    by (rule state_io_persist) (auto simp: same_registry_def is_attempt_def)
  show "state_io_rel same_registry (checkCancelled env)"
    by (rule state_io_cancel) (auto simp: same_registry_def)
  show "state_io_rel same_registry (recordRecovery e)" for e
    by (auto simp: state_io_rel_def recordRecovery_def Let_def same_registry_def split: option.splits)
  show "same_registry s (s\<lparr>rc_trace := ev # rc_trace s\<rparr>)" if "workflow_event ev" for ev s
    using workflow_not_attempt [OF that] by (simp add: same_registry_def)
qed (auto simp: same_registry_def state_io_rel_def fail_def warn_def Let_def)

section \<open>The registry\<close>

definition guards :: "Env \<Rightarrow> Script list" where
  "guards env = filter guaranteed (Job_Scripts (e_job env))"

definition registry_ok :: "Env \<Rightarrow> Rc \<Rightarrow> bool" where
  "registry_ok env s \<longleftrightarrow> rc_transport s \<and> map en_script (rc_entries s) = guards env \<and>
     rc_tokens s = zip (guards env) [0 ..< length (guards env)]"

definition counted :: "Env \<Rightarrow> Rc \<Rightarrow> bool" where
  "counted env s \<longleftrightarrow> registry_ok env s \<and>
     (\<forall>i < length (guards env).
        attempts (Script_ID (guards env ! i)) (rc_trace s) = (if en_done (rc_entries s ! i) then 1 else 0))"

text \<open>\<open>X\<close> is the set of scripts the loops have not reached yet.\<close>

definition once_inv :: "Env \<Rightarrow> Script set \<Rightarrow> Rc \<Rightarrow> bool" where
  "once_inv env X s \<longleftrightarrow> counted env s \<and> (\<forall>x \<in> X. attempts (Script_ID x) (rc_trace s) = 0)"

definition distinct_ids :: "Env \<Rightarrow> bool" where
  "distinct_ids env \<longleftrightarrow> distinct (map Script_ID (Job_Scripts (e_job env)))"

lemma once_inv_mono: "Y \<subseteq> X \<Longrightarrow> once_inv env X s \<Longrightarrow> once_inv env Y s"
  by (auto simp: once_inv_def)

lemma same_registry_once: "same_registry s t \<Longrightarrow> once_inv env X s \<Longrightarrow> once_inv env X t"
  by (simp add: same_registry_def once_inv_def counted_def registry_ok_def)

lemma hoare_once_keep: "state_io_rel same_registry m \<Longrightarrow> hoare (once_inv env X) m (\<lambda>_. once_inv env X)"
  by (rule hoare_keep [where R = same_registry]) (auto intro: same_registry_once)

lemma same_id:
  "distinct_ids env \<Longrightarrow> x \<in> set (Job_Scripts (e_job env)) \<Longrightarrow> y \<in> set (Job_Scripts (e_job env)) \<Longrightarrow>
   Script_ID x = Script_ID y \<Longrightarrow> x = y"
  by (auto simp: distinct_ids_def distinct_map inj_on_def)

lemma guards_in: "i < length (guards env) \<Longrightarrow> guards env ! i \<in> set (Job_Scripts (e_job env))"
  using nth_mem [of i "guards env"] by (simp add: guards_def)

lemma in_guards:
  "x \<in> set (Job_Scripts (e_job env)) \<Longrightarrow> guaranteed x \<Longrightarrow> \<exists>i < length (guards env). guards env ! i = x"
  using in_set_conv_nth [of x "guards env"] by (auto simp: guards_def)

lemma distinct_guards: "distinct_ids env \<Longrightarrow> distinct (guards env)"
  by (simp add: distinct_ids_def distinct_map guards_def)

lemma find_entry_none:
  assumes "distinct_ids env" "x \<in> set (Job_Scripts (e_job env))" "\<not> guaranteed x"
  shows "findCleanupEntry x (zip (guards env) ns) = None"
proof -
  have "Script_ID y \<noteq> Script_ID x" if "y \<in> set (guards env)" for y
    using same_id [OF assms(1), of y x] assms(2,3) that by (auto simp: guards_def)
  then show ?thesis
    by (auto simp: findCleanupEntry_def find_None_iff dest: set_zip_leftD)
qed

lemma find_entry_some:
  assumes "distinct_ids env" "i < length (guards env)"
  shows "findCleanupEntry (guards env ! i) (zip (guards env) [0 ..< length (guards env)]) = Some i"
proof -
  let ?P = "\<lambda>t. Script_ID (fst t) = Script_ID (guards env ! i)"
  have "\<not> ?P (zip (guards env) [0 ..< length (guards env)] ! j)" if "j < i" for j
  proof
    assume "?P (zip (guards env) [0 ..< length (guards env)] ! j)"
    then have "guards env ! j = guards env ! i"
      using that assms same_id [OF assms(1) guards_in guards_in, of j i] by simp
    then show False using that assms distinct_guards [OF assms(1)] by (simp add: nth_eq_iff_index_eq)
  qed
  then have "find ?P (zip (guards env) [0 ..< length (guards env)]) = Some (guards env ! i, i)"
    using assms by (auto simp: find_Some_iff intro!: exI [of _ i])
  then show ?thesis by (simp add: findCleanupEntry_def)
qed

section \<open>One script\<close>

definition mid_inv :: "Env \<Rightarrow> Script \<Rightarrow> Script set \<Rightarrow> Rc \<Rightarrow> bool" where
  "mid_inv env x X s \<longleftrightarrow> registry_ok env s \<and>
     (\<forall>i < length (guards env). attempts (Script_ID (guards env ! i)) (rc_trace s) =
        (if guards env ! i = x then 1 else if en_done (rc_entries s ! i) then 1 else 0)) \<and>
     (\<forall>y \<in> X. attempts (Script_ID y) (rc_trace s) = 0)"

lemma same_registry_mid: "same_registry s t \<Longrightarrow> mid_inv env x X s \<Longrightarrow> mid_inv env x X t"
  by (simp add: same_registry_def mid_inv_def registry_ok_def)

lemma hoare_mid_keep: "state_io_rel same_registry m \<Longrightarrow> hoare (mid_inv env x X) m (\<lambda>_. mid_inv env x X)"
  by (rule hoare_keep [where R = same_registry]) (auto intro: same_registry_mid)

lemma attempt_mid:
  assumes "distinct_ids env" "x \<in> set (Job_Scripts (e_job env))" "X \<subseteq> set (Job_Scripts (e_job env))" "x \<notin> X"
  shows "hoare (once_inv env (insert x X)) (record_event (EvAttempt x)) (\<lambda>_. mid_inv env x X)"
proof -
  have one: "attempts (Script_ID y) (EvAttempt x # h) = (if y = x then 1 else 0) + attempts (Script_ID y) h"
    if "y \<in> set (Job_Scripts (e_job env))" for y h
    using same_id [OF assms(1) assms(2) that] by (auto simp: attempts_Cons is_attempt_def)
  show ?thesis
    using assms(3,4) guards_in [of _ env]
    by (auto simp: hoare_def record_event_def once_inv_def mid_inv_def counted_def registry_ok_def one subset_iff)
qed

lemma run_recorded_mid:
  assumes "distinct_ids env" "x \<in> set (Job_Scripts (e_job env))" "X \<subseteq> set (Job_Scripts (e_job env))" "x \<notin> X"
  shows "hoare (once_inv env (insert x X)) (runScriptRecorded env ctx x st) (\<lambda>_. mid_inv env x X)"
  unfolding runScriptRecorded_def Let_def
  by (rule hoare_then [OF attempt_mid [OF assms]], rule hoare_mid_keep)
    (intro same_registry.io_bind same_registry.io_sum same_registry.io_steps_Start same_registry.io_executeScript
      same_registry.io_close_step same_registry.io_return)

lemma mark_done_once:
  assumes "distinct_ids env" "i < length (guards env)" "guards env ! i = x"
  shows "hoare (mid_inv env x X) (MarkDone i) (\<lambda>_. once_inv env X)"
proof -
  have same: "guards env ! j = x \<longleftrightarrow> j = i" if "j < length (guards env)" for j
    using assms that distinct_guards [OF assms(1)] by (metis nth_eq_iff_index_eq)
  have len: "length es = length (guards env)" and scr: "en_script (es ! i) = guards env ! i"
    if "map en_script es = guards env" for es
    using assms(2) that by (metis length_map, metis length_map nth_map)
  have upd: "map en_script (es[i := (es ! i)\<lparr>en_done := b\<rparr>]) = guards env" if "map en_script es = guards env" for es b
    using that scr [OF that] assms(2) by (simp add: map_update)
  show ?thesis
    using assms(2) same len upd
    by (auto simp: hoare_def MarkDone_def mid_inv_def once_inv_def counted_def registry_ok_def nth_list_update)
qed

lemma mid_unguarded:
  "\<not> guaranteed x \<Longrightarrow> mid_inv env x X s \<Longrightarrow> once_inv env X s"
  using nth_mem [of _ "guards env"]
  by (auto simp: mid_inv_def once_inv_def counted_def guards_def)

lemma run_one_script_once:
  assumes "distinct_ids env" "x \<in> set (Job_Scripts (e_job env))" "X \<subseteq> set (Job_Scripts (e_job env))" "x \<notin> X"
  shows "hoare (once_inv env (insert x X)) (run_one_script env ty x) (\<lambda>_. once_inv env X)"
  unfolding run_one_script_def
proof (rule hoare_then [OF hoare_once_keep [OF same_registry.io_gets]], rule hoare_if)
  fix failed
  show "hoare (once_inv env (insert x X))
      (do { steps_Skip env RunCtx (scriptStepType ty) skip_reason (Script_Command x); ret () }) (\<lambda>_. once_inv env X)"
    by (rule hoare_post [OF hoare_once_keep], intro same_registry.io_bind same_registry.io_steps_Skip
        same_registry.io_return) (auto simp: once_inv_def)
next
  have tail: "hoare (once_inv env X)
      (case runErr of
          None \<Rightarrow> ret ()
        | Some e \<Rightarrow> fail (c e) (m e)) (\<lambda>_. once_inv env X)" for runErr :: "err option" and c m
    by (rule hoare_once_keep) (intro same_registry.io_option same_registry.io_return same_registry.prim_fail)
  show "hoare (once_inv env (insert x X))
      (do {
        runErr \<leftarrow> runScriptRecorded env RunCtx x (scriptStepType ty);
        tokens \<leftarrow> gets rc_tokens;
        (case findCleanupEntry x tokens of
           None \<Rightarrow> ret ()
         | Some entry \<Rightarrow> do { MarkDone entry; recordRecovery runErr });
        (case runErr of
           None \<Rightarrow> ret ()
         | Some e \<Rightarrow> fail (if ty = ScriptPreBackup then ErrPreScriptFailed else ErrPostScriptFailed)
             (ScriptType_str ty @ '' script at position '' @ itoa (Script_Position x) @
              '' failed: '' @ e_redact env (Error e)))
      }) (\<lambda>_. once_inv env X)"
  proof (rule hoare_then [OF run_recorded_mid [OF assms]], rule hoare_bind)
    show "hoare (mid_inv env x X) (gets rc_tokens)
        (\<lambda>tokens s. mid_inv env x X s \<and> tokens = zip (guards env) [0 ..< length (guards env)])"
      by (rule hoare_gets) (simp add: mid_inv_def registry_ok_def)
    fix tokens runErr
    show "hoare (\<lambda>s. mid_inv env x X s \<and> tokens = zip (guards env) [0 ..< length (guards env)])
      (do {
        (case findCleanupEntry x tokens of
           None \<Rightarrow> ret ()
         | Some entry \<Rightarrow> do { MarkDone entry; recordRecovery runErr });
        (case runErr of
           None \<Rightarrow> ret ()
         | Some e \<Rightarrow> fail (if ty = ScriptPreBackup then ErrPreScriptFailed else ErrPostScriptFailed)
             (ScriptType_str ty @ '' script at position '' @ itoa (Script_Position x) @
              '' failed: '' @ e_redact env (Error e)))
      }) (\<lambda>_. once_inv env X)"
    proof (rule hoare_then [OF _ tail], cases "tokens = zip (guards env) [0 ..< length (guards env)]")
      case tokens: True
      show "hoare (\<lambda>s. mid_inv env x X s \<and> tokens = zip (guards env) [0 ..< length (guards env)])
        (case findCleanupEntry x tokens of
           None \<Rightarrow> ret ()
         | Some entry \<Rightarrow> do { MarkDone entry; recordRecovery runErr }) (\<lambda>_. once_inv env X)"
      proof (cases "guaranteed x")
        case True
        then obtain i where i: "i < length (guards env)" "guards env ! i = x"
          using assms(2) in_guards by blast
        have find: "findCleanupEntry x tokens = Some i"
          using find_entry_some [OF assms(1) i(1)] by (simp add: i(2) tokens)
        show ?thesis
          unfolding find option.simps
          by (rule hoare_then [OF hoare_pre [OF mark_done_once [OF assms(1) i]] hoare_once_keep
              [OF same_registry.prim_recovery]]) simp
      next
        case False
        have find: "findCleanupEntry x tokens = None"
          using find_entry_none [OF assms(1,2) False] by (simp add: tokens)
        show ?thesis
          unfolding find option.simps using mid_unguarded [OF False] by (intro hoare_return) simp
      qed
    next
      case False
      then show "hoare (\<lambda>s. mid_inv env x X s \<and> tokens = zip (guards env) [0 ..< length (guards env)])
        (case findCleanupEntry x tokens of
           None \<Rightarrow> ret ()
         | Some entry \<Rightarrow> do { MarkDone entry; recordRecovery runErr }) (\<lambda>_. once_inv env X)"
        by (simp add: hoare_def)
    qed
  qed
qed

section \<open>The script loops\<close>

definition of_type :: "ScriptType \<Rightarrow> Script list \<Rightarrow> Script set" where
  "of_type ty xs = {x \<in> set xs. Script_Type x = ty}"

lemma run_script_list_once:
  assumes "distinct_ids env" "set xs \<subseteq> set (Job_Scripts (e_job env))" "distinct xs"
    and "X \<subseteq> set (Job_Scripts (e_job env))" "X \<inter> of_type ty xs = {}"
  shows "hoare (once_inv env (X \<union> of_type ty xs)) (run_script_list env ty xs) (\<lambda>_. once_inv env X)"
  using assms(2-5)
proof (induction xs)
  case Nil
  then show ?case by (simp add: hoare_return of_type_def)
next
  case (Cons x xs)
  show ?case
  proof (cases "Script_Type x = ty")
    case False
    then have "of_type ty (x # xs) = of_type ty xs" by (auto simp: of_type_def)
    with False Cons show ?thesis by simp
  next
    case True
    let ?Y = "X \<union> of_type ty xs"
    have set: "X \<union> of_type ty (x # xs) = insert x ?Y" using True by (auto simp: of_type_def)
    have fresh: "x \<notin> ?Y" and sub: "?Y \<subseteq> set (Job_Scripts (e_job env))" and mem: "x \<in> set (Job_Scripts (e_job env))"
      using Cons.prems True by (auto simp: of_type_def)
    have rest: "hoare (once_inv env ?Y) (run_script_list env ty xs) (\<lambda>_. once_inv env X)"
      using Cons by (intro Cons.IH) (auto simp: of_type_def)
    have keep: "hoare (once_inv env (insert x ?Y)) (ret ()) (\<lambda>_. once_inv env X)"
      by (rule hoare_return) (erule once_inv_mono [rotated], blast)
    have "hoare (once_inv env (insert x ?Y))
        (do { cancelled \<leftarrow> checkCancelled env;
              if cancelled then ret ()
              else do { run_one_script env ty x; run_script_list env ty xs } }) (\<lambda>_. once_inv env X)"
      by (rule hoare_then [OF hoare_once_keep [OF same_registry.prim_cancel]], rule hoare_if, rule keep,
          rule hoare_then [OF run_one_script_once [OF assms(1) mem sub fresh] rest])
    then show ?thesis using True by (simp add: set)
  qed
qed

definition scripts_of :: "Env \<Rightarrow> ScriptType \<Rightarrow> Script set" where
  "scripts_of env ty = of_type ty (Job_Scripts (e_job env))"

lemma runScripts_once:
  assumes "distinct_ids env" "X \<subseteq> set (Job_Scripts (e_job env))" "X \<inter> scripts_of env ty = {}"
  shows "hoare (once_inv env (X \<union> scripts_of env ty)) (runScripts env ty) (\<lambda>_. once_inv env X)"
proof -
  have "distinct (Job_Scripts (e_job env))" using assms(1) by (simp add: distinct_ids_def distinct_map)
  with assms show ?thesis
    unfolding runScripts_def scripts_of_def by (intro run_script_list_once) simp_all
qed

section \<open>The stages\<close>

lemma once_unless_cancelled:
  "hoare (once_inv env X) m (\<lambda>_. once_inv env {}) \<Longrightarrow>
   hoare (once_inv env X) (unless_cancelled env m) (\<lambda>_. once_inv env {})"
  unfolding unless_cancelled_def
  by (rule hoare_then [OF hoare_once_keep [OF same_registry.prim_cancel]], rule hoare_if, rule hoare_return)
    (auto intro: once_inv_mono)

lemma stages_once:
  assumes "distinct_ids env"
  shows "hoare (once_inv env (scripts_of env ScriptPreBackup \<union> scripts_of env ScriptPostBackup)) (stages env)
    (\<lambda>_. once_inv env {})"
proof -
  let ?post = "scripts_of env ScriptPostBackup"
  let ?final = "do {
      unless_failed (healthCheck env);
      remoteCleanup env;
      failed \<leftarrow> gets rc_failed;
      verified \<leftarrow> gets rc_archiveVerified;
      when_do (\<not> failed \<and> verified \<and> e_has_retention env) (applyRetention env)
    }"
  have sub: "?post \<subseteq> set (Job_Scripts (e_job env))" "?post \<inter> scripts_of env ScriptPreBackup = {}"
    by (auto simp: scripts_of_def of_type_def)
  have pre: "hoare (once_inv env (scripts_of env ScriptPreBackup \<union> ?post)) (runScripts env ScriptPreBackup)
      (\<lambda>_. once_inv env ?post)"
    using runScripts_once [OF assms sub] by (simp add: Un_commute)
  have post: "hoare (once_inv env ?post) (runScripts env ScriptPostBackup) (\<lambda>_. once_inv env {})"
    using runScripts_once [OF assms, of "{}" ScriptPostBackup] by simp
  have quiet: "hoare (once_inv env {}) ?final (\<lambda>_. once_inv env {})"
    by (rule hoare_once_keep)
      (intro same_registry.io_bind same_registry.io_unless_failed same_registry.io_when same_registry.io_gets
        same_registry.io_healthCheck same_registry.io_remoteCleanup same_registry.io_applyRetention)
  show ?thesis
    unfolding stages_def
    by (rule hoare_then [OF pre], rule once_unless_cancelled,
        rule hoare_then [OF hoare_once_keep [OF same_registry.io_unless_failed [OF same_registry.io_archive]]],
        rule once_unless_cancelled,
        rule hoare_then [OF hoare_once_keep [OF same_registry.io_unless_failed [OF same_registry.io_downloadAndVerify]]],
        rule once_unless_cancelled, rule hoare_then [OF post], rule once_unless_cancelled, rule quiet)
qed

section \<open>Registration\<close>

lemma register_each:
  "run_state (for_each register_script xs) s = ((), s\<lparr>
     rc_entries := rc_entries s @ map (\<lambda>x. \<lparr>en_description = ScriptType_str (Script_Type x) @ '' script (position '' @
       itoa (Script_Position x) @ '')'', en_script = x, en_stepType = scriptStepType (Script_Type x),
       en_done = False\<rparr>) (filter guaranteed xs),
     rc_tokens := rc_tokens s @ zip (filter guaranteed xs)
       [length (rc_entries s) ..< length (rc_entries s) + length (filter guaranteed xs)]\<rparr>)"
proof (induction xs arbitrary: s)
  case Nil
  then show ?case by simp
next
  case (Cons x xs)
  have one: "run_state (register_script x) s = ((), if guaranteed x then
      s\<lparr>rc_entries := rc_entries s @ [\<lparr>en_description = ScriptType_str (Script_Type x) @ '' script (position '' @
          itoa (Script_Position x) @ '')'', en_script = x, en_stepType = scriptStepType (Script_Type x),
          en_done = False\<rparr>],
        rc_tokens := rc_tokens s @ [(x, length (rc_entries s))]\<rparr> else s)"
    by (simp add: register_script_def Register_def)
  have upt: "[k ..< Suc (k + n)] = k # [Suc k ..< Suc (k + n)]" for k n :: nat
    by (simp add: upt_conv_Cons)
  show ?case by (simp add: Cons one upt del: upt_Suc)
qed

definition nothing_done :: "Rc \<Rightarrow> bool" where
  "nothing_done s \<longleftrightarrow> \<not> rc_transport s \<and> rc_entries s = [] \<and> rc_tokens s = [] \<and>
     (\<forall>ident. attempts ident (rc_trace s) = 0)"

lemma same_registry_nothing: "same_registry s t \<Longrightarrow> nothing_done s \<Longrightarrow> nothing_done t"
  by (simp add: same_registry_def nothing_done_def)

definition all_scripts :: "Env \<Rightarrow> Script set" where
  "all_scripts env = set (Job_Scripts (e_job env))"

lemma registered:
  "hoare nothing_done (do { modify (\<lambda>s. s\<lparr>rc_transport := True\<rparr>); registerCleanupScripts env })
     (\<lambda>_. once_inv env (all_scripts env))"
proof -
  have "once_inv env (all_scripts env)
     (snd (run_state (do { modify (\<lambda>s. s\<lparr>rc_transport := True\<rparr>); registerCleanupScripts env }) s))"
    if "nothing_done s" for s
    using that
    by (simp add: registerCleanupScripts_def register_each nothing_done_def once_inv_def counted_def
        registry_ok_def guards_def comp_def)
  then show ?thesis by (simp add: hoare_def)
qed

text \<open>After pre-flight: either the transport was never opened, or the registry is complete.\<close>

definition after_preflight :: "Env \<Rightarrow> bool \<Rightarrow> Rc \<Rightarrow> bool" where
  "after_preflight env ok s \<longleftrightarrow> once_inv env (all_scripts env) s \<or> (\<not> ok \<and> nothing_done s)"

lemma after_preflight_keep:
  "state_io_rel same_registry m \<Longrightarrow> hoare (after_preflight env ok) m (\<lambda>_. after_preflight env ok)"
  by (rule hoare_keep [where R = same_registry])
    (auto simp: after_preflight_def intro: same_registry_once same_registry_nothing)

lemma nothing_keep: "state_io_rel same_registry m \<Longrightarrow> hoare nothing_done m (\<lambda>_. nothing_done)"
  by (rule hoare_keep [where R = same_registry]) (auto intro: same_registry_nothing)

lemma hoare_fail_False: "hoare nothing_done (do { fail c m; ret False }) (after_preflight env)"
  by (rule hoare_then [OF nothing_keep [OF same_registry.prim_fail]], rule hoare_return)
    (simp add: after_preflight_def)

lemma runPreflight_once: "hoare nothing_done (runPreflight env) (after_preflight env)"
  unfolding runPreflight_def
proof (rule hoare_option, rule hoare_then, rule nothing_keep, rule same_registry.io_ask, simp add: workflow_event_def,
    rule hoare_option)
  show "hoare nothing_done (do { fail c m; ret False }) (after_preflight env)" for c m
    by (rule hoare_fail_False)
  then show "hoare nothing_done (do { fail c m; ret False }) (after_preflight env)" for c m .
  have "hoare nothing_done
      (do { do { modify (\<lambda>s. s\<lparr>rc_transport := True\<rparr>); registerCleanupScripts env }; preflight_checks env })
      (after_preflight env)"
    by (rule hoare_then [OF registered], rule hoare_post [OF hoare_once_keep [OF same_registry.io_preflight_checks]])
      (simp add: after_preflight_def)
  then show "hoare nothing_done
      (do { modify (\<lambda>s. s\<lparr>rc_transport := True\<rparr>); registerCleanupScripts env; preflight_checks env })
      (after_preflight env)"
    by simp
qed

lemma preflight_once: "hoare nothing_done (preflight env) (after_preflight env)"
  unfolding preflight_def
  by (rule hoare_then [OF nothing_keep [OF same_registry.io_steps_Start]], rule hoare_sum, rule hoare_fail_False,
      rule hoare_bind [OF runPreflight_once], rule hoare_then [OF after_preflight_keep [OF same_registry.io_with_run_error]],
      rule hoare_then [OF after_preflight_keep [OF same_registry.io_close_step]], rule hoare_return)

section \<open>The drain\<close>

text \<open>\<open>S\<close> holds the indices of the entries that are still to run.\<close>

definition drain_inv :: "Env \<Rightarrow> nat set \<Rightarrow> Rc \<Rightarrow> bool" where
  "drain_inv env S s \<longleftrightarrow> counted env s \<and> (\<forall>i < length (guards env). en_done (rc_entries s ! i) \<longleftrightarrow> i \<notin> S)"

lemma runScriptRecorded_entries:
  "rc_entries (snd (run_state (runScriptRecorded env ctx x st) s)) = rc_entries s"
proof -
  let ?rest = "do {
      r \<leftarrow> steps_Start env ctx st;
      case r of
        Inl e \<Rightarrow> ret (Some e)
      | Inr step0 \<Rightarrow> do {
          runErr \<leftarrow> executeScript env ctx x;
          close_step env ctx (if runErr = None then StepSuccess else StepFailed)
            (case runErr of None \<Rightarrow> step0\<lparr>Step_Command := Script_Command x\<rparr>
               | Some e \<Rightarrow> step0\<lparr>Step_Command := Script_Command x, Step_Error := e_redact env (Error e)\<rparr>);
          ret runErr
        }
    }"
  have "state_io_rel same_registry ?rest"
    by (intro same_registry.io_bind same_registry.io_sum same_registry.io_steps_Start same_registry.io_executeScript
        same_registry.io_close_step same_registry.io_return)
  from same_registry.io_snd [OF this] show ?thesis
    by (simp add: runScriptRecorded_def Let_def record_event_def same_registry_def)
qed

lemma drain_entry:
  assumes "distinct_ids env" "i < length (guards env)" "i \<in> S"
  shows "hoare (drain_inv env S)
     (do { es \<leftarrow> gets rc_entries; e \<leftarrow> runScriptRecorded env CleanupCtx (en_script (es ! i)) (en_stepType (es ! i)); MarkDone i; ret (es, e) })
     (\<lambda>_. drain_inv env (S - {i}))"
proof -
  have step: "drain_inv env (S - {i}) (s'\<lparr>rc_entries := (rc_entries s')[i := (rc_entries s' ! i)\<lparr>en_done := True\<rparr>]\<rparr>)"
    if s: "drain_inv env S s" and s': "mid_inv env (guards env ! i) {} s'" and ent: "rc_entries s' = rc_entries s" for s s'
  proof -
    have "once_inv env {} (s'\<lparr>rc_entries := (rc_entries s')[i := (rc_entries s' ! i)\<lparr>en_done := True\<rparr>]\<rparr>)"
      using hoareD [OF mark_done_once [OF assms(1,2) refl] s'] by (simp add: MarkDone_def)
    moreover have "length (rc_entries s) = length (guards env)"
      using s by (metis counted_def drain_inv_def length_map registry_ok_def)
    ultimately show ?thesis
      using s assms(2,3) by (auto simp: drain_inv_def once_inv_def ent nth_list_update)
  qed
  have "drain_inv env (S - {i}) (snd (run_state (do { es \<leftarrow> gets rc_entries;
      e \<leftarrow> runScriptRecorded env CleanupCtx (en_script (es ! i)) (en_stepType (es ! i)); MarkDone i; ret (es, e) }) s))"
    if s: "drain_inv env S s" for s
  proof -
    have reg: "registry_ok env s" using s by (simp add: drain_inv_def counted_def)
    then have map: "map en_script (rc_entries s) = guards env" by (simp add: registry_ok_def)
    then have scr: "en_script (rc_entries s ! i) = guards env ! i" using assms(2) by (metis length_map nth_map)
    let ?m = "runScriptRecorded env CleanupCtx (guards env ! i) (en_stepType (rc_entries s ! i))"
    have zero: "attempts (Script_ID (guards env ! i)) (rc_trace s) = 0"
      using s assms(2,3) by (simp add: drain_inv_def counted_def)
    have "once_inv env (insert (guards env ! i) {}) s"
      using s zero by (simp add: once_inv_def drain_inv_def)
    from hoareD [OF run_recorded_mid [OF assms(1) guards_in [OF assms(2)]] this]
    have mid: "mid_inv env (guards env ! i) {} (snd (run_state ?m s))" by simp
    from step [OF s mid runScriptRecorded_entries] show ?thesis
      by (simp add: scr MarkDone_def case_prod_beta)
  qed
  then show ?thesis by (simp add: hoare_def)
qed

abbreviation drain_script :: "Env \<Rightarrow> cleanupEntry \<Rightarrow> (err option) Step" where
  "drain_script env e \<equiv> runScriptRecorded env CleanupCtx (en_script e) (en_stepType e)"

lemma drain_step:
  assumes "distinct_ids env" "i < length (guards env)" "i \<in> S"
    and "\<And>es e. hoare (drain_inv env (S - {i})) (m es e) Q"
  shows "hoare (drain_inv env S)
     (do { es \<leftarrow> gets rc_entries; e \<leftarrow> drain_script env (es ! i); MarkDone i; m es e }) Q"
proof -
  have "(do { es \<leftarrow> gets rc_entries; e \<leftarrow> drain_script env (es ! i); MarkDone i; m es e }) =
    (do { p \<leftarrow> do { es \<leftarrow> gets rc_entries; e \<leftarrow> drain_script env (es ! i); MarkDone i; ret (es, e) };
          m (fst p) (snd p) })"
    by simp
  then show ?thesis
    using hoare_then [OF drain_entry [OF assms(1-3)], of "\<lambda>p. m (fst p) (snd p)" Q] assms(4) by simp
qed

lemma drain_entries_once:
  assumes "distinct_ids env"
  shows "distinct is \<Longrightarrow> set is \<subseteq> {..< length (guards env)} \<Longrightarrow>
    hoare (drain_inv env (set is)) (drain_entries (drain_script env) is) (\<lambda>_. drain_inv env {})"
proof (induction "is")
  case Nil
  show ?case by (simp add: hoare_return)
next
  case (Cons i "is")
  then have i: "i < length (guards env)" "i \<in> set (i # is)" and rest: "set (i # is) - {i} = set is" by auto
  have IH: "hoare (drain_inv env (set is)) (drain_entries (drain_script env) is) (\<lambda>_. drain_inv env {})"
    using Cons by simp
  show ?case
    unfolding drain_entries.simps
    by (rule drain_step [OF assms i], unfold rest, rule hoare_then [OF IH], rule hoare_return)
qed

lemma drain_inv_same: "same_registry s t \<Longrightarrow> drain_inv env S s \<Longrightarrow> drain_inv env S t"
  by (simp add: same_registry_def drain_inv_def counted_def registry_ok_def)

lemma counted_pending:
  assumes "counted env s"
  shows "drain_inv env (set (pending_entries (rc_entries s))) s"
    and "set (pending_entries (rc_entries s)) \<subseteq> {..< length (guards env)}"
    and "distinct (pending_entries (rc_entries s))"
proof -
  have "length (rc_entries s) = length (guards env)"
    using assms by (metis counted_def length_map registry_ok_def)
  then show "drain_inv env (set (pending_entries (rc_entries s))) s"
    and "set (pending_entries (rc_entries s)) \<subseteq> {..< length (guards env)}"
    and "distinct (pending_entries (rc_entries s))"
    using assms by (auto simp: drain_inv_def pending_entries_def)
qed

lemma recoveries_same: "state_io_rel same_registry (for_each (\<lambda>out. recordRecovery (snd out)) outs)"
  by (intro same_registry.io_for_each same_registry.prim_recovery)

lemma drain_once:
  assumes "distinct_ids env"
  shows "hoare (counted env) (drainCleanup env) (\<lambda>_. drain_inv env {})"
  unfolding drainCleanup_def
proof (rule hoare_then)
  show "hoare (counted env) (Drain (drain_script env)) (\<lambda>_. drain_inv env {})"
  proof -
    have "drain_inv env {} (snd (run_state (drain_entries (drain_script env) (pending_entries (rc_entries s))) s))"
      if "counted env s" for s
      using hoareD [OF drain_entries_once [OF assms counted_pending(3,2) [OF that]] counted_pending(1) [OF that]] .
    then show ?thesis by (simp add: hoare_def Drain_def)
  qed
  show "hoare (drain_inv env {}) (for_each (\<lambda>out. recordRecovery (snd out)) outs) (\<lambda>_. drain_inv env {})" for outs
    by (rule hoare_keep [OF recoveries_same]) (rule drain_inv_same)
qed

lemma drain_nothing: "hoare nothing_done (drainCleanup env) (\<lambda>_. nothing_done)"
  by (simp add: hoare_def drainCleanup_def Drain_def pending_entries_def nothing_done_def)

section \<open>The run\<close>

definition guarantee :: "Env \<Rightarrow> Rc \<Rightarrow> bool" where
  "guarantee env s \<longleftrightarrow> (rc_transport s \<longrightarrow>
     (\<forall>x \<in> set (Job_Scripts (e_job env)). guaranteed x \<longrightarrow> attempts (Script_ID x) (rc_trace s) = 1))"

lemma drained_guarantee: "drain_inv env {} s \<Longrightarrow> guarantee env s"
  unfolding guarantee_def
proof (intro impI ballI)
  fix x
  assume s: "drain_inv env {} s" and "x \<in> set (Job_Scripts (e_job env))" and "guaranteed x"
  then obtain i where "i < length (guards env)" "guards env ! i = x" using in_guards by blast
  with s show "attempts (Script_ID x) (rc_trace s) = 1" by (auto simp: drain_inv_def counted_def)
qed

lemma close_same: "state_io_rel same_registry close_transport"
  by (auto simp: state_io_rel_def close_transport_def record_event_def same_registry_def is_attempt_def)

lemma execute_guarantee:
  assumes "distinct_ids env"
  shows "hoare nothing_done (execute env) (\<lambda>_. guarantee env)"
  unfolding execute_def
proof (rule hoare_bind [OF preflight_once])
  fix ok
  let ?Q = "\<lambda>s. counted env s \<or> nothing_done s"
  have all: "once_inv env (all_scripts env) s \<Longrightarrow>
      once_inv env (scripts_of env ScriptPreBackup \<union> scripts_of env ScriptPostBackup) s" for s
    by (erule once_inv_mono [rotated]) (auto simp: all_scripts_def scripts_of_def of_type_def)
  have body: "hoare (after_preflight env ok) (if \<not> ok then ret () else do { stages env; close_transport }) (\<lambda>_. ?Q)"
  proof (rule hoare_if)
    show "hoare (after_preflight env ok) (ret ()) (\<lambda>_. ?Q)"
      by (rule hoare_return) (auto simp: after_preflight_def once_inv_def)
    assume "\<not> \<not> ok"
    then have start: "after_preflight env ok s \<Longrightarrow>
        once_inv env (scripts_of env ScriptPreBackup \<union> scripts_of env ScriptPostBackup) s" for s
      using all by (simp add: after_preflight_def)
    show "hoare (after_preflight env ok) (do { stages env; close_transport }) (\<lambda>_. ?Q)"
      by (rule hoare_then [OF hoare_pre [OF stages_once [OF assms]] hoare_post [OF hoare_once_keep [OF close_same]]],
          erule start) (simp add: once_inv_def)
  qed
  have "hoare ?Q (drainCleanup env) (\<lambda>_. guarantee env)"
    using hoareD [OF drain_once [OF assms]] hoareD [OF drain_nothing]
    by (auto simp: hoare_def intro: drained_guarantee) (simp add: guarantee_def nothing_done_def)
  with body show "hoare (after_preflight env ok)
      (do { (if \<not> ok then ret () else do { stages env; close_transport }); drainCleanup env }) (\<lambda>_. guarantee env)"
    by (rule hoare_then)
qed

end
