(* ===== verification/Engine_Properties.thy ===== *)
theory Engine_Properties
  imports Cleanup_Once
begin

text \<open>
  The begin and the end of \<^verbatim>\<open>Engine.Run\<close>, the facts that hold when the workflow starts and when it
  ends, and a sample environment on which runs are evaluated.
\<close>

section \<open>Two more invariants\<close>

text \<open>While the workflow runs, every update of the run's record still says RUNNING.\<close>

definition running_ok :: "Rc \<Rightarrow> bool" where
  "running_ok s \<longleftrightarrow> Run_Status (rc_run s) = RunRunning \<and>
     (\<forall>c r e. EvRunUpdate c r e \<in> set (rc_trace s) \<longrightarrow> Run_Status r = RunRunning)"

definition keeps_running :: "Rc \<Rightarrow> Rc \<Rightarrow> bool" where
  "keeps_running s t \<longleftrightarrow> (running_ok s \<longrightarrow> running_ok t)"

lemma keeps_running_same:
  "rc_trace t = rc_trace s \<Longrightarrow> Run_Status (rc_run t) = Run_Status (rc_run s) \<Longrightarrow> keeps_running s t"
  by (simp add: keeps_running_def running_ok_def)

definition is_update :: "Event \<Rightarrow> bool" where
  "is_update ev = (case ev of EvRunUpdate c r e \<Rightarrow> True | _ \<Rightarrow> False)"

lemma keeps_running_event:
  assumes "rc_trace t = ev # rc_trace s" "rc_run t = rc_run s" "\<not> is_update ev"
  shows "keeps_running s t"
proof -
  have "EvRunUpdate c r e \<in> set (rc_trace t) \<longleftrightarrow> EvRunUpdate c r e \<in> set (rc_trace s)" for c r e
    using assms(1,3) by (auto simp: is_update_def)
  then show ?thesis using assms(2) by (simp add: keeps_running_def running_ok_def)
qed

interpretation keeps_running: engine_run_rel keeps_running env for env
proof unfold_locales
  show "state_io_rel keeps_running (transport_run env ctx cmd t)" for ctx cmd t
    by (rule state_io_run) (auto simp: is_update_def intro!: keeps_running_event)
  show "state_io_rel keeps_running (update_run env ctx)" for ctx
    by (rule state_io_update) (auto simp: keeps_running_def running_ok_def)
  show "state_io_rel keeps_running (persist_step env ctx step)" for ctx step
    by (rule state_io_persist) (auto simp: is_update_def intro!: keeps_running_event)
  show "state_io_rel keeps_running (checkCancelled env)"
    by (rule state_io_cancel) (auto intro!: keeps_running_same)
  show "state_io_rel keeps_running (register_script script)" for script
    by (rule state_io_register) (auto intro!: keeps_running_same)
  show "state_io_rel keeps_running (recordRecovery e)" for e
    by (auto simp: state_io_rel_def recordRecovery_def Let_def intro!: keeps_running_same split: option.splits)
  show "keeps_running s (s\<lparr>rc_trace := ev # rc_trace s\<rparr>)" if "workflow_event ev" for ev s
    using that by (intro keeps_running_event) (auto simp: workflow_event_def is_update_def split: Event.splits)
  show "keeps_running s u" if "keeps_running s t" "keeps_running t u" for s t u
    using that by (simp add: keeps_running_def)
  show "keeps_running s (s\<lparr>rc_trace := EvAttempt script # rc_trace s\<rparr>)" for s script
    by (rule keeps_running_event [where ev = "EvAttempt script"]) (simp_all add: is_update_def)
  show "keeps_running s (s\<lparr>rc_trace := EvClose # rc_trace s\<rparr>)" for s
    by (rule keeps_running_event [where ev = EvClose]) (simp_all add: is_update_def)
qed (auto simp: state_io_rel_def fail_def warn_def MarkDone_def Let_def intro!: keeps_running_same)

text \<open>Only \<^verbatim>\<open>execute\<close> closes the transport.\<close>

definition keeps_open :: "Rc \<Rightarrow> Rc \<Rightarrow> bool" where
  "keeps_open s t \<longleftrightarrow> (EvClose \<in> set (rc_trace t) \<longleftrightarrow> EvClose \<in> set (rc_trace s))"

interpretation keeps_open: engine_script_rel keeps_open env for env
proof unfold_locales
  show "state_io_rel keeps_open (transport_run env ctx cmd t)" for ctx cmd t
    by (rule state_io_run) (auto simp: keeps_open_def)
  show "state_io_rel keeps_open (update_run env ctx)" for ctx
    by (rule state_io_update) (auto simp: keeps_open_def)
  show "state_io_rel keeps_open (persist_step env ctx step)" for ctx step
    by (rule state_io_persist) (auto simp: keeps_open_def)
  show "state_io_rel keeps_open (checkCancelled env)"
    by (rule state_io_cancel) (auto simp: keeps_open_def)
  show "state_io_rel keeps_open (register_script script)" for script
    by (rule state_io_register) (auto simp: keeps_open_def)
  show "state_io_rel keeps_open (recordRecovery e)" for e
    by (auto simp: state_io_rel_def recordRecovery_def Let_def keeps_open_def split: option.splits)
  show "keeps_open s (s\<lparr>rc_trace := ev # rc_trace s\<rparr>)" if "workflow_event ev" for ev s
    using that by (auto simp: keeps_open_def workflow_event_def)
qed (auto simp: keeps_open_def state_io_rel_def fail_def warn_def MarkDone_def Let_def)

section \<open>The begin of a run\<close>

definition lock_acquired :: "Event \<Rightarrow> bool" where
  "lock_acquired ev = (case ev of EvLockAcquire j r t e \<Rightarrow> e = None | _ \<Rightarrow> False)"

definition lock_released :: "Event \<Rightarrow> bool" where
  "lock_released ev = (case ev of EvLockRelease c j e \<Rightarrow> True | _ \<Rightarrow> False)"

definition count_events :: "(Event \<Rightarrow> bool) \<Rightarrow> Trace \<Rightarrow> nat" where
  "count_events p h = length (filter p h)"

definition held :: "Trace \<Rightarrow> bool" where
  "held h \<longleftrightarrow> count_events lock_acquired h = 1 \<and> count_events lock_released h = 0"

text \<open>The state in which the workflow starts.\<close>

definition begun :: "Rc \<Rightarrow> bool" where
  "begun s \<longleftrightarrow> nothing_done s \<and> unverified s \<and> \<not> rc_failed s \<and> \<not> rc_cancelled s \<and> running_ok s \<and>
     positions_ok s \<and> held (rc_trace s)"

lemma beginRun_begun:
  assumes "run_state (beginRun env) (rc_start files) = (Inr False, s)"
  shows "begun s"
  using assms
  by (auto simp: beginRun_def rc_start_def now_def record_event_def begun_def nothing_done_def running_ok_def
      positions_ok_def held_def count_events_def lock_acquired_def lock_released_def NewRun_def attempts_Cons
      is_attempt_def Let_def split: sum.splits option.splits if_splits)

lemma beginRun_skipped:
  assumes "run_state (beginRun env) (rc_start files) = (Inr True, s)"
  shows "Run_Status (rc_run s) = RunSkipped \<and> count_events lock_acquired (rc_trace s) = 0 \<and>
    count_events lock_released (rc_trace s) = 0 \<and> created_positions (rc_trace s) = [] \<and> \<not> rc_transport s"
  using assms
  by (auto simp: beginRun_def rc_start_def now_def record_event_def count_events_def lock_acquired_def
      lock_released_def NewRun_def Let_def split: sum.splits option.splits if_splits)

lemma beginRun_error:
  assumes "run_state (beginRun env) (rc_start files) = (Inl e, s)"
  shows "count_events lock_acquired (rc_trace s) = count_events lock_released (rc_trace s) \<and>
    (count_events lock_acquired (rc_trace s) = 0 \<or> lock_released (hd (rc_trace s))) \<and>
    created_positions (rc_trace s) = [] \<and> count_events lock_acquired (rc_trace s) \<le> 1"
  using assms
  by (auto simp: beginRun_def rc_start_def now_def record_event_def count_events_def lock_acquired_def
      lock_released_def NewRun_def Let_def split: sum.splits option.splits if_splits)

section \<open>The end of a run\<close>

definition finish_state :: "Env \<Rightarrow> Rc \<Rightarrow> Rc" where
  "finish_state env s =
     (let t = e_clock env (rc_trace s);
          run = (Run_Finish t (finalStatus s) (rc_run s))\<lparr>Run_RecoveryOutcome := rc_recoveryOut s\<rparr>;
          h1 = EvNow t # rc_trace s;
          h2 = EvRunUpdate RunCtx run (e_update_run env RunCtx run h1) # h1;
          h3 = (if e_has_events env then EvRunFinished run # h2 else h2);
          job = Job_ID (e_job env)
      in s\<lparr>rc_run := run,
           rc_trace := EvLockRelease DetachedCtx job (e_release env DetachedCtx job h3) # h3\<rparr>)"

lemma finalStatus_trace [simp]: "finalStatus (s\<lparr>rc_trace := h\<rparr>) = finalStatus s"
  by (simp add: finalStatus_def)

lemma finishRun_state:
  "snd (run_state (finishRun env) s) = finish_state env (snd (run_state (execute env) s))"
  by (simp add: finishRun_def finish_state_def now_def update_run_def record_event_def Let_def case_prod_beta)

lemma Engine_Run_cases:
  assumes "run_state (Engine_Run env) (rc_start files) = (r, s)"
  obtains (error) e where "run_state (beginRun env) (rc_start files) = (Inl e, s)" "r = Inl e"
  | (skipped) "run_state (beginRun env) (rc_start files) = (Inr True, s)" "r = Inr (rc_run s)"
  | (ran) s0 where "run_state (beginRun env) (rc_start files) = (Inr False, s0)"
      "s = finish_state env (snd (run_state (execute env) s0))" "r = Inr (rc_run s)"
proof (cases "run_state (beginRun env) (rc_start files)")
  case b: (Pair b s0)
  show thesis
  proof (cases b)
    case (Inl e)
    with b assms show thesis by (intro error) (auto simp: Engine_Run_def)
  next
    case Inr: (Inr skip)
    show thesis
    proof (cases skip)
      case True
      with b Inr assms show thesis by (intro skipped) (auto simp: Engine_Run_def)
    next
      case False
      with b Inr assms show thesis
        using finishRun_state [of env s0]
        by (intro ran [of s0]) (auto simp: Engine_Run_def case_prod_beta)
    qed
  qed
qed

lemma execute_grows: "grows s (snd (run_state (execute env) s))"
  using later.io_snd [OF later.io_execute] by (simp add: later_def)

lemma bookkeeping_lock: "\<not> bookkeeping ev \<Longrightarrow> \<not> lock_acquired ev \<and> \<not> lock_released ev"
  by (cases ev) (simp_all add: bookkeeping_def lock_acquired_def lock_released_def)

lemma grows_held:
  assumes "grows s t" "held (rc_trace s)"
  shows "held (rc_trace t)"
proof -
  obtain evs where evs: "rc_trace t = evs @ rc_trace s" "\<not> list_ex bookkeeping evs"
    using assms(1) by (auto simp: grows_def)
  then have "filter lock_acquired evs = []" "filter lock_released evs = []"
    using bookkeeping_lock by (auto simp: filter_empty_conv list_ex_iff)
  with evs(1) assms(2) show ?thesis by (simp add: held_def count_events_def)
qed

lemma begun_execute:
  fixes env :: Env
  assumes "begun s"
  defines "t \<equiv> snd (run_state (execute env) s)"
  shows "outcome_known t" "verified_ok env t" "running_ok t" "positions_ok t" "held (rc_trace t)"
    "Run_Status (rc_run t) = RunRunning"
proof -
  note b = assms(1) [unfolded begun_def]
  show "outcome_known t" unfolding t_def using hoareD [OF execute_outcome [of "\<lambda>_. True" env], of s] by simp
  show "verified_ok env t" unfolding t_def using b by (intro hoareD [OF execute_ok]) simp
  show run: "running_ok t"
    using keeps_running.io_snd [OF keeps_running.io_execute [of env], of s] b by (simp add: t_def keeps_running_def)
  show "positions_ok t"
    using keeps_positions.io_snd [OF keeps_positions.io_execute [of env], of s] b by (simp add: t_def keeps_positions_def)
  show "held (rc_trace t)" using grows_held [OF execute_grows] b by (simp add: t_def)
  show "Run_Status (rc_run t) = RunRunning" using run by (simp add: running_ok_def)
qed

section \<open>A sample environment\<close>

text \<open>
  Every command succeeds and prints 1000, which is also the digest of every file; no call
  fails. The context's cancellation, the job's scripts and single answers are varied.
\<close>

definition sample_run_env :: "Script list \<Rightarrow> Env" where
  "sample_run_env scripts = \<lparr>
     e_job = sample_job\<lparr>Job_Scripts := scripts\<rparr>, e_server = sample_server, e_destDir = ''D:'',
     e_trigger = TriggerManual, e_pid = 1, e_cron = (\<lambda>_. Inr (\<lambda>t. t)),
     e_rand = (\<lambda>_. Inr (replicate 16 0)), e_redact = (\<lambda>t. t), e_has_events = True, e_has_retention = True,
     e_sha256 = (\<lambda>_. ''1000''), e_ctx_err = (\<lambda>_. None), e_clock = (\<lambda>_. epoch), e_connect = (\<lambda>_. None),
     e_run = (\<lambda>_ _ _ _. Inr \<lparr>rr_exit = 0, rr_stdout = ''1000'', rr_stderr = []\<rparr>),
     e_download = (\<lambda>_ _. (''data'', None)),
     e_create_step = (\<lambda>_ _ _ _. None), e_update_step = (\<lambda>_ _ _. None),
     e_create_run = (\<lambda>_ _. None), e_update_run = (\<lambda>_ _ _. None),
     e_acquire = (\<lambda>_ _ _ _ _. None), e_release = (\<lambda>_ _ _. None),
     e_file_op = (\<lambda>_ _ _. None), e_local_free = (\<lambda>_ _. Inr 5000), e_sleep = (\<lambda>_ _. None),
     e_retention = (\<lambda>_. ([], [], None))\<rparr>"

definition cleanup_script :: Script where
  "cleanup_script = \<lparr>Script_ID = ''scr1'', Script_JobID = ''job1'', Script_Type = ScriptPostBackup,
     Script_Command = ''systemctl start app'', Script_Position = 0, Script_TimeoutSeconds = 60,
     Script_RunCondition = RunConditionAlways, Script_CriticalCleanup = True, Script_RetryOnFailure = False\<rparr>"

definition final_state :: "Env \<Rightarrow> Rc" where
  "final_state env = snd (run_state (Engine_Run env) (rc_start Map.empty))"


section \<open>Evaluating a run\<close>

lemmas run_eval =
  Engine_Run_def beginRun_def finishRun_def execute_def stages_def preflight_def runPreflight_def
  preflight_checks_def registerCleanupScripts_def register_script_def Register_def MarkDone_def
  runScripts_def run_one_script_def runScriptRecorded_def executeScript_def findCleanupEntry_def
  guaranteed_def ShouldRun_def scriptStepType_def require_def required_tools_def
  checkSourceReadable_def checkSourceExists_def checkToolAvailable_def checkRemoteTempWritable_def
  estimateSourceSize_def measureRemoteFreeSpace_def checkLocalDestinationWritable_def measureLocalFreeSpace_def
  localFreeBytes_def checkRemoteFreeSpace_def checkLocalFreeSpace_def passed_def bad_result_def
  runOnTransport_def transport_run_def runRemote_def file_op_def local_os_def set_file_def

lemmas stage_eval =
  archive_def runArchive_def downloadAndVerify_def remoteChecksum_def downloadArchive_def streamDownload_def
  localChecksumStep_def verifyChecksums_def rename_part_def finalize_archive_def healthCheck_def
  remoteCleanup_def applyRetention_def call_retention_def update_run_def close_transport_def drainCleanup_def Drain_def
  pending_entries_def unless_cancelled_def unless_failed_def checkCancelled_def steps_Start_def steps_Finish_def
  steps_Skip_def close_step_def with_run_error_def new_step_def persist_step_def step_changed_def now_def
  record_event_def stepStatus_def fail_def warn_def recordRecovery_def finalStatus_def source_paths_def
  NewID_def NewRun_def Run_Finish_def run_simps

lemma parse_1000: "parse_int ''1000'' = Some 1000"
  by (simp add: parse_int_def parse_unsigned_def char_digit_def int64_range_def)

lemma sample_trims:
  "trim_space ''web'' \<noteq> []" "trim_space ''0 3 * * *'' \<noteq> []" "trim_space ''1000'' = ''1000''"
  "trim_space ''systemctl start app'' \<noteq> []"
  by (simp_all add: trim_space_printable printable_def)

lemma sample_valid:
  "Job_Validate (\<lambda>_. Inr (\<lambda>t. t)) (sample_job\<lparr>Job_Scripts := []\<rparr>) = None"
  "Job_Validate (\<lambda>_. Inr (\<lambda>t. t)) (sample_job\<lparr>Job_Scripts := [cleanup_script]\<rparr>) = None"
  by (simp_all add: job_valid_iff job_wf_def schedule_wf_def retention_wf_def script_wf_def has_prefix_def
      sample_trims sample_defs second_def cleanup_script_def)

lemma sample_env_simps:
  "e_job (sample_run_env scripts) = sample_job\<lparr>Job_Scripts := scripts\<rparr>"
  "e_server (sample_run_env scripts) = sample_server" 
  "e_destDir (sample_run_env scripts) = ''D:''"
  "e_trigger (sample_run_env scripts) = TriggerManual"
  "e_cron (sample_run_env scripts) = (\<lambda>_. Inr (\<lambda>t. t))"
  "e_rand (sample_run_env scripts) = (\<lambda>_. Inr (replicate 16 0))" 
  "e_redact (sample_run_env scripts) = (\<lambda>t. t)" 
  "e_has_events (sample_run_env scripts) = True" "e_has_retention (sample_run_env scripts) = True"
  "e_sha256 (sample_run_env scripts) = (\<lambda>_. ''1000'')"
  "e_ctx_err (sample_run_env scripts) = (\<lambda>_. None)" "e_clock (sample_run_env scripts) = (\<lambda>_. epoch)"
  "e_connect (sample_run_env scripts) = (\<lambda>_. None)"
  "e_run (sample_run_env scripts) = (\<lambda>_ _ _ _. Inr \<lparr>rr_exit = 0, rr_stdout = ''1000'', rr_stderr = []\<rparr>)"
  "e_download (sample_run_env scripts) = (\<lambda>_ _. (''data'', None))"
  "e_create_step (sample_run_env scripts) = (\<lambda>_ _ _ _. None)" "e_update_step (sample_run_env scripts) = (\<lambda>_ _ _. None)"
  "e_create_run (sample_run_env scripts) = (\<lambda>_ _. None)" "e_update_run (sample_run_env scripts) = (\<lambda>_ _ _. None)"
  "e_acquire (sample_run_env scripts) = (\<lambda>_ _ _ _ _. None)" "e_release (sample_run_env scripts) = (\<lambda>_ _ _. None)"
  "e_file_op (sample_run_env scripts) = (\<lambda>_ _ _. None)" "e_local_free (sample_run_env scripts) = (\<lambda>_ _. Inr 5000)"
  "e_sleep (sample_run_env scripts) = (\<lambda>_ _. None)" "e_retention (sample_run_env scripts) = (\<lambda>_. ([], [], None))"
  "Job_Sources sample_job = [sample_source]" "Job_HealthCheck sample_job = None" 
  by (simp_all add: sample_run_env_def sample_defs)

lemmas sample_eval = sample_env_simps run_eval stage_eval sample_valid rc_start_def parse_measure_def parse_1000
  sample_trims good_sum_def Let_def

lemma sample_status: "Run_Status (rc_run (final_state (sample_run_env []))) = RunSuccess"
  by (simp add: final_state_def sample_eval)

lemma sample_result:
  "run_state (Engine_Run (sample_run_env [])) (rc_start Map.empty) =
     (Inr (rc_run (final_state (sample_run_env []))), final_state (sample_run_env []))"
proof -
  have "fst (run_state (Engine_Run (sample_run_env [])) (rc_start Map.empty)) =
      Inr (rc_run (final_state (sample_run_env [])))"
    by (simp add: final_state_def sample_eval)
  then show ?thesis by (simp add: final_state_def prod_eq_iff)
qed

end
