(* ===== verification/Engine_Theorems.thy ===== *)
theory Engine_Theorems
  imports Engine_Properties
begin

text \<open>
  What \<^verbatim>\<open>Engine.Run\<close> guarantees, over every environment: the verified archive behind a success,
  the lock, the numbering of the steps, the recovery scripts, the reported failure, the skipped
  run. Three theorems describe what the code does on a cancelled or failed run against its own
  comments. Each theorem with a hypothesis is followed by a run on which it holds.
\<close>

section \<open>The finished run\<close>

lemma finish_state_simps:
  "rc_files (finish_state env s) = rc_files s" "rc_transport (finish_state env s) = rc_transport s"
  "rc_archiveVerified (finish_state env s) = rc_archiveVerified s"
  "rc_run (finish_state env s) = (Run_Finish (e_clock env (rc_trace s)) (finalStatus s) (rc_run s))\<lparr>Run_RecoveryOutcome := rc_recoveryOut s\<rparr>"
  by (simp_all add: finish_state_def Let_def)

lemma Run_Finish_keeps:
  "Run_Status r = RunRunning \<Longrightarrow> Run_Status (Run_Finish t st r) = st" "Run_Checksum (Run_Finish t st r) = Run_Checksum r"
  "Run_ArchiveName (Run_Finish t st r) = Run_ArchiveName r" "Run_ErrorCode (Run_Finish t st r) = Run_ErrorCode r"
  "Run_ErrorMessage (Run_Finish t st r) = Run_ErrorMessage r"
  by (simp_all add: Run_Finish_def IsTerminal_def)

lemma finish_state_trace: "\<exists>evs. rc_trace (finish_state env s) = evs @ rc_trace s"
  by (simp add: finish_state_def Let_def)

lemma finished_good:
  assumes "finalStatus t \<in> {RunSuccess, RunWarning}" "outcome_known t" "verified_ok env t"
  shows "archive_on_disk env t"
  using assms by (auto simp: finalStatus_def outcome_known_def verified_ok_def split: if_splits)

text \<open>C1: A run that ends with status SUCCESS or WARNING has stored a complete archive. The remote
  checksum command printed the digest that the run records as its checksum; after that the
  downloaded file was renamed to the run's archive name in the destination directory; and there
  is a file of that name with exactly this SHA-256 digest when the run returns, unless the
  retention, which the run applies after the rename and which may find the run's own archive too
  old, removed that very file and said so. This holds whatever the server, the database, the disk
  or the user did.\<close>

theorem successful_run_has_verified_archive:
  assumes "run_state (Engine_Run env) (rc_start files) = (Inr run, s)"
    and "Run_Status run \<in> {RunSuccess, RunWarning}"
  shows "\<exists>newer part older path t res.
    rc_trace s = newer @ EvRename part (path_join (e_destDir env) (Run_ArchiveName run)) None # older \<and>
    EvRun RunCtx (checksum_command path) t res \<in> set older \<and> good_sum res = Some (Run_Checksum run) \<and>
    ((\<exists>content. rc_files s (path_join (e_destDir env) (Run_ArchiveName run)) = Some content \<and>
        e_sha256 env content = Run_Checksum run) \<or>
     (\<exists>removed warnings e. EvRetention removed warnings e \<in> set newer \<and>
        path_join (e_destDir env) (Run_ArchiveName run) \<in> set removed))"
  using assms(1)
proof (cases rule: Engine_Run_cases)
  case skipped
  then have "Run_Status run = RunSkipped" using beginRun_skipped by auto
  with assms(2) show ?thesis by simp
next
  case (ran s0)
  define t where "t = snd (run_state (execute env) s0)"
  note b = begun_execute [OF beginRun_begun [OF ran(1)], where env = env, folded t_def]
  have run: "run = (Run_Finish (e_clock env (rc_trace t)) (finalStatus t) (rc_run t))\<lparr>Run_RecoveryOutcome := rc_recoveryOut t\<rparr>"
    and s: "s = finish_state env t"
    using ran(2,3) by (simp_all add: t_def finish_state_simps)
  then have "archive_on_disk env t"
    using assms(2) b by (intro finished_good) (simp_all add: Run_Finish_keeps)
  then have "placed env (path_join (e_destDir env) (Run_ArchiveName run)) (Run_Checksum run) t"
    by (simp add: archive_on_disk_def run Run_Finish_keeps)
  moreover obtain evs where "rc_trace s = evs @ rc_trace t" using finish_state_trace s by blast
  ultimately have "placed env (path_join (e_destDir env) (Run_ArchiveName run)) (Run_Checksum run) s"
    by (rule placed_later) (simp add: s finish_state_simps)
  then show ?thesis unfolding placed_def retention_took_def .
qed auto

text \<open>The sample run; its retention removes nothing, so the file is there.\<close>

lemma sample_retention:
  "\<not> retention_took fp (rc_trace (final_state (sample_run_env [])))"
  by (auto simp: final_state_def sample_eval retention_took_def)

lemma successful_run_witness:
  "\<exists>content path t res.
    rc_files (final_state (sample_run_env [])) (path_join ''D:'' (Run_ArchiveName (rc_run (final_state (sample_run_env []))))) = Some content \<and>
    e_sha256 (sample_run_env []) content = Run_Checksum (rc_run (final_state (sample_run_env []))) \<and>
    EvRun RunCtx (checksum_command path) t res \<in> set (rc_trace (final_state (sample_run_env []))) \<and>
    good_sum res = Some (Run_Checksum (rc_run (final_state (sample_run_env []))))"
  using successful_run_has_verified_archive [of "sample_run_env []" Map.empty "rc_run (final_state (sample_run_env []))" "final_state (sample_run_env [])"]
  using sample_status sample_result sample_env_simps(3) sample_retention
  by (fastforce simp: retention_took_def)

text \<open>C2: The job lock is taken and released in pairs. Over a whole run the lock is acquired at
  most once, it is released exactly as often as it was acquired, and when it was acquired the
  release is the last thing the run does, on every path: an error while the run is stored, a
  failed pre-flight, a cancellation, a success.\<close>

theorem lock_balanced:
  "let h = rc_trace (snd (run_state (Engine_Run env) (rc_start files)))
   in count_events lock_acquired h \<le> 1 \<and> count_events lock_released h = count_events lock_acquired h \<and>
      (count_events lock_acquired h = 0 \<or> lock_released (hd h))"
proof -
  obtain r s where rs: "run_state (Engine_Run env) (rc_start files) = (r, s)" by fastforce
  then have "count_events lock_acquired (rc_trace s) \<le> 1 \<and>
      count_events lock_released (rc_trace s) = count_events lock_acquired (rc_trace s) \<and>
      (count_events lock_acquired (rc_trace s) = 0 \<or> lock_released (hd (rc_trace s)))"
  proof (cases rule: Engine_Run_cases)
    case (error e)
    with beginRun_error show ?thesis by metis
  next
    case skipped
    with beginRun_skipped show ?thesis by (metis le0)
  next
    case (ran s0)
    show ?thesis
      using begun_execute(5) [OF beginRun_begun [OF ran(1)]]
      by (simp add: ran(2) finish_state_def Let_def held_def count_events_def lock_acquired_def lock_released_def)
  qed
  with rs show ?thesis by (simp add: Let_def)
qed

text \<open>C35: The persisted steps of a run are numbered 0, 1, 2 and so on without a gap or a repetition,
  whichever step stores fail: a step that could not be created does not consume a position.\<close>

theorem step_positions_consecutive:
  "\<exists>n. created_positions (rc_trace (snd (run_state (Engine_Run env) (rc_start files)))) = rev (map int [0 ..< n])"
proof -
  obtain r s where rs: "run_state (Engine_Run env) (rc_start files) = (r, s)" by fastforce
  then have "\<exists>n. created_positions (rc_trace s) = rev (map int [0 ..< n])"
  proof (cases rule: Engine_Run_cases)
    case (error e)
    with beginRun_error show ?thesis by (intro exI [of _ 0]) simp
  next
    case skipped
    with beginRun_skipped show ?thesis by (intro exI [of _ 0]) simp
  next
    case (ran s0)
    show ?thesis
      using begun_execute(4) [OF beginRun_begun [OF ran(1)]]
      by (auto simp: ran(2) finish_state_def Let_def positions_ok_def)
  qed
  with rs show ?thesis by simp
qed

text \<open>C4: Every script of the recovery guarantee (run condition ALWAYS, or marked as critical
  clean-up) is attempted exactly once in a run whose connection was opened: by its own stage or
  by the deferred drain, never by both and never by neither, whatever failed or was cancelled
  in between.\<close>

theorem guaranteed_scripts_attempted_once:
  assumes "run_state (Engine_Run env) (rc_start files) = (Inr run, s)" and "rc_transport s"
    and "distinct_ids env" and "script \<in> set (Job_Scripts (e_job env))" and "guaranteed script"
  shows "attempts (Script_ID script) (rc_trace s) = 1"
  using assms(1)
proof (cases rule: Engine_Run_cases)
  case skipped
  with assms(2) beginRun_skipped show ?thesis by blast
next
  case (ran s0)
  define t where "t = snd (run_state (execute env) s0)"
  have "nothing_done s0" using beginRun_begun [OF ran(1)] by (simp add: begun_def)
  then have "guarantee env t" unfolding t_def by (rule hoareD [OF execute_guarantee [OF assms(3)]])
  moreover have "s = finish_state env t" using ran(2) by (simp add: t_def)
  ultimately show ?thesis
    using assms(2,4,5)
    by (simp add: finish_state_simps guarantee_def) (simp add: finish_state_def Let_def is_attempt_def)
qed auto

text \<open>A run cancelled from the start: the context reports the cancellation on every check.\<close>

definition cancelled_env :: "Script list \<Rightarrow> Env" where
  "cancelled_env scripts = (sample_run_env scripts)\<lparr>e_ctx_err := \<lambda>_. Some Canceled\<rparr>"

text \<open>The same, over a client that refuses every command after \<^verbatim>\<open>Close\<close>, and a database that
  refuses a cancelled context.\<close>

definition closing_env :: "Script list \<Rightarrow> Env" where
  "closing_env scripts = (cancelled_env scripts)\<lparr>
     e_run := \<lambda>_ _ _ h. if EvClose \<in> set h then Inl (ErrorText ''closed'')
       else Inr \<lparr>rr_exit = 0, rr_stdout = ''1000'', rr_stderr = []\<rparr>,
     e_update_run := \<lambda>c _ _. if c = RunCtx then Some Canceled else None\<rparr>"

lemma cancelled_simps:
  "e_ctx_err (cancelled_env scripts) = (\<lambda>_. Some Canceled)"
  "e_ctx_err (closing_env scripts) = (\<lambda>_. Some Canceled)"
  "e_job (closing_env scripts) = sample_job\<lparr>Job_Scripts := scripts\<rparr>"
  "e_run (closing_env scripts) = (\<lambda>_ _ _ h. if EvClose \<in> set h then Inl (ErrorText ''closed'')
       else Inr \<lparr>rr_exit = 0, rr_stdout = ''1000'', rr_stderr = []\<rparr>)"
  "e_update_run (closing_env scripts) = (\<lambda>c _ _. if c = RunCtx then Some Canceled else None)"
  by (simp_all add: cancelled_env_def closing_env_def sample_env_simps)

lemma closing_same:
  "e_server (closing_env scripts) = sample_server" "e_destDir (closing_env scripts) = ''D:''"
  "e_trigger (closing_env scripts) = TriggerManual" "e_cron (closing_env scripts) = (\<lambda>_. Inr (\<lambda>t. t))"
  "e_rand (closing_env scripts) = (\<lambda>_. Inr (replicate 16 0))" "e_redact (closing_env scripts) = (\<lambda>t. t)" 
  "e_has_events (closing_env scripts) = True" "e_has_retention (closing_env scripts) = True"
  "e_clock (closing_env scripts) = (\<lambda>_. epoch)" "e_connect (closing_env scripts) = (\<lambda>_. None)"
  "e_create_step (closing_env scripts) = (\<lambda>_ _ _ _. None)" "e_update_step (closing_env scripts) = (\<lambda>_ _ _. None)"
  "e_create_run (closing_env scripts) = (\<lambda>_ _. None)" "e_acquire (closing_env scripts) = (\<lambda>_ _ _ _ _. None)"
  "e_release (closing_env scripts) = (\<lambda>_ _ _. None)" "e_file_op (closing_env scripts) = (\<lambda>_ _ _. None)"
  "e_local_free (closing_env scripts) = (\<lambda>_ _. Inr 5000)"
  by (simp_all add: closing_env_def cancelled_env_def sample_env_simps)

lemma cleanup_script_simps:
  "Script_ID cleanup_script = ''scr1''" "Script_Type cleanup_script = ScriptPostBackup"
  "Script_Command cleanup_script = ''systemctl start app''" "Script_Position cleanup_script = 0"
  "Script_TimeoutSeconds cleanup_script = 60" "Script_RunCondition cleanup_script = RunConditionAlways"
  "Script_CriticalCleanup cleanup_script = True" "Script_RetryOnFailure cleanup_script = False"
  by (simp_all add: cleanup_script_def)

lemma closing_run:
  "let s = final_state (closing_env [cleanup_script])
   in rc_transport s \<and> Run_Status (rc_run s) = RunCancelled \<and>
      fst (run_state (Engine_Run (closing_env [cleanup_script])) (rc_start Map.empty)) = Inr (rc_run s)"
  by (simp add: final_state_def cancelled_simps closing_same sample_eval cleanup_script_simps)

lemma closing_run_facts:
  "rc_transport (final_state (closing_env [cleanup_script]))"
  "Run_Status (rc_run (final_state (closing_env [cleanup_script]))) = RunCancelled"
  "run_state (Engine_Run (closing_env [cleanup_script])) (rc_start Map.empty) =
     (Inr (rc_run (final_state (closing_env [cleanup_script]))), final_state (closing_env [cleanup_script]))"
  using closing_run by (simp_all add: Let_def prod_eq_iff final_state_def)

lemma guaranteed_once_witness:
  "attempts (Script_ID cleanup_script) (rc_trace (final_state (closing_env [cleanup_script]))) = 1"
  using guaranteed_scripts_attempted_once [OF closing_run_facts(3,1), of cleanup_script]
  by (simp add: distinct_ids_def closing_same cancelled_simps guaranteed_def cleanup_script_simps)

text \<open>The behaviour of an SSH client whose connection is closed: every command fails.\<close>

definition refuses_when_closed :: "Env \<Rightarrow> bool" where
  "refuses_when_closed env \<longleftrightarrow> (\<forall>ctx cmd t h. EvClose \<in> set h \<longrightarrow> (\<exists>e. e_run env ctx cmd t h = Inl e))"

definition closed :: "Rc \<Rightarrow> bool" where
  "closed s \<longleftrightarrow> EvClose \<in> set (rc_trace s)"

lemma closed_later: "later s t \<Longrightarrow> closed s \<Longrightarrow> closed t"
  by (auto simp: closed_def later_def grows_def)

text \<open>On a closed connection every command that is still sent is answered with an error.\<close>

definition all_refused :: "Trace \<Rightarrow> bool" where
  "all_refused evs \<longleftrightarrow> (\<forall>ctx cmd d r. EvRun ctx cmd d r \<in> set evs \<longrightarrow> (\<exists>e. r = Inl e))"

definition only_refused :: "Env \<Rightarrow> Rc \<Rightarrow> Rc \<Rightarrow> bool" where
  "only_refused env s t \<longleftrightarrow> (\<exists>evs. rc_trace t = evs @ rc_trace s \<and>
     (refuses_when_closed env \<longrightarrow> closed s \<longrightarrow> all_refused evs))"

definition is_command :: "Event \<Rightarrow> bool" where
  "is_command ev = (case ev of EvRun c cmd d r \<Rightarrow> True | _ \<Rightarrow> False)"

lemma only_refused_event:
  "rc_trace t = ev # rc_trace s \<Longrightarrow> \<not> is_command ev \<Longrightarrow> only_refused env s t"
  unfolding only_refused_def by (intro exI [of _ "[ev]"]) (auto simp: all_refused_def is_command_def)

lemma only_refused_same: "rc_trace t = rc_trace s \<Longrightarrow> only_refused env s t"
  by (simp add: only_refused_def all_refused_def)

lemma only_refused_trans:
  assumes "only_refused env s t" "only_refused env t u"
  shows "only_refused env s u"
proof -
  obtain e1 e2 where e: "rc_trace t = e1 @ rc_trace s" "rc_trace u = e2 @ rc_trace t"
    and r: "refuses_when_closed env \<longrightarrow> closed s \<longrightarrow> all_refused e1"
      "refuses_when_closed env \<longrightarrow> closed t \<longrightarrow> all_refused e2"
    using assms by (auto simp: only_refused_def)
  have "closed s \<Longrightarrow> closed t" by (simp add: closed_def e(1))
  with r have "refuses_when_closed env \<longrightarrow> closed s \<longrightarrow> all_refused (e2 @ e1)" by (auto simp: all_refused_def)
  with e show ?thesis unfolding only_refused_def by (intro exI [of _ "e2 @ e1"]) simp
qed

interpretation only_refused: engine_script_rel "only_refused env" env for env
proof unfold_locales
  show "only_refused env s u" if "only_refused env s t" "only_refused env t u" for s t u
    using that by (rule only_refused_trans)
  show "state_io_rel (only_refused env) (transport_run env ctx cmd d)" for ctx cmd d
  proof (rule state_io_run)
    fix s
    have "\<exists>e. e_run env ctx cmd d (rc_trace s) = Inl e" if "refuses_when_closed env" "closed s"
      using that unfolding refuses_when_closed_def closed_def by blast
    then show "only_refused env s (s\<lparr>rc_trace := EvRun ctx cmd d (e_run env ctx cmd d (rc_trace s)) # rc_trace s\<rparr>)"
      unfolding only_refused_def
      by (intro exI [of _ "[EvRun ctx cmd d (e_run env ctx cmd d (rc_trace s))]"]) (auto simp: all_refused_def)
  qed
  show "state_io_rel (only_refused env) (update_run env ctx)" for ctx
    by (rule state_io_update) (auto simp: is_command_def intro!: only_refused_event)
  show "state_io_rel (only_refused env) (persist_step env ctx step)" for ctx step
    by (rule state_io_persist) (auto simp: is_command_def intro!: only_refused_event)
  show "state_io_rel (only_refused env) (checkCancelled env)"
    by (rule state_io_cancel) (auto intro!: only_refused_same)
  show "state_io_rel (only_refused env) (register_script script)" for script
    by (rule state_io_register) (auto intro!: only_refused_same)
  show "state_io_rel (only_refused env) (recordRecovery e)" for e
    by (auto simp: state_io_rel_def recordRecovery_def Let_def intro!: only_refused_same split: option.splits)
  show "only_refused env s (s\<lparr>rc_trace := ev # rc_trace s\<rparr>)" if "workflow_event ev" for s ev
    using that by (intro only_refused_event) (auto simp: workflow_event_def is_command_def split: Event.splits)
  show "only_refused env s (s\<lparr>rc_trace := EvAttempt script # rc_trace s\<rparr>)" for s script
    by (auto simp: is_command_def intro!: only_refused_event)
qed (auto simp: state_io_rel_def fail_def warn_def MarkDone_def Let_def intro!: only_refused_same)

lemma hoare_closed: "state_io_rel later m \<Longrightarrow> hoare closed m (\<lambda>_. closed)"
  by (rule hoare_keep [where R = later]) (auto intro: closed_later)

lemma script_attempts_closed:
  assumes "refuses_when_closed env" "closed s" "n > 0 \<or> e \<noteq> None"
  shows "fst (run_state (script_attempts env ctx x n e) s) \<noteq> None"
  using assms(2,3)
proof (induction n arbitrary: e s)
  case (Suc n)
  obtain e' where "e_run env ctx (Script_Command x) (seconds_duration (Script_TimeoutSeconds x)) (rc_trace s) = Inl e'"
    using assms(1) Suc.prems(1) unfolding refuses_when_closed_def closed_def by blast
  then show ?case using Suc by (simp add: transport_run_def closed_def)
qed auto

lemma runScriptRecorded_closed:
  assumes "refuses_when_closed env"
  shows "hoare closed (runScriptRecorded env ctx x st) (\<lambda>r s. closed s \<and> r \<noteq> None)"
proof -
  have run: "hoare closed (executeScript env ctx x) (\<lambda>r s. closed s \<and> r \<noteq> None)"
    using script_attempts_closed [OF assms] hoareD [OF hoare_closed [OF later.io_executeScript]]
    by (auto simp: hoare_def executeScript_def)
  have rest: "hoare (\<lambda>s. closed s \<and> r \<noteq> None) (do { close_step env ctx st' step; ret r }) (\<lambda>r s. closed s \<and> r \<noteq> None)"
    for r :: "err option" and st' step
  proof (rule hoare_then)
    show "hoare (\<lambda>s. closed s \<and> r \<noteq> None) (close_step env ctx st' step) (\<lambda>_ s. closed s \<and> r \<noteq> None)"
      by (rule hoare_keep [OF later.io_close_step]) (auto dest: closed_later)
  qed (auto intro: hoare_return)
  show ?thesis
    unfolding runScriptRecorded_def Let_def
    by (rule hoare_then [OF hoare_closed [OF later.io_attempt]],
        rule hoare_bind [OF hoare_closed [OF later.io_steps_Start]], rule hoare_sum,
        rule hoare_return, simp, rule hoare_bind [OF run], rule rest)
qed

lemma drain_entries_closed:
  assumes "refuses_when_closed env"
  shows "hoare closed (drain_entries (drain_script env) is)
    (\<lambda>outs s. length outs = length is \<and> (\<forall>out \<in> set outs. snd out \<noteq> None))"
proof (induction "is")
  case Nil
  show ?case by (simp add: hoare_return)
next
  case (Cons i "is")
  have rest: "hoare (\<lambda>s. closed s \<and> e \<noteq> None) (do { MarkDone i; outs \<leftarrow> drain_entries (drain_script env) is;
       ret ((d, e) # outs) }) (\<lambda>outs s. length outs = length (i # is) \<and> (\<forall>out \<in> set outs. snd out \<noteq> None))"
    for d :: string and e :: "err option"
  proof (cases e)
    case None
    then show ?thesis by (simp add: hoare_def)
  next
    case (Some e')
    have mark: "hoare (\<lambda>s. closed s \<and> e \<noteq> None) (MarkDone i) (\<lambda>_. closed)"
      by (rule hoare_keep [OF later.prim_done]) (auto dest: closed_later)
    show ?thesis
      by (rule hoare_then [OF mark], rule hoare_bind [OF Cons.IH], rule hoare_return) (auto simp: Some)
  qed
  show ?case
    unfolding drain_entries.simps
    by (rule hoare_bind [OF hoare_gets [where Q = "\<lambda>_. closed"]], assumption,
        rule hoare_bind [OF runScriptRecorded_closed [OF assms]], rule rest)
qed

lemma recoveries_failed:
  assumes "outs \<noteq> []" "\<forall>out \<in> set outs. snd out \<noteq> None"
  shows "rc_recoveryOut (snd (run_state (for_each (\<lambda>out. recordRecovery (snd out)) outs) s)) = RecoveryFailed"
  using assms
proof (induction outs arbitrary: s)
  case (Cons out outs)
  show ?case
  proof (cases "outs = []")
    case True
    with Cons.prems show ?thesis by (auto simp: recordRecovery_def Let_def)
  next
    case False
    with Cons show ?thesis by (simp add: case_prod_beta)
  qed
qed simp

lemma drain_closed:
  assumes "refuses_when_closed env" "closed s" "pending_entries (rc_entries s) \<noteq> []"
  shows "rc_recoveryOut (snd (run_state (drainCleanup env) s)) = RecoveryFailed"
proof -
  define p where "p = run_state (drain_entries (drain_script env) (pending_entries (rc_entries s))) s"
  have "length (fst p) = length (pending_entries (rc_entries s)) \<and> (\<forall>out \<in> set (fst p). snd out \<noteq> None)"
    unfolding p_def by (rule hoareD [OF drain_entries_closed [OF assms(1)] assms(2)])
  moreover from this assms(3) have "fst p \<noteq> []" by auto
  ultimately have "rc_recoveryOut (snd (run_state (for_each (\<lambda>out. recordRecovery (snd out)) (fst p)) (snd p))) = RecoveryFailed"
    by (intro recoveries_failed) simp_all
  then show ?thesis by (simp add: drainCleanup_def Drain_def p_def case_prod_beta)
qed

text \<open>The drain enters \<^verbatim>\<open>runScriptRecorded\<close> for every entry of its list.\<close>

lemma attempted_first:
  "\<exists>evs. rc_trace (snd (run_state (runScriptRecorded env ctx x st) s)) = evs @ rc_trace s \<and> EvAttempt x \<in> set evs"
proof -
  define m where "m = (do {
     r \<leftarrow> steps_Start env ctx st;
     case r of
       Inl e \<Rightarrow> ret (Some e)
     | Inr step0 \<Rightarrow> do {
         let step = step0\<lparr>Step_Command := Script_Command x\<rparr>;
         runErr \<leftarrow> executeScript env ctx x;
         close_step env ctx (if runErr = None then StepSuccess else StepFailed)
           (case runErr of None \<Rightarrow> step | Some e \<Rightarrow> step\<lparr>Step_Error := e_redact env (Error e)\<rparr>);
         ret runErr
       } })"
  have m: "state_io_rel later m"
    unfolding m_def Let_def
    by (intro later.io_bind later.io_sum later.io_steps_Start later.io_executeScript later.io_close_step later.io_return)
  have "snd (run_state (runScriptRecorded env ctx x st) s) = snd (run_state m (s\<lparr>rc_trace := EvAttempt x # rc_trace s\<rparr>))"
    by (simp add: runScriptRecorded_def m_def record_event_def)
  then show ?thesis
    using later.io_snd [OF m, of "s\<lparr>rc_trace := EvAttempt x # rc_trace s\<rparr>"] by (auto simp: later_def grows_def)
qed

lemma drain_entries_attempts:
  assumes "set is \<subseteq> {..< length (rc_entries s)}"
  shows "\<exists>evs. rc_trace (snd (run_state (drain_entries (drain_script env) is) s)) = evs @ rc_trace s \<and>
    (\<forall>i \<in> set is. EvAttempt (en_script (rc_entries s ! i)) \<in> set evs)"
  using assms
proof (induction "is" arbitrary: s)
  case (Cons i "is")
  define s1 where "s1 = snd (run_state (drain_script env (rc_entries s ! i)) s)"
  define s2 where "s2 = snd (run_state (MarkDone i) s1)"
  obtain e1 where e1: "rc_trace s1 = e1 @ rc_trace s" "EvAttempt (en_script (rc_entries s ! i)) \<in> set e1"
    using attempted_first [of env CleanupCtx "en_script (rc_entries s ! i)" "en_stepType (rc_entries s ! i)" s]
    by (auto simp: s1_def)
  have ent: "rc_entries s1 = rc_entries s" by (simp add: s1_def runScriptRecorded_entries)
  have s2: "rc_trace s2 = rc_trace s1" "map en_script (rc_entries s2) = map en_script (rc_entries s)"
    using Cons.prems by (simp_all add: s2_def MarkDone_def ent map_update [symmetric])
      (simp_all add: map_update ent list_update_same_conv)
  have len: "length (rc_entries s2) = length (rc_entries s)" using s2(2) by (metis length_map)
  obtain e2 where e2: "rc_trace (snd (run_state (drain_entries (drain_script env) is) s2)) = e2 @ rc_trace s2"
      "\<forall>j \<in> set is. EvAttempt (en_script (rc_entries s2 ! j)) \<in> set e2"
    using Cons.IH [of s2] Cons.prems len by auto
  have same: "en_script (rc_entries s2 ! j) = en_script (rc_entries s ! j)" if "j \<in> set is" for j
  proof -
    have "j < length (rc_entries s)" using that Cons.prems by auto
    then show ?thesis using s2(2) len by (metis nth_map)
  qed
  have "snd (run_state (drain_entries (drain_script env) (i # is)) s) =
      snd (run_state (drain_entries (drain_script env) is) s2)"
    by (simp add: s2_def s1_def case_prod_beta)
  then show ?case
    using e1 e2 s2(1) same by (intro exI [of _ "e2 @ e1"]) auto
qed simp

lemma drain_attempts:
  "\<exists>evs. rc_trace (snd (run_state (drainCleanup env) s)) = evs @ rc_trace s \<and>
    (\<forall>i \<in> set (pending_entries (rc_entries s)). EvAttempt (en_script (rc_entries s ! i)) \<in> set evs)"
proof -
  define p where "p = run_state (drain_entries (drain_script env) (pending_entries (rc_entries s))) s"
  define t where "t = snd (run_state (for_each (\<lambda>out. recordRecovery (snd out)) (fst p)) (snd p))"
  have "later (snd p) t"
    unfolding t_def by (rule later.io_snd, intro later.io_for_each later.prim_recovery)
  then obtain e2 where "rc_trace t = e2 @ rc_trace (snd p)" by (auto simp: later_def grows_def)
  moreover obtain e1 where "rc_trace (snd p) = e1 @ rc_trace s"
      "\<forall>i \<in> set (pending_entries (rc_entries s)). EvAttempt (en_script (rc_entries s ! i)) \<in> set e1"
    using drain_entries_attempts [of "pending_entries (rc_entries s)" s env]
    by (auto simp: p_def pending_entries_def)
  moreover have "snd (run_state (drainCleanup env) s) = t"
    by (simp add: drainCleanup_def Drain_def t_def p_def case_prod_beta)
  ultimately show ?thesis by (intro exI [of _ "e2 @ e1"]) auto
qed

text \<open>C36: The deferred calls run in the wrong order for the recovery guarantee. When the stages
  return with a guaranteed script still pending (the run was cancelled before its stage), the
  transport is closed first and the drain runs on the closed connection: every pending script is
  recorded as attempted after the close, every command that is sent after the close is refused
  by the closed client, so none is executed, and the recovery is reported as FAILED. That a closed
  SSH client refuses every command is the documented behaviour of the ssh package.\<close>

theorem pending_recovery_runs_after_close:
  assumes "run_state (preflight env) s0 = (True, s1)" and "run_state (stages env) s1 = (u, s2)"
    and "rc_transport s2" and "pending_entries (rc_entries s2) \<noteq> []" and "refuses_when_closed env"
  defines "t \<equiv> snd (run_state (execute env) s0)"
  shows "rc_recoveryOut t = RecoveryFailed \<and> (\<exists>evs. rc_trace t = evs @ EvClose # rc_trace s2 \<and>
    (\<forall>i \<in> set (pending_entries (rc_entries s2)). EvAttempt (en_script (rc_entries s2 ! i)) \<in> set evs) \<and>
    (\<forall>ctx cmd d r. EvRun ctx cmd d r \<in> set evs \<longrightarrow> (\<exists>e. r = Inl e)))"
proof -
  define s3 where "s3 = s2\<lparr>rc_trace := EvClose # rc_trace s2\<rparr>"
  have t: "t = snd (run_state (drainCleanup env) s3)"
    using assms(1-3) by (simp add: t_def execute_def close_transport_def record_event_def s3_def)
  have closed: "closed s3" by (simp add: closed_def s3_def)
  have "rc_recoveryOut t = RecoveryFailed"
    unfolding t using assms(4) by (intro drain_closed [OF assms(5) closed]) (simp add: s3_def)
  moreover obtain evs where evs: "rc_trace t = evs @ EvClose # rc_trace s2"
      "\<forall>i \<in> set (pending_entries (rc_entries s2)). EvAttempt (en_script (rc_entries s2 ! i)) \<in> set evs"
    using drain_attempts [of env s3] by (auto simp: t s3_def)
  moreover have "only_refused env s3 t"
    using only_refused.io_snd [OF only_refused.io_drainCleanup [of env], of s3] by (simp add: t)
  then have "all_refused evs" using assms(5) closed evs(1) by (auto simp: only_refused_def s3_def)
  ultimately show ?thesis unfolding all_refused_def by blast
qed

definition cancelled_start :: Rc where
  "cancelled_start = snd (run_state (beginRun (closing_env [cleanup_script])) (rc_start Map.empty))"

definition cancelled_stages :: "Rc \<times> Rc" where
  "cancelled_stages =
     (let s1 = snd (run_state (preflight (closing_env [cleanup_script])) cancelled_start)
      in (s1, snd (run_state (stages (closing_env [cleanup_script])) s1)))"

lemma stages_cancelled:
  "run_state (stages (closing_env [cleanup_script])) s = ((), s\<lparr>rc_cancelled := True\<rparr>)"
  by (simp add: stages_def runScripts_def unless_cancelled_def checkCancelled_def cancelled_simps cleanup_script_simps)

lemma itoa_zero: "itoa 0 = ''0''"
  by code_simp

lemma cancelled_preflight:
  "fst (run_state (preflight (closing_env [cleanup_script])) cancelled_start)"
  "rc_transport (snd (run_state (preflight (closing_env [cleanup_script])) cancelled_start))"
  "rc_entries (snd (run_state (preflight (closing_env [cleanup_script])) cancelled_start)) =
     [\<lparr>en_description = ''POST_BACKUP script (position 0)'', en_script = cleanup_script,
       en_stepType = StepPostBackupScript, en_done = False\<rparr>]"
  by (simp_all add: cancelled_start_def cancelled_simps closing_same sample_eval cleanup_script_simps itoa_zero)

lemma cancelled_stages_run:
  "run_state (preflight (closing_env [cleanup_script])) cancelled_start = (True, fst cancelled_stages)"
  "run_state (stages (closing_env [cleanup_script])) (fst cancelled_stages) = ((), snd cancelled_stages)"
  "rc_transport (snd cancelled_stages)" "pending_entries (rc_entries (snd cancelled_stages)) = [0]"
  "en_script (rc_entries (snd cancelled_stages) ! 0) = cleanup_script"
  using cancelled_preflight
  by (simp_all add: cancelled_stages_def stages_cancelled pending_entries_def Let_def prod_eq_iff)

lemma pending_recovery_witness:
  "rc_recoveryOut (snd (run_state (execute (closing_env [cleanup_script])) cancelled_start)) = RecoveryFailed \<and>
   EvAttempt cleanup_script \<in> set (rc_trace (snd (run_state (execute (closing_env [cleanup_script])) cancelled_start)))"
proof -
  have "refuses_when_closed (closing_env [cleanup_script])"
    by (simp add: refuses_when_closed_def cancelled_simps)
  from pending_recovery_runs_after_close [OF cancelled_stages_run(1-3) _ this]
  show ?thesis by (auto simp: cancelled_stages_run)
qed


text \<open>The rows of the run's record that reached the database, newest first.\<close>

fun stored_runs :: "Trace \<Rightarrow> Run list" where
  "stored_runs [] = []"
| "stored_runs (EvRunCreate r None # h) = r # stored_runs h"
| "stored_runs (EvRunUpdate ctx r None # h) = r # stored_runs h"
| "stored_runs (ev # h) = stored_runs h"

lemma set_stored_runs:
  "r \<in> set (stored_runs h) \<longleftrightarrow> EvRunCreate r None \<in> set h \<or> (\<exists>ctx. EvRunUpdate ctx r None \<in> set h)"
  by (induction h rule: stored_runs.induct) auto

lemma beginRun_stored:
  assumes "run_state (beginRun env) (rc_start files) = (Inr False, s)"
  shows "set (map Run_Status (stored_runs (rc_trace s))) = {RunRunning}"
  using assms
  by (auto simp: beginRun_def rc_start_def now_def record_event_def NewRun_def Let_def split: sum.splits option.splits if_splits)

lemma grows_created: "grows s t \<Longrightarrow> EvRunCreate r None \<in> set (rc_trace t) \<longleftrightarrow> EvRunCreate r None \<in> set (rc_trace s)"
proof -
  have "bookkeeping (EvRunCreate r None)" by (simp add: bookkeeping_def)
  then show "grows s t \<Longrightarrow> ?thesis" unfolding grows_def list_ex_iff by auto
qed

lemma stored_refused: "e \<noteq> None \<Longrightarrow> stored_runs (EvRunUpdate c r e # h) = stored_runs h"
  by (cases e) simp_all

lemma execute_stored:
  assumes "grows s t" "running_ok t" "set (map Run_Status (stored_runs (rc_trace s))) = {RunRunning}"
  shows "set (map Run_Status (stored_runs (rc_trace t))) = {RunRunning}"
proof -
  obtain r where "r \<in> set (stored_runs (rc_trace s))" using assms(3) by (cases "stored_runs (rc_trace s)") auto
  moreover have "set (stored_runs (rc_trace s)) \<subseteq> set (stored_runs (rc_trace t))"
    using assms(1) by (auto simp: grows_def set_stored_runs)
  moreover have "Run_Status q = RunRunning" if "q \<in> set (stored_runs (rc_trace t))" for q
    using that assms(2,3) grows_created [OF assms(1)] unfolding set_stored_runs running_ok_def
    by (metis (no_types, lifting) imageI list.set_map set_stored_runs singletonD)
  ultimately show ?thesis by (auto simp: image_iff)
qed

text \<open>C25: The end of a cancelled run never reaches the database. A context stays cancelled and the
  driver refuses a cancelled context, so the update that should store the status CANCELLED
  fails, its error is only logged, and every row of the run that was stored, the first as the
  last, says RUNNING: the row stays RUNNING until the next start of the service recovers it.\<close>

theorem cancelled_status_never_stored:
  assumes "run_state (Engine_Run env) (rc_start files) = (Inr run, s)" and "Run_Status run = RunCancelled"
    and "ctx_sticky env"
    and "\<And>r h. e_ctx_err env h \<noteq> None \<Longrightarrow> e_update_run env RunCtx r h \<noteq> None"
  shows "set (map Run_Status (stored_runs (rc_trace s))) = {RunRunning}"
  using assms(1)
proof (cases rule: Engine_Run_cases)
  case skipped
  with assms(2) beginRun_skipped show ?thesis by fastforce
next
  case (ran s0)
  define t where "t = snd (run_state (execute env) s0)"
  note b = begun_execute [OF beginRun_begun [OF ran(1)], where env = env, folded t_def]
  have s: "s = finish_state env t" using ran(2) by (simp add: t_def)
  then have "finalStatus t = RunCancelled"
    using assms(2) ran(3) b(6) by (simp add: finish_state_simps Run_Finish_keeps)
  then have "rc_cancelled t" by (auto simp: finalStatus_def split: if_splits)
  moreover have "cancel_seen env t"
    using keeps_cancel.io_snd [OF keeps_cancel.io_execute [of env], of s0] beginRun_begun [OF ran(1)] assms(3)
    by (simp add: keeps_cancel_def t_def cancel_seen_def begun_def)
  ultimately have "e_ctx_err env (EvNow (e_clock env (rc_trace t)) # rc_trace t) \<noteq> None"
    using assms(3) by (simp add: cancel_seen_def ctx_sticky_def)
  from stored_refused [OF assms(4) [OF this]]
  have "stored_runs (rc_trace s) = stored_runs (rc_trace t)"
    by (simp add: s finish_state_def Let_def)
  moreover have "set (map Run_Status (stored_runs (rc_trace t))) = {RunRunning}"
    using execute_stored [OF execute_grows [of s0 env]] b(3) beginRun_stored [OF ran(1)] by (simp add: t_def)
  ultimately show ?thesis by simp
qed auto

lemma cancelled_status_witness:
  "set (map Run_Status (stored_runs (rc_trace (final_state (closing_env [cleanup_script]))))) = {RunRunning}"
  by (rule cancelled_status_never_stored [OF closing_run_facts(3,2)]) (simp_all add: ctx_sticky_def cancelled_simps)

text \<open>A pre-flight that fails after the connection was opened leaks the connection: the close is
  deferred only after a successful pre-flight, so the run ends with the transport open and
  \<^verbatim>\<open>Close\<close> never called.\<close>

theorem failed_preflight_leaks_transport:
  assumes "run_state (preflight env) s0 = (False, s1)" and "rc_transport s1" and "EvClose \<notin> set (rc_trace s0)"
  shows "rc_transport (snd (run_state (execute env) s0)) \<and> EvClose \<notin> set (rc_trace (snd (run_state (execute env) s0)))"
proof -
  define t where "t = snd (run_state (drainCleanup env) s1)"
  have t: "snd (run_state (execute env) s0) = t" using assms(1) by (simp add: execute_def t_def)
  have "keeps_open s0 s1" using keeps_open.io_snd [OF keeps_open.io_preflight [of env], of s0] assms(1) by simp
  moreover have "keeps_open s1 t"
    using keeps_open.io_snd [OF keeps_open.io_drainCleanup [of env], of s1] by (simp add: t_def)
  moreover have "later s1 t" using later.io_snd [OF later.io_drainCleanup [of env], of s1] by (simp add: t_def)
  ultimately show ?thesis using assms(2,3) unfolding t by (simp add: keeps_open_def later_def latched_def)
qed

text \<open>The sample server without \<^verbatim>\<open>tar\<close>, \<^verbatim>\<open>gzip\<close> and \<^verbatim>\<open>sha256sum\<close>: every command fails.\<close>

definition bare_env :: Env where
  "bare_env = (sample_run_env [])\<lparr>e_run := \<lambda>_ _ _ _. Inr \<lparr>rr_exit = 1, rr_stdout = [], rr_stderr = []\<rparr>\<rparr>"

lemma bare_simps:
  "e_job bare_env = sample_job\<lparr>Job_Scripts := []\<rparr>" "e_server bare_env = sample_server"
  "e_run bare_env = (\<lambda>_ _ _ _. Inr \<lparr>rr_exit = 1, rr_stdout = [], rr_stderr = []\<rparr>)"
  "e_cron bare_env = (\<lambda>_. Inr (\<lambda>t. t))" "e_rand bare_env = (\<lambda>_. Inr (replicate 16 0))" "e_clock bare_env = (\<lambda>_. epoch)"
  "e_connect bare_env = (\<lambda>_. None)" "e_create_step bare_env = (\<lambda>_ _ _ _. None)" "e_has_events bare_env = True"
  "e_update_step bare_env = (\<lambda>_ _ _. None)" "e_redact bare_env = (\<lambda>t. t)"
  by (simp_all add: bare_env_def sample_env_simps)

lemma bare_preflight:
  "\<not> fst (run_state (preflight bare_env) (rc_start Map.empty))"
  "rc_transport (snd (run_state (preflight bare_env) (rc_start Map.empty)))"
  by (simp_all add: bare_simps sample_eval)

lemma failed_preflight_witness:
  "rc_transport (snd (run_state (execute bare_env) (rc_start Map.empty))) \<and>
   EvClose \<notin> set (rc_trace (snd (run_state (execute bare_env) (rc_start Map.empty))))"
  by (rule failed_preflight_leaks_transport
      [of bare_env "rc_start Map.empty" "snd (run_state (preflight bare_env) (rc_start Map.empty))"])
    (use bare_preflight in \<open>simp_all add: prod_eq_iff rc_start_def\<close>)


text \<open>While another run of the job holds its lock, a start only records a SKIPPED run. The
  events of the whole call are the clock reading, the refused lock, the second reading and the
  insert of the skipped run: no connection, no command, no lock is touched.\<close>

theorem locked_job_is_skipped:
  assumes "run_state (Engine_Run env) (rc_start files) = (Inr run, s)"
    and "\<And>j r t p h. \<exists>e. e_acquire env j r t p h = Some e \<and> CodeOf e = Some ErrJobAlreadyRunning"
  shows "Run_Status run = RunSkipped \<and> \<not> rc_transport s \<and> rc_files s = files \<and>
    (\<exists>t1 t2 e. rc_trace s = [EvRunCreate run None, EvNow t2,
       EvLockAcquire (Job_ID (e_job env)) (Run_ID run) (rfc3339nano (to_utc t1)) (Some e), EvNow t1])"
proof -
  define t1 where "t1 = e_clock env []"
  obtain ident where ident: "NewID (e_rand env) 0 = Inr ident"
    using assms(1) by (cases "NewID (e_rand env) 0") (auto simp: Engine_Run_def beginRun_def rc_start_def now_def)
  obtain e where "e_acquire env (Job_ID (e_job env)) ident (rfc3339nano (to_utc t1)) (e_pid env) [EvNow t1] = Some e"
    and "CodeOf e = Some ErrJobAlreadyRunning"
    using assms(2) by blast
  then show ?thesis
    using assms(1) ident
    by (auto simp: Engine_Run_def beginRun_def rc_start_def now_def t1_def NewRun_def Let_def split: option.splits)
qed

definition locked_env :: Env where
  "locked_env = (sample_run_env [])\<lparr>e_acquire := \<lambda>_ _ _ _ _. Some (CodedError ErrJobAlreadyRunning ''locked'' None)\<rparr>"

lemma locked_result:
  "run_state (Engine_Run locked_env) (rc_start Map.empty) =
     (Inr (rc_run (final_state locked_env)), final_state locked_env)"
proof -
  have "fst (run_state (Engine_Run locked_env) (rc_start Map.empty)) = Inr (rc_run (final_state locked_env))"
    by (simp add: final_state_def locked_env_def sample_eval)
  then show ?thesis by (simp add: final_state_def prod_eq_iff)
qed

lemma locked_job_witness:
  "Run_Status (rc_run (final_state locked_env)) = RunSkipped \<and> length (rc_trace (final_state locked_env)) = 4"
  using locked_job_is_skipped [OF locked_result]
  by (auto simp: locked_env_def)

section \<open>The first failure\<close>

text \<open>
  The part of \<^verbatim>\<open>execute\<close> before the loop over the scripts of a type: pre-flight for the pre-backup
  scripts; for the post-backup scripts also the pre-backup scripts, the archive and the download,
  with the cancellation checks between them.
\<close>

definition before_scripts :: "Env \<Rightarrow> ScriptType \<Rightarrow> bool Step" where
  "before_scripts env ty = do {
     ok \<leftarrow> preflight env;
     when_do (ty = ScriptPostBackup) (do {
       runScripts env ScriptPreBackup;
       c1 \<leftarrow> checkCancelled env;
       unless_failed (archive env);
       c2 \<leftarrow> checkCancelled env;
       unless_failed (downloadAndVerify env);
       c3 \<leftarrow> checkCancelled env;
       ret ()
     });
     ret ok
   }"

lemma checkCancelled_result:
  "run_state (checkCancelled env) s = (c, t) \<Longrightarrow> \<not> rc_cancelled t \<Longrightarrow> \<not> c"
  by (auto simp: checkCancelled_def split: option.splits)

lemma unless_cancelled_open:
  assumes "\<not> rc_cancelled (snd (run_state (checkCancelled env) s))"
  shows "run_state (unless_cancelled env m) s = run_state m (snd (run_state (checkCancelled env) s))"
  using assms by (auto simp: unless_cancelled_def checkCancelled_def split: option.splits)

lemma later_cancelled: "later s t \<Longrightarrow> \<not> rc_cancelled t \<Longrightarrow> \<not> rc_cancelled s"
  by (auto simp: later_def latched_def)

lemma run_scripts_from:
  assumes "\<not> rc_cancelled (snd (run_state (run_script_list env ty xs) s))"
  shows "run_state (run_script_list env ty (xs @ ys)) s =
    run_state (run_script_list env ty ys) (snd (run_state (run_script_list env ty xs) s))"
  using assms
proof (induction xs arbitrary: s)
  case (Cons x xs)
  show ?case
  proof (cases "Script_Type x = ty")
    case False
    with Cons show ?thesis by simp
  next
    case True
    obtain c s1 where c: "run_state (checkCancelled env) s = (c, s1)" by fastforce
    have "\<not> c"
    proof
      assume "c"
      then have "rc_cancelled s1" using c by (auto simp: checkCancelled_def split: option.splits)
      with Cons.prems True c \<open>c\<close> show False by simp
    qed
    with Cons.IH [of "snd (run_state (run_one_script env ty x) s1)"] Cons.prems True c
    show ?thesis by (simp add: case_prod_beta)
  qed
qed simp

text \<open>What \<^verbatim>\<open>execute\<close> does after the loop reaches a script.\<close>

lemma execute_reaches:
  assumes b: "run_state (before_scripts env ty) s0 = (True, s1)"
    and s2: "s2 = snd (run_state (run_script_list env ty xs) s1)" and go: "\<not> rc_cancelled s2"
    and job: "Job_Scripts (e_job env) = xs @ ys" and types: "ty = ScriptPreBackup \<or> ty = ScriptPostBackup"
  shows "later (snd (run_state (run_script_list env ty ys) s2)) (snd (run_state (execute env) s0))"
proof -
  have "later s1 s2" unfolding s2 by (rule later.io_snd [OF later.io_run_script_list])
  then have go1: "\<not> rc_cancelled s1" using go later_cancelled by blast
  have loop: "run_state (runScripts env ty) s1 = run_state (run_script_list env ty ys) s2"
    using run_scripts_from [of env ty xs s1 ys] go by (simp add: runScripts_def job s2)
  define post where "post = do { runScripts env ScriptPostBackup;
    unless_cancelled env (do { unless_failed (healthCheck env); remoteCleanup env;
      failed \<leftarrow> gets rc_failed; verified \<leftarrow> gets rc_archiveVerified;
      when_do (\<not> failed \<and> verified \<and> e_has_retention env) (applyRetention env) }) }"
  define pre where "pre = unless_cancelled env (do { unless_failed (archive env);
    unless_cancelled env (do { unless_failed (downloadAndVerify env); unless_cancelled env post }) })"
  define tail where "tail = unless_cancelled env (do { unless_failed (healthCheck env); remoteCleanup env;
      failed \<leftarrow> gets rc_failed; verified \<leftarrow> gets rc_archiveVerified;
      when_do (\<not> failed \<and> verified \<and> e_has_retention env) (applyRetention env) })"
  have ends: "state_io_rel later (do { close_transport; drainCleanup env })"
    by (intro later.io_bind later.io_close_transport later.io_drainCleanup)
  have tail: "state_io_rel later tail"
    unfolding tail_def
    by (intro later.io_bind later.io_unless_cancelled later.io_unless_failed later.io_healthCheck later.io_remoteCleanup
        later.io_gets later.io_when later.io_applyRetention)
  have post: "post = do { runScripts env ScriptPostBackup; tail }" by (simp add: post_def tail_def)
  then have pre: "state_io_rel later pre"
    unfolding pre_def using tail
    by (intro later.io_bind later.io_unless_cancelled later.io_unless_failed later.io_archive later.io_downloadAndVerify)
      (auto intro!: later.io_bind later.io_runScripts)
  have stages: "stages env = do { runScripts env ScriptPreBackup; pre }"
    by (simp add: stages_def pre_def post_def)
  show ?thesis
  proof (cases "ty = ScriptPostBackup")
    case False
    then have ty: "ty = ScriptPreBackup" using types by simp
    have pf: "run_state (preflight env) s0 = (True, s1)"
      using b False by (auto simp: before_scripts_def case_prod_beta prod_eq_iff)
    have "snd (run_state (execute env) s0) =
        snd (run_state (do { pre; do { close_transport; drainCleanup env } }) (snd (run_state (runScripts env ScriptPreBackup) s1)))"
      by (simp add: execute_def pf stages case_prod_beta)
    then show ?thesis
      using later.io_snd [OF later.io_bind [OF pre ends], of "snd (run_state (runScripts env ScriptPreBackup) s1)"] loop ty
      by simp
  next
    case True
    obtain a0 where pf: "run_state (preflight env) s0 = (True, a0)"
      using b by (cases "run_state (preflight env) s0") (auto simp: before_scripts_def case_prod_beta)
    define a1 where "a1 = snd (run_state (runScripts env ScriptPreBackup) a0)"
    define a2 where "a2 = snd (run_state (checkCancelled env) a1)"
    define a3 where "a3 = snd (run_state (unless_failed (archive env)) a2)"
    define a4 where "a4 = snd (run_state (checkCancelled env) a3)"
    define a5 where "a5 = snd (run_state (unless_failed (downloadAndVerify env)) a4)"
    have s1: "s1 = snd (run_state (checkCancelled env) a5)"
      using b pf True by (auto simp: before_scripts_def case_prod_beta a1_def a2_def a3_def a4_def a5_def)
    have "later a5 s1" "later a4 a5" "later a3 a4" "later a2 a3"
      unfolding s1 a5_def a4_def a3_def
      by (intro later.io_snd later.prim_cancel later.io_unless_failed later.io_archive later.io_downloadAndVerify)+
    then have go: "\<not> rc_cancelled a4" "\<not> rc_cancelled a2" using go1 later_cancelled by blast+
    have "run_state (unless_cancelled env post) a5 = run_state post s1"
      using unless_cancelled_open [of env a5 post] go1 by (simp add: s1)
    moreover have "snd (run_state pre a1) = snd (run_state (unless_cancelled env post) a5)"
      using unless_cancelled_open [of env a1] unless_cancelled_open [of env a3] go
      by (simp add: pre_def a2_def [symmetric] a4_def [symmetric] case_prod_beta a3_def [symmetric] a5_def [symmetric])
    ultimately have "snd (run_state (execute env) s0) =
        snd (run_state (do { tail; do { close_transport; drainCleanup env } }) (snd (run_state (runScripts env ScriptPostBackup) s1)))"
      by (simp add: execute_def pf stages post a1_def [symmetric] case_prod_beta)
    then show ?thesis
      using later.io_snd [OF later.io_bind [OF tail ends], of "snd (run_state (runScripts env ScriptPostBackup) s1)"] loop True
      by simp
  qed
qed

text \<open>A script whose command fails each time it is run makes \<^verbatim>\<open>runScriptRecorded\<close> fail.\<close>

definition command_fails :: "Env \<Rightarrow> Script \<Rightarrow> bool" where
  "command_fails env x \<longleftrightarrow>
     (\<forall>h. case e_run env RunCtx (Script_Command x) (seconds_duration (Script_TimeoutSeconds x)) h of
        Inl e \<Rightarrow> True | Inr res \<Rightarrow> rr_exit res \<noteq> 0)"

lemma script_attempts_fail:
  assumes "command_fails env x" "n > 0 \<or> e \<noteq> None"
  shows "fst (run_state (script_attempts env RunCtx x n e) s) \<noteq> None"
  using assms(2)
proof (induction n arbitrary: e s)
  case (Suc n)
  have "case e_run env RunCtx (Script_Command x) (seconds_duration (Script_TimeoutSeconds x)) (rc_trace s) of
      Inl e \<Rightarrow> True | Inr res \<Rightarrow> rr_exit res \<noteq> 0"
    using assms(1) by (simp add: command_fails_def)
  then show ?case using Suc by (auto simp: transport_run_def split: sum.splits)
qed auto

lemma failing_script_fails:
  assumes "command_fails env x"
  obtains e s1 where "run_state (runScriptRecorded env RunCtx x st) s = (Some e, s1)"
proof -
  have "fst (run_state (executeScript env RunCtx x) s) \<noteq> None" for s
    unfolding executeScript_def by (rule script_attempts_fail [OF assms]) simp
  then have "fst (run_state (runScriptRecorded env RunCtx x st) s) \<noteq> None"
    by (auto simp: runScriptRecorded_def case_prod_beta Let_def split: sum.split)
  then show thesis using that by (cases "run_state (runScriptRecorded env RunCtx x st) s") auto
qed

definition script_failure :: "Env \<Rightarrow> ScriptType \<Rightarrow> Script \<Rightarrow> err \<Rightarrow> string" where
  "script_failure env ty x e = ScriptType_str ty @ '' script at position '' @ itoa (Script_Position x) @
     '' failed: '' @ e_redact env (Error e)"

text \<open>Recording a script changes neither the failure flag nor the reported error.\<close>

lemma recorded_keeps_failed:
  "rc_failed (snd (run_state (runScriptRecorded env ctx x st) s)) = rc_failed s"
proof -
  have start: "rc_failed (snd (run_state (steps_Start env ctx st) s)) = rc_failed s" for s
    by (simp add: steps_Start_def now_def new_step_def persist_step_def run_simps case_prod_beta
        split: sum.split option.split)
  have att: "rc_failed (snd (run_state (script_attempts env ctx x n e) s)) = rc_failed s" for n e s
    by (induction n arbitrary: e s) (auto simp: transport_run_def split: sum.splits)
  have close: "rc_failed (snd (run_state (close_step env ctx st' step) s)) = rc_failed s" for st' step s
    by (auto simp: close_step_def now_def steps_Finish_def step_changed_def record_event_def split: option.splits)
  have exe: "rc_failed (snd (run_state (executeScript env ctx x) s)) = rc_failed s" for s
    unfolding executeScript_def by (rule att)
  show ?thesis
    by (auto simp: runScriptRecorded_def record_event_def case_prod_beta Let_def start exe close
        split: sum.split)
qed

lemma run_one_script_failed:
  assumes "\<not> rc_failed s" "ShouldRun x False"
    and "run_state (runScriptRecorded env RunCtx x (scriptStepType ty)) s = (Some e, s1)"
  shows "let t = snd (run_state (run_one_script env ty x) s) in rc_failed t \<and>
    Run_ErrorCode (rc_run t) = (if ty = ScriptPreBackup then ErrPreScriptFailed else ErrPostScriptFailed) \<and>
    Run_ErrorMessage (rc_run t) = script_failure env ty x e"
proof -
  have "\<not> rc_failed s1" using recorded_keeps_failed [of env RunCtx x "scriptStepType ty" s] assms(1,3) by simp
  then show ?thesis
    using assms
    by (auto simp: run_one_script_def script_failure_def fail_def MarkDone_def recordRecovery_def Let_def
        split: option.split)
qed

text \<open>C27: The first failure is the one the run reports. Take a script, of either type, at its turn
  in the loop of its stage: the run has neither failed nor been cancelled before, the script's
  condition lets it run, and its command fails each time it is executed. Then, whatever the rest
  of the loop, the later stages, the post-backup scripts and the recovery drain do, the run ends
  with the error code of that type of script, PRE_SCRIPT_FAILED or POST_SCRIPT_FAILED, with a
  message that names the script's type, its position and its redacted error, and with status
  FAILED or CANCELLED.\<close>

theorem first_failure_is_reported:
  assumes "run_state (before_scripts env ty) s0 = (True, s1)"
    and "run_state (run_script_list env ty xs) s1 = (u, s2)"
    and "Job_Scripts (e_job env) = xs @ x # ys" and "Script_Type x = ty"
    and "ty = ScriptPreBackup \<or> ty = ScriptPostBackup"
    and "\<not> rc_failed s2" and "\<not> rc_cancelled s2" and "e_ctx_err env (rc_trace s2) = None"
    and "ShouldRun x False" and "command_fails env x"
  defines "t \<equiv> snd (run_state (execute env) s0)"
  shows "Run_ErrorCode (rc_run t) = (if ty = ScriptPreBackup then ErrPreScriptFailed else ErrPostScriptFailed) \<and>
    (\<exists>e. fst (run_state (runScriptRecorded env RunCtx x (scriptStepType ty)) s2) = Some e \<and>
       Run_ErrorMessage (rc_run t) = ScriptType_str ty @ '' script at position '' @ itoa (Script_Position x) @
         '' failed: '' @ e_redact env (Error e)) \<and>
    finalStatus t \<in> {RunFailed, RunCancelled}"
proof -
  obtain e s3 where e: "run_state (runScriptRecorded env RunCtx x (scriptStepType ty)) s2 = (Some e, s3)"
    using failing_script_fails [OF assms(10)] by metis
  define s4 where "s4 = snd (run_state (run_one_script env ty x) s2)"
  have s4: "rc_failed s4" "Run_ErrorMessage (rc_run s4) = script_failure env ty x e"
    "Run_ErrorCode (rc_run s4) = (if ty = ScriptPreBackup then ErrPreScriptFailed else ErrPostScriptFailed)"
    using run_one_script_failed [OF assms(6,9) e] by (simp_all add: s4_def Let_def)
  have "later (snd (run_state (run_script_list env ty (x # ys)) s2)) t"
    unfolding t_def using assms(2,3,5,7) by (intro execute_reaches [OF assms(1)]) simp_all
  moreover have "snd (run_state (run_script_list env ty (x # ys)) s2) = snd (run_state (run_script_list env ty ys) s4)"
    using assms(4,8) by (simp add: checkCancelled_def s4_def case_prod_beta)
  moreover have "later s4 (snd (run_state (run_script_list env ty ys) s4))"
    by (rule later.io_snd [OF later.io_run_script_list])
  ultimately have "later s4 t" using later.R_trans by metis
  then show ?thesis
    using s4 e by (auto simp: later_def latched_def finalStatus_def script_failure_def)
qed

definition stop_script :: Script where
  "stop_script = cleanup_script\<lparr>Script_Type := ScriptPreBackup, Script_Command := ''stop app''\<rparr>"

definition exit_code :: "string \<Rightarrow> int" where
  "exit_code cmd = (if cmd = ''stop app'' then 1 else 0)"

definition failing_env :: Env where
  "failing_env = (sample_run_env [stop_script])\<lparr>e_run := \<lambda>_ cmd _ _. Inr \<lparr>rr_exit = exit_code cmd, rr_stdout = ''1000'', rr_stderr = []\<rparr>\<rparr>"

lemma stop_script_simps:
  "Script_ID stop_script = ''scr1''" "Script_Type stop_script = ScriptPreBackup"
  "Script_Command stop_script = ''stop app''" "Script_Position stop_script = 0"
  "Script_TimeoutSeconds stop_script = 60" "Script_RunCondition stop_script = RunConditionAlways"
  "Script_CriticalCleanup stop_script = True" "Script_RetryOnFailure stop_script = False"
  by (simp_all add: stop_script_def cleanup_script_def)

lemma stop_valid: "Job_Validate (\<lambda>_. Inr (\<lambda>t. t)) (sample_job\<lparr>Job_Scripts := [stop_script]\<rparr>) = None"
  by (simp add: job_valid_iff job_wf_def schedule_wf_def retention_wf_def script_wf_def has_prefix_def
      sample_trims sample_defs second_def stop_script_def cleanup_script_def trim_space_printable printable_def)

lemma failing_simps:
  "e_job failing_env = sample_job\<lparr>Job_Scripts := [stop_script]\<rparr>" "e_server failing_env = sample_server"
  "e_run failing_env = (\<lambda>_ cmd _ _. Inr \<lparr>rr_exit = exit_code cmd, rr_stdout = ''1000'', rr_stderr = []\<rparr>)"
  "e_cron failing_env = (\<lambda>_. Inr (\<lambda>t. t))" "e_rand failing_env = (\<lambda>_. Inr (replicate 16 0))" "e_clock failing_env = (\<lambda>_. epoch)"
  "e_connect failing_env = (\<lambda>_. None)" "e_create_step failing_env = (\<lambda>_ _ _ _. None)" "e_has_events failing_env = True"
  "e_update_step failing_env = (\<lambda>_ _ _. None)" "e_redact failing_env = (\<lambda>t. t)" "e_ctx_err failing_env = (\<lambda>_. None)"
  "e_destDir failing_env = ''D:''" "e_file_op failing_env = (\<lambda>_ _ _. None)" "e_local_free failing_env = (\<lambda>_ _. Inr 5000)"
  by (simp_all add: failing_env_def sample_env_simps)

lemma other_commands:
  "exit_code (temp_command d) = 0" "exit_code (tool_command d) = 0" "exit_code (readable_command d) = 0"
  "exit_code (exists_command d) = 0" "exit_code ''stop app'' = 1"
  by (simp_all add: exit_code_def temp_command_def tool_command_def readable_command_def exists_command_def)

lemma failing_preflight:
  "\<exists>s. run_state (preflight failing_env) (rc_start Map.empty) = (True, s) \<and> \<not> rc_failed s \<and> \<not> rc_cancelled s"
  by (simp_all add: failing_simps stop_script_simps stop_valid sample_eval other_commands)

lemma failing_commands:
  "command_fails failing_env stop_script" "ShouldRun stop_script False"
  by (simp_all add: command_fails_def failing_simps stop_script_simps ShouldRun_def other_commands)

lemma first_failure_witness:
  "let t = snd (run_state (execute failing_env) (rc_start Map.empty))
   in Run_ErrorCode (rc_run t) = ErrPreScriptFailed \<and> finalStatus t \<in> {RunFailed, RunCancelled}"
proof -
  obtain s1 where s1: "run_state (preflight failing_env) (rc_start Map.empty) = (True, s1)" "\<not> rc_failed s1" "\<not> rc_cancelled s1"
    using failing_preflight by blast
  then have "run_state (before_scripts failing_env ScriptPreBackup) (rc_start Map.empty) = (True, s1)"
    by (simp add: before_scripts_def)
  moreover have "\<not> rc_failed s1" "\<not> rc_cancelled s1" "e_ctx_err failing_env (rc_trace s1) = None"
    using s1 by (simp_all add: failing_simps)
  moreover have "run_state (run_script_list failing_env ScriptPreBackup []) s1 = ((), s1)" by simp
  moreover have "Job_Scripts (e_job failing_env) = [] @ stop_script # []" by (simp add: failing_simps)
  moreover have "Script_Type stop_script = ScriptPreBackup" by (simp add: stop_script_simps)
  ultimately show ?thesis
    using first_failure_is_reported [of failing_env ScriptPreBackup "rc_start Map.empty" s1 "[]" "()" s1 stop_script "[]"]
      failing_commands
    by (simp add: Let_def)
qed

end
