(* ===== verification/Validator.thy ===== *)
theory Validator
  imports Engine_Theorems
begin

text \<open>
  \<^verbatim>\<open>Validator.Validate\<close> of \<^verbatim>\<open>internal/backup/validate.go\<close>: the checks of the pre-flight stage, all
  of them run and reported, and its agreement with that stage.
\<close>

section \<open>Validate Job\<close>

record CheckOutcome =
  co_name :: string
  co_passed :: bool
  co_message :: string

record ValidateResult =
  vr_success :: bool
  vr_checks :: "CheckOutcome list"
  vr_sourceSize :: "int option"
  vr_remoteFree :: "int option"
  vr_localFree :: "int option"

definition add_outcome :: "string \<Rightarrow> checkResult \<Rightarrow> ValidateResult \<Rightarrow> ValidateResult" where
  "add_outcome name r res = res\<lparr>
     vr_checks := vr_checks res @ [\<lparr>co_name = name, co_passed = cr_ok r, co_message = cr_message r\<rparr>],
     vr_success := (if \<not> cr_ok r then False else vr_success res)\<rparr>"

primrec add_each :: "string \<Rightarrow> (string \<Rightarrow> checkResult Step) \<Rightarrow> string list \<Rightarrow> ValidateResult \<Rightarrow> ValidateResult Step" where
  "add_each label chk [] res = ret res"
| "add_each label chk (x # xs) res = do { r \<leftarrow> chk x; add_each label chk xs (add_outcome (label @ x) r res) }"

text \<open>The part of \<^verbatim>\<open>Validate\<close> after the connection.\<close>

definition validate_checks :: "Env \<Rightarrow> ValidateResult \<Rightarrow> ValidateResult Step" where
  "validate_checks env res0 =
     (let run = transport_run env RunCtx;
          timeout = Server_CommandTimeoutSeconds (e_server env);
          job = e_job env; dest = e_destDir env; os = local_os env
      in do {
        res1 \<leftarrow> add_each ''source:'' (checkSourceReadable run timeout) (source_paths job) res0;
        res2 \<leftarrow> add_each ''tool:'' (checkToolAvailable run timeout) required_tools res1;
        t \<leftarrow> checkRemoteTempWritable run timeout (RemoteJobDirectory job);
        let res3 = add_outcome ''remote_temp_writable'' t res2;
        sourceSize \<leftarrow> estimateSourceSize run timeout (Job_Sources job);
        remoteFree \<leftarrow> measureRemoteFreeSpace run timeout (Job_RemoteTempDirectory job);
        let res4 = add_outcome ''remote_free_space'' (checkRemoteFreeSpace remoteFree sourceSize)
          (res3\<lparr>vr_sourceSize := sourceSize, vr_remoteFree := remoteFree\<rparr>);
        w \<leftarrow> checkLocalDestinationWritable os dest;
        let res5 = add_outcome ''local_destination_writable'' w res4;
        localFree \<leftarrow> measureLocalFreeSpace os dest;
        ret (add_outcome ''local_free_space'' (checkLocalFreeSpace dest localFree sourceSize)
          (res5\<lparr>vr_localFree := localFree\<rparr>))
      })"

definition blank_result :: ValidateResult where
  "blank_result = \<lparr>vr_success = True, vr_checks = [], vr_sourceSize = None, vr_remoteFree = None, vr_localFree = None\<rparr>"

definition Validate :: "Env \<Rightarrow> ValidateResult Step" where
  "Validate env =
     (case Job_Validate (e_cron env) (e_job env) of
        Some e \<Rightarrow> ret (add_outcome ''configuration'' (failedCheck ErrInvalidConfig (Error e)) blank_result)
      | None \<Rightarrow> do {
          let res0 = add_outcome ''configuration'' (passed ''job configuration is valid'') blank_result;
          c \<leftarrow> ask (e_connect env) EvConnect;
          case c of
            Some e \<Rightarrow> ret (add_outcome ''ssh_connection'' (failedCheck (connect_failure e) (Error e)) res0)
          | None \<Rightarrow> do {
              res \<leftarrow> validate_checks env (add_outcome ''ssh_connection'' (passed ''connected and authenticated'') res0);
              record_event EvClose;
              ret res
            }
        })"

section \<open>Results that do not depend on the state\<close>

text \<open>A world at rest: it answers a question in the same way whatever happened before.\<close>

definition steady :: "Env \<Rightarrow> bool" where
  "steady env \<longleftrightarrow>
     (\<forall>ctx cmd t h. e_run env ctx cmd t h = e_run env ctx cmd t []) \<and>
     (\<forall>h. e_connect env h = e_connect env []) \<and>
     (\<forall>op path h. e_file_op env op path h = e_file_op env op path []) \<and>
     (\<forall>dir h. e_local_free env dir h = e_local_free env dir [])"

text \<open>A computation whose result is the same in every state.\<close>

definition result_of :: "'a Step \<Rightarrow> 'a" where
  "result_of m = fst (run_state m (rc_start Map.empty))"

definition fixed :: "'a Step \<Rightarrow> bool" where
  "fixed m \<longleftrightarrow> (\<forall>s. fst (run_state m s) = result_of m)"

lemma fixedI: "(\<And>s. fst (run_state m s) = v) \<Longrightarrow> fixed m"
  by (simp add: fixed_def result_of_def)

lemma hoare_fixed: "fixed m \<Longrightarrow> hoare (\<lambda>_. True) (f (result_of m)) Q \<Longrightarrow> hoare P (State_Monad.bind m f) Q"
  by (simp add: fixed_def hoare_def case_prod_beta)

lemma hoare_verdict:
  "hoare P m (\<lambda>v _. ok v \<longleftrightarrow> b) \<Longrightarrow> (\<And>v. ok v \<longleftrightarrow> b \<Longrightarrow> hoare (\<lambda>_. True) (f v) Q) \<Longrightarrow> hoare P (State_Monad.bind m f) Q"
  by (simp add: hoare_def case_prod_beta)

lemma fixed_bind:
  assumes "fixed m" and "\<And>v. fixed (f v)"
  shows "fixed (State_Monad.bind m f)"
proof (rule fixedI)
  show "fst (run_state (State_Monad.bind m f) s) = result_of (f (result_of m))" for s
    using assms by (simp add: fixed_def case_prod_beta)
qed

lemma fixed_ret: "fixed (ret v)"
  by (rule fixedI) simp

lemma fixed_ask: "(\<And>h. f h = f []) \<Longrightarrow> fixed (ask f ev)"
  by (rule fixedI [where v = "f []"]) simp

lemma fixed_if: "fixed m \<Longrightarrow> fixed n \<Longrightarrow> fixed (if b then m else n)"
  by simp

lemma fixed_option: "fixed m \<Longrightarrow> (\<And>x. fixed (f x)) \<Longrightarrow> fixed (case y of None \<Rightarrow> m | Some x \<Rightarrow> f x)"
  by (cases y) simp_all

abbreviation remote :: "Env \<Rightarrow> Rc Runner" where
  "remote env \<equiv> transport_run env RunCtx"

abbreviation limit :: "Env \<Rightarrow> int" where
  "limit env \<equiv> Server_CommandTimeoutSeconds (e_server env)"

lemma fixed_run: "steady env \<Longrightarrow> fixed (runOnTransport (remote env) (limit env) cmd)"
  unfolding runOnTransport_def transport_run_def by (rule fixed_ask) (metis steady_def)

lemma fixed_remote_checks:
  assumes "steady env"
  shows "fixed (checkSourceReadable (remote env) (limit env) path)"
    and "fixed (checkToolAvailable (remote env) (limit env) path)"
    and "fixed (checkRemoteTempWritable (remote env) (limit env) path)"
    and "fixed (estimateSourceSize (remote env) (limit env) sources)"
    and "fixed (measureRemoteFreeSpace (remote env) (limit env) path)"
  unfolding checkSourceReadable_def checkSourceExists_def checkToolAvailable_def checkRemoteTempWritable_def
    estimateSourceSize_def measureRemoteFreeSpace_def
  by (intro fixed_bind fixed_ret fixed_if fixed_run [OF assms])+

lemma fixed_local_checks:
  assumes "steady env"
  shows "fixed (checkLocalDestinationWritable (local_os env) dir)"
    and "fixed (measureLocalFreeSpace (local_os env) dir)"
proof -
  have "fixed (file_op env op path ev)" for op path ev
    unfolding file_op_def by (rule fixed_ask) (metis assms steady_def)
  then have os: "fixed (os_mkdir (local_os env) dir)" "fixed (os_probe (local_os env) dir)" for dir
    by (simp_all add: local_os_def)
  have free: "fixed (os_free (local_os env) dir)" for dir
    unfolding local_os_def by simp (rule fixed_ask, metis assms steady_def)
  show "fixed (checkLocalDestinationWritable (local_os env) dir)" "fixed (measureLocalFreeSpace (local_os env) dir)"
    unfolding checkLocalDestinationWritable_def measureLocalFreeSpace_def localFreeBytes_def
    by (intro fixed_bind fixed_ret fixed_option os free)+
qed

section \<open>The verdict\<close>

text \<open>What both operations decide in a steady world, once connected.\<close>

definition verdict :: "Env \<Rightarrow> bool" where
  "verdict env \<longleftrightarrow>
     (let job = e_job env; dest = e_destDir env;
          sourceSize = result_of (estimateSourceSize (remote env) (limit env) (Job_Sources job));
          remoteFree = result_of (measureRemoteFreeSpace (remote env) (limit env) (Job_RemoteTempDirectory job));
          localFree = result_of (measureLocalFreeSpace (local_os env) dest)
      in (\<forall>p \<in> set (source_paths job). cr_ok (result_of (checkSourceReadable (remote env) (limit env) p))) \<and>
         (\<forall>t \<in> set required_tools. cr_ok (result_of (checkToolAvailable (remote env) (limit env) t))) \<and>
         cr_ok (result_of (checkRemoteTempWritable (remote env) (limit env) (RemoteJobDirectory job))) \<and>
         cr_ok (checkRemoteFreeSpace remoteFree sourceSize) \<and>
         cr_ok (result_of (checkLocalDestinationWritable (local_os env) dest)) \<and>
         cr_ok (checkLocalFreeSpace dest localFree sourceSize))"

lemma add_success [simp]: "vr_success (add_outcome name r res) \<longleftrightarrow> vr_success res \<and> cr_ok r"
  by (simp add: add_outcome_def)

lemma add_each_success:
  assumes "\<And>x. fixed (chk x)"
  shows "hoare P (add_each label chk xs res)
    (\<lambda>res' _. vr_success res' \<longleftrightarrow> vr_success res \<and> (\<forall>x \<in> set xs. cr_ok (result_of (chk x))))"
proof (induction xs arbitrary: res P)
  case (Cons x xs)
  show ?case
    unfolding add_each.simps by (rule hoare_fixed [OF assms], rule hoare_post [OF Cons.IH]) auto
qed (simp add: hoare_return)

lemma require_verdict:
  assumes "hoare (\<lambda>_. True) m (\<lambda>v _. v \<longleftrightarrow> b)"
  shows "hoare (\<lambda>_. True) (require r m) (\<lambda>v _. v \<longleftrightarrow> cr_ok r \<and> b)"
  using assms by (simp add: require_def hoare_def case_prod_beta)

lemma require_each_verdict:
  assumes "\<And>x. fixed (chk x)" and "hoare (\<lambda>_. True) m (\<lambda>v _. v \<longleftrightarrow> b)"
  shows "hoare (\<lambda>_. True) (require_each chk xs m) (\<lambda>v _. v \<longleftrightarrow> (\<forall>x \<in> set xs. cr_ok (result_of (chk x))) \<and> b)"
proof (induction xs)
  case Nil
  then show ?case using assms(2) by simp
next
  case (Cons x xs)
  show ?case
    unfolding require_each.simps
    by (rule hoare_fixed [OF assms(1)], rule hoare_post [OF require_verdict [OF Cons.IH]]) auto
qed

lemma when_warn: "hoare (\<lambda>_. True) m Q \<Longrightarrow> hoare (\<lambda>_. True) (do { when_do b n; m }) Q"
  by (rule hoare_skip)

lemma validate_verdict:
  assumes "steady env"
  shows "hoare (\<lambda>_. True) (validate_checks env res) (\<lambda>r _. vr_success r \<longleftrightarrow> vr_success res \<and> verdict env)"
  unfolding validate_checks_def Let_def verdict_def
  by (rule hoare_verdict [OF add_each_success], rule fixed_remote_checks [OF assms],
      rule hoare_verdict [OF add_each_success], rule fixed_remote_checks [OF assms],
      (rule hoare_fixed, rule fixed_remote_checks [OF assms])+,
      (rule hoare_fixed, rule fixed_local_checks [OF assms])+, rule hoare_return) simp

lemma preflight_verdict:
  assumes "steady env"
  shows "hoare (\<lambda>_. True) (preflight_checks env) (\<lambda>r _. r \<longleftrightarrow> verdict env)"
proof -
  note remote = hoare_fixed [OF fixed_remote_checks(3) [OF assms]] hoare_fixed [OF fixed_remote_checks(4) [OF assms]]
    hoare_fixed [OF fixed_remote_checks(5) [OF assms]]
  note local_rules = hoare_fixed [OF fixed_local_checks(1) [OF assms]] hoare_fixed [OF fixed_local_checks(2) [OF assms]]
  have src: "Source_RemotePath ` set (Job_Sources (e_job env)) = set (source_paths (e_job env))"
    by (simp add: source_paths_def)
  show ?thesis
    unfolding preflight_checks_def Let_def
    by (rule hoare_post, rule require_each_verdict [OF fixed_remote_checks(1) [OF assms]],
        rule require_each_verdict [OF fixed_remote_checks(2) [OF assms]],
        rule remote(1), rule require_verdict, rule remote(2), rule when_warn, rule remote(3), rule require_verdict,
        rule when_warn, rule local_rules(1), rule require_verdict, rule local_rules(2), rule require_verdict,
        rule when_warn, rule hoare_return, rule refl, simp add: verdict_def Let_def src [symmetric])
qed

text \<open>C26: Validate Job and the pre-flight stage decide alike. In a world that answers both in the same
  way, Validate reports success exactly when pre-flight lets the run continue, although the one
  runs every check and the other stops at the first failure.\<close>

theorem validate_agrees_with_preflight:
  assumes "steady env"
  shows "vr_success (fst (run_state (Validate env) s)) \<longleftrightarrow> fst (run_state (runPreflight env) t)"
proof (cases "Job_Validate (e_cron env) (e_job env)")
  case (Some e)
  then show ?thesis by (simp add: Validate_def runPreflight_def case_prod_beta)
next
  case None
  have c: "e_connect env h = e_connect env []" for h using assms unfolding steady_def by blast
  show ?thesis
  proof (cases "e_connect env []")
    case (Some e)
    with None c show ?thesis
      by (simp add: Validate_def runPreflight_def case_prod_beta blank_result_def Let_def)
  next
    case connected: None
    then have "e_connect env h = None" for h using c by metis
    then show ?thesis
      using hoareD [OF validate_verdict [OF assms]] hoareD [OF preflight_verdict [OF assms]] None
      by (simp add: Validate_def runPreflight_def case_prod_beta blank_result_def Let_def record_event_def)
  qed
qed

lemma validate_agrees_witness:
  "vr_success (fst (run_state (Validate bare_env) (rc_start Map.empty))) \<longleftrightarrow>
   fst (run_state (runPreflight bare_env) (rc_start Map.empty))"
  by (rule validate_agrees_with_preflight) (simp add: steady_def bare_env_def sample_env_simps)

lemma validate_checks_open: "state_io_rel keeps_open (validate_checks env res)"
proof -
  have each: "state_io_rel keeps_open (add_each label chk xs r)"
    if "\<And>x. state_io_rel keeps_open (chk x)" for label chk xs r
    using that by (induction xs arbitrary: r) (simp_all add: keeps_open.io_return keeps_open.io_bind)
  show ?thesis
    unfolding validate_checks_def Let_def
    by (intro keeps_open.io_bind each keeps_open.io_checks keeps_open.io_local keeps_open.io_return)
qed

text \<open>Validate Job closes the connection exactly when it opened one, that is for a valid job whose
  server was reached, and the close comes last and once, whatever the checks find.\<close>

theorem validate_closes_transport:
  "let h = rc_trace (snd (run_state (Validate env) (rc_start files)))
   in (EvClose \<in> set h \<longleftrightarrow> Job_Validate (e_cron env) (e_job env) = None \<and> e_connect env [] = None) \<and>
      (EvClose \<in> set h \<longleftrightarrow> h \<noteq> [] \<and> hd h = EvClose) \<and> EvClose \<notin> set (tl h)"
proof -
  have keep: "EvClose \<in> set (rc_trace (snd (run_state (validate_checks env res) s))) \<longleftrightarrow> EvClose \<in> set (rc_trace s)"
    for res s
    using keeps_open.io_snd [OF validate_checks_open [of env res], of s] by (simp add: keeps_open_def)
  show ?thesis
    using keep by (auto simp: Validate_def Let_def rc_start_def record_event_def case_prod_beta split: option.splits)
qed

end
