(* ===== verification/Ipc_Backend.thy ===== *)
theory Ipc_Backend
  imports Ipc_Session Schedule_Next Secrets Remote Validator
begin

text \<open>
  \<^verbatim>\<open>internal/ipc/backend.go\<close> and \<^verbatim>\<open>eventsink.go\<close>: what the handlers work on. The state joins the
  database, the files of the credential store, the registry of active runs and the event hub;
  the environment answers for the random source, the clock, the private key files, JSON, and,
  call by call, for the remote side of a connection test and the world of a run.
\<close>

section \<open>Messages\<close>

text \<open>Requests with a single field are that field, and the one with two is a pair.\<close>

type_synonym DeleteServerRequest = string
type_synonym TestConnectionRequest = string
type_synonym SaveJobRequest = JobDTO
type_synonym RunNowRequest = string
type_synonym CancelRunRequest = string
type_synonym GetRunRequest = string
type_synonym SetSettingsRequest = SettingsDTO
type_synonym DeleteJobRequest = "string \<times> bool"
type_synonym SetJobEnabledRequest = string
type_synonym ValidateJobRequest = string

text \<open>The answer to \<^verbatim>\<open>jobs.validate\<close>: a size that is not known travels as zero beside its flag.\<close>

record CheckDTO =
  kD_Name :: string
  kD_Passed :: bool
  kD_Message :: string

record ValidateJobReply =
  vJ_Success :: bool
  vJ_Checks :: "CheckDTO list"
  vJ_SourceSizeBytes :: int
  vJ_SourceSizeKnown :: bool
  vJ_RemoteFreeBytes :: int
  vJ_RemoteFreeKnown :: bool
  vJ_LocalFreeBytes :: int
  vJ_LocalFreeKnown :: bool

definition known_bytes :: "int option \<Rightarrow> int" where
  "known_bytes x = (case x of None \<Rightarrow> 0 | Some n \<Rightarrow> n)"

definition validateToDTO :: "ValidateResult \<Rightarrow> ValidateJobReply" where
  "validateToDTO r =
     \<lparr>vJ_Success = vr_success r,
      vJ_Checks = map (\<lambda>c. \<lparr>kD_Name = co_name c, kD_Passed = co_passed c, kD_Message = co_message c\<rparr>) (vr_checks r),
      vJ_SourceSizeBytes = known_bytes (vr_sourceSize r), vJ_SourceSizeKnown = (vr_sourceSize r \<noteq> None),
      vJ_RemoteFreeBytes = known_bytes (vr_remoteFree r), vJ_RemoteFreeKnown = (vr_remoteFree r \<noteq> None),
      vJ_LocalFreeBytes = known_bytes (vr_localFree r), vJ_LocalFreeKnown = (vr_localFree r \<noteq> None)\<rparr>"

text \<open>The reply determines the result: nothing that the validator found is lost on the way.\<close>

lemma validateToDTO_inject: "validateToDTO r = validateToDTO r' \<longleftrightarrow> r = r'"
proof
  have known: "known_bytes x = known_bytes y \<Longrightarrow> (x \<noteq> None) = (y \<noteq> None) \<Longrightarrow> x = y" for x y
    by (auto simp: known_bytes_def split: option.splits)
  have check: "inj (\<lambda>c :: CheckOutcome. \<lparr>kD_Name = co_name c, kD_Passed = co_passed c, kD_Message = co_message c\<rparr>)"
    by (rule injI) (auto intro: CheckOutcome.equality)
  assume "validateToDTO r = validateToDTO r'"
  then show "r = r'"
    using known by (cases r; cases r') (simp add: validateToDTO_def inj_map_eq_map [OF check])
qed simp

text \<open>The values that a handler returns or an event carries.\<close>

datatype Message =
    EmptyReply
  | ListServersResponse "ServerDTO list"
  | SaveServerResponse ServerDTO
  | TestConnectionReply TestConnectionResponse
  | ListJobsResponse "JobDTO list"
  | SaveJobResponse JobDTO
  | ValidateJobResponse ValidateJobReply
  | RunNowResponse string string
  | ListRunsResponse "RunDTO list"
  | GetRunResponse RunDTO "StepDTO list"
  | GetSettingsResponse SettingsDTO
  | ServiceStatusResponse string int string
  | RunStartedEvent RunDTO
  | RunStepChangedEvent string StepDTO
  | RunFinishedEvent RunDTO
  | RunLogLineEvent string string string string
  | SettingsChangedEvent SettingsDTO

text \<open>How a payload decodes as each kind of request; one with a single field is that field.\<close>

record JsonEnv =
  jn_SaveServer :: "string \<Rightarrow> err + SaveServerRequest"
  jn_DeleteServer :: "string \<Rightarrow> err + DeleteServerRequest"
  jn_TestConnection :: "string \<Rightarrow> err + TestConnectionRequest"
  jn_ConfirmHostKey :: "string \<Rightarrow> err + ConfirmHostKeyRequest"
  jn_SaveJob :: "string \<Rightarrow> err + SaveJobRequest"
  jn_DeleteJob :: "string \<Rightarrow> err + DeleteJobRequest"
  jn_SetJobEnabled :: "string \<Rightarrow> err + SetJobEnabledRequest"
  jn_ValidateJob :: "string \<Rightarrow> err + ValidateJobRequest"
  jn_RunNow :: "string \<Rightarrow> err + RunNowRequest"
  jn_CancelRun :: "string \<Rightarrow> err + CancelRunRequest"
  jn_ListRuns :: "string \<Rightarrow> err + ListRunsRequest"
  jn_GetRun :: "string \<Rightarrow> err + GetRunRequest"
  jn_SetSettings :: "string \<Rightarrow> err + SetSettingsRequest"
  jn_marshal :: "Message \<Rightarrow> string"

section \<open>State and environment\<close>

text \<open>\<^verbatim>\<open>backup.ConnectParams\<close>.\<close>

record ConnectParams =
  kp_Server :: Server
  kp_PrivateKeyPEM :: string
  kp_Passphrase :: string
  kp_Password :: string

record BackendEnv =
  bk_json :: JsonEnv
  bk_parser :: TimeParser
  bk_secrets :: SecretEnv
  bk_read_file :: "string \<Rightarrow> err + string"
  bk_cron :: Cron
  bk_clock :: "nat \<Rightarrow> Time"
  bk_test :: "nat \<Rightarrow> TestEnv"
  bk_world :: "nat \<Rightarrow> ConnectParams \<Rightarrow> Env"
  bk_local :: "nat \<Rightarrow> string \<rightharpoonup> string"
  bk_Version :: string
  bk_StartedAt :: Time

text \<open>\<open>bs_dialed\<close> records what the connection tests did, newest first; \<open>bs_runs\<close> the runs whose goroutine
  is under way, each with the context that cancels it and its state.\<close>

record Backend =
  bs_db :: Db
  bs_files :: Files
  bs_ids :: nat
  bs_ticks :: nat
  bs_calls :: nat
  bs_contexts :: nat
  bs_registry :: Registry
  bs_hub :: EventHub
  bs_dialed :: "DialEvent list list"
  bs_runs :: "(Env \<times> nat \<times> Rc) list"
  bs_log :: "(string \<times> err) list"

type_synonym 'a Act = "(Backend, err + 'a) state"

section \<open>Lifting the components\<close>

definition on_store :: "'a Sql \<Rightarrow> 'a Act" where
  "on_store m = State (\<lambda>s. case run_state m (bs_db s) of (r, db) \<Rightarrow> (r, s\<lparr>bs_db := db\<rparr>))"

definition on_ids :: "(nat, err + 'a) state \<Rightarrow> 'a Act" where
  "on_ids m = State (\<lambda>s. case run_state m (bs_ids s) of (r, n) \<Rightarrow> (r, s\<lparr>bs_ids := n\<rparr>))"

definition time_now :: "BackendEnv \<Rightarrow> Time Act" where
  "time_now env = State (\<lambda>s. (Inr (bk_clock env (bs_ticks s)), s\<lparr>bs_ticks := Suc (bs_ticks s)\<rparr>))"

definition secrets_save :: "BackendEnv \<Rightarrow> string \<Rightarrow> string Act" where
  "secrets_save env plaintext = State (\<lambda>s.
     case SaveSecret (bk_secrets env) (bs_ids s) plaintext (bs_files s) of
       (files, r) \<Rightarrow> (r, s\<lparr>bs_files := files, bs_ids := Suc (bs_ids s)\<rparr>))"

definition unit_result :: "err option \<Rightarrow> err + unit" where
  "unit_result r = (case r of Some e \<Rightarrow> Inl e | None \<Rightarrow> Inr ())"

definition secrets_replace :: "BackendEnv \<Rightarrow> string \<Rightarrow> string \<Rightarrow> unit Act" where
  "secrets_replace env reference plaintext = State (\<lambda>s.
     case ReplaceSecret (bk_secrets env) reference plaintext (bs_files s) of (files, r) \<Rightarrow> (unit_result r, s\<lparr>bs_files := files\<rparr>))"

definition secrets_delete :: "BackendEnv \<Rightarrow> string \<Rightarrow> unit Act" where
  "secrets_delete env reference = State (\<lambda>s.
     case DeleteSecret (bk_secrets env) reference (bs_files s) of (files, r) \<Rightarrow> (unit_result r, s\<lparr>bs_files := files\<rparr>))"

definition secrets_load :: "BackendEnv \<Rightarrow> string \<Rightarrow> string Act" where
  "secrets_load env reference = State (\<lambda>s. (LoadSecret (bk_secrets env) reference (bs_files s), s))"

definition publish :: "BackendEnv \<Rightarrow> string \<Rightarrow> Message \<Rightarrow> (Backend, unit) state" where
  "publish env eventName msg = modify (\<lambda>s. s\<lparr>bs_hub := Publish (NewEvent (jn_marshal (bk_json env)) eventName msg) (bs_hub s)\<rparr>)"

section \<open>Credentials\<close>

definition ResolveCredentials :: "BackendEnv \<Rightarrow> Server \<Rightarrow> (string \<times> string) Act" where
  "ResolveCredentials env server =
     try_do (if Server_CredentialReference server \<noteq> [] then secrets_load env (Server_CredentialReference server) else ret (Inr []))
       (\<lambda>secret.
          if Server_AuthType server = AuthPassword then ret (Inr ([], secret))
          else
            (case bk_read_file env (Server_PrivateKeyPath server) of
               Inl e \<Rightarrow> ret (Inl (NewCodedError ErrSSHAuthFailed (''could not read private key '' @ go_quote (Server_PrivateKeyPath server)) (Some e)))
             | Inr privateKeyPEM \<Rightarrow> ret (Inr (privateKeyPEM, secret))))"

definition connectParams :: "BackendEnv \<Rightarrow> Server \<Rightarrow> ConnectParams Act" where
  "connectParams env server =
     try_do (ResolveCredentials env server) (\<lambda>(key, secret).
       ret (Inr (if Server_AuthType server = AuthPassword
                 then \<lparr>kp_Server = server, kp_PrivateKeyPEM = [], kp_Passphrase = [], kp_Password = secret\<rparr>
                 else \<lparr>kp_Server = server, kp_PrivateKeyPEM = key, kp_Passphrase = secret, kp_Password = []\<rparr>)))"

definition connectionParams :: "BackendEnv \<Rightarrow> Server \<Rightarrow> string \<Rightarrow> ConnectionParams Act" where
  "connectionParams env server trustedFingerprint =
     try_do (ResolveCredentials env server) (\<lambda>(key, secret).
       let params = \<lparr>cp_Host = Server_Host server, cp_Port = Server_Port server, cp_Username = Server_Username server,
             cp_AuthType = Server_AuthType server, cp_PrivateKeyPEM = [], cp_Passphrase = [], cp_Password = [],
             cp_TrustedFingerprint = trustedFingerprint,
             cp_ConnectTimeout = wrap64 (Server_ConnectionTimeoutSeconds server * second),
             cp_CommandTimeout = wrap64 (Server_CommandTimeoutSeconds server * second)\<rparr>
       in ret (Inr (if Server_AuthType server = AuthPassword then params\<lparr>cp_Password := secret\<rparr>
                    else params\<lparr>cp_PrivateKeyPEM := key, cp_Passphrase := secret\<rparr>)))"

definition nextRunAt :: "BackendEnv \<Rightarrow> Job \<Rightarrow> string Act" where
  "nextRunAt env job =
     try_do (time_now env) (\<lambda>t.
       ret (Inr (case NextRun (bk_cron env) (Job_Schedule job) t of Inr (Some next_at) \<Rightarrow> dtoTime next_at | _ \<Rightarrow> [])))"

section \<open>What the outside does\<close>

definition test_connection :: "BackendEnv \<Rightarrow> ConnectionParams \<Rightarrow> TestResult Act" where
  "test_connection env params = State (\<lambda>s.
     case TestConnection (bk_test env (bs_calls s)) params of
       (events, result) \<Rightarrow> (Inr result, s\<lparr>bs_calls := Suc (bs_calls s), bs_dialed := events # bs_dialed s\<rparr>))"

text \<open>The engine's environment for one call: the world, and the arguments of the call.\<close>

definition call_env :: "BackendEnv \<Rightarrow> nat \<Rightarrow> Job \<Rightarrow> Server \<Rightarrow> ConnectParams \<Rightarrow> string \<Rightarrow> Trigger \<Rightarrow> Env" where
  "call_env env n job server params destDir trig =
     (bk_world env n params)\<lparr>e_job := job, e_server := server, e_destDir := destDir, e_trigger := trig, e_has_events := True\<rparr>"

definition validate_job :: "BackendEnv \<Rightarrow> Job \<Rightarrow> Server \<Rightarrow> ConnectParams \<Rightarrow> string \<Rightarrow> ValidateResult Act" where
  "validate_job env job server params destDir = State (\<lambda>s.
     (Inr (fst (run_state (Validate (call_env env (bs_calls s) job server params destDir TriggerManual)) (rc_start (bk_local env (bs_calls s))))),
      s\<lparr>bs_calls := Suc (bs_calls s)\<rparr>))"

section \<open>The event sink of the engine\<close>

definition RunStarted :: "BackendEnv \<Rightarrow> Run \<Rightarrow> (Backend, unit) state" where
  "RunStarted env run = publish env ''run.started'' (RunStartedEvent (runToDTO run))"

definition StepChanged :: "BackendEnv \<Rightarrow> string \<Rightarrow> RunStep \<Rightarrow> (Backend, unit) state" where
  "StepChanged env runID st = publish env ''run.stepChanged'' (RunStepChangedEvent runID (stepToDTO st))"

definition RunFinished :: "BackendEnv \<Rightarrow> Run \<Rightarrow> (Backend, unit) state" where
  "RunFinished env run = do {
     publish env ''run.finished'' (RunFinishedEvent (runToDTO run));
     modify (\<lambda>s. s\<lparr>bs_registry := UnregisterRun (Run_ID run) (bs_registry s)\<rparr>)
   }"

text \<open>The engine calls the sink for each of its events, in their order.\<close>

definition sink_event :: "BackendEnv \<Rightarrow> string \<Rightarrow> Event \<Rightarrow> (Backend, unit) state" where
  "sink_event env runID ev =
     (case ev of
        EvRunStarted run \<Rightarrow> RunStarted env run
      | EvStepChanged st \<Rightarrow> StepChanged env runID st
      | EvRunFinished run \<Rightarrow> RunFinished env run
      | _ \<Rightarrow> ret ())"

definition sink_trace :: "BackendEnv \<Rightarrow> string \<Rightarrow> Trace \<Rightarrow> (Backend, unit) state" where
  "sink_trace env runID tr = for_each (sink_event env runID) (rev tr)"

definition engine_start :: "BackendEnv \<Rightarrow> Job \<Rightarrow> Server \<Rightarrow> ConnectParams \<Rightarrow> string \<Rightarrow> Trigger \<Rightarrow> nat \<Rightarrow> Run Act" where
  "engine_start env job server params destDir trig ctx = do {
     n \<leftarrow> gets bs_calls;
     modify (\<lambda>s. s\<lparr>bs_calls := Suc n\<rparr>);
     let e = call_env env n job server params destDir trig;
     case run_state (Engine_Start e) (rc_start (bk_local env n)) of
       (Inl x, rc) \<Rightarrow> ret (Inl x)
     | (Inr (run, goes_on), rc) \<Rightarrow> do {
         sink_trace env (Run_ID run) (rc_trace rc);
         modify (\<lambda>s. s\<lparr>bs_runs := (if goes_on then [(e, ctx, rc)] else []) @ bs_runs s\<rparr>);
         ret (Inr run)
       }
   }"

text \<open>The goroutine of a run does the rest of it; what happens before is no longer reported.\<close>

definition goroutine_ends :: "BackendEnv \<Rightarrow> Env \<times> nat \<times> Rc \<Rightarrow> (Backend, unit) state" where
  "goroutine_ends env g = (case g of (e, ctx, rc) \<Rightarrow> do {
     let rc' = snd (run_state (finishRun e) rc);
     sink_trace env (Run_ID (rc_run rc)) (take (length (rc_trace rc') - length (rc_trace rc)) (rc_trace rc'));
     modify (\<lambda>s. s\<lparr>bs_runs := removeAll g (bs_runs s)\<rparr>)
   })"

section \<open>Running the lifted operations\<close>

lemma run_on_store [run_simps]:
  "run_state (on_store m) s = (fst (run_state m (bs_db s)), s\<lparr>bs_db := snd (run_state m (bs_db s))\<rparr>)"
  by (simp add: on_store_def case_prod_unfold)

lemma run_on_ids [run_simps]:
  "run_state (on_ids m) s = (fst (run_state m (bs_ids s)), s\<lparr>bs_ids := snd (run_state m (bs_ids s))\<rparr>)"
  by (simp add: on_ids_def case_prod_unfold)

lemma run_time_now [run_simps]:
  "run_state (time_now env) s = (Inr (bk_clock env (bs_ticks s)), s\<lparr>bs_ticks := Suc (bs_ticks s)\<rparr>)"
  by (simp add: time_now_def)

lemma run_secrets [run_simps]:
  "run_state (secrets_save env p) s =
     (snd (SaveSecret (bk_secrets env) (bs_ids s) p (bs_files s)),
      s\<lparr>bs_files := fst (SaveSecret (bk_secrets env) (bs_ids s) p (bs_files s)), bs_ids := Suc (bs_ids s)\<rparr>)"
  "run_state (secrets_replace env r p) s =
     (unit_result (snd (ReplaceSecret (bk_secrets env) r p (bs_files s))),
      s\<lparr>bs_files := fst (ReplaceSecret (bk_secrets env) r p (bs_files s))\<rparr>)"
  "run_state (secrets_delete env r) s =
     (unit_result (snd (DeleteSecret (bk_secrets env) r (bs_files s))),
      s\<lparr>bs_files := fst (DeleteSecret (bk_secrets env) r (bs_files s))\<rparr>)"
  "run_state (secrets_load env r) s = (LoadSecret (bk_secrets env) r (bs_files s), s)"
  by (simp_all add: secrets_save_def secrets_replace_def secrets_delete_def secrets_load_def case_prod_unfold)

lemma run_test_connection [run_simps]:
  "run_state (test_connection env p) s =
     (Inr (snd (TestConnection (bk_test env (bs_calls s)) p)),
      s\<lparr>bs_calls := Suc (bs_calls s), bs_dialed := fst (TestConnection (bk_test env (bs_calls s)) p) # bs_dialed s\<rparr>)"
  by (simp add: test_connection_def case_prod_unfold)

lemma run_publish [run_simps]:
  "run_state (publish env n m) s = ((), s\<lparr>bs_hub := Publish (NewEvent (jn_marshal (bk_json env)) n m) (bs_hub s)\<rparr>)"
  by (simp add: publish_def)

lemma resolve_keeps_state [simp]: "snd (run_state (ResolveCredentials env server) s) = s"
  by (simp add: ResolveCredentials_def run_try_do run_secrets(4) split: sum.split)

lemma connect_params_keep_state [simp]:
  "snd (run_state (connectParams env server) s) = s" "snd (run_state (connectionParams env server fp) s) = s"
  using resolve_keeps_state [of env server s]
  by (auto simp: connectParams_def connectionParams_def run_try_do Let_def case_prod_unfold split: sum.split)

end
