(* ===== verification/Ipc_Handlers.thy ===== *)
theory Ipc_Handlers
  imports Ipc_Backend
begin

text \<open>
  The command handlers of \<^verbatim>\<open>internal/ipc/handlers_servers.go\<close>, \<^verbatim>\<open>handlers_jobs.go\<close>,
  \<^verbatim>\<open>handlers_runs.go\<close> and \<^verbatim>\<open>handlers_settings.go\<close>, each one the whole handler in the order of the
  code, and their registration on the router.
\<close>

type_synonym BackendHandler = "(Backend, Message) Handler"

text \<open>The first lines of the handlers: decode the payload, or answer with \<^verbatim>\<open>INVALID_CONFIG\<close>.\<close>

definition invalid_config :: "err \<Rightarrow> err" where
  "invalid_config e = NewCodedError ErrInvalidConfig (Error e) (Some e)"

definition decoded :: "(string \<Rightarrow> err + 'r) \<Rightarrow> string \<Rightarrow> 'r Act" where
  "decoded codec raw = ret (case UnmarshalPayload codec raw of Inl e \<Rightarrow> Inl (invalid_config e) | Inr req \<Rightarrow> Inr req)"

text \<open>\<^verbatim>\<open>domain.NewServer\<close>, \<^verbatim>\<open>domain.NewJob\<close> and \<^verbatim>\<open>Validate\<close> report their errors in the same way.\<close>

definition or_invalid :: "'a Act \<Rightarrow> 'a Act" where
  "or_invalid m = do { r \<leftarrow> m; ret (case r of Inl e \<Rightarrow> Inl (invalid_config e) | Inr x \<Rightarrow> Inr x) }"

section \<open>Servers\<close>

definition handleServersList :: "BackendEnv \<Rightarrow> BackendHandler" where
  "handleServersList env raw =
     try_do (on_store (ListServers (bk_parser env))) (\<lambda>servers. ret (Inr (ListServersResponse (map serverToDTO servers))))"

definition storeCredential :: "BackendEnv \<Rightarrow> string \<Rightarrow> string \<Rightarrow> string Act" where
  "storeCredential env passphrase existingRef =
     (if passphrase = [] then ret (Inr existingRef)
      else if existingRef \<noteq> [] then try_do (secrets_replace env existingRef passphrase) (\<lambda>_. ret (Inr existingRef))
      else secrets_save env passphrase)"

definition server_params :: "SaveServerRequest \<Rightarrow> string \<Rightarrow> NewServerParams" where
  "server_params req credRef = \<lparr>PS_Name = sS_Name req, PS_Host = sS_Host req, PS_Port = sS_Port req, PS_Username = sS_Username req,
     PS_AuthType = AuthenticationType_of (sS_AuthType req), PS_CredentialReference = credRef,
     PS_PrivateKeyPath = sS_PrivateKeyPath req, PS_ConnectionTimeoutSeconds = sS_ConnectionTimeoutSeconds req,
     PS_CommandTimeoutSeconds = sS_CommandTimeoutSeconds req\<rparr>"

definition handleServersCreate :: "BackendEnv \<Rightarrow> BackendHandler" where
  "handleServersCreate env raw =
     try_do (decoded (jn_SaveServer (bk_json env)) raw) (\<lambda>req.
     try_do (storeCredential env (sS_Passphrase req) []) (\<lambda>credRef.
     try_do (time_now env) (\<lambda>moment.
     try_do (or_invalid (on_ids (NewServer (se_rand (bk_secrets env)) moment (server_params req credRef)))) (\<lambda>s.
     try_do (on_store (CreateServer s)) (\<lambda>_.
     ret (Inr (SaveServerResponse (serverToDTO s))))))))"

definition edited_server :: "SaveServerRequest \<Rightarrow> string \<Rightarrow> Time \<Rightarrow> Server \<Rightarrow> Server" where
  "edited_server req credRef moment existing = existing\<lparr>
     Server_Name := sS_Name req, Server_Host := sS_Host req, Server_Port := sS_Port req, Server_Username := sS_Username req,
     Server_AuthType := AuthenticationType_of (sS_AuthType req), Server_CredentialReference := credRef,
     Server_PrivateKeyPath := (if sS_PrivateKeyPath req \<noteq> [] then sS_PrivateKeyPath req else Server_PrivateKeyPath existing),
     Server_ConnectionTimeoutSeconds :=
       (if sS_ConnectionTimeoutSeconds req > 0 then sS_ConnectionTimeoutSeconds req else Server_ConnectionTimeoutSeconds existing),
     Server_CommandTimeoutSeconds :=
       (if sS_CommandTimeoutSeconds req > 0 then sS_CommandTimeoutSeconds req else Server_CommandTimeoutSeconds existing),
     Server_UpdatedAt := moment\<rparr>"

definition handleServersUpdate :: "BackendEnv \<Rightarrow> BackendHandler" where
  "handleServersUpdate env raw =
     try_do (decoded (jn_SaveServer (bk_json env)) raw) (\<lambda>req.
     try_do (on_store (GetServer (bk_parser env) (sS_ID req))) (\<lambda>existing.
     try_do (storeCredential env (sS_Passphrase req) (Server_CredentialReference existing)) (\<lambda>credRef.
     try_do (time_now env) (\<lambda>moment.
       let s = edited_server req credRef moment existing in
       case Server_Validate s of
         Some e \<Rightarrow> ret (Inl (invalid_config e))
       | None \<Rightarrow> try_do (on_store (UpdateServer s)) (\<lambda>_. ret (Inr (SaveServerResponse (serverToDTO s))))))))"

definition handleServersDelete :: "BackendEnv \<Rightarrow> BackendHandler" where
  "handleServersDelete env raw =
     try_do (decoded (jn_DeleteServer (bk_json env)) raw) (\<lambda>ident.
     try_do (on_store (GetServer (bk_parser env) ident)) (\<lambda>server.
     try_do (on_store (DeleteServer ident)) (\<lambda>_.
     try_do (if Server_CredentialReference server \<noteq> [] then secrets_delete env (Server_CredentialReference server) else ret (Inr ())) (\<lambda>_.
     ret (Inr EmptyReply)))))"

definition Stage_str :: "Stage \<Rightarrow> string" where
  "Stage_str st = (case st of StageNone \<Rightarrow> [] | StageTCP \<Rightarrow> ''TCP'' | StageHostKey \<Rightarrow> ''HOST_KEY'' | StageAuth \<Rightarrow> ''AUTH'' | StageCommand \<Rightarrow> ''COMMAND'')"

definition test_reply :: "Server \<Rightarrow> TestResult \<Rightarrow> TestConnectionResponse" where
  "test_reply server result =
     (let resp = \<lparr>tC_Success = tr_Success result, tC_FailedStage = Stage_str (tr_FailedStage result),
            tC_Message = (case tr_Err result of None \<Rightarrow> [] | Some e \<Rightarrow> Error e), tC_HostKeyAlgorithm = [],
            tC_HostKeyFingerprint = [], tC_FingerprintChanged = False, tC_RemoteOSInfo = tr_RemoteOSInfo result,
            tC_SSHServerVersion = tr_SSHServerVersion result\<rparr>
      in case tr_PresentedHostKey result of
           None \<Rightarrow> resp
         | Some k \<Rightarrow> resp\<lparr>tC_HostKeyAlgorithm := hk_algorithm k, tC_HostKeyFingerprint := hk_fingerprint k,
             tC_FingerprintChanged := (HasTrustedHostKey server \<and> hk_fingerprint k \<noteq> Server_HostKeyFingerprint server)\<rparr>)"

definition handleTestConnection :: "BackendEnv \<Rightarrow> BackendHandler" where
  "handleTestConnection env raw =
     try_do (decoded (jn_TestConnection (bk_json env)) raw) (\<lambda>ident.
     try_do (on_store (GetServer (bk_parser env) ident)) (\<lambda>server.
     try_do (connectionParams env server (Server_HostKeyFingerprint server)) (\<lambda>params.
     try_do (test_connection env params) (\<lambda>result.
     ret (Inr (TestConnectionReply (test_reply server result)))))))"

definition confirmed :: "TestResult \<Rightarrow> string \<Rightarrow> bool" where
  "confirmed result fingerprint \<longleftrightarrow>
     \<not> (case tr_PresentedHostKey result of None \<Rightarrow> True | Some k \<Rightarrow> hk_fingerprint k \<noteq> fingerprint)"

definition handleConfirmHostKey :: "BackendEnv \<Rightarrow> BackendHandler" where
  "handleConfirmHostKey env raw =
     try_do (decoded (jn_ConfirmHostKey (bk_json env)) raw) (\<lambda>req.
     try_do (on_store (GetServer (bk_parser env) (cH_ServerID req))) (\<lambda>server.
     try_do (connectionParams env server (cH_Fingerprint req)) (\<lambda>params.
     try_do (test_connection env params) (\<lambda>result.
       if \<not> confirmed result (cH_Fingerprint req) then
         ret (Inl (NewCodedError ErrSSHHostKeyChanged
           ''the presented host key no longer matches the fingerprint being confirmed'' None))
       else
         try_do (time_now env) (\<lambda>moment.
           let s = server\<lparr>Server_HostKeyFingerprint := cH_Fingerprint req, Server_HostKeyAlgorithm := cH_Algorithm req,
                     Server_UpdatedAt := moment\<rparr>
           in try_do (on_store (UpdateServer s)) (\<lambda>_. ret (Inr (SaveServerResponse (serverToDTO s)))))))))"

section \<open>Jobs\<close>

definition job_reply :: "BackendEnv \<Rightarrow> Job \<Rightarrow> JobDTO Act" where
  "job_reply env j = try_do (nextRunAt env j) (\<lambda>t. ret (Inr (jobToDTO j t)))"

definition handleJobsList :: "BackendEnv \<Rightarrow> BackendHandler" where
  "handleJobsList env raw =
     try_do (on_store (ListJobs (bk_parser env))) (\<lambda>jobs.
     try_do (try_each (job_reply env) jobs) (\<lambda>dtos. ret (Inr (ListJobsResponse dtos))))"

definition handleJobsCreate :: "BackendEnv \<Rightarrow> BackendHandler" where
  "handleJobsCreate env raw =
     try_do (decoded (jn_SaveJob (bk_json env)) raw) (\<lambda>dto.
     try_do (time_now env) (\<lambda>moment.
     try_do (or_invalid (on_ids (NewJob (se_rand (bk_secrets env)) (bk_cron env) moment (dtoToJobParams dto)))) (\<lambda>job.
     try_do (on_store (CreateJob job)) (\<lambda>_.
     try_do (job_reply env job) (\<lambda>reply. ret (Inr (SaveJobResponse reply)))))))"

definition handleJobsUpdate :: "BackendEnv \<Rightarrow> BackendHandler" where
  "handleJobsUpdate env raw =
     try_do (decoded (jn_SaveJob (bk_json env)) raw) (\<lambda>dto.
     if jD_ID dto = [] then ret (Inl (NewCodedError ErrInvalidConfig ''job id is required for an update'' None))
     else
       try_do (on_store (GetJob (bk_parser env) (jD_ID dto))) (\<lambda>existing.
       try_do (or_invalid (on_ids (NewJob (se_rand (bk_secrets env)) (bk_cron env) (Job_CreatedAt existing) (dtoToJobParams dto)))) (\<lambda>updated.
       try_do (time_now env) (\<lambda>moment.
         let job = updated\<lparr>Job_ID := Job_ID existing, Job_UpdatedAt := moment\<rparr> in
         try_do (on_store (UpdateJob job)) (\<lambda>_.
         try_do (job_reply env job) (\<lambda>reply. ret (Inr (SaveJobResponse reply))))))))"

definition handleJobsDelete :: "BackendEnv \<Rightarrow> BackendHandler" where
  "handleJobsDelete env raw =
     try_do (decoded (jn_DeleteJob (bk_json env)) raw) (\<lambda>(ident, deleteHistory).
     try_do (on_store (DeleteJob ident deleteHistory)) (\<lambda>_. ret (Inr EmptyReply)))"

definition handleJobsSetEnabled :: "BackendEnv \<Rightarrow> bool \<Rightarrow> BackendHandler" where
  "handleJobsSetEnabled env enabled raw =
     try_do (decoded (jn_SetJobEnabled (bk_json env)) raw) (\<lambda>ident.
     try_do (on_store (SetEnabled ident enabled)) (\<lambda>_. ret (Inr EmptyReply)))"

definition handleJobsValidate :: "BackendEnv \<Rightarrow> BackendHandler" where
  "handleJobsValidate env raw =
     try_do (decoded (jn_ValidateJob (bk_json env)) raw) (\<lambda>ident.
     try_do (on_store (GetJob (bk_parser env) ident)) (\<lambda>job.
     try_do (on_store (GetServer (bk_parser env) (Job_ServerID job))) (\<lambda>server.
     try_do (connectParams env server) (\<lambda>params.
     try_do (validate_job env job server params (Job_LocalDestination job)) (\<lambda>result.
     ret (Inr (ValidateJobResponse (validateToDTO result))))))))"

section \<open>Runs\<close>

text \<open>\<^verbatim>\<open>context.WithCancel\<close>: a context of its own for the run.\<close>

definition with_cancel :: "nat Act" where
  "with_cancel = State (\<lambda>s. (Inr (bs_contexts s), s\<lparr>bs_contexts := Suc (bs_contexts s)\<rparr>))"

definition cancel_context :: "nat \<Rightarrow> (Backend, unit) state" where
  "cancel_context ctx = modify (\<lambda>s. s\<lparr>bs_registry := (bs_registry s)\<lparr>ar_cancelled := insert ctx (ar_cancelled (bs_registry s))\<rparr>\<rparr>)"

text \<open>The handler up to the return of \<^verbatim>\<open>Engine.Start\<close>, which leaves a goroutine behind, and the rest.\<close>

definition runs_start_engine :: "BackendEnv \<Rightarrow> string \<Rightarrow> (Run \<times> nat) Act" where
  "runs_start_engine env raw =
     try_do (decoded (jn_RunNow (bk_json env)) raw) (\<lambda>ident.
     try_do (on_store (GetJob (bk_parser env) ident)) (\<lambda>job.
     try_do (on_store (GetServer (bk_parser env) (Job_ServerID job))) (\<lambda>server.
     try_do (connectParams env server) (\<lambda>params.
     try_do with_cancel (\<lambda>ctx. do {
       r \<leftarrow> engine_start env job server params (Job_LocalDestination job) TriggerManual ctx;
       case r of
         Inl e \<Rightarrow> do { cancel_context ctx; ret (Inl e) }
       | Inr run \<Rightarrow> ret (Inr (run, ctx))
     })))))"

definition runs_start_register :: "Run \<times> nat \<Rightarrow> Message Act" where
  "runs_start_register started = (case started of (run, ctx) \<Rightarrow> do {
     (if Run_Status run = RunRunning
      then modify (\<lambda>s. s\<lparr>bs_registry := RegisterRun (Run_ID run) ctx (bs_registry s)\<rparr>)
      else cancel_context ctx);
     ret (Inr (RunNowResponse (Run_ID run) (RunStatus_str (Run_Status run))))
   })"

definition handleRunsStart :: "BackendEnv \<Rightarrow> BackendHandler" where
  "handleRunsStart env raw = try_do (runs_start_engine env raw) runs_start_register"

definition cancel_run :: "string \<Rightarrow> bool Act" where
  "cancel_run runID = State (\<lambda>s. case CancelRun runID (bs_registry s) of (ok, r) \<Rightarrow> (Inr ok, s\<lparr>bs_registry := r\<rparr>))"

definition handleRunsCancel :: "BackendEnv \<Rightarrow> BackendHandler" where
  "handleRunsCancel env raw =
     try_do (decoded (jn_CancelRun (bk_json env)) raw) (\<lambda>runID.
     try_do (cancel_run runID) (\<lambda>ok.
       if \<not> ok then ret (Inl (NewCodedError ErrNotFound ''run is not currently active'' None))
       else ret (Inr EmptyReply)))"

definition no_list_filter :: ListRunsRequest where
  "no_list_filter = \<lparr>lR_JobID = [], lR_Status = [], lR_Limit = 0\<rparr>"

definition handleRunsList :: "BackendEnv \<Rightarrow> BackendHandler" where
  "handleRunsList env raw =
     try_do (if raw \<noteq> [] then decoded (jn_ListRuns (bk_json env)) raw else ret (Inr no_list_filter)) (\<lambda>req.
     try_do (on_store (ListRuns (bk_parser env)
       \<lparr>rf_job_id = lR_JobID req, rf_status = RunStatus_of (lR_Status req), rf_limit = lR_Limit req\<rparr>)) (\<lambda>runs.
     ret (Inr (ListRunsResponse (map runToDTO runs)))))"

definition handleRunsGet :: "BackendEnv \<Rightarrow> BackendHandler" where
  "handleRunsGet env raw =
     try_do (decoded (jn_GetRun (bk_json env)) raw) (\<lambda>ident.
     try_do (on_store (GetRun (bk_parser env) ident)) (\<lambda>run.
     try_do (on_store (ListByRun (bk_parser env) ident)) (\<lambda>steps.
     ret (Inr (GetRunResponse (runToDTO run) (map stepToDTO steps))))))"

section \<open>Settings and status\<close>

definition handleSettingsGet :: "BackendEnv \<Rightarrow> BackendHandler" where
  "handleSettingsGet env raw = try_do (on_store GetSettings) (\<lambda>s. ret (Inr (GetSettingsResponse (settingsToDTO s))))"

definition handleSettingsSet :: "BackendEnv \<Rightarrow> BackendHandler" where
  "handleSettingsSet env raw =
     try_do (decoded (jn_SetSettings (bk_json env)) raw) (\<lambda>dto.
       let settings = dtoToSettings dto in
       case Settings_Validate settings of
         Some e \<Rightarrow> ret (Inl (invalid_config e))
       | None \<Rightarrow>
           try_do (on_store (UpdateSettings settings)) (\<lambda>_. do {
             publish env ''settings.changed'' (SettingsChangedEvent (settingsToDTO settings));
             ret (Inr (GetSettingsResponse (settingsToDTO settings)))
           }))"

definition handleServiceStatus :: "BackendEnv \<Rightarrow> BackendHandler" where
  "handleServiceStatus env raw = ret (Inr (ServiceStatusResponse (bk_Version env) ProtocolVersion (dtoTime (bk_StartedAt env))))"

section \<open>Registration\<close>

definition registerServerHandlers :: "BackendEnv \<Rightarrow> (Backend, Message) Router \<Rightarrow> (Backend, Message) Router" where
  "registerServerHandlers env =
     Handle ''servers.confirmHostKey'' (handleConfirmHostKey env) \<circ>
     Handle ''servers.testConnection'' (handleTestConnection env) \<circ>
     Handle ''servers.delete'' (handleServersDelete env) \<circ>
     Handle ''servers.update'' (handleServersUpdate env) \<circ>
     Handle ''servers.create'' (handleServersCreate env) \<circ>
     Handle ''servers.list'' (handleServersList env)"

definition registerJobHandlers :: "BackendEnv \<Rightarrow> (Backend, Message) Router \<Rightarrow> (Backend, Message) Router" where
  "registerJobHandlers env =
     Handle ''jobs.validate'' (handleJobsValidate env) \<circ>
     Handle ''jobs.disable'' (handleJobsSetEnabled env False) \<circ>
     Handle ''jobs.enable'' (handleJobsSetEnabled env True) \<circ>
     Handle ''jobs.delete'' (handleJobsDelete env) \<circ>
     Handle ''jobs.update'' (handleJobsUpdate env) \<circ>
     Handle ''jobs.create'' (handleJobsCreate env) \<circ>
     Handle ''jobs.list'' (handleJobsList env)"

definition registerRunHandlers :: "BackendEnv \<Rightarrow> (Backend, Message) Router \<Rightarrow> (Backend, Message) Router" where
  "registerRunHandlers env =
     Handle ''runs.get'' (handleRunsGet env) \<circ>
     Handle ''runs.list'' (handleRunsList env) \<circ>
     Handle ''runs.cancel'' (handleRunsCancel env) \<circ>
     Handle ''runs.start'' (handleRunsStart env)"

definition registerSettingsHandlers :: "BackendEnv \<Rightarrow> (Backend, Message) Router \<Rightarrow> (Backend, Message) Router" where
  "registerSettingsHandlers env =
     Handle ''service.status'' (handleServiceStatus env) \<circ>
     Handle ''settings.set'' (handleSettingsSet env) \<circ>
     Handle ''settings.get'' (handleSettingsGet env)"

definition RegisterHandlers :: "BackendEnv \<Rightarrow> (Backend, Message) Router \<Rightarrow> (Backend, Message) Router" where
  "RegisterHandlers env =
     registerSettingsHandlers env \<circ> registerRunHandlers env \<circ> registerJobHandlers env \<circ> registerServerHandlers env"

text \<open>The router of the service logs an internal error.\<close>

definition service_router :: "BackendEnv \<Rightarrow> (Backend, Message) Router" where
  "service_router env = RegisterHandlers env (NewRouter (\<lambda>command e. modify (\<lambda>s. s\<lparr>bs_log := (command, e) # bs_log s\<rparr>)))"

lemma registered_commands:
  "dom (ro_handlers (service_router env)) = {
     ''servers.list'', ''servers.create'', ''servers.update'', ''servers.delete'', ''servers.testConnection'',
     ''servers.confirmHostKey'', ''jobs.list'', ''jobs.create'', ''jobs.update'', ''jobs.delete'', ''jobs.enable'',
     ''jobs.disable'', ''jobs.validate'', ''runs.start'', ''runs.cancel'', ''runs.list'', ''runs.get'', ''settings.get'',
     ''settings.set'', ''service.status''}"
  by (auto simp: service_router_def RegisterHandlers_def registerServerHandlers_def registerJobHandlers_def
    registerRunHandlers_def registerSettingsHandlers_def Handle_def NewRouter_def split: if_splits)

lemma run_decoded [run_simps]:
  "run_state (decoded codec raw) s = (case UnmarshalPayload codec raw of Inl e \<Rightarrow> Inl (invalid_config e) | Inr r \<Rightarrow> Inr r, s)"
  by (simp add: decoded_def)

lemma run_or_invalid [run_simps]:
  "run_state (or_invalid m) s =
     (case run_state m s of (Inl e, t) \<Rightarrow> (Inl (invalid_config e), t) | (Inr x, t) \<Rightarrow> (Inr x, t))"
  by (simp add: or_invalid_def case_prod_unfold split: sum.split)

end
