(* ===== verification/Ipc_Properties.thy ===== *)
theory Ipc_Properties
  imports Ipc_Handlers
begin

text \<open>What the command handlers do to the state behind them.\<close>

section \<open>Commands that only look\<close>

definition looked :: "Backend \<Rightarrow> Backend \<Rightarrow> bool" where
  "looked s t \<longleftrightarrow> db_tables (bs_db t) = db_tables (bs_db s) \<and> bs_files t = bs_files s \<and> bs_registry t = bs_registry s \<and>
     bs_hub t = bs_hub s \<and> bs_runs t = bs_runs s"

interpretation looks: state_preorder looked
  by unfold_locales (simp_all add: looked_def)

lemma read_only_bind: "read_only m \<Longrightarrow> (\<And>x. read_only (f x)) \<Longrightarrow> read_only (State_Monad.bind m f)"
  by (simp add: read_only_def case_prod_unfold)

lemma read_only_not_found: "read_only m \<Longrightarrow> read_only (not_found_or kind msg ident m)"
  unfolding not_found_or_def by (intro read_only_bind read_only_return)

lemma read_only_one: "read_only (query_one q scan)"
  unfolding query_one_def by (intro read_only_try read_only_query read_only_return)

lemma read_only_attach:
  "read_only (attachSources js)" "read_only (attachScripts js)" "read_only (attachSchedules js)" "read_only (attachRetention js)"
proof -
  show "read_only (attachSources js)" "read_only (attachScripts js)" "read_only (attachRetention js)"
    unfolding attachSources_def attachScripts_def attachRetention_def
    by (rule read_only_try [OF read_only_rows], rule read_only_return)+
  show "read_only (attachSchedules js)"
    unfolding attachSchedules_def
    by (rule read_only_try [OF read_only_wrap [OF read_only_query]])
      (auto split: sum.split intro: read_only_return read_only_try [OF read_only_wrap [OF read_only_query]])
qed

lemma read_only_load_jobs: "read_only (loadJobs general select)"
  unfolding loadJobs_def
  by (rule read_only_try [OF read_only_rows])
    (auto intro!: read_only_return read_only_try [OF read_only_attach(1)] read_only_try [OF read_only_attach(2)]
      read_only_try [OF read_only_attach(3)] read_only_attach(4))

lemma read_only_store:
  "read_only (GetServer general ident)" "read_only (ListServers general)" "read_only (GetJob general ident)" "read_only (ListJobs general)"
  "read_only (GetRun general ident)" "read_only (ListRuns general f)" "read_only (ListByRun general ident)" "read_only GetSettings"
  unfolding GetServer_def ListServers_def GetJob_def ListJobs_def GetRun_def ListRuns_def ListByRun_def GetSettings_def
  by (rule read_only_not_found read_only_one read_only_rows read_only_load_jobs read_only_wrap
      read_only_try [OF read_only_load_jobs] read_only_return)+

lemma looks_store: "read_only m \<Longrightarrow> state_io_rel looked (on_store m)"
  by (simp add: state_io_rel_def looked_def run_on_store read_only_def)

lemma looks_acts:
  "state_io_rel looked (time_now env)" "state_io_rel looked (decoded d raw)" "state_io_rel looked (test_connection env p)"
  "state_io_rel looked (validate_job env job server params dest)"
  "state_io_rel looked (connectParams env server)" "state_io_rel looked (connectionParams env server fp)"
  by (simp_all add: state_io_rel_def looked_def run_time_now run_decoded run_test_connection validate_job_def)

lemma looks_replies: "state_io_rel looked (job_reply env j)" "state_io_rel looked (try_each (job_reply env) js)"
proof -
  show one: "state_io_rel looked (job_reply env j)" for j
    unfolding job_reply_def nextRunAt_def by (intro looks.io_try_do looks_acts looks.io_return)
  show "state_io_rel looked (try_each (job_reply env) js)"
    by (induction js) (auto intro: looks.io_return looks.io_try_do one)
qed

lemmas looks_rules = looks.io_try_do looks.io_return looks_acts looks_replies looks_store read_only_store

definition looking_commands :: "string list" where
  "looking_commands = [''servers.list'', ''servers.testConnection'', ''jobs.list'', ''jobs.validate'', ''runs.list'', ''runs.get'',
     ''settings.get'', ''service.status'']"

lemma looking_handlers:
  "state_io_rel looked (handleServersList env raw)" "state_io_rel looked (handleTestConnection env raw)"
  "state_io_rel looked (handleJobsList env raw)" "state_io_rel looked (handleJobsValidate env raw)"
  "state_io_rel looked (handleRunsList env raw)" "state_io_rel looked (handleRunsGet env raw)"
  "state_io_rel looked (handleSettingsGet env raw)" "state_io_rel looked (handleServiceStatus env raw)"
proof -
  show "state_io_rel looked (handleRunsList env raw)"
    unfolding handleRunsList_def by (intro looks_rules looks.io_if)
qed (unfold handleServersList_def handleTestConnection_def handleJobsList_def handleJobsValidate_def
    handleRunsGet_def handleSettingsGet_def handleServiceStatus_def, (intro looks_rules)+)

lemma handler_of:
  "ro_handlers (service_router env) ''servers.list'' = Some (handleServersList env)"
  "ro_handlers (service_router env) ''servers.testConnection'' = Some (handleTestConnection env)"
  "ro_handlers (service_router env) ''jobs.list'' = Some (handleJobsList env)"
  "ro_handlers (service_router env) ''jobs.validate'' = Some (handleJobsValidate env)"
  "ro_handlers (service_router env) ''runs.list'' = Some (handleRunsList env)"
  "ro_handlers (service_router env) ''runs.get'' = Some (handleRunsGet env)"
  "ro_handlers (service_router env) ''settings.get'' = Some (handleSettingsGet env)"
  "ro_handlers (service_router env) ''service.status'' = Some (handleServiceStatus env)"
  by (simp_all add: service_router_def RegisterHandlers_def registerServerHandlers_def registerJobHandlers_def
    registerRunHandlers_def registerSettingsHandlers_def Handle_def NewRouter_def)

lemma looks_dispatch:
  assumes "\<And>fn. ro_handlers r (ev_Command env) = Some fn \<Longrightarrow> state_io_rel looked (fn (ev_Payload env))"
    and "\<And>c e. state_io_rel looked (ro_onError r c e)"
  shows "state_io_rel looked (Dispatch marshal r env)"
  unfolding Dispatch_def
  by (intro looks.io_if looks.io_return looks.io_option looks.io_bind looks.io_sum looks.io_prod assms; assumption?)

text \<open>Looking changes nothing. A request to list or get servers, jobs, runs or settings, to test a
  connection, to validate a job or for the status of the service leaves the tables, the
  credentials, the active runs and the event channels exactly as they were, whatever its
  payload, whatever the database answers and whatever the other side of the connection does.\<close>

theorem looking_changes_nothing:
  "list_all (\<lambda>cmd. looked s (snd (run_state (Dispatch marshal (service_router env) (req\<lparr>ev_Command := cmd\<rparr>)) s))) looking_commands"
proof -
  have "ro_onError (service_router env) = (\<lambda>c e. modify (\<lambda>s. s\<lparr>bs_log := (c, e) # bs_log s\<rparr>))"
    by (simp add: service_router_def RegisterHandlers_def registerServerHandlers_def registerJobHandlers_def
      registerRunHandlers_def registerSettingsHandlers_def Handle_def NewRouter_def)
  then have "state_io_rel looked (ro_onError (service_router env) c e)" for c e
    by (simp add: state_io_rel_def looked_def)
  moreover have "state_io_rel looked (fn raw)"
    if "ro_handlers (service_router env) cmd = Some fn" "cmd \<in> set looking_commands" for cmd fn raw
    using that looking_handlers by (auto simp: looking_commands_def handler_of)
  ultimately have "looked s (snd (run_state (Dispatch marshal (service_router env) (req\<lparr>ev_Command := cmd\<rparr>)) s))"
    if "cmd \<in> set looking_commands" for cmd
    using that by (intro looks.io_snd looks_dispatch) simp_all
  then show ?thesis by (simp add: list_all_iff)
qed

section \<open>Confirming a host key\<close>

lemma test_presents:
  assumes "TestConnection env p = (events, result)" and "tr_PresentedHostKey result = Some k"
  shows "k = no_key \<or> KeyPresented k \<in> set events"
  using assms
  by (auto simp: TestConnection_def failed_test_def NewClientConn_def presented_key_def verifyHostKey_def
    split: sum.splits option.splits if_splits prod.splits)

lemma test_guarded:
  assumes "TestConnection env p = (events, result)"
  shows "guarded_auth (cp_TrustedFingerprint p) None events"
  using assms
  by (auto simp: TestConnection_def NewClientConn_def verifyHostKey_def split: sum.splits option.splits if_splits prod.splits)

lemma connection_params_trust:
  "run_state (connectionParams env server fp) s = (Inr params, s') \<Longrightarrow> cp_TrustedFingerprint params = fp \<and> s' = s"
  using connect_params_keep_state(2) [of env server fp s]
  by (auto simp: connectionParams_def run_try_do Let_def split: sum.splits prod.splits if_splits)

text \<open>C5: A fingerprint is trusted only after the server presented it. When a confirmation succeeds, the
  service made one more connection, the host presented a key with exactly the confirmed
  fingerprint, and credentials went to nobody else; the answer shows this fingerprint. The
  exception is the empty fingerprint, which names no key at all.\<close>

theorem confirmation_needs_the_key:
  assumes "run_state (handleConfirmHostKey env raw) s = (Inr reply, s')"
  shows "\<exists>req events dto. UnmarshalPayload (jn_ConfirmHostKey (bk_json env)) raw = Inr req \<and> bs_dialed s' = events # bs_dialed s \<and>
    guarded_auth (cH_Fingerprint req) None events \<and> reply = SaveServerResponse dto \<and> sD_HostKeyFingerprint dto = cH_Fingerprint req \<and>
    (cH_Fingerprint req = [] \<or> (\<exists>k. KeyPresented k \<in> set events \<and> hk_fingerprint k = cH_Fingerprint req))"
proof -
  from assms obtain req s0 server s1 params s2 result s3 moment s4 s5
    where req: "run_state (decoded (jn_ConfirmHostKey (bk_json env)) raw) s = (Inr req, s0)"
      and get: "run_state (on_store (GetServer (bk_parser env) (cH_ServerID req))) s0 = (Inr server, s1)"
      and params: "run_state (connectionParams env server (cH_Fingerprint req)) s1 = (Inr params, s2)"
      and test: "run_state (test_connection env params) s2 = (Inr result, s3)"
      and ok: "confirmed result (cH_Fingerprint req)"
      and moment: "run_state (time_now env) s3 = (Inr moment, s4)"
      and update: "run_state (on_store (UpdateServer (server\<lparr>Server_HostKeyFingerprint := cH_Fingerprint req,
        Server_HostKeyAlgorithm := cH_Algorithm req, Server_UpdatedAt := moment\<rparr>))) s4 = (Inr (), s')"
      and reply: "reply = SaveServerResponse (serverToDTO (server\<lparr>Server_HostKeyFingerprint := cH_Fingerprint req,
        Server_HostKeyAlgorithm := cH_Algorithm req, Server_UpdatedAt := moment\<rparr>))"
    unfolding handleConfirmHostKey_def Let_def by (elim try_do_Inr) (auto split: if_splits elim!: try_do_Inr)
  obtain events where events: "TestConnection (bk_test env (bs_calls s2)) params = (events, result)"
    and s3: "s3 = s2\<lparr>bs_calls := Suc (bs_calls s2), bs_dialed := events # bs_dialed s2\<rparr>"
    using test by (cases "TestConnection (bk_test env (bs_calls s2)) params") (auto simp: run_test_connection)
  have fp: "cp_TrustedFingerprint params = cH_Fingerprint req" and s2: "s2 = s1"
    using connection_params_trust [OF params] by simp_all
  have "UnmarshalPayload (jn_ConfirmHostKey (bk_json env)) raw = Inr req" and "s0 = s"
    using req by (auto simp: run_decoded split: sum.splits)
  moreover have "bs_dialed s' = events # bs_dialed s"
    using get moment update \<open>s0 = s\<close> by (auto simp: run_on_store run_time_now s3 s2)
  moreover have "guarded_auth (cH_Fingerprint req) None events"
    using test_guarded [OF events] by (simp add: fp)
  moreover have "cH_Fingerprint req = [] \<or> (\<exists>k. KeyPresented k \<in> set events \<and> hk_fingerprint k = cH_Fingerprint req)"
    using ok test_presents [OF events] by (auto simp: confirmed_def no_key_def split: option.splits)
  ultimately show ?thesis unfolding reply by (intro exI conjI) (auto simp: serverToDTO_def)
qed

text \<open>
  The empty fingerprint: when the handshake breaks off before the host key, \<^verbatim>\<open>PresentedHostKey\<close> is the
  empty key, it matches, and the confirmation erases the trusted key of the server.
\<close>

lemma broken_handshake_confirms_nothing:
  assumes "buildAuthMethod (DialEnv.truncate e) p = Inr auth" and "dn_tcp e 0 = None" and "dn_kex e 0 = Inl x" and "CodeOf x = None"
  shows "confirmed (snd (TestConnection e p)) []"
  using assms
  by (simp add: TestConnection_def NewClientConn_def DialEnv.truncate_def host_key_error_def failed_test_def presented_key_def
    confirmed_def no_key_def)

section \<open>Saving a server\<close>

lemma get_server_keeps:
  "run_state (on_store (GetServer general ident)) s = (r, s') \<Longrightarrow>
   db_tables (bs_db s') = db_tables (bs_db s) \<and> bs_files s' = bs_files s \<and> bs_ids s' = bs_ids s"
  using read_only_store(1) [of general ident] by (auto simp: run_on_store read_only_def)

lemma replaced_secret_loads:
  assumes "ReplaceSecret env reference plaintext files = (files', None)"
    and "\<And>x y. se_protect env x = Inr y \<Longrightarrow> se_unprotect env y = Inr x" and "se_read_fault env = (\<lambda>_. None)"
  shows "LoadSecret env reference files' = Inr plaintext"
proof -
  from assms(1) obtain path protected where "secret_path (se_dir env) reference = Inr path" "se_protect env plaintext = Inr protected"
    "files' = put_file path (Some protected) files"
    by (auto simp: ReplaceSecret_def writeProtected_def split: sum.splits option.splits WriteFault.splits)
  with assms(2,3) show ?thesis by (simp add: LoadSecret_def)
qed

text \<open>C38: A refused update has already replaced the password. When servers.update is refused because the new
  values are not valid, the row of the server stays as it was, but a password sent with the request
  has been written over the stored one: the next connection uses the password of a request that
  was answered with INVALID_CONFIG.\<close>

theorem refused_update_replaces_secret:
  assumes "UnmarshalPayload (jn_SaveServer (bk_json env)) raw = Inr req"
    and "run_state (on_store (GetServer (bk_parser env) (sS_ID req))) s = (Inr existing, s1)"
    and "sS_Passphrase req \<noteq> []" and "Server_CredentialReference existing \<noteq> []"
    and "ReplaceSecret (bk_secrets env) (Server_CredentialReference existing) (sS_Passphrase req) (bs_files s) = (files', None)"
    and "Server_Validate (edited_server req (Server_CredentialReference existing) (bk_clock env (bs_ticks s1)) existing) = Some e"
    and "\<And>x y. se_protect (bk_secrets env) x = Inr y \<Longrightarrow> se_unprotect (bk_secrets env) y = Inr x"
    and "se_read_fault (bk_secrets env) = (\<lambda>_. None)"
  shows "\<exists>s'. run_state (handleServersUpdate env raw) s = (Inl (invalid_config e), s') \<and>
    db_tables (bs_db s') = db_tables (bs_db s) \<and>
    LoadSecret (bk_secrets env) (Server_CredentialReference existing) (bs_files s') = Inr (sS_Passphrase req)"
proof -
  note keep = get_server_keeps [OF assms(2)]
  have "run_state (handleServersUpdate env raw) s =
      (Inl (invalid_config e), s1\<lparr>bs_files := files', bs_ticks := Suc (bs_ticks s1)\<rparr>)"
    using assms(3,4,5,6) keep
    by (simp add: handleServersUpdate_def run_try_do run_decoded assms(1,2) storeCredential_def run_secrets unit_result_def run_time_now Let_def)
  then show ?thesis
    using keep replaced_secret_loads [OF assms(5,7,8)] by simp
qed

lemma inserted_server:
  "fst (run_state (CreateServer server) db) = Inr u \<Longrightarrow>
   t_servers (db_tables (snd (run_state (CreateServer server) db))) = t_servers (db_tables db) @ [server_row server]"
  by (auto simp: CreateServer_def run_try_do run_wrap_err run_exec insert_server_def insert_row_def Let_def
      split: option.splits sum.splits if_splits prod.splits)

text \<open>What a successful servers.create has done: the secret is saved, then the server inserted with its reference.\<close>

lemma created_server:
  assumes "run_state (handleServersCreate env raw) s = (Inr reply, s')"
    and "UnmarshalPayload (jn_SaveServer (bk_json env)) raw = Inr req" and "sS_Passphrase req \<noteq> []"
  obtains server files where "reply = SaveServerResponse (serverToDTO server)"
    and "t_servers (db_tables (bs_db s')) = t_servers (db_tables (bs_db s)) @ [server_row server]"
    and "bs_files s' = files"
    and "SaveSecret (bk_secrets env) (bs_ids s) (sS_Passphrase req) (bs_files s) = (files, Inr (Server_CredentialReference server))"
    and "Server_AuthType server = AuthenticationType_of (sS_AuthType req)" and "Server_Host server = sS_Host req"
    and "Server_Username server = sS_Username req" and "Server_PrivateKeyPath server = sS_PrivateKeyPath req"
proof -
  from assms(1) obtain req' s0 credRef s1 moment s2 server s3 u
    where req: "run_state (decoded (jn_SaveServer (bk_json env)) raw) s = (Inr req', s0)"
      and save: "run_state (storeCredential env (sS_Passphrase req') []) s0 = (Inr credRef, s1)"
      and moment: "run_state (time_now env) s1 = (Inr moment, s2)"
      and new: "run_state (or_invalid (on_ids (NewServer (se_rand (bk_secrets env)) moment (server_params req' credRef)))) s2 = (Inr server, s3)"
      and create: "run_state (on_store (CreateServer server)) s3 = (Inr u, s')"
      and reply: "reply = SaveServerResponse (serverToDTO server)"
    unfolding handleServersCreate_def by (elim try_do_Inr) simp
  have s0: "req' = req" "s0 = s" using req assms(2) by (simp_all add: run_decoded)
  then obtain files where files: "SaveSecret (bk_secrets env) (bs_ids s) (sS_Passphrase req) (bs_files s) = (files, Inr credRef)"
    and s1: "s1 = s\<lparr>bs_files := files, bs_ids := Suc (bs_ids s)\<rparr>"
    using save assms(3) by (cases "SaveSecret (bk_secrets env) (bs_ids s) (sS_Passphrase req) (bs_files s)")
      (auto simp: storeCredential_def run_secrets)
  obtain m where made: "run_state (NewServer (se_rand (bk_secrets env)) moment (server_params req credRef)) (bs_ids s2) = (Inr server, m)"
    and s3: "s3 = s2\<lparr>bs_ids := m\<rparr>"
    using new s0 by (cases "run_state (NewServer (se_rand (bk_secrets env)) moment (server_params req credRef)) (bs_ids s2)")
      (auto simp: run_or_invalid run_on_ids split: sum.splits)
  have ref: "Server_CredentialReference server = credRef" "Server_AuthType server = AuthenticationType_of (sS_AuthType req)"
    and same: "Server_Host server = sS_Host req" "Server_Username server = sS_Username req" "Server_PrivateKeyPath server = sS_PrivateKeyPath req"
    using made unfolding NewServer_def Let_def
    by (auto simp: server_params_def split: option.splits elim!: try_do_Inr)
  have s': "bs_files s' = files" and rows: "t_servers (db_tables (bs_db s')) = t_servers (db_tables (bs_db s)) @ [server_row server]"
    using create moment s3 s1 inserted_server [of server "bs_db s3" u] by (auto simp: run_on_store run_time_now)
  show thesis using that [OF reply rows s'] files ref same by simp
qed

text \<open>The credentials of a server whose secret loads.\<close>

lemma resolved_credentials:
  assumes "LoadSecret (bk_secrets env) (Server_CredentialReference server) (bs_files s) = Inr secret"
    and "Server_CredentialReference server \<noteq> []"
  shows "run_state (ResolveCredentials env server) s = (if Server_AuthType server = AuthPassword then Inr ([], secret)
      else (case bk_read_file env (Server_PrivateKeyPath server) of
         Inl e \<Rightarrow> Inl (NewCodedError ErrSSHAuthFailed (''could not read private key '' @ go_quote (Server_PrivateKeyPath server)) (Some e))
       | Inr key \<Rightarrow> Inr (key, secret)), s)"
  using assms by (simp add: ResolveCredentials_def run_try_do run_secrets split: sum.split)

text \<open>What saving a secret does to the others; one whose file name was free takes the place of none.\<close>

lemma others_after_save:
  assumes "SaveSecret env n plaintext files = (files', Inr credRef)" and "se_read_fault env = (\<lambda>_. None)"
  shows "lower_case other = lower_case credRef \<or> LoadSecret env other files' = LoadSecret env other files"
    and "file_at files (path_join (se_dir env) credRef) = None \<Longrightarrow> LoadSecret env other files = Inr x \<Longrightarrow> LoadSecret env other files' = Inr x"
proof -
  obtain protected where p: "files' = put_file (path_join (se_dir env) credRef) (Some protected) files"
    using save_secret_Inr [OF assms(1)] by blast
  show others: "lower_case other = lower_case credRef \<or> LoadSecret env other files' = LoadSecret env other files"
    using load_elsewhere [of other credRef env] by (cases "lower_case other = lower_case credRef") (simp_all add: p)
  assume free: "file_at files (path_join (se_dir env) credRef) = None" and old: "LoadSecret env other files = Inr x"
  show "LoadSecret env other files' = Inr x"
  proof (cases "lower_case other = lower_case credRef")
    case True
    obtain path where path: "secret_path (se_dir env) other = Inr path"
      using old by (auto simp: LoadSecret_def split: sum.splits)
    then have "lower_case path = lower_case (path_join (se_dir env) credRef)"
      using secret_path_Inr(1) True path_join_inject by blast
    then have "file_at files path = None" using free by (simp add: file_at_def)
    with old path show ?thesis by (simp add: LoadSecret_def assms(2))
  qed (use others old in simp)
qed

text \<open>C15: A new server connects with the secret it was created with. When servers.create succeeds for a
  request with a password or a passphrase, the table holds one more row, the server of the answer,
  with the requested host, user, key file and type of authentication; its credential reference is the identifier that the
  random source gives next; resolving its credentials gives exactly the password of the request,
  or, for every other type, the contents of the private key file, if it can be read, with the
  passphrase of the request, through the encrypted file that the row refers to. Every credential
  under another reference loads as before; and if no file had the drawn name before, as with a
  fresh identifier of 128 random bits, every credential that could be loaded before is loaded
  unchanged.\<close>

theorem created_server_has_its_secret:
  assumes "run_state (handleServersCreate env raw) s = (Inr reply, s')"
    and "UnmarshalPayload (jn_SaveServer (bk_json env)) raw = Inr req" and "sS_Passphrase req \<noteq> []"
    and "\<And>x y. se_protect (bk_secrets env) x = Inr y \<Longrightarrow> se_unprotect (bk_secrets env) y = Inr x"
    and "se_read_fault (bk_secrets env) = (\<lambda>_. None)"
  shows "\<exists>server. reply = SaveServerResponse (serverToDTO server) \<and>
    t_servers (db_tables (bs_db s')) = t_servers (db_tables (bs_db s)) @ [server_row server] \<and>
    Server_AuthType server = AuthenticationType_of (sS_AuthType req) \<and>
    Server_Host server = sS_Host req \<and> Server_Username server = sS_Username req \<and> Server_PrivateKeyPath server = sS_PrivateKeyPath req \<and>
    NewID (se_rand (bk_secrets env)) (bs_ids s) = Inr (Server_CredentialReference server) \<and>
    (if Server_AuthType server = AuthPassword
     then run_state (ResolveCredentials env server) s' = (Inr ([], sS_Passphrase req), s')
     else (\<forall>key. bk_read_file env (Server_PrivateKeyPath server) = Inr key \<longrightarrow>
       run_state (ResolveCredentials env server) s' = (Inr (key, sS_Passphrase req), s'))) \<and>
    (\<forall>other. lower_case other = lower_case (Server_CredentialReference server) \<or>
       LoadSecret (bk_secrets env) other (bs_files s') = LoadSecret (bk_secrets env) other (bs_files s)) \<and>
    (file_at (bs_files s) (path_join (se_dir (bk_secrets env)) (Server_CredentialReference server)) = None \<longrightarrow>
      (\<forall>other x. LoadSecret (bk_secrets env) other (bs_files s) = Inr x \<longrightarrow> LoadSecret (bk_secrets env) other (bs_files s') = Inr x))"
proof -
  obtain server files where reply: "reply = SaveServerResponse (serverToDTO server)"
    and rows: "t_servers (db_tables (bs_db s')) = t_servers (db_tables (bs_db s)) @ [server_row server]"
    and s': "bs_files s' = files"
    and save: "SaveSecret (bk_secrets env) (bs_ids s) (sS_Passphrase req) (bs_files s) = (files, Inr (Server_CredentialReference server))"
    and same: "Server_AuthType server = AuthenticationType_of (sS_AuthType req)" "Server_Host server = sS_Host req"
      "Server_Username server = sS_Username req" "Server_PrivateKeyPath server = sS_PrivateKeyPath req"
    using assms(1-3) by (rule created_server)
  let ?ref = "Server_CredentialReference server"
  have drawn: "NewID (se_rand (bk_secrets env)) (bs_ids s) = Inr ?ref"
    using save by (auto simp: SaveSecret_def split: sum.splits option.splits prod.splits)
  obtain protected where p: "secret_path (se_dir (bk_secrets env)) ?ref = Inr (path_join (se_dir (bk_secrets env)) ?ref)"
    "se_protect (bk_secrets env) (sS_Passphrase req) = Inr protected"
    "files = put_file (path_join (se_dir (bk_secrets env)) ?ref) (Some protected) (bs_files s)"
    using save by (rule save_secret_Inr)
  have "LoadSecret (bk_secrets env) ?ref (bs_files s') = Inr (sS_Passphrase req)"
    using assms(4) p(2) by (simp add: LoadSecret_def p(1,3) s' assms(5))
  moreover have "?ref \<noteq> []" using secret_path_Inr(2) [OF p(1)] by auto
  ultimately have resolve: "run_state (ResolveCredentials env server) s' = (if Server_AuthType server = AuthPassword
      then Inr ([], sS_Passphrase req)
      else (case bk_read_file env (Server_PrivateKeyPath server) of
         Inl e \<Rightarrow> Inl (NewCodedError ErrSSHAuthFailed (''could not read private key '' @ go_quote (Server_PrivateKeyPath server)) (Some e))
       | Inr key \<Rightarrow> Inr (key, sS_Passphrase req)), s')"
    by (rule resolved_credentials)
  show ?thesis
    using rows same drawn others_after_save [OF save assms(5)] resolve by (intro exI [of _ server]) (simp add: reply s')
qed

section \<open>Settings\<close>

text \<open>Settings are checked, stored and announced, or nothing happens. When settings.set succeeds, the new
  settings are valid, a following read returns them as they were sent (on a database that
  answers), and every open event channel with room has got one settings.changed event with them;
  when it fails, neither the tables nor the channels have changed.\<close>

theorem settings_set_all_or_nothing:
  "case run_state (handleSettingsSet env raw) s of
     (Inr reply, s') \<Rightarrow> \<exists>dto. reply = GetSettingsResponse dto \<and> UnmarshalPayload (jn_SetSettings (bk_json env)) raw = Inr dto \<and>
       Settings_Validate (dtoToSettings dto) = None \<and>
       map_option settings_of_row (t_settings (db_tables (bs_db s'))) = map_option (\<lambda>_. dtoToSettings dto) (t_settings (db_tables (bs_db s))) \<and>
       bs_hub s' = Publish (NewEvent (jn_marshal (bk_json env)) ''settings.changed'' (SettingsChangedEvent dto)) (bs_hub s)
   | (Inl e, s') \<Rightarrow> db_tables (bs_db s') = db_tables (bs_db s) \<and> bs_hub s' = bs_hub s"
proof (cases "UnmarshalPayload (jn_SetSettings (bk_json env)) raw")
  case (Inr dto)
  show ?thesis
  proof (cases "Settings_Validate (dtoToSettings dto)")
    case None
    then show ?thesis
      by (cases "db_fault (bs_db s) (db_calls (bs_db s))")
        (simp_all add: handleSettingsSet_def run_try_do run_decoded Inr run_on_store UpdateSettings_def run_wrap_err run_exec
          run_publish option.map_comp comp_def)
  qed (simp add: handleSettingsSet_def run_try_do run_decoded Inr)
qed (simp add: handleSettingsSet_def run_try_do run_decoded)

section \<open>Cancelling\<close>

text \<open>
  \<^verbatim>\<open>Engine.Start\<close> leaves a goroutine behind. If it ends before the handler registers the run, the
  registration stays: the registry then names a run that is over, and cancelling it is answered
  with success.
\<close>

lemma late_registration_stays:
  assumes "Run_Status run = RunRunning"
  shows "ar_cancels (bs_registry (snd (run_state (runs_start_register (run, ctx)) (snd (run_state (RunFinished env finished) s))))) (Run_ID run) = Some ctx"
  using assms by (simp add: runs_start_register_def RunFinished_def run_publish RegisterRun_def)

lemma cancel_unknown_run:
  assumes "ar_cancels (bs_registry s) runID = None" and "UnmarshalPayload (jn_CancelRun (bk_json env)) raw = Inr runID"
  shows "\<exists>s'. run_state (handleRunsCancel env raw) s = (Inl (NewCodedError ErrNotFound ''run is not currently active'' None), s') \<and>
    bs_registry s' = bs_registry s"
  using assms by (simp add: handleRunsCancel_def run_try_do run_decoded cancel_run_def CancelRun_def)

end
