(* ===== verification/Ipc_Witnesses.thy ===== *)
theory Ipc_Witnesses
  imports Ipc_Properties
begin

text \<open>A service with one password server, and the handlers at work on it.\<close>

section \<open>A password server\<close>

definition password_request :: SaveServerRequest where
  "password_request = \<lparr>sS_ID = ''srv1'', sS_Name = ''vps'', sS_Host = ''vps.example.org'', sS_Port = 22, sS_Username = ''backup'',
     sS_AuthType = ''PASSWORD'', sS_PrivateKeyPath = [], sS_Passphrase = ''hunter2'', sS_ConnectionTimeoutSeconds = 10,
     sS_CommandTimeoutSeconds = 30\<rparr>"

definition demo_json :: "SaveServerRequest \<Rightarrow> JsonEnv" where
  "demo_json req = \<lparr>jn_SaveServer = (\<lambda>_. Inr req), jn_DeleteServer = Inr, jn_TestConnection = Inr,
     jn_ConfirmHostKey = (\<lambda>_. Inl EndOfFile), jn_SaveJob = (\<lambda>_. Inl EndOfFile), jn_DeleteJob = (\<lambda>p. Inr (p, False)),
     jn_SetJobEnabled = Inr, jn_ValidateJob = Inr, jn_RunNow = Inr, jn_CancelRun = Inr, jn_ListRuns = (\<lambda>_. Inr no_list_filter),
     jn_GetRun = Inr, jn_SetSettings = (\<lambda>_. Inl EndOfFile), jn_marshal = (\<lambda>_. [])\<rparr>"

definition demo_backend_env :: "SaveServerRequest \<Rightarrow> BackendEnv" where
  "demo_backend_env req = \<lparr>bk_json = demo_json req, bk_parser = (\<lambda>_. Inl EndOfFile), bk_secrets = plain_env, bk_read_file = (\<lambda>_. Inr ''key''),
     bk_cron = (\<lambda>_. Inr (\<lambda>t. t)), bk_clock = (\<lambda>_. epoch), bk_test = (\<lambda>_. test_env), bk_world = (\<lambda>_ _. sample_run_env []),
     bk_local = (\<lambda>_. Map.empty), bk_Version = ''dev'', bk_StartedAt = epoch\<rparr>"

definition demo_backend :: Backend where
  "demo_backend = \<lparr>bs_db = server_db\<lparr>db_tables := empty_tables\<rparr>, bs_files = Map.empty, bs_ids = 0, bs_ticks = 0, bs_calls = 0, bs_contexts = 0,
     bs_registry = NewActiveRunRegistry, bs_hub = NewEventHub, bs_dialed = [], bs_runs = [], bs_log = []\<rparr>"

definition zero_id :: string where
  "zero_id = replicate 32 (CHR ''0'')"

lemma zero_id_facts:
  "secret_path ''D:'' zero_id = Inr (path_join ''D:'' zero_id)" "NewID (\<lambda>_. Inr (replicate 16 0)) n = Inr zero_id" "zero_id \<noteq> []"
proof -
  show "secret_path ''D:'' zero_id = Inr (path_join ''D:'' zero_id)" by code_simp
  have "hex_encode (replicate 16 0) = zero_id" by code_simp
  then show "NewID (\<lambda>_. Inr (replicate 16 0)) n = Inr zero_id" by (simp add: NewID_def)
  show "zero_id \<noteq> []" by code_simp
qed

lemma plain_env_save:
  "SaveSecret plain_env n p files = (put_file (path_join ''D:'' zero_id) (Some (''dp'' @ p)) files, Inr zero_id)"
  using zero_id_facts by (simp add: SaveSecret_def plain_env_def writeProtected_def)

lemma trim_vps: "trim_space ''vps'' \<noteq> []"
  by (subst trim_space_printable) (simp_all add: printable_def)

lemma password_server_valid:
  assumes "Server_Name s = ''vps''" "Server_Host s \<noteq> []" "Server_Username s \<noteq> []" "Server_Port s = 22" "Server_AuthType s = AuthPassword"
    "Server_CredentialReference s \<noteq> []"
  shows "Server_Validate s = None"
  unfolding Server_Validate_def errors_join_None_iff using assms trim_vps by (simp add: ValidateName_def ValidatePort_def check_def)

lemma password_auth: "AuthenticationType_of ''PASSWORD'' = AuthPassword"
  by (simp add: AuthenticationType_of_def)

lemma password_server_new:
  assumes "r \<noteq> []"
  shows "\<exists>server. run_state (NewServer (\<lambda>_. Inr (replicate 16 0)) t (server_params password_request r)) n = (Inr server, Suc n)"
  using assms password_server_valid
  by (simp add: NewServer_def Let_def server_params_def password_request_def password_auth fresh_def zero_id_facts(2) run_try_do)

lemma create_in_empty:
  "db_tables db = empty_tables \<Longrightarrow> db_fault db = (\<lambda>_. None) \<Longrightarrow> fst (run_state (CreateServer server) db) = Inr ()"
  by (simp add: CreateServer_def run_try_do run_wrap_err run_exec insert_server_def insert_row_def empty_tables_def Let_def)

lemma password_server_created:
  "\<exists>reply s'. run_state (handleServersCreate (demo_backend_env password_request) ''{}'') demo_backend = (Inr reply, s')"
proof -
  let ?env = "demo_backend_env password_request" and ?r = zero_id
  have env: "jn_SaveServer (bk_json ?env) = (\<lambda>_. Inr password_request)" "bk_secrets ?env = plain_env"
    "se_rand plain_env = (\<lambda>_. Inr (replicate 16 0))"
    by (simp_all add: demo_backend_env_def demo_json_def plain_env_def)
  have pass: "sS_Passphrase password_request = ''hunter2''" by (simp add: password_request_def)
  obtain server where new: "run_state (NewServer (\<lambda>_. Inr (replicate 16 0)) (bk_clock ?env 0) (server_params password_request ?r)) 1 = (Inr server, Suc 1)"
    using password_server_new [OF zero_id_facts(3), of "bk_clock ?env 0" 1] by auto
  have db: "db_tables (bs_db demo_backend) = empty_tables" "db_fault (bs_db demo_backend) = (\<lambda>_. None)"
    "bs_ids demo_backend = 0" "bs_ticks demo_backend = 0"
    by (simp_all add: demo_backend_def server_db_def)
  obtain db' where create: "run_state (CreateServer server) (bs_db demo_backend) = (Inr (), db')"
    using create_in_empty [OF db(1,2), of server] by (metis prod.collapse)
  show ?thesis
    using new create
    by (simp add: handleServersCreate_def run_try_do run_decoded env UnmarshalPayload_def storeCredential_def pass run_secrets
      plain_env_save run_time_now run_or_invalid run_on_ids run_on_store db)
qed

lemma created_server_witness:
  "\<exists>reply s' server. run_state (handleServersCreate (demo_backend_env password_request) ''{}'') demo_backend = (Inr reply, s') \<and>
    t_servers (db_tables (bs_db s')) = [server_row server] \<and>
    run_state (ResolveCredentials (demo_backend_env password_request) server) s' = (Inr ([], ''hunter2''), s') \<and>
    Server_CredentialReference server = zero_id"
proof -
  obtain reply s' where run: "run_state (handleServersCreate (demo_backend_env password_request) ''{}'') demo_backend = (Inr reply, s')"
    using password_server_created by blast
  have start: "t_servers (db_tables (bs_db demo_backend)) = []"
    by (simp add: demo_backend_def empty_tables_def)
  show ?thesis
    using created_server_has_its_secret [OF run, of password_request] run zero_id_facts(2) unfolding start
    by (auto simp: demo_backend_env_def demo_json_def UnmarshalPayload_def password_request_def plain_env_def password_auth)
qed

text \<open>The same server, stored with an older password.\<close>

definition password_server :: Server where
  "password_server = sample_server\<lparr>Server_AuthType := AuthPassword, Server_CredentialReference := zero_id\<rparr>"

definition stored_backend :: Backend where
  "stored_backend = demo_backend\<lparr>bs_db := server_db\<lparr>db_tables := empty_tables\<lparr>t_servers := [server_row password_server]\<rparr>\<rparr>,
     bs_files := put_file (path_join ''D:'' zero_id) (Some ''dpold'') Map.empty\<rparr>"

lemma password_server_storable: "storable_server password_server"
  by (simp add: storable_server_def password_server_def sample_server_def storable_time_def epoch_year AuthenticationType_of_def)

lemma password_server_utc: "utc_server password_server = password_server"
proof -
  have "to_utc epoch = epoch" by (simp add: to_utc_def epoch_def in_loc_def)
  then show ?thesis by (simp add: utc_server_def password_server_def sample_server_def)
qed

lemma password_server_row: "sr_id (server_row password_server) = ''srv1''" "Server_ID password_server = ''srv1''"
  by (simp_all add: server_row_def password_server_def sample_server_def)

lemma get_stored:
  obtains s1 where "run_state (on_store (GetServer general ''srv1'')) stored_backend = (Inr password_server, s1)"
proof -
  have "healthy (bs_db stored_backend)"
    by (simp add: stored_backend_def demo_backend_def server_db_def healthy_def)
  then have "fst (run_state (GetServer general ''srv1'') (bs_db stored_backend)) = Inr password_server"
    unfolding GetServer_def get_result [OF \<open>healthy (bs_db stored_backend)\<close>]
    using scan_server_row [OF password_server_storable, of general] password_server_utc password_server_row
    by (simp add: stored_backend_def find_server_def)
  then show ?thesis by (intro that) (simp add: run_on_store)
qed

definition bad_port_request :: SaveServerRequest where
  "bad_port_request = password_request\<lparr>sS_Port := 0\<rparr>"

lemma refused_update_witness:
  "\<exists>e s'. run_state (handleServersUpdate (demo_backend_env bad_port_request) ''{}'') stored_backend = (Inl (invalid_config e), s') \<and>
    db_tables (bs_db s') = db_tables (bs_db stored_backend) \<and>
    LoadSecret plain_env zero_id (bs_files stored_backend) = Inr ''old'' \<and> LoadSecret plain_env zero_id (bs_files s') = Inr ''hunter2''"
proof -
  let ?env = "demo_backend_env bad_port_request"
  have env: "jn_SaveServer (bk_json ?env) = (\<lambda>_. Inr bad_port_request)" "bk_secrets ?env = plain_env"
    by (simp_all add: demo_backend_env_def demo_json_def)
  have req: "sS_ID bad_port_request = ''srv1''" "sS_Passphrase bad_port_request = ''hunter2''" "Server_CredentialReference password_server = zero_id"
    by (simp_all add: bad_port_request_def password_request_def password_server_def)
  have old: "LoadSecret plain_env zero_id (bs_files stored_backend) = Inr ''old''"
    using zero_id_facts(1) by (simp add: LoadSecret_def stored_backend_def plain_env_def)
  have replace: "ReplaceSecret plain_env zero_id ''hunter2'' (bs_files stored_backend) =
      (put_file (path_join ''D:'' zero_id) (Some ''dphunter2'') (bs_files stored_backend), None)"
    using zero_id_facts(1) by (simp add: ReplaceSecret_def writeProtected_def plain_env_def)
  obtain s1 where get: "run_state (on_store (GetServer (bk_parser ?env) ''srv1'')) stored_backend = (Inr password_server, s1)"
    by (rule get_stored)
  have "Server_Validate (edited_server bad_port_request zero_id (bk_clock ?env (bs_ticks s1)) password_server) \<noteq> None"
    by (simp add: Server_Validate_def errors_join_None_iff edited_server_def bad_port_request_def ValidatePort_def)
  then obtain e where invalid: "Server_Validate (edited_server bad_port_request zero_id (bk_clock ?env (bs_ticks s1)) password_server) = Some e"
    by blast
  have dpapi: "\<And>x y. se_protect plain_env x = Inr y \<Longrightarrow> se_unprotect plain_env y = Inr x" "se_read_fault plain_env = (\<lambda>_. None)"
    by (auto simp: plain_env_def)
  note refused = refused_update_replaces_secret [where env = ?env and raw = "''{}''" and s = stored_backend, unfolded env,
      OF _ get [folded req(1)], unfolded req, OF _ _ zero_id_facts(3) replace invalid dpapi]
  have "\<exists>s'. run_state (handleServersUpdate ?env ''{}'') stored_backend = (Inl (invalid_config e), s') \<and>
    db_tables (bs_db s') = db_tables (bs_db stored_backend) \<and> LoadSecret plain_env zero_id (bs_files s') = Inr ''hunter2''"
    by (rule refused) (simp_all add: UnmarshalPayload_def)
  then show ?thesis using old by blast
qed

definition confirm_env :: BackendEnv where
  "confirm_env = (demo_backend_env password_request)\<lparr>bk_json := (demo_json password_request)\<lparr>jn_ConfirmHostKey := (\<lambda>_. Inr
     \<lparr>cH_ServerID = ''srv1'', cH_Fingerprint = ''SHA256:abc'', cH_Algorithm = ''ssh-ed25519''\<rparr>)\<rparr>\<rparr>"

lemma get_keeps_fault: "db_fault (snd (run_state (GetServer general ident) db)) = db_fault db"
  by (simp add: GetServer_def not_found_or_def query_one_def run_try_do run_query case_prod_unfold split: option.split)

lemma confirmation_succeeds:
  "\<exists>reply s'. run_state (handleConfirmHostKey confirm_env ''{}'') stored_backend = (Inr reply, s')"
proof -
  obtain s1 where get: "run_state (on_store (GetServer (bk_parser confirm_env) ''srv1'')) stored_backend = (Inr password_server, s1)"
    by (rule get_stored)
  have s1: "bs_files s1 = put_file (path_join ''D:'' zero_id) (Some ''dpold'') Map.empty" "db_tables (bs_db s1) = empty_tables\<lparr>t_servers := [server_row password_server]\<rparr>"
    using get_server_keeps [OF get] by (simp_all add: stored_backend_def)
  have load: "LoadSecret plain_env zero_id (bs_files s1) = Inr ''old''"
    using zero_id_facts(1) by (simp add: LoadSecret_def plain_env_def s1)
  have server: "Server_CredentialReference password_server = zero_id" "Server_AuthType password_server = AuthPassword"
    by (simp_all add: password_server_def)
  have env: "jn_ConfirmHostKey (bk_json confirm_env) = (\<lambda>_. Inr \<lparr>cH_ServerID = ''srv1'', cH_Fingerprint = ''SHA256:abc'', cH_Algorithm = ''ssh-ed25519''\<rparr>)"
    "bk_secrets confirm_env = plain_env" "bk_test confirm_env = (\<lambda>_. test_env)"
    by (simp_all add: confirm_env_def demo_backend_env_def)
  obtain params where params: "run_state (connectionParams confirm_env password_server ''SHA256:abc'') s1 = (Inr params, s1)"
    and p: "cp_AuthType params = AuthPassword" "cp_Password params = ''old''" "cp_TrustedFingerprint params = ''SHA256:abc''"
    by (simp add: connectionParams_def ResolveCredentials_def run_try_do run_secrets server env load zero_id_facts(3) Let_def)
  have "confirmed (snd (TestConnection test_env params)) ''SHA256:abc''"
    by (simp add: TestConnection_def p buildAuthMethod_def test_env_def NewClientConn_def DialEnv.truncate_def verifyHostKey_def
      confirmed_def presented_key_def)
  moreover have "db_fault (bs_db s1) = (\<lambda>_. None)"
    using get get_keeps_fault [of "bk_parser confirm_env" "''srv1''" "bs_db stored_backend"]
    by (auto simp: run_on_store stored_backend_def demo_backend_def server_db_def)
  then obtain db' where "run_state (UpdateServer (password_server\<lparr>Server_HostKeyFingerprint := ''SHA256:abc'',
      Server_HostKeyAlgorithm := ''ssh-ed25519'', Server_UpdatedAt := bk_clock confirm_env (bs_ticks s1)\<rparr>)) (bs_db s1) = (Inr (), db')"
    by (simp add: UpdateServer_def run_try_do run_wrap_err run_exec Let_def update_server_rows_def s1(2) affected_def run_checkRowsAffected
      password_server_row)
  then have "run_state (on_store (UpdateServer (password_server\<lparr>Server_HostKeyFingerprint := ''SHA256:abc'',
      Server_HostKeyAlgorithm := ''ssh-ed25519'', Server_UpdatedAt := bk_clock confirm_env (bs_ticks s1)\<rparr>))) t = (Inr (), t\<lparr>bs_db := db'\<rparr>)"
    if "bs_db t = bs_db s1" for t
    using that by (simp add: run_on_store)
  ultimately show ?thesis
    by (simp add: handleConfirmHostKey_def run_try_do run_decoded env UnmarshalPayload_def get params run_test_connection run_time_now Let_def)
qed

lemma confirmation_witness:
  "\<exists>reply s' events k. run_state (handleConfirmHostKey confirm_env ''{}'') stored_backend = (Inr reply, s') \<and> bs_dialed s' = events # bs_dialed stored_backend \<and> KeyPresented k \<in> set events \<and> hk_fingerprint k = ''SHA256:abc'' \<and>
    guarded_auth ''SHA256:abc'' None events"
proof -
  obtain reply s' where run: "run_state (handleConfirmHostKey confirm_env ''{}'') stored_backend = (Inr reply, s')"
    using confirmation_succeeds by blast
  from confirmation_needs_the_key [OF run] obtain req events dto where c:
      "UnmarshalPayload (jn_ConfirmHostKey (bk_json confirm_env)) ''{}'' = Inr req" "bs_dialed s' = events # bs_dialed stored_backend"
      "guarded_auth (cH_Fingerprint req) None events"
      "cH_Fingerprint req = [] \<or> (\<exists>k. KeyPresented k \<in> set events \<and> hk_fingerprint k = cH_Fingerprint req)"
    by (elim exE conjE)
  from c(1) have "cH_Fingerprint req = ''SHA256:abc''"
    by (auto simp: confirm_env_def UnmarshalPayload_def)
  moreover from this c(4) obtain k where "KeyPresented k \<in> set events" "hk_fingerprint k = ''SHA256:abc''"
    by auto
  ultimately show ?thesis
    using run c(2,3) by (intro exI [of _ reply] exI [of _ s'] exI [of _ events] exI [of _ k]) simp
qed

section \<open>A job saved as the form shows it\<close>

definition resaved_job :: Job where
  "resaved_job = sample_job\<lparr>Job_ID := zero_id,
     Job_Sources := [sample_source\<lparr>Source_ID := zero_id, Source_JobID := zero_id\<rparr>],
     Job_Schedule := sample_schedule\<lparr>Schedule_ID := zero_id, Schedule_JobID := zero_id\<rparr>,
     Job_RetentionPolicy := sample_retention\<lparr>RetentionPolicy_ID := zero_id, RetentionPolicy_JobID := zero_id\<rparr>\<rparr>"

lemma resaved_job_valid: "Job_Validate (\<lambda>_. Inr (\<lambda>t. t)) resaved_job = None"
  using sample_trims
  by (simp add: resaved_job_def job_valid_iff job_wf_def schedule_wf_def retention_wf_def has_prefix_def sample_job_def
    sample_source_def sample_schedule_def sample_retention_def second_def)

lemma sample_job_resaved:
  "run_state (NewJob (\<lambda>_. Inr (replicate 16 0)) (\<lambda>_. Inr (\<lambda>t. t)) epoch (dtoToJobParams (jobToDTO sample_job []))) 0 = (Inr resaved_job, 4)"
  using resaved_job_valid
  by (simp add: NewJob_def run_try_do fresh_def fresh_if_empty_def zero_id_facts(2) dtoToJobParams_def jobToDTO_def Let_def adopt_source_def
      resaved_job_def sample_job_def sample_source_def sample_schedule_def sample_retention_def dtoToSource_def sourceToDTO_def
      ScheduleType_of_def MissedRunPolicy_of_def whole_seconds_def second_def wrap64_def)

lemma job_dto_witness: "same_job sample_job resaved_job"
  by (rule job_dto_roundtrip [OF sample_job_resaved])
    (simp add: editable_job_def sample_job_def sample_schedule_def ScheduleType_of_def MissedRunPolicy_of_def whole_seconds_def
      secondsToDuration_def wrap64_def second_def)

end
