(* ===== verification/Notify.thy ===== *)
theory Notify
  imports Store_Jobs_Facts
begin

text \<open>
  \<^verbatim>\<open>internal/notify\<close>: what a finished run tells the user (\<^verbatim>\<open>notifier.go\<close>), whether it tells it
  (\<^verbatim>\<open>service.go\<close>) and the PowerShell script that shows it (\<^verbatim>\<open>toast.go\<close>). The notifier that
  delivers is a parameter.
\<close>

section \<open>Sizes and durations\<close>

text \<open>The quotient of two positive numbers, rounded to the nearest integer, ties to even.\<close>

definition half_even :: "int \<Rightarrow> int \<Rightarrow> int" where
  "half_even a b =
     (let q = a div b; r = a mod b
      in if 2 * r < b then q else if 2 * r > b then q + 1 else q + q mod 2)"

text \<open>\<^verbatim>\<open>float64(n)\<close> of a non-negative integer: 53 significant bits.\<close>

function excess_bits :: "int \<Rightarrow> nat" where
  "excess_bits n = (if n < 2 ^ 53 then 0 else Suc (excess_bits (n div 2)))"
  by auto
termination by (relation "measure nat") auto

definition float64 :: "int \<Rightarrow> int" where
  "float64 n = half_even n (2 ^ excess_bits n) * 2 ^ excess_bits n"

text \<open>\<^verbatim>\<open>%.1f\<close> of a quotient by a power of two, which is exact.\<close>

definition fmt_tenths :: "int \<Rightarrow> int \<Rightarrow> string" where
  "fmt_tenths a b = (let t = half_even (10 * a) b in itoa (t div 10) @ ''.'' @ itoa (t mod 10))"

function size_loop :: "int \<Rightarrow> int \<Rightarrow> nat \<Rightarrow> int \<times> nat" where
  "size_loop n d e = (if n \<ge> 1024 then size_loop (n div 1024) (wrap64 (d * 1024)) (Suc e) else (d, e))"
  by auto
termination by (relation "measure (\<lambda>(n, d, e). nat n)") auto

declare excess_bits.simps [simp del] size_loop.simps [simp del]

text \<open>An index out of range is a panic: \<^term>\<open>None\<close>.\<close>

definition humanSize :: "int \<Rightarrow> string option" where
  "humanSize b =
     (if b < 1024 then Some (itoa b @ '' B'')
      else (case size_loop (b div 1024) 1024 0 of
              (d, e) \<Rightarrow> if e < length ''KMGTPE'' then Some (fmt_tenths (float64 b) d @ '' '' @ [''KMGTPE'' ! e] @ ''iB'') else None))"

lemma size_loop_result:
  assumes "0 < n" "n < 1024 ^ Suc k" "d * 1024 ^ k < 2 ^ 63" "0 < d"
  shows "\<exists>i \<le> k. size_loop n d e = (d * 1024 ^ i, e + i) \<and> 1024 ^ i \<le> n \<and> n < 1024 ^ Suc i"
  using assms
proof (induction k arbitrary: n d e)
  case 0
  then show ?case by (simp add: size_loop.simps)
next
  case (Suc k)
  show ?case
  proof (cases "n < 1024")
    case True
    with Suc.prems show ?thesis by (intro exI [of _ 0]) (simp add: size_loop.simps)
  next
    case False
    have "1 * 1024 \<le> (1024 :: int) ^ Suc k" unfolding power_Suc by (simp add: mult.commute one_le_power)
    then have "d * 1024 \<le> d * 1024 ^ Suc k" using Suc.prems(4) by (intro mult_left_mono) auto
    with Suc.prems(3) have "d * 1024 < 2 ^ 63" by linarith
    with Suc.prems(4) have wrap: "wrap64 (d * 1024) = d * 1024"
      by (intro wrap64_id) (simp add: int64_range_def)
    have "n div 1024 < 1024 ^ Suc k" using Suc.prems(2) by simp
    moreover have "0 < n div 1024" using False by (simp add: pos_imp_zdiv_pos_iff)
    ultimately obtain i where i: "i \<le> k" "size_loop (n div 1024) (d * 1024) (Suc e) = (d * 1024 * 1024 ^ i, Suc e + i)"
      "1024 ^ i \<le> n div 1024" "n div 1024 < 1024 ^ Suc i"
      using Suc.IH [of "n div 1024" "d * 1024" "Suc e"] Suc.prems(3,4) by (auto simp: ac_simps)
    have "1024 ^ Suc i \<le> n" "n < 1024 ^ Suc (Suc i)" using i(3,4) by simp_all
    with i(1,2) False show ?thesis
      by (intro exI [of _ "Suc i"]) (simp add: size_loop.simps [of n] wrap ac_simps)
  qed
qed

text \<open>Every archive size can be shown. For each 64-bit size the loop of humanSize stops at one of the
  six units without an overflow of its divisor, so that the index is in range and the size shown
  is less than 1024 of its unit and at least one.\<close>

theorem human_size_in_range:
  assumes "1024 \<le> b" and "b < 2 ^ 63"
  shows "\<exists>i \<le> 5. size_loop (b div 1024) 1024 0 = (1024 ^ Suc i, i) \<and> 1024 ^ Suc i \<le> b \<and> b < 1024 ^ Suc (Suc i) \<and>
    humanSize b = Some (fmt_tenths (float64 b) (1024 ^ Suc i) @ '' '' @ [''KMGTPE'' ! i] @ ''iB'')"
proof -
  have "0 < b div 1024" using assms(1) by (simp add: pos_imp_zdiv_pos_iff)
  moreover have "b div 1024 < 1024 ^ Suc 5" using assms(2) by simp
  ultimately obtain i where i: "i \<le> 5" "size_loop (b div 1024) 1024 0 = (1024 * 1024 ^ i, 0 + i)" "1024 ^ i \<le> b div 1024" "b div 1024 < 1024 ^ Suc i"
    using size_loop_result [of "b div 1024" 5 1024 0] by auto
  have "1024 ^ Suc i \<le> b" "b < 1024 ^ Suc (Suc i)" using i(3,4) by simp_all
  moreover have "humanSize b = Some (fmt_tenths (float64 b) (1024 ^ Suc i) @ '' '' @ [''KMGTPE'' ! i] @ ''iB'')"
    using assms(1) i(1,2) by (simp add: humanSize_def)
  ultimately show ?thesis using i(1,2) by (intro exI [of _ i]) simp
qed

lemma human_size_witness: "\<exists>i \<le> 5. size_loop (1536 div 1024) 1024 0 = (1024 ^ Suc i, i)"
  using human_size_in_range [of 1536] by auto

lemma human_size_examples:
  "humanSize 1023 = Some ''1023 B''" "humanSize 1536 = Some ''1.5 KiB''" "humanSize (5 * 1024 ^ 3) = Some ''5.0 GiB''"
  by (simp_all add: humanSize_def size_loop.simps wrap64_def fmt_tenths_def float64_def excess_bits.simps half_even_def itoa_def dec.simps digit_char_def char_of_def bit_iff_odd)

text \<open>\<^verbatim>\<open>Duration.Round(time.Second)\<close>, half away from zero, with its care for overflow.\<close>

definition round_second :: "Duration \<Rightarrow> Duration" where
  "round_second d =
     (let r = \<bar>d\<bar> mod second
      in if d < 0 then (if 2 * r < second then d + r else if - (2 ^ 63) \<le> d - second + r then d - second + r else - (2 ^ 63))
         else (if 2 * r < second then d - r else if d + second - r < 2 ^ 63 then d + second - r else 2 ^ 63 - 1))"

text \<open>\<^verbatim>\<open>Duration.String\<close> of zero or of a second at least: hours, minutes and seconds with a fraction.\<close>

definition fraction_text :: "int \<Rightarrow> string" where
  "fraction_text ns = (if ns = 0 then [] else ''.'' @ rev (dropWhile (\<lambda>c. c = CHR ''0'') (rev (pad0 9 (nat ns)))))"

definition duration_string :: "Duration \<Rightarrow> string" where
  "duration_string d =
     (let u = \<bar>d\<bar>; s = u div second; m = s div 60; h = m div 60
      in if d = 0 then ''0s''
         else (if d < 0 then ''-'' else []) @ (if h > 0 then itoa h @ ''h'' else []) @
              (if m > 0 then itoa (m mod 60) @ ''m'' else []) @ itoa (s mod 60) @ fraction_text (u mod second) @ ''s'')"

definition humanDuration :: "Duration \<Rightarrow> string" where
  "humanDuration d = duration_string (round_second d)"

lemma human_duration_examples:
  "humanDuration 0 = ''0s''" "humanDuration (3661 * second + 499999999) = ''1h1m1s''" "humanDuration (59 * second + 500000000) = ''1m0s''"
  by (simp_all add: humanDuration_def round_second_def duration_string_def fraction_text_def second_def itoa_def dec.simps digit_char_def char_of_def bit_iff_odd Let_def)

section \<open>What a run tells\<close>

datatype Kind = KindSuccess | KindFailure

record Notification =
  no_kind :: Kind
  no_title :: string
  no_body :: string

record Preferences =
  pf_NotifySuccess :: bool
  pf_NotifyFailure :: bool

definition recoverySentence :: "RecoveryOutcome \<Rightarrow> string" where
  "recoverySentence outcome =
     (case outcome of
        RecoverySuccess \<Rightarrow> '' The recovery action succeeded.''
      | RecoveryFailed \<Rightarrow> '' The recovery action did not succeed; the remote service may still be down.''
      | _ \<Rightarrow> [])"

text \<open>A panic of \<^verbatim>\<open>humanSize\<close> would show; it does not happen for a size of 64 bits.\<close>

definition archived_in :: "Run \<Rightarrow> string" where
  "archived_in run = (case humanSize (Run_ArchiveSize run) of Some t \<Rightarrow> t | None \<Rightarrow> []) @ '' archived in '' @ humanDuration (Run_Duration run)"

definition buildNotification :: "Run \<Rightarrow> string \<Rightarrow> Notification option" where
  "buildNotification run jobName =
     (if \<not> IsTerminal (Run_Status run) \<or> Run_Status run = RunSkipped then None
      else (case Run_Status run of
              RunSuccess \<Rightarrow> Some \<lparr>no_kind = KindSuccess, no_title = ''Backup succeeded: '' @ jobName, no_body = archived_in run\<rparr>
            | RunWarning \<Rightarrow> Some \<lparr>no_kind = KindSuccess, no_title = ''Backup completed with a warning: '' @ jobName,
                no_body = archived_in run @ ''. '' @ Run_ErrorMessage run\<rparr>
            | RunFailed \<Rightarrow> Some \<lparr>no_kind = KindFailure, no_title = ''Backup failed: '' @ jobName,
                no_body = ErrorCode_str (Run_ErrorCode run) @ '': '' @ Run_ErrorMessage run @ recoverySentence (Run_RecoveryOutcome run)\<rparr>
            | RunCancelled \<Rightarrow> Some \<lparr>no_kind = KindFailure, no_title = ''Backup cancelled: '' @ jobName,
                no_body = ''The run was cancelled.'' @ recoverySentence (Run_RecoveryOutcome run)\<rparr>
            | RunInterrupted \<Rightarrow> Some \<lparr>no_kind = KindFailure, no_title = ''Backup interrupted: '' @ jobName,
                no_body = ''The service stopped unexpectedly while this run was in progress.''\<rparr>
            | _ \<Rightarrow> None))"

text \<open>What is handed to the notifier; its error is only logged.\<close>

definition NotifyRunFinished :: "(string \<Rightarrow> string) \<Rightarrow> Run \<Rightarrow> string \<Rightarrow> Preferences \<Rightarrow> Notification option" where
  "NotifyRunFinished redact run jobName prefs =
     (case buildNotification run jobName of
        None \<Rightarrow> None
      | Some n \<Rightarrow>
          if no_kind n = KindSuccess \<and> \<not> pf_NotifySuccess prefs then None
          else if no_kind n = KindFailure \<and> \<not> pf_NotifyFailure prefs then None
          else Some (n\<lparr>no_title := redact (no_title n), no_body := redact (no_body n)\<rparr>))"

text \<open>A run is announced exactly when its outcome and the preferences ask for it. A successful run or
  one with a warning is announced when success notifications are on, a failed, cancelled or
  interrupted run when failure notifications are on, and a skipped or unfinished one never;
  what is shown has passed the redactor, title and body.\<close>

theorem notification_policy:
  "(NotifyRunFinished redact run jobName prefs \<noteq> None) =
     (Run_Status run \<in> {RunSuccess, RunWarning} \<and> pf_NotifySuccess prefs \<or>
      Run_Status run \<in> {RunFailed, RunCancelled, RunInterrupted} \<and> pf_NotifyFailure prefs) \<and>
   pred_option (\<lambda>n. no_title n \<in> range redact \<and> no_body n \<in> range redact) (NotifyRunFinished redact run jobName prefs)"
  by (cases "Run_Status run") (auto simp: NotifyRunFinished_def buildNotification_def)

section \<open>The toast script\<close>

definition xmlEscape :: "string \<Rightarrow> string" where
  "xmlEscape s = concat (map (\<lambda>c.
     if c = CHR ''&'' then ''&amp;''
     else if c = CHR ''<'' then ''&lt;''
     else if c = CHR ''>'' then ''&gt;''
     else if c = CHR 0x22 then ''&quot;''
     else if c = CHR 0x27 then ''&apos;''
     else [c]) s)"

definition powershellQuote :: "string \<Rightarrow> string" where
  "powershellQuote s = [CHR 0x27] @ concat (map (\<lambda>c. if c = CHR 0x27 then [CHR 0x27, CHR 0x27] else [c]) s) @ [CHR 0x27]"

definition DefaultAppID :: string where
  "DefaultAppID = ''VPSBackupManager''"

definition newline :: string where
  "newline = [CHR 0x0A]"

text \<open>The line breaks and double quotes of the script; \<open>here_open\<close> and \<open>here_close\<close> delimit its here-string.\<close>

definition here_open :: string where "here_open = ''$template = @'' @ [CHR 0x22] @ newline"
definition here_close :: string where "here_close = newline @ [CHR 0x22] @ ''@;'' @ newline"

definition toast_open :: "string \<Rightarrow> string" where
  "toast_open title =
     ''<toast><visual><binding template='' @ [CHR 0x22] @ ''ToastGeneric'' @ [CHR 0x22] @ ''><text>'' @ xmlEscape title @ ''</text><text>''"

definition toast_close :: string where
  "toast_close = ''</text></binding></visual></toast>''"

definition script_head :: string where
  "script_head =
     ''[Windows.UI.Notifications.ToastNotificationManager, Windows.UI.Notifications, ContentType=WindowsRuntime] | Out-Null;'' @ newline @
     ''[Windows.Data.Xml.Dom.XmlDocument, Windows.Data.Xml.Dom.XmlDocument, ContentType=WindowsRuntime] | Out-Null;'' @ newline"

definition script_tail :: "string \<Rightarrow> string" where
  "script_tail appID =
     ''$xml = New-Object Windows.Data.Xml.Dom.XmlDocument;'' @ newline @
     ''$xml.LoadXml($template);'' @ newline @
     ''$toast = New-Object Windows.UI.Notifications.ToastNotification $xml;'' @ newline @
     ''[Windows.UI.Notifications.ToastNotificationManager]::CreateToastNotifier('' @ powershellQuote appID @ '').Show($toast);'' @ newline"

definition buildToastScript :: "string \<Rightarrow> string \<Rightarrow> string \<Rightarrow> string" where
  "buildToastScript appID title body =
     script_head @ here_open @ toast_open title @ xmlEscape body @ toast_close @ here_close @ script_tail appID"

subsection \<open>How the script is read\<close>

text \<open>The text before and after the first occurrence of a pattern.\<close>

fun text_before :: "string \<Rightarrow> string \<Rightarrow> string option" where
  "text_before pat [] = (if pat = [] then Some [] else None)"
| "text_before pat (c # s) = (if has_prefix (c # s) pat then Some [] else map_option ((#) c) (text_before pat s))"

fun text_after :: "string \<Rightarrow> string \<Rightarrow> string option" where
  "text_after pat [] = (if pat = [] then Some [] else None)"
| "text_after pat (c # s) = (if has_prefix (c # s) pat then Some (drop (length pat) (c # s)) else text_after pat s)"

text \<open>
  The expandable here-string of PowerShell: it begins after an at sign, a quotation mark and a line
  break, and ends before a line that begins with a quotation mark and an at sign. (PowerShell also
  takes typographic quotation marks for one; the reading here is that of the ASCII mark.)
\<close>

definition here_end :: string where
  "here_end = newline @ [CHR 0x22, CHR 0x40]"

definition here_string :: "string \<Rightarrow> string option" where
  "here_string script =
     Option.bind (text_after (CHR 0x40 # CHR 0x22 # newline) script) (text_before here_end)"

text \<open>
  The commands that PowerShell runs when it expands a string, by its quoting rules: a dollar sign and
  a parenthesis begin one, which goes up to the closing parenthesis; a backtick takes the meaning
  from the character after it.
\<close>

fun subexpressions :: "string \<Rightarrow> string list" where
  "subexpressions [] = []"
| "subexpressions (c # s) =
     (if c = CHR 0x60 then (case s of [] \<Rightarrow> [] | x # r \<Rightarrow> subexpressions r)
      else if c = CHR ''$'' \<and> has_prefix s ''('' \<and> CHR '')'' \<in> set s
      then takeWhile (\<lambda>x. x \<noteq> CHR '')'') (drop 1 s) # subexpressions s
      else subexpressions s)"

text \<open>The five entities of XML, and the contents of its \<^verbatim>\<open>text\<close> elements, up to the next tag.\<close>

fun xml_text :: "string \<Rightarrow> string" where
  "xml_text [] = []"
| "xml_text (c # s) =
     (if has_prefix (c # s) ''&amp;'' then CHR ''&'' # xml_text (drop 4 s)
      else if has_prefix (c # s) ''&lt;'' then CHR ''<'' # xml_text (drop 3 s)
      else if has_prefix (c # s) ''&gt;'' then CHR ''>'' # xml_text (drop 3 s)
      else if has_prefix (c # s) ''&quot;'' then CHR 0x22 # xml_text (drop 5 s)
      else if has_prefix (c # s) ''&apos;'' then CHR 0x27 # xml_text (drop 5 s)
      else c # xml_text s)"

fun text_elements :: "string \<Rightarrow> string list" where
  "text_elements [] = []"
| "text_elements (c # s) =
     (if has_prefix (c # s) ''<text>'' then [takeWhile (\<lambda>x. x \<noteq> CHR ''<'') (drop 5 s)] else []) @ text_elements s"

definition shown_texts :: "string \<Rightarrow> string list" where
  "shown_texts xml = map xml_text (text_elements xml)"

subsection \<open>What the escaping achieves\<close>

lemma xmlEscape_append [simp]: "xmlEscape (s @ t) = xmlEscape s @ xmlEscape t"
  by (simp add: xmlEscape_def)

lemma xml_text_escape: "xml_text (xmlEscape s) = s"
  by (induction s) (auto simp: xmlEscape_def has_prefix_def)

lemma escape_special: "set (xmlEscape s) \<inter> {CHR ''<'', CHR ''>'', CHR 0x22, CHR 0x27} = {}"
  by (induction s) (auto simp: xmlEscape_def)

lemma escape_backtick: "CHR 0x60 \<notin> set s \<Longrightarrow> CHR 0x60 \<notin> set (xmlEscape s)"
  by (auto simp: xmlEscape_def split: if_splits)

lemma escape_plain: "set s \<inter> {CHR ''&'', CHR ''<'', CHR ''>'', CHR 0x22, CHR 0x27} = {} \<Longrightarrow> xmlEscape s = s"
  by (induction s) (auto simp: xmlEscape_def)

lemma text_after_found: "p \<notin> set x \<Longrightarrow> text_after (p # q) (x @ p # q @ y) = Some y"
  by (induction x) (auto simp: has_prefix_def)

lemma text_before_found: "text_before (p # q) ((p # q) @ y) = Some []"
  by (simp add: has_prefix_def)

lemma map_option_append:
  "map_option ((@) []) r = r" "map_option ((#) c) (map_option ((@) x) r) = map_option ((@) (c # x)) r"
  by (cases r; simp)+

lemma here_goes_on:
  "c \<noteq> CHR 0x0A \<Longrightarrow> \<not> has_prefix (c # s) here_end"
  "take 1 s \<noteq> [CHR 0x22] \<Longrightarrow> \<not> has_prefix (c # s) here_end"
  by (cases s; simp add: has_prefix_def here_end_def newline_def)+

text \<open>A text without line breaks, or one without quotation marks before none, does not end the here-string.\<close>

lemma text_before_skip:
  "CHR 0x0A \<notin> set x \<Longrightarrow> text_before here_end (x @ y) = map_option ((@) x) (text_before here_end y)"
  "CHR 0x22 \<notin> set x \<Longrightarrow> take 1 y \<noteq> [CHR 0x22] \<Longrightarrow> text_before here_end (x @ y) = map_option ((@) x) (text_before here_end y)"
proof -
  show "CHR 0x0A \<notin> set x \<Longrightarrow> text_before here_end (x @ y) = map_option ((@) x) (text_before here_end y)"
    by (induction x) (auto simp: map_option_append here_goes_on(1))
next
  assume "CHR 0x22 \<notin> set x" "take 1 y \<noteq> [CHR 0x22]"
  then show "text_before here_end (x @ y) = map_option ((@) x) (text_before here_end y)"
  proof (induction x)
    case (Cons c x)
    have "take 1 (x @ y) \<noteq> [CHR 0x22]" using Cons.prems by (cases x) auto
    with Cons show ?case by (cases "text_before here_end y") (simp_all add: here_goes_on(2))
  qed (simp add: map_option_append)
qed

definition toast_xml :: "string \<Rightarrow> string \<Rightarrow> string" where
  "toast_xml title body = toast_open title @ xmlEscape body @ toast_close"

lemma toast_xml_parts:
  "toast_xml title body = (''<toast><visual><binding template='' @ [CHR 0x22] @ ''ToastGeneric'' @ [CHR 0x22] @ ''><text'') @
     CHR ''>'' # xmlEscape title @ ''</text><text>'' @ xmlEscape body @ toast_close"
  "toast_xml title body = (''<toast><visual><binding template='' @ [CHR 0x22] @ ''ToastGeneric'' @ [CHR 0x22] @ ''><text>'' @
     xmlEscape title @ ''</text><text'') @ CHR ''>'' # xmlEscape body @ toast_close"
  by (simp_all add: toast_xml_def toast_open_def)

lemma here_string_script: "here_string (buildToastScript appID title body) = Some (toast_xml title body)"
proof -
  have start: "CHR 0x40 \<notin> set (script_head @ ''$template = '')" by (simp add: script_head_def newline_def)
  let ?rest = "toast_xml title body @ newline @ [CHR 0x22] @ ''@;'' @ newline @ script_tail appID"
  have "buildToastScript appID title body = (script_head @ ''$template = '') @ CHR 0x40 # (CHR 0x22 # newline) @ ?rest"
    by (simp add: buildToastScript_def here_open_def here_close_def toast_xml_def)
  then have after: "text_after (CHR 0x40 # CHR 0x22 # newline) (buildToastScript appID title body) = Some ?rest"
    by (simp only: text_after_found [OF start])
  have no_quote: "CHR 0x22 \<notin> set (xmlEscape s)" for s using escape_special [of s] by auto
  let ?a = "''<toast><visual><binding template='' @ [CHR 0x22] @ ''ToastGeneric'' @ [CHR 0x22] @ ''><text>''"
  let ?b = "''</text><text>''"
  have xml: "toast_xml title body = ?a @ xmlEscape title @ ?b @ xmlEscape body @ toast_close"
    by (simp add: toast_xml_def toast_open_def)
  let ?z = "newline @ [CHR 0x22] @ ''@;'' @ newline @ script_tail appID"
  have lines: "CHR 0x0A \<notin> set ?a" "CHR 0x0A \<notin> set ?b" "CHR 0x0A \<notin> set toast_close" by (simp_all add: toast_close_def)
  have starts: "take 1 (?b @ y) \<noteq> [CHR 0x22]" "take 1 (toast_close @ y) \<noteq> [CHR 0x22]" for y by (simp_all add: toast_close_def)
  have "text_before here_end ?z = Some []" by (simp add: newline_def here_end_def has_prefix_def)
  then have "text_before here_end (toast_close @ ?z) = Some (toast_close @ [])"
    by (simp only: text_before_skip(1) [OF lines(3)] option.map)
  then have "text_before here_end (xmlEscape body @ toast_close @ ?z) = Some (xmlEscape body @ toast_close @ [])"
    by (simp only: text_before_skip(2) [OF no_quote starts(2)] option.map)
  then have "text_before here_end (?b @ xmlEscape body @ toast_close @ ?z) = Some (?b @ xmlEscape body @ toast_close @ [])"
    by (simp only: text_before_skip(1) [OF lines(2)] option.map)
  then have "text_before here_end (xmlEscape title @ ?b @ xmlEscape body @ toast_close @ ?z) = Some (xmlEscape title @ ?b @ xmlEscape body @ toast_close @ [])"
    by (simp only: text_before_skip(2) [OF no_quote starts(1)] option.map)
  then have "text_before here_end (?a @ xmlEscape title @ ?b @ xmlEscape body @ toast_close @ ?z) =
      Some (?a @ xmlEscape title @ ?b @ xmlEscape body @ toast_close @ [])"
    by (simp only: text_before_skip(1) [OF lines(1)] option.map)
  then have "text_before here_end ?rest = Some (toast_xml title body)"
    by (simp only: xml append_assoc append_Nil2)
  with after show ?thesis by (simp add: here_string_def)
qed

lemma text_elements_skip: "CHR ''<'' \<notin> set x \<Longrightarrow> text_elements (x @ y) = text_elements y"
  by (induction x) (auto simp: has_prefix_def)

lemma takeWhile_tag: "CHR ''<'' \<notin> set x \<Longrightarrow> takeWhile (\<lambda>c. c \<noteq> CHR ''<'') (x @ CHR ''<'' # y) = x"
  by (induction x) auto

lemma shown_in_toast: "shown_texts (toast_xml title body) = [title, body]"
proof -
  have no_tag: "CHR ''<'' \<notin> set (xmlEscape s)" for s using escape_special [of s] by auto
  show ?thesis
    by (simp add: shown_texts_def toast_xml_def toast_open_def toast_close_def has_prefix_def text_elements_skip no_tag takeWhile_tag xml_text_escape)
qed

text \<open>Scanning goes on behind any text and one more character, unless that is a backtick.\<close>

lemma subexpressions_behind:
  "a \<noteq> CHR 0x60 \<Longrightarrow> set (subexpressions y) \<subseteq> set (subexpressions (x @ a # y))"
proof (induction x rule: length_induct)
  case (1 x)
  show ?case
  proof (cases x)
    case Nil
    with 1(2) show ?thesis by auto
  next
    case (Cons c r)
    have IH: "set (subexpressions y) \<subseteq> set (subexpressions (r @ a # y))" using 1 Cons by simp
    show ?thesis
    proof (cases "c = CHR 0x60")
      case True
      show ?thesis
      proof (cases r)
        case (Cons d r')
        then have "set (subexpressions y) \<subseteq> set (subexpressions (r' @ a # y))" using 1 \<open>x = c # r\<close> by simp
        with True Cons \<open>x = c # r\<close> show ?thesis by simp
      qed (use True Cons in simp)
    next
      case False
      with IH Cons show ?thesis by auto
    qed
  qed
qed

lemma subexpressions_plain: "CHR 0x60 \<notin> set x \<Longrightarrow> set (subexpressions y) \<subseteq> set (subexpressions (x @ y))"
  by (induction x) auto

lemma subexpression_found:
  assumes "CHR 0x60 \<notin> set x" and "CHR '')'' \<notin> set cmd"
  shows "cmd \<in> set (subexpressions (x @ ''$('' @ cmd @ '')'' @ y))"
proof -
  have "takeWhile (\<lambda>c. c \<noteq> CHR '')'') (cmd @ CHR '')'' # y) = cmd" using assms(2) by (induction cmd) auto
  then have "cmd \<in> set (subexpressions (''$('' @ cmd @ '')'' @ y))" by (simp add: has_prefix_def)
  with subexpressions_plain [OF assms(1)] show ?thesis by blast
qed



end
