(* ===== verification/Data_Dir.thy ===== *)
theory Data_Dir
  imports Engine_State
begin

text \<open>
  Where the service keeps its files (\<^verbatim>\<open>internal/config/datadir.go\<close>) and its logs
  (\<^verbatim>\<open>internal/applog/applog.go\<close>). The environment variables, the creation of a directory and the
  opening of a file for appending are the operations of a file system record; each may fail.
\<close>

record FileSys =
  fs_getenv :: "string \<Rightarrow> string"
  fs_mkdir :: "string \<Rightarrow> err option"
  fs_append :: "string \<Rightarrow> err option"

definition make_dir :: "FileSys \<Rightarrow> string \<Rightarrow> string \<Rightarrow> err + string" where
  "make_dir fs what dir =
     (case fs_mkdir fs dir of
        Some e \<Rightarrow> Inl (Wrapped (''create '' @ what @ '' directory '' @ go_quote dir) e)
      | None \<Rightarrow> Inr dir)"

section \<open>The data directory\<close>

definition AppDirName :: string where
  "AppDirName = ''VPSBackupManager''"

definition EnsureDataDir :: "FileSys \<Rightarrow> string \<Rightarrow> err + string" where
  "EnsureDataDir fs root = make_dir fs ''data'' (path_join root AppDirName)"

definition DataDir :: "FileSys \<Rightarrow> err + string" where
  "DataDir fs =
     (let programData = fs_getenv fs ''ProgramData''
      in if programData = [] then Inl (ErrorText ''resolve data directory: %ProgramData% is not set'')
         else EnsureDataDir fs programData)"

definition DatabasePath :: "string \<Rightarrow> string" where
  "DatabasePath dataDir = path_join dataDir ''backup.db''"

definition SecretsDir :: "FileSys \<Rightarrow> string \<Rightarrow> err + string" where
  "SecretsDir fs dataDir = make_dir fs ''secrets'' (path_join dataDir ''secrets'')"

definition LogsDir :: "FileSys \<Rightarrow> string \<Rightarrow> err + string" where
  "LogsDir fs dataDir = make_dir fs ''logs'' (path_join dataDir ''logs'')"

section \<open>The logs\<close>

text \<open>\<^verbatim>\<open>NewAppLogger\<close> gives the file that the rotating logger writes to; it is opened by the first record.\<close>

definition NewAppLogger :: "FileSys \<Rightarrow> string \<Rightarrow> err + string" where
  "NewAppLogger fs dataDir =
     (case make_dir fs ''logs'' (path_join dataDir ''logs'') of
        Inl e \<Rightarrow> Inl e
      | Inr logsDir \<Rightarrow> Inr (path_join logsDir ''service.log''))"

definition runsSubdir :: string where
  "runsSubdir = ''runs''"

definition RunLogPath :: "string \<Rightarrow> string \<Rightarrow> string" where
  "RunLogPath dataDir runID = path_join (path_join (path_join dataDir ''logs'') runsSubdir) (runID @ ''.log'')"

definition OpenRunLog :: "FileSys \<Rightarrow> string \<Rightarrow> string \<Rightarrow> err + string" where
  "OpenRunLog fs dataDir runID =
     (case make_dir fs ''run logs'' (path_join (path_join dataDir ''logs'') runsSubdir) of
        Inl e \<Rightarrow> Inl e
      | Inr dir \<Rightarrow>
          (let path = RunLogPath dataDir runID
           in case fs_append fs path of
                Some e \<Rightarrow> Inl (Wrapped (''open run log '' @ go_quote path) e)
              | None \<Rightarrow> Inr path))"

section \<open>Every file has its place\<close>

lemma path_join_inj: "path_join d x = path_join d y \<longleftrightarrow> x = y"
  by (simp add: path_join_def)

lemma run_log_paths_differ: "RunLogPath d i = RunLogPath d j \<longleftrightarrow> i = j"
  by (simp add: RunLogPath_def path_join_inj)

lemma open_run_log_path: "OpenRunLog fs d i = Inr p \<Longrightarrow> p = RunLogPath d i"
  by (auto simp: OpenRunLog_def Let_def split: sum.splits option.splits)

lemma data_dir_set: "DataDir fs = Inr d \<Longrightarrow> d \<noteq> [] \<and> fs_mkdir fs d = None"
  by (auto simp: DataDir_def EnsureDataDir_def make_dir_def path_join_def AppDirName_def Let_def split: if_splits option.splits)

end
