(* ===== verification/Service.thy ===== *)
theory Service
  imports Ipc_Witnesses Notify Data_Dir
begin

text \<open>
  The composition root \<^verbatim>\<open>cmd/vpsbackupservice\<close>: the event sinks of the engine and their fan-out
  (\<^verbatim>\<open>eventsinks.go\<close>), the runner and the history that the scheduler works with
  (\<^verbatim>\<open>scheduler_adapter.go\<close>) and the order of the shutdown (\<^verbatim>\<open>wire.go\<close>).
\<close>

section \<open>The sinks\<close>

datatype SinkEvent = SinkStarted Run | SinkStep string RunStep | SinkFinished Run

text \<open>
  The state behind the sinks: the back end, the count of the wait group, the open log files with
  their lines, the closed ones, and the notifications that were handed over.
\<close>

record App =
  ap_backend :: Backend
  ap_wg :: int
  ap_open :: "string \<rightharpoonup> string list"
  ap_closed :: "(string \<times> string list) list"
  ap_lines :: nat
  ap_shown :: "Notification list"

record AppEnv =
  av_backend :: BackendEnv
  av_fs :: FileSys
  av_dataDir :: string
  av_write_log :: "nat \<Rightarrow> err option"
  av_clock :: "nat \<Rightarrow> Time"
  av_duration_text :: "Duration \<Rightarrow> string"
  av_redact :: "string \<Rightarrow> string"

type_synonym Sink = "AppEnv \<Rightarrow> SinkEvent \<Rightarrow> (App, unit) state"

definition on_backend :: "(Backend, 'a) state \<Rightarrow> (App, 'a) state" where
  "on_backend m = State (\<lambda>a. case run_state m (ap_backend a) of (r, b) \<Rightarrow> (r, a\<lparr>ap_backend := b\<rparr>))"

definition ipcEventSink :: Sink where
  "ipcEventSink env ev = on_backend
     (case ev of
        SinkStarted run \<Rightarrow> RunStarted (av_backend env) run
      | SinkStep runID st \<Rightarrow> StepChanged (av_backend env) runID st
      | SinkFinished run \<Rightarrow> RunFinished (av_backend env) run)"

definition waitGroupEventSink :: Sink where
  "waitGroupEventSink env ev =
     (case ev of
        SinkStarted run \<Rightarrow> modify (\<lambda>a. a\<lparr>ap_wg := ap_wg a + 1\<rparr>)
      | SinkStep runID st \<Rightarrow> ret ()
      | SinkFinished run \<Rightarrow> modify (\<lambda>a. a\<lparr>ap_wg := ap_wg a - 1\<rparr>))"

definition writeLine :: "AppEnv \<Rightarrow> string \<Rightarrow> string \<Rightarrow> (App, unit) state" where
  "writeLine env runID line = modify (\<lambda>a.
     case ap_open a runID of
       None \<Rightarrow> a
     | Some ls \<Rightarrow>
         (case av_write_log env (ap_lines a) of
            Some e \<Rightarrow> a\<lparr>ap_lines := Suc (ap_lines a)\<rparr>
          | None \<Rightarrow> a\<lparr>ap_lines := Suc (ap_lines a),
              ap_open := (ap_open a)(runID \<mapsto> ls @ [rfc3339 (to_utc (av_clock env (ap_lines a))) @ '' '' @ line])\<rparr>))"

definition close_log :: "string \<Rightarrow> (App, unit) state" where
  "close_log runID = modify (\<lambda>a.
     case ap_open a runID of
       None \<Rightarrow> a
     | Some ls \<Rightarrow> a\<lparr>ap_open := (ap_open a)(runID := None), ap_closed := (runID, ls) # ap_closed a\<rparr>)"

definition runLogEventSink :: Sink where
  "runLogEventSink env ev =
     (case ev of
        SinkStarted run \<Rightarrow>
          (case OpenRunLog (av_fs env) (av_dataDir env) (Run_ID run) of
             Inl e \<Rightarrow> ret ()
           | Inr path \<Rightarrow> do {
               modify (\<lambda>a. a\<lparr>ap_open := (ap_open a)(Run_ID run \<mapsto> [])\<rparr>);
               writeLine env (Run_ID run) (''run started: job_id='' @ Run_JobID run @ '' trigger='' @ Trigger_str (Run_Trigger run))
             })
      | SinkStep runID st \<Rightarrow> do {
          writeLine env runID (''step '' @ StepType_str (Step_Type st) @ '': status='' @ StepStatus_str (Step_Status st) @
            '' duration='' @ av_duration_text env (Step_Duration st));
          when_do (Step_Error st \<noteq> []) (writeLine env runID (''  error: '' @ Step_Error st))
        }
      | SinkFinished run \<Rightarrow> do {
          writeLine env (Run_ID run) (''run finished: status='' @ RunStatus_str (Run_Status run) @ '' recovery='' @
            RecoveryOutcome_str (Run_RecoveryOutcome run));
          close_log (Run_ID run)
        })"

text \<open>Jobs and settings are read from the database when a run ends.\<close>

definition notifyEventSink :: Sink where
  "notifyEventSink env ev =
     (case ev of
        SinkFinished run \<Rightarrow> do {
          job \<leftarrow> on_backend (on_store (GetJob (bk_parser (av_backend env)) (Run_JobID run)));
          settings \<leftarrow> on_backend (on_store GetSettings);
          case settings of
            Inl e \<Rightarrow> ret ()
          | Inr s \<Rightarrow>
              (case NotifyRunFinished (av_redact env) run (case job of Inl e \<Rightarrow> Run_JobID run | Inr j \<Rightarrow> Job_Name j)
                      \<lparr>pf_NotifySuccess = NotifySuccess s, pf_NotifyFailure = NotifyFailure s\<rparr> of
                 None \<Rightarrow> ret ()
               | Some n \<Rightarrow> modify (\<lambda>a. a\<lparr>ap_shown := n # ap_shown a\<rparr>))
        }
      | _ \<Rightarrow> ret ())"

definition compositeEventSink :: "Sink list \<Rightarrow> Sink" where
  "compositeEventSink sinks env ev = for_each (\<lambda>sink. sink env ev) sinks"

text \<open>The sinks of \<^verbatim>\<open>buildApp\<close>, in its order.\<close>

definition service_sinks :: "Sink list" where
  "service_sinks = [ipcEventSink, runLogEventSink, waitGroupEventSink, notifyEventSink]"

text \<open>What the engine reports of one run, oldest first.\<close>

definition reported :: "string \<Rightarrow> Event \<Rightarrow> SinkEvent list" where
  "reported runID ev =
     (case ev of
        EvRunStarted run \<Rightarrow> [SinkStarted run]
      | EvStepChanged st \<Rightarrow> [SinkStep runID st]
      | EvRunFinished run \<Rightarrow> [SinkFinished run]
      | _ \<Rightarrow> [])"

definition reports :: "Rc \<Rightarrow> SinkEvent list" where
  "reports rc = concat (map (reported (Run_ID (rc_run rc))) (rev (rc_trace rc)))"

definition report_run :: "AppEnv \<Rightarrow> Env \<Rightarrow> (string \<rightharpoonup> string) \<Rightarrow> (App, unit) state" where
  "report_run env e files =
     for_each (compositeEventSink service_sinks env) (reports (snd (run_state (Engine_Run e) (rc_start files))))"

section \<open>The scheduler's view\<close>

text \<open>
  \<^verbatim>\<open>schedulerRunner.Run\<close>: credentials, then the whole run. \<open>report\<close> says which of its events have
  reached the IPC sink: all of them when the call returns, the first \<open>k\<close> at a moment before.
\<close>

definition schedulerRunner_params :: "BackendEnv \<Rightarrow> Server \<Rightarrow> ConnectParams Act" where
  "schedulerRunner_params env server =
     try_do (ResolveCredentials env server) (\<lambda>(keyPEM, secret).
       let params = \<lparr>kp_Server = server, kp_PrivateKeyPEM = keyPEM, kp_Passphrase = secret, kp_Password = []\<rparr>
       in ret (Inr (if Server_AuthType server = AuthPassword
                    then \<lparr>kp_Server = server, kp_PrivateKeyPEM = [], kp_Passphrase = [], kp_Password = secret\<rparr> else params)))"

definition schedulerRunner_body :: "(string \<Rightarrow> Trace \<Rightarrow> (Backend, unit) state) \<Rightarrow> BackendEnv \<Rightarrow> Job \<Rightarrow> Server \<Rightarrow> Trigger \<Rightarrow> Run Act" where
  "schedulerRunner_body report env job server trig =
     try_do (schedulerRunner_params env server) (\<lambda>params. do {
       n \<leftarrow> gets bs_calls;
       modify (\<lambda>s. s\<lparr>bs_calls := Suc n\<rparr>);
       let (r, rc) = run_state (Engine_Run (call_env env n job server params (Job_LocalDestination job) trig)) (rc_start (bk_local env n));
       report (Run_ID (rc_run rc)) (rc_trace rc);
       ret r
     })"

definition schedulerRunner_Run :: "BackendEnv \<Rightarrow> Job \<Rightarrow> Server \<Rightarrow> Trigger \<Rightarrow> Run Act" where
  "schedulerRunner_Run env = schedulerRunner_body (sink_trace env) env"

definition schedulerRunner_until :: "nat \<Rightarrow> BackendEnv \<Rightarrow> Job \<Rightarrow> Server \<Rightarrow> Trigger \<Rightarrow> Run Act" where
  "schedulerRunner_until k env = schedulerRunner_body (\<lambda>runID tr. sink_trace env runID (drop (length tr - k) tr)) env"

definition LastRun :: "TimeParser \<Rightarrow> string \<Rightarrow> Run option Sql" where
  "LastRun general jobID =
     try_do (ListRuns general \<lparr>rf_job_id = jobID, rf_status = RunStatus_of [], rf_limit = 1\<rparr>)
       (\<lambda>xs. ret (Inr (case xs of [] \<Rightarrow> None | run # _ \<Rightarrow> Some run)))"

section \<open>Shutdown\<close>

datatype ShutdownStep = StopDispatcher | ClosePipe | CancelLifecycle | CancelActive | RunsFinished | BudgetExceeded | CloseDatabase | CloseLog

text \<open>\<open>in_time\<close>: the wait group reached zero before the budget was over.\<close>

definition Shutdown :: "bool \<Rightarrow> App \<Rightarrow> ShutdownStep list \<times> App" where
  "Shutdown in_time a =
     ([StopDispatcher, ClosePipe, CancelLifecycle, CancelActive] @ [if in_time then RunsFinished else BudgetExceeded] @ [CloseDatabase, CloseLog],
      a\<lparr>ap_backend := (ap_backend a)\<lparr>bs_registry := CancelAll (bs_registry (ap_backend a))\<rparr>\<rparr>)"

section \<open>A run settles\<close>

lemma run_on_backend [run_simps]:
  "run_state (on_backend m) a = (fst (run_state m (ap_backend a)), a\<lparr>ap_backend := snd (run_state m (ap_backend a))\<rparr>)"
  by (simp add: on_backend_def case_prod_unfold)

text \<open>The effect of one event on the count, the open files and the registry.\<close>

definition wg_effect :: "SinkEvent \<Rightarrow> int" where
  "wg_effect ev = (case ev of SinkStarted run \<Rightarrow> 1 | SinkStep i st \<Rightarrow> 0 | SinkFinished run \<Rightarrow> -1)"

definition about :: "SinkEvent \<Rightarrow> string" where
  "about ev = (case ev of SinkStarted run \<Rightarrow> Run_ID run | SinkStep i st \<Rightarrow> i | SinkFinished run \<Rightarrow> Run_ID run)"

lemma write_line_effect:
  "ap_wg (snd (run_state (writeLine env i line) a)) = ap_wg a"
  "ap_backend (snd (run_state (writeLine env i line) a)) = ap_backend a"
  "j \<noteq> i \<Longrightarrow> ap_open (snd (run_state (writeLine env i line) a)) j = ap_open a j"
  by (auto simp: writeLine_def split: option.split)

lemma close_log_effect:
  "ap_wg (snd (run_state (close_log i) a)) = ap_wg a" "ap_backend (snd (run_state (close_log i) a)) = ap_backend a"
  "ap_open (snd (run_state (close_log i) a)) = (ap_open a)(i := None)"
  by (auto simp: close_log_def split: option.split)

lemma notify_effect:
  "ap_wg (snd (run_state (notifyEventSink env ev) a)) = ap_wg a"
  "ap_open (snd (run_state (notifyEventSink env ev) a)) = ap_open a"
  "bs_registry (ap_backend (snd (run_state (notifyEventSink env ev) a))) = bs_registry (ap_backend a)"
  by (auto simp: notifyEventSink_def run_on_backend run_on_store case_prod_unfold split: SinkEvent.split sum.split option.split)

lemma runlog_effect:
  "ap_wg (snd (run_state (runLogEventSink env ev) a)) = ap_wg a"
  "ap_backend (snd (run_state (runLogEventSink env ev) a)) = ap_backend a"
  "j \<noteq> about ev \<Longrightarrow> ap_open (snd (run_state (runLogEventSink env ev) a)) j = ap_open a j"
  "ap_open (snd (run_state (runLogEventSink env (SinkFinished run)) a)) (Run_ID run) = None"
  by (auto simp: runLogEventSink_def about_def write_line_effect close_log_effect case_prod_unfold split: SinkEvent.split option.split sum.split)

lemma ipc_effect:
  "ap_wg (snd (run_state (ipcEventSink env ev) a)) = ap_wg a"
  "ap_open (snd (run_state (ipcEventSink env ev) a)) = ap_open a"
  "bs_registry (ap_backend (snd (run_state (ipcEventSink env ev) a))) =
     (case ev of SinkFinished run \<Rightarrow> UnregisterRun (Run_ID run) (bs_registry (ap_backend a)) | _ \<Rightarrow> bs_registry (ap_backend a))"
  by (auto simp: ipcEventSink_def run_on_backend RunStarted_def StepChanged_def RunFinished_def run_publish split: SinkEvent.split)

lemma wait_group_effect:
  "ap_wg (snd (run_state (waitGroupEventSink env ev) a)) = ap_wg a + wg_effect ev"
  "ap_open (snd (run_state (waitGroupEventSink env ev) a)) = ap_open a"
  "ap_backend (snd (run_state (waitGroupEventSink env ev) a)) = ap_backend a"
  by (auto simp: waitGroupEventSink_def wg_effect_def split: SinkEvent.split)

lemmas sink_effects = notify_effect runlog_effect ipc_effect wait_group_effect

lemma composite_effect:
  "ap_wg (snd (run_state (compositeEventSink service_sinks env ev) a)) = ap_wg a + wg_effect ev"
  "j \<noteq> about ev \<Longrightarrow> ap_open (snd (run_state (compositeEventSink service_sinks env ev) a)) j = ap_open a j"
  "ap_open (snd (run_state (compositeEventSink service_sinks env (SinkFinished run)) a)) (Run_ID run) = None"
  "bs_registry (ap_backend (snd (run_state (compositeEventSink service_sinks env ev) a))) =
     (case ev of SinkFinished run \<Rightarrow> UnregisterRun (Run_ID run) (bs_registry (ap_backend a)) | _ \<Rightarrow> bs_registry (ap_backend a))"
  by (auto simp: compositeEventSink_def service_sinks_def case_prod_unfold sink_effects)

lemma all_effects:
  assumes "\<forall>ev \<in> set evs. about ev = i"
  shows "ap_wg (snd (run_state (for_each (compositeEventSink service_sinks env) evs) a)) = ap_wg a + sum_list (map wg_effect evs)"
    "j \<noteq> i \<Longrightarrow> ap_open (snd (run_state (for_each (compositeEventSink service_sinks env) evs) a)) j = ap_open a j"
    "j \<noteq> i \<Longrightarrow> ar_cancels (bs_registry (ap_backend (snd (run_state (for_each (compositeEventSink service_sinks env) evs) a)))) j =
       ar_cancels (bs_registry (ap_backend a)) j"
  using assms
proof (induction evs arbitrary: a)
  case (Cons ev evs)
  { case 1 then show ?case using Cons(1) by (simp add: case_prod_unfold composite_effect) }
  { case 2 then show ?case using Cons(2) by (simp add: case_prod_unfold composite_effect) }
  { case 3 then show ?case using Cons(3)
      by (auto simp: case_prod_unfold composite_effect UnregisterRun_def about_def split: SinkEvent.splits) }
qed simp_all

subsection \<open>What the engine reports\<close>

definition announces :: "Event \<Rightarrow> bool" where
  "announces ev = (case ev of EvRunStarted r \<Rightarrow> True | EvRunFinished r \<Rightarrow> True | _ \<Rightarrow> False)"

lemma begin_announces:
  assumes "run_state (beginRun env) (rc_start files) = (r, s)" and "e_has_events env"
  shows "filter announces (rc_trace s) = (if r = Inr False then [EvRunStarted (rc_run s)] else [])"
    and "r = Inr False \<Longrightarrow> Run_Status (rc_run s) = RunRunning"
    and "list_all (\<lambda>ev. case ev of EvStepChanged st \<Rightarrow> False | _ \<Rightarrow> True) (rc_trace s)"
  using assms
  by (auto simp: beginRun_def rc_start_def now_def record_event_def announces_def NewRun_def Let_def
      split: sum.splits option.splits if_splits)

lemma execute_announces:
  "filter announces (rc_trace (snd (run_state (execute env) s))) = filter announces (rc_trace s)"
  "Run_ID (rc_run (snd (run_state (execute env) s))) = Run_ID (rc_run s)"
proof -
  have later: "later s (snd (run_state (execute env) s))" by (rule later.io_snd [OF later.io_execute])
  then obtain evs where "rc_trace (snd (run_state (execute env) s)) = evs @ rc_trace s" "\<not> list_ex bookkeeping evs"
    by (auto simp: later_def grows_def)
  moreover from this(2) have "filter announces evs = []"
    by (auto simp: filter_empty_conv list_ex_iff announces_def bookkeeping_def split: Event.splits)
  ultimately show "filter announces (rc_trace (snd (run_state (execute env) s))) = filter announces (rc_trace s)" by simp
  show "Run_ID (rc_run (snd (run_state (execute env) s))) = Run_ID (rc_run s)"
    using later by (simp add: later_def latched_def)
qed

lemma run_announces:
  assumes "run_state (Engine_Run env) (rc_start files) = (r, s)" and "e_has_events env"
  shows "filter announces (rc_trace s) = [] \<and> list_all (\<lambda>ev. case ev of EvStepChanged st \<Rightarrow> False | _ \<Rightarrow> True) (rc_trace s) \<or>
    (\<exists>r0. filter announces (rc_trace s) = [EvRunFinished (rc_run s), EvRunStarted r0] \<and> Run_ID r0 = Run_ID (rc_run s))"
  using assms(1)
proof (cases rule: Engine_Run_cases)
  case (error e)
  with begin_announces [OF error(1) assms(2)] show ?thesis by simp
next
  case skipped
  with begin_announces [OF skipped(1) assms(2)] show ?thesis by simp
next
  case (ran s0)
  note b = begin_announces [OF ran(1) assms(2)]
  show ?thesis
    using b execute_announces [of env s0] assms(2)
    by (intro disjI2 exI [of _ "rc_run s0"]) (simp add: ran(2) finish_state_def Let_def announces_def Run_Finish_def)
qed

lemma wg_of_reports: "sum_list (map wg_effect (reports rc)) =
    int (length (filter (\<lambda>ev. case ev of EvRunStarted r \<Rightarrow> True | _ \<Rightarrow> False) (filter announces (rc_trace rc)))) -
    int (length (filter (\<lambda>ev. case ev of EvRunFinished r \<Rightarrow> True | _ \<Rightarrow> False) (filter announces (rc_trace rc))))"
proof -
  have "sum_list (map wg_effect (concat (map (reported i) (rev h)))) =
    int (length (filter (\<lambda>ev. case ev of EvRunStarted r \<Rightarrow> True | _ \<Rightarrow> False) (filter announces h))) -
    int (length (filter (\<lambda>ev. case ev of EvRunFinished r \<Rightarrow> True | _ \<Rightarrow> False) (filter announces h)))" for i h
  proof (induction h)
    case (Cons ev h)
    then show ?case by (cases ev) (simp_all add: reported_def wg_effect_def announces_def)
  qed simp
  then show ?thesis by (simp add: reports_def)
qed

lemma run_ends_finished:
  assumes "run_state (Engine_Run env) (rc_start files) = (r, s)" and "e_has_events env" and "filter announces (rc_trace s) \<noteq> []"
  shows "\<exists>ev h. rc_trace s = ev # EvRunFinished (rc_run s) # h \<and> reported i ev = []"
  using assms(1)
proof (cases rule: Engine_Run_cases)
  case (error e)
  with begin_announces [OF error(1) assms(2)] assms(3) show ?thesis by simp
next
  case skipped
  with begin_announces [OF skipped(1) assms(2)] assms(3) show ?thesis by simp
next
  case (ran s0)
  then show ?thesis using assms(2) by (simp add: finish_state_def Let_def reported_def)
qed

lemma no_report: "\<not> announces ev \<Longrightarrow> (case ev of EvStepChanged st \<Rightarrow> False | _ \<Rightarrow> True) \<Longrightarrow> reported i ev = []"
  by (cases ev) (simp_all add: reported_def announces_def)

lemma no_reports:
  assumes "filter announces h = []" and "list_all (\<lambda>ev. case ev of EvStepChanged st \<Rightarrow> False | _ \<Rightarrow> True) h"
  shows "concat (map (reported i) (rev h)) = []"
proof -
  have "reported i ev = []" if "ev \<in> set h" for ev
    using assms that by (intro no_report) (simp_all add: filter_empty_conv list_all_iff)
  then show ?thesis by simp
qed

lemma reports_about:
  assumes "filter announces (rc_trace rc) = [EvRunFinished (rc_run rc), EvRunStarted r0]" "Run_ID r0 = Run_ID (rc_run rc)"
  shows "\<forall>ev \<in> set (reports rc). about ev = Run_ID (rc_run rc)"
proof -
  have "EvRunStarted r \<in> set (rc_trace rc) \<Longrightarrow> EvRunStarted r \<in> set (filter announces (rc_trace rc))"
    "EvRunFinished r \<in> set (rc_trace rc) \<Longrightarrow> EvRunFinished r \<in> set (filter announces (rc_trace rc))" for r
    by (simp_all add: announces_def)
  then have "EvRunStarted r \<in> set (rc_trace rc) \<Longrightarrow> r = r0" "EvRunFinished r \<in> set (rc_trace rc) \<Longrightarrow> r = rc_run rc" for r
    using assms(1) by auto
  then show ?thesis using assms(2) by (auto simp: reports_def reported_def about_def split: Event.splits)
qed

text \<open>C14: Every run settles with everyone who follows it. After the engine has reported a whole run to the
  sinks of the service, the count that the shutdown waits for is what it was before; the run has
  no open log file and no entry among the active runs any more, unless it never began; and the log
  files and entries of all other runs are untouched, on every path through the run.\<close>

theorem run_settles_with_all_sinks:
  assumes "e_has_events e"
  shows "let rc = snd (run_state (Engine_Run e) (rc_start files)); a' = snd (run_state (report_run env e files) a)
    in ap_wg a' = ap_wg a \<and>
       (a' = a \<or> ap_open a' (Run_ID (rc_run rc)) = None \<and> ar_cancels (bs_registry (ap_backend a')) (Run_ID (rc_run rc)) = None) \<and>
       (\<forall>j. j = Run_ID (rc_run rc) \<or> ap_open a' j = ap_open a j \<and>
          ar_cancels (bs_registry (ap_backend a')) j = ar_cancels (bs_registry (ap_backend a)) j)"
proof -
  obtain r rc where run: "run_state (Engine_Run e) (rc_start files) = (r, rc)" by fastforce
  define a' where "a' = snd (run_state (report_run env e files) a)"
  have a': "a' = snd (run_state (for_each (compositeEventSink service_sinks env) (reports rc)) a)"
    by (simp add: a'_def report_run_def run)
  let ?i = "Run_ID (rc_run rc)"
  consider (quiet) "reports rc = []"
    | (ran) r0 where "filter announces (rc_trace rc) = [EvRunFinished (rc_run rc), EvRunStarted r0]" "Run_ID r0 = ?i"
    using run_announces [OF run assms] no_reports by (auto simp: reports_def)
  then have "ap_wg a' = ap_wg a \<and> (a' = a \<or> ap_open a' ?i = None \<and> ar_cancels (bs_registry (ap_backend a')) ?i = None) \<and>
       (\<forall>j. j = ?i \<or> ap_open a' j = ap_open a j \<and> ar_cancels (bs_registry (ap_backend a')) j = ar_cancels (bs_registry (ap_backend a)) j)"
  proof cases
    case quiet
    then show ?thesis by (simp add: a')
  next
    case ran
    note about = reports_about [OF ran]
    have wg: "sum_list (map wg_effect (reports rc)) = 0" by (simp add: wg_of_reports ran(1))
    obtain ev h where trace: "rc_trace rc = ev # EvRunFinished (rc_run rc) # h" "reported ?i ev = []"
      using run_ends_finished [OF run assms, of ?i] ran(1) by auto
    then obtain evs where evs: "reports rc = evs @ [SinkFinished (rc_run rc)]"
      by (simp add: reports_def reported_def)
    obtain b where b: "a' = snd (run_state (compositeEventSink service_sinks env (SinkFinished (rc_run rc))) b)"
      by (simp add: a' evs for_each_append case_prod_unfold)
    have "ap_open a' ?i = None" "ar_cancels (bs_registry (ap_backend a')) ?i = None"
      by (simp_all add: b composite_effect UnregisterRun_def)
    moreover have "ap_wg a' = ap_wg a" using all_effects(1) [OF about, of env a] by (simp add: a' wg)
    moreover have "ap_open a' j = ap_open a j \<and> ar_cancels (bs_registry (ap_backend a')) j = ar_cancels (bs_registry (ap_backend a)) j"
      if "j \<noteq> ?i" for j
      using all_effects(2,3) [OF about that, of env a] by (simp add: a')
    ultimately show ?thesis by blast
  qed
  then show ?thesis by (simp add: run a'_def Let_def)
qed

definition demo_app :: App where
  "demo_app = \<lparr>ap_backend = demo_backend, ap_wg = 0, ap_open = Map.empty, ap_closed = [], ap_lines = 0, ap_shown = []\<rparr>"

definition demo_app_env :: AppEnv where
  "demo_app_env = \<lparr>av_backend = demo_backend_env password_request, av_fs = \<lparr>fs_getenv = (\<lambda>_. []), fs_mkdir = (\<lambda>_. None), fs_append = (\<lambda>_. None)\<rparr>, av_dataDir = ''C:'', av_write_log = (\<lambda>_. None),
     av_clock = (\<lambda>_. epoch), av_duration_text = humanDuration, av_redact = (\<lambda>t. t)\<rparr>"

lemma run_settles_witness: "ap_wg (snd (run_state (report_run demo_app_env (sample_run_env []) Map.empty) demo_app)) = 0"
  using run_settles_with_all_sinks [of "sample_run_env []" Map.empty demo_app_env demo_app]
  by (simp add: sample_run_env_def demo_app_def Let_def)

section \<open>Scheduled runs\<close>

lemma progress_never_registers:
  "ar_cancels (bs_registry (snd (run_state (sink_trace env j tr) s))) \<subseteq>\<^sub>m ar_cancels (bs_registry s)"
proof -
  have "ar_cancels (bs_registry (snd (run_state (for_each (sink_event env j) evs) s))) \<subseteq>\<^sub>m ar_cancels (bs_registry s)" for evs
  proof (induction evs arbitrary: s)
    case (Cons ev evs)
    have "ar_cancels (bs_registry (snd (run_state (sink_event env j ev) s))) \<subseteq>\<^sub>m ar_cancels (bs_registry s)"
      by (auto simp: sink_event_def RunStarted_def StepChanged_def RunFinished_def run_publish UnregisterRun_def map_le_def split: Event.split)
    with Cons.IH show ?case by (auto simp: case_prod_unfold intro: map_le_trans)
  qed simp
  then show ?thesis by (simp add: sink_trace_def)
qed

lemma runner_never_registers:
  assumes "\<And>i tr s. ar_cancels (bs_registry (snd (run_state (report i tr) s))) \<subseteq>\<^sub>m ar_cancels (bs_registry s)"
  shows "ar_cancels (bs_registry (snd (run_state (schedulerRunner_body report env job server trig) s))) \<subseteq>\<^sub>m ar_cancels (bs_registry s)"
proof -
  have "snd (run_state (schedulerRunner_params env server) s) = s"
    using resolve_keeps_state [of env server s]
    by (auto simp: schedulerRunner_params_def run_try_do case_prod_unfold Let_def split: sum.split prod.split)
  then obtain r where params: "run_state (schedulerRunner_params env server) s = (r, s)" by (metis prod.collapse)
  have calls: "ar_cancels (bs_registry (snd (run_state (report i tr) (s\<lparr>bs_calls := n\<rparr>)))) \<subseteq>\<^sub>m ar_cancels (bs_registry s)" for i tr n
    using assms [of i tr "s\<lparr>bs_calls := n\<rparr>"] by simp
  show ?thesis
    by (cases r) (auto simp: schedulerRunner_body_def run_try_do params case_prod_unfold Let_def intro: calls)
qed

text \<open>C39: A run that the scheduler started cannot be cancelled. The runner of the scheduler never registers
  its runs. Take any state of the service, any job and server, and any moment of the call of the
  runner, however many of the events of its run have been reported, or its end: the active runs are
  only those that were active before the call, so runs.cancel with an identifier that was not among
  them, the one of this run for instance, is answered with NOT_FOUND and cancels nothing, although
  the registry is documented to hold the runs of the scheduler too.\<close>

theorem scheduled_run_cannot_be_cancelled:
  assumes "ar_cancels (bs_registry s) runID = None" and "UnmarshalPayload (jn_CancelRun (bk_json env)) raw = Inr runID"
    and "s' = snd (run_state (schedulerRunner_until k env job server trig) s) \<or> s' = snd (run_state (schedulerRunner_Run env job server trig) s)"
  shows "ar_cancels (bs_registry s') \<subseteq>\<^sub>m ar_cancels (bs_registry s) \<and>
    run_state (handleRunsCancel env raw) s' = (Inl (NewCodedError ErrNotFound ''run is not currently active'' None), s')"
proof -
  have le: "ar_cancels (bs_registry s') \<subseteq>\<^sub>m ar_cancels (bs_registry s)"
    using assms(3) unfolding schedulerRunner_until_def schedulerRunner_Run_def
    by (auto intro!: runner_never_registers progress_never_registers)
  then have "ar_cancels (bs_registry s') runID = None"
    using assms(1) by (auto simp: map_le_def dom_def)
  then show ?thesis
    using le assms(2) by (simp add: handleRunsCancel_def run_try_do run_decoded cancel_run_def CancelRun_def)
qed

lemma scheduled_run_witness:
  "let s' = snd (run_state (schedulerRunner_until 1 (demo_backend_env password_request) sample_job sample_server TriggerSchedule) demo_backend)
   in run_state (handleRunsCancel (demo_backend_env password_request) ''r1'') s' =
     (Inl (NewCodedError ErrNotFound ''run is not currently active'' None), s')"
proof -
  have "ar_cancels (bs_registry demo_backend) ''r1'' = None"
    and "UnmarshalPayload (jn_CancelRun (bk_json (demo_backend_env password_request))) ''r1'' = Inr ''r1''"
    by (simp_all add: demo_backend_def NewActiveRunRegistry_def demo_backend_env_def demo_json_def UnmarshalPayload_def)
  from scheduled_run_cannot_be_cancelled [OF this disjI1 [OF refl]] show ?thesis by (simp add: Let_def)
qed

text \<open>The runner resolves credentials as the handlers do.\<close>

lemma scheduler_params: "schedulerRunner_params env server = connectParams env server"
  by (simp add: schedulerRunner_params_def connectParams_def Let_def)

lemma last_run_none: "healthy db \<Longrightarrow> t_runs (db_tables db) = [] \<Longrightarrow> fst (run_state (LastRun general jobID) db) = Inr None"
  by (simp add: LastRun_def ListRuns_def run_try_do run_query_rows list_runs_query_def order_by_def Let_def)

lemma shutdown_cancels_all: "ar_cancels (bs_registry (ap_backend a)) i = Some c \<Longrightarrow>
    c \<in> ar_cancelled (bs_registry (ap_backend (snd (Shutdown in_time a))))"
  by (auto simp: Shutdown_def CancelAll_def ran_def)

end
