(* ===== verification/Startup.thy ===== *)
theory Startup
  imports Store_Locks Store_Runs
begin

text \<open>
  What the service does with its database before it serves anyone
  (\<^verbatim>\<open>releaseStaleLocks\<close> and \<^verbatim>\<open>recoverInterruptedRuns\<close> of \<^verbatim>\<open>cmd/vpsbackupservice/wire.go\<close>): every
  lock is stale, every running run was interrupted. Errors are logged and the loop goes on.
\<close>

section \<open>The code\<close>

definition ignoring :: "'a Sql \<Rightarrow> (Db, unit) state" where
  "ignoring m = do { r \<leftarrow> m; ret () }"

definition releaseStaleLocks :: "(Db, unit) state" where
  "releaseStaleLocks = do {
     existing \<leftarrow> ListLocks;
     case existing of
       Inl e \<Rightarrow> ret ()
     | Inr locks \<Rightarrow> for_each (\<lambda>l. ignoring (Release (lk_job_id l))) locks
   }"

definition recovery_message :: string where
  "recovery_message = ''the service stopped unexpectedly while this run was in progress; any pending critical cleanup or recovery actions may not have completed''"

definition interrupted_run :: "Run \<Rightarrow> Run" where
  "interrupted_run run = run\<lparr>Run_RecoveryOutcome := RecoveryFailed, Run_ErrorMessage := recovery_message\<rparr>"

definition recover_run :: "TimeParser \<Rightarrow> string \<Rightarrow> (Db, unit) state" where
  "recover_run general ident = do {
     r \<leftarrow> GetRun general ident;
     case r of
       Inl e \<Rightarrow> ret ()
     | Inr run \<Rightarrow> ignoring (UpdateRun (interrupted_run run))
   }"

definition recoverInterruptedRuns :: "TimeParser \<Rightarrow> Time \<Rightarrow> (Db, unit) state" where
  "recoverInterruptedRuns general moment = do {
     r \<leftarrow> InterruptRunningRuns moment;
     case r of
       Inl e \<Rightarrow> ret ()
     | Inr ids \<Rightarrow> for_each (recover_run general) ids
   }"

definition startup_recovery :: "TimeParser \<Rightarrow> Time \<Rightarrow> (Db, unit) state" where
  "startup_recovery general moment = do { releaseStaleLocks; recoverInterruptedRuns general moment }"

section \<open>Locks\<close>

lemma release_result:
  assumes "healthy db"
  shows "run_state (ignoring (Release jobID)) db =
    ((), db\<lparr>db_calls := Suc (db_calls db),
      db_tables := (db_tables db)\<lparr>t_locks := filter (\<lambda>l. lk_job_id l \<noteq> jobID) (t_locks (db_tables db))\<rparr>\<rparr>)"
  using assms by (simp add: ignoring_def Release_def run_exec delete_lock_def delete_rows_def Let_def)

lemma release_each:
  assumes "healthy db"
  shows "\<exists>n. run_state (for_each (\<lambda>l. ignoring (Release (lk_job_id l))) locks) db =
    ((), db\<lparr>db_calls := n, db_tables := (db_tables db)\<lparr>t_locks := filter (\<lambda>l. lk_job_id l \<notin> lk_job_id ` set locks) (t_locks (db_tables db))\<rparr>\<rparr>)"
  using assms
proof (induction locks arbitrary: db)
  case Nil
  have "db = db\<lparr>db_calls := db_calls db, db_tables := (db_tables db)\<lparr>t_locks := t_locks (db_tables db)\<rparr>\<rparr>" by simp
  then show ?case by (intro exI [of _ "db_calls db"]) simp
next
  case (Cons l locks)
  let ?db = "db\<lparr>db_calls := Suc (db_calls db),
      db_tables := (db_tables db)\<lparr>t_locks := filter (\<lambda>k. lk_job_id k \<noteq> lk_job_id l) (t_locks (db_tables db))\<rparr>\<rparr>"
  have "healthy ?db" using Cons.prems by simp
  from Cons.IH [OF this] obtain n where "run_state (for_each (\<lambda>l. ignoring (Release (lk_job_id l))) locks) ?db =
    ((), ?db\<lparr>db_calls := n, db_tables := (db_tables ?db)\<lparr>t_locks := filter (\<lambda>k. lk_job_id k \<notin> lk_job_id ` set locks) (t_locks (db_tables ?db))\<rparr>\<rparr>)"
    by blast
  moreover have "filter (\<lambda>k. lk_job_id k \<notin> lk_job_id ` set locks) (filter (\<lambda>k. lk_job_id k \<noteq> lk_job_id l) ks) =
      filter (\<lambda>k. lk_job_id k \<notin> lk_job_id ` set (l # locks)) ks" for ks
    by (auto intro: filter_cong)
  ultimately show ?case
    by (intro exI [of _ n]) (simp add: release_result [OF Cons.prems])
qed

lemma locks_released:
  assumes "healthy db"
  shows "\<exists>n. run_state releaseStaleLocks db = ((), db\<lparr>db_calls := n, db_tables := (db_tables db)\<lparr>t_locks := []\<rparr>\<rparr>)"
proof -
  have scan: "scan_all Inr xs = (Inr xs :: err + JobLock list)" for xs by (induction xs) simp_all
  let ?db = "db\<lparr>db_calls := Suc (Suc (db_calls db))\<rparr>"
  have list: "run_state ListLocks db = (Inr (t_locks (db_tables db)), ?db)"
    using assms by (simp add: ListLocks_def run_query_rows scan)
  have "filter (\<lambda>l. lk_job_id l \<notin> lk_job_id ` set (t_locks (db_tables db))) (t_locks (db_tables db)) = []"
    by (auto simp: filter_empty_conv)
  with release_each [of ?db "t_locks (db_tables db)"] assms show ?thesis
    by (auto simp: releaseStaleLocks_def list)
qed

section \<open>Runs\<close>

text \<open>The row of a run that was running, after the recovery.\<close>

definition settle :: "TimeParser \<Rightarrow> RunRow \<Rightarrow> RunRow" where
  "settle general row =
     (case scanRun general row of
        Inl e \<Rightarrow> row
      | Inr run \<Rightarrow> set_run_columns (run_row (interrupted_run run)) row)"

lemma settle_id [simp]: "rr_id (settle general row) = rr_id row"
  by (simp add: settle_def set_run_columns_def split: sum.split)

lemma get_run_state:
  assumes "healthy db"
  shows "run_state (GetRun general ident) db =
    (fst (run_state (GetRun general ident) db), db\<lparr>db_calls := Suc (db_calls db)\<rparr>)"
  using assms
  by (simp add: GetRun_def not_found_or_def query_one_def run_try_do run_query split: option.split sum.split)

lemma find_distinct:
  "distinct (map rr_id rows) \<Longrightarrow> row \<in> set rows \<Longrightarrow> find (\<lambda>r. rr_id r = rr_id row) rows = Some row"
  by (induction rows) auto

lemma recover_run_result:
  assumes "healthy db" and d: "distinct (map rr_id (t_runs (db_tables db)))" and row: "row \<in> set (t_runs (db_tables db))"
  shows "\<exists>n. run_state (recover_run general (rr_id row)) db =
    ((), db\<lparr>db_calls := n, db_tables := (db_tables db)\<lparr>t_runs :=
      map (\<lambda>r. if rr_id r = rr_id row then settle general r else r) (t_runs (db_tables db))\<rparr>\<rparr>)"
proof -
  let ?db = "db\<lparr>db_calls := Suc (db_calls db)\<rparr>" and ?rows = "t_runs (db_tables db)"
  have find: "find_run (rr_id row) (db_tables db) = Some row"
    using find_distinct [OF d row] by (simp add: find_run_def)
  have same: "r = row" if "r \<in> set ?rows" "rr_id r = rr_id row" for r
    using that d row by (auto simp: distinct_map dest: inj_onD)
  show ?thesis
  proof (cases "scanRun general row")
    case (Inl e)
    obtain x where "fst (run_state (GetRun general (rr_id row)) db) = Inl x"
      using get_result [OF assms(1), where q = "find_run (rr_id row)" and scan = "scanRun general"] find Inl
      by (cases "is_err (\<lambda>x. x = NoRows) e") (simp_all add: GetRun_def)
    with get_run_state [OF assms(1), of general "rr_id row"] have "run_state (recover_run general (rr_id row)) db = ((), ?db)"
      by (simp add: recover_run_def)
    moreover have "(if rr_id r = rr_id row then settle general r else r) = r" if "r \<in> set ?rows" for r
      using same [OF that] Inl by (cases "rr_id r = rr_id row") (simp_all add: settle_def)
    then have "map (\<lambda>r. if rr_id r = rr_id row then settle general r else r) ?rows = ?rows"
      by (intro map_idI)
    ultimately show ?thesis by (intro exI [of _ "Suc (db_calls db)"]) simp
  next
    case (Inr run)
    then have ident: "Run_ID run = rr_id row" by (auto simp: scanRun_def split: sum.splits)
    have "fst (run_state (GetRun general (rr_id row)) db) = Inr run"
      using get_result [OF assms(1), where q = "find_run (rr_id row)" and scan = "scanRun general"] find Inr
      by (simp add: GetRun_def)
    with get_run_state [OF assms(1), of general "rr_id row"]
    have "run_state (recover_run general (rr_id row)) db = ((), snd (run_state (UpdateRun (interrupted_run run)) ?db))"
      by (simp add: recover_run_def ignoring_def case_prod_unfold)
    moreover have "(if rr_id r = rr_id row then set_run_columns (run_row (interrupted_run run)) r else r) =
        (if rr_id r = rr_id row then settle general r else r)" if "r \<in> set ?rows" for r
      using same [OF that] Inr by (cases "rr_id r = rr_id row") (simp_all add: settle_def)
    then have "update_rows (\<lambda>r. rr_id r = rr_id row) (set_run_columns (run_row (interrupted_run run))) ?rows =
        map (\<lambda>r. if rr_id r = rr_id row then settle general r else r) ?rows"
      unfolding update_rows_def by (intro map_cong refl)
    ultimately show ?thesis
      using assms(1) ident update_run_result [of ?db "interrupted_run run"]
      by (intro exI [of _ "Suc (Suc (Suc (db_calls db)))"]) (simp add: interrupted_run_def)
  qed
qed

lemma recover_each:
  assumes "healthy db" "distinct (map rr_id (t_runs (db_tables db)))" "distinct ids"
    "set ids \<subseteq> rr_id ` set (t_runs (db_tables db))"
  shows "\<exists>n. run_state (for_each (recover_run general) ids) db =
    ((), db\<lparr>db_calls := n, db_tables := (db_tables db)\<lparr>t_runs :=
      map (\<lambda>r. if rr_id r \<in> set ids then settle general r else r) (t_runs (db_tables db))\<rparr>\<rparr>)"
  using assms
proof (induction ids arbitrary: db)
  case Nil
  have "db = db\<lparr>db_calls := db_calls db, db_tables := (db_tables db)\<lparr>t_runs := t_runs (db_tables db)\<rparr>\<rparr>" by simp
  then show ?case by (intro exI [of _ "db_calls db"]) simp
next
  case (Cons i ids)
  let ?rows = "t_runs (db_tables db)"
  from Cons.prems(4) obtain row where row: "row \<in> set ?rows" "rr_id row = i" by auto
  from recover_run_result [OF Cons.prems(1,2) row(1), of general] row(2) obtain n where
    one: "run_state (recover_run general i) db = ((), db\<lparr>db_calls := n, db_tables := (db_tables db)\<lparr>t_runs :=
      map (\<lambda>r. if rr_id r = i then settle general r else r) ?rows\<rparr>\<rparr>)" by blast
  let ?db = "db\<lparr>db_calls := n, db_tables := (db_tables db)\<lparr>t_runs := map (\<lambda>r. if rr_id r = i then settle general r else r) ?rows\<rparr>\<rparr>"
  have ids: "map rr_id (t_runs (db_tables ?db)) = map rr_id ?rows" by auto
  have "rr_id ` set (t_runs (db_tables ?db)) = rr_id ` set ?rows" using ids by (metis list.set_map)
  then have p: "healthy ?db" "distinct (map rr_id (t_runs (db_tables ?db)))" "distinct ids" "set ids \<subseteq> rr_id ` set (t_runs (db_tables ?db))"
    using Cons.prems unfolding ids by simp_all
  from Cons.IH [OF p] obtain k where
    rest: "run_state (for_each (recover_run general) ids) ?db = ((), ?db\<lparr>db_calls := k, db_tables := (db_tables ?db)\<lparr>t_runs :=
      map (\<lambda>r. if rr_id r \<in> set ids then settle general r else r) (t_runs (db_tables ?db))\<rparr>\<rparr>)" by blast
  have "map (\<lambda>r. if rr_id r \<in> set ids then settle general r else r) (t_runs (db_tables ?db)) =
      map (\<lambda>r. if rr_id r \<in> set (i # ids) then settle general r else r) ?rows"
    using Cons.prems(3) by auto
  with one rest show ?case by (intro exI [of _ k]) simp
qed

lemma settle_interrupted:
  "\<not> is_running (settle general (interrupt_row t row)) \<and>
   rr_status (settle general (interrupt_row t row)) = ''INTERRUPTED'' \<and>
   (rr_recovery_outcome (settle general (interrupt_row t row)) = ''FAILED'' \<or> (\<exists>e. scanRun general (interrupt_row t row) = Inl e))"
  by (auto simp: settle_def scanRun_def interrupt_row_def set_run_columns_def run_row_def interrupted_run_def is_running_def
    RunStatus_of_def split: sum.split)

text \<open>C12: After startup nothing is left over from the previous process. On a database that answers, the
  recovery leaves no lock and no run that is RUNNING; every run that was running is INTERRUPTED,
  in its place and under its identifier, with its recovery reported as failed (unless its row
  cannot even be read back), and every other run and every other table is exactly as it was.\<close>

theorem startup_leaves_nothing_running:
  assumes "healthy db" and "distinct (map rr_id (t_runs (db_tables db)))"
  shows "\<exists>f. db_tables (snd (run_state (startup_recovery general moment) db)) =
      (db_tables db)\<lparr>t_locks := [], t_runs := map (\<lambda>row. if is_running row then f row else row) (t_runs (db_tables db))\<rparr> \<and>
    filter is_running (t_runs (db_tables (snd (run_state (startup_recovery general moment) db)))) = [] \<and>
    (\<forall>row. rr_id (f row) = rr_id row \<and> rr_status (f row) = ''INTERRUPTED'' \<and>
       (rr_recovery_outcome (f row) = ''FAILED'' \<or> (\<exists>e. scanRun general (interrupt_row moment row) = Inl e)))"
proof -
  let ?f = "\<lambda>row. settle general (interrupt_row moment row)" and ?rows = "t_runs (db_tables db)"
  obtain n where locks: "run_state releaseStaleLocks db = ((), db\<lparr>db_calls := n, db_tables := (db_tables db)\<lparr>t_locks := []\<rparr>\<rparr>)"
    using locks_released [OF assms(1)] by blast
  let ?db1 = "db\<lparr>db_calls := n, db_tables := (db_tables db)\<lparr>t_locks := []\<rparr>\<rparr>"
  have h1: "healthy ?db1" using assms(1) by simp
  obtain ids db2 where i: "run_state (InterruptRunningRuns moment) ?db1 = (Inr ids, db2)"
    and ids: "ids = map rr_id (filter is_running ?rows)"
    and rows2: "db_tables db2 = (db_tables ?db1)\<lparr>t_runs := map (\<lambda>row. if is_running row then interrupt_row moment row else row) ?rows\<rparr>"
    using interrupt_recovers_all [OF h1, of moment]
    by (cases "run_state (InterruptRunningRuns moment) ?db1") (auto simp: Let_def)
  have h2: "healthy db2"
    using i h1 by (auto simp: InterruptRunningRuns_def run_try_do running_ids_result run_wrap_err run_exec update_run_rows_def Let_def split: if_splits)
  have map_ids: "map rr_id (t_runs (db_tables db2)) = map rr_id ?rows"
    by (simp add: rows2 interrupt_row_def)
  have "set ids \<subseteq> rr_id ` set (t_runs (db_tables db2))"
    using arg_cong [OF map_ids, of set] ids by auto
  moreover have "distinct ids" using assms(2) ids by (simp add: distinct_map_filter)
  ultimately obtain k where "run_state (for_each (recover_run general) ids) db2 =
    ((), db2\<lparr>db_calls := k, db_tables := (db_tables db2)\<lparr>t_runs :=
      map (\<lambda>r. if rr_id r \<in> set ids then settle general r else r) (t_runs (db_tables db2))\<rparr>\<rparr>)"
    using recover_each [OF h2, of ids general] map_ids assms(2) by auto
  moreover have "map (\<lambda>r. if rr_id r \<in> set ids then settle general r else r) (t_runs (db_tables db2)) =
      map (\<lambda>row. if is_running row then ?f row else row) ?rows"
    using assms(2) by (auto simp: rows2 ids interrupt_row_def distinct_map dest: inj_onD)
  ultimately have "db_tables (snd (run_state (startup_recovery general moment) db)) =
      (db_tables db)\<lparr>t_locks := [], t_runs := map (\<lambda>row. if is_running row then ?f row else row) ?rows\<rparr>"
    by (simp add: startup_recovery_def locks recoverInterruptedRuns_def i rows2)
  moreover have "\<not> is_running (if is_running row then ?f row else row)" for row
    using settle_interrupted by auto
  ultimately show ?thesis
    using settle_interrupted by (intro exI [of _ ?f]) (auto simp: filter_empty_conv interrupt_row_def)
qed

lemma startup_witness:
  "\<exists>f. db_tables (snd (run_state (startup_recovery (\<lambda>_. Inl EndOfFile) epoch) run_db)) =
      (db_tables run_db)\<lparr>t_locks := [], t_runs := map (\<lambda>row. if is_running row then f row else row) (t_runs (db_tables run_db))\<rparr>"
  using startup_leaves_nothing_running [of run_db "\<lambda>_. Inl EndOfFile" epoch]
  by (auto simp: run_db_def healthy_def)

end
