(* ===== verification/Store_Migrate.thy ===== *)
theory Store_Migrate
  imports Store_Db
begin

text \<open>
  \<^verbatim>\<open>internal/store/migrate.go\<close>: the embedded migrations, their order, and their application, each in a
  transaction of its own together with its record. What a script does to the schema is a
  parameter; every driver call may fail.
\<close>

section \<open>The embedded files\<close>

datatype Entry = Directory string | MigrationFile string "err + string"

record migration =
  mi_version :: int
  mi_name :: string
  mi_sql :: string

definition parseMigrationFileName :: "string \<Rightarrow> err + int \<times> string" where
  "parseMigrationFileName fileName =
     (let base = trim_suffix fileName ''.sql''
      in case split2 (CHR ''_'') base of
           [v, name] \<Rightarrow>
             (case parse_int v of
                None \<Rightarrow> Inl (Wrapped (''migration file name '' @ go_quote fileName @ '' must start with a numeric version'')
                  (ErrorText (''strconv.Atoi: parsing '' @ go_quote v)))
              | Some version \<Rightarrow> Inr (version, name))
         | _ \<Rightarrow> Inl (ErrorText (''migration file name '' @ go_quote fileName @ '' must be <version>_<name>.sql'')))"

fun read_entries :: "Entry list \<Rightarrow> err + migration list" where
  "read_entries [] = Inr []"
| "read_entries (Directory d # es) = read_entries es"
| "read_entries (MigrationFile fileName content # es) =
     (case parseMigrationFileName fileName of
        Inl e \<Rightarrow> Inl e
      | Inr (version, name) \<Rightarrow>
          (case content of
             Inl e \<Rightarrow> Inl (Wrapped (''read migration '' @ go_quote fileName) e)
           | Inr sql \<Rightarrow>
               (case read_entries es of
                  Inl e \<Rightarrow> Inl e
                | Inr ms \<Rightarrow> Inr (\<lparr>mi_version = version, mi_name = name, mi_sql = sql\<rparr> # ms))))"

definition loadMigrations :: "err + Entry list \<Rightarrow> err + migration list" where
  "loadMigrations dir =
     (case dir of
        Inl e \<Rightarrow> Inl (Wrapped ''read embedded migrations'' e)
      | Inr entries \<Rightarrow> (case read_entries entries of Inl e \<Rightarrow> Inl e | Inr ms \<Rightarrow> Inr (sort_key mi_version ms)))"

lemma file_name_examples:
  "parseMigrationFileName ''0002_step_command.sql'' = Inr (2, ''step_command'')"
  "\<exists>e. parseMigrationFileName ''init.sql'' = Inl e"
  by (simp_all add: parseMigrationFileName_def trim_suffix_def has_prefix_def parse_int_def parse_unsigned_def char_digit_def int64_range_def Let_def)

section \<open>The database\<close>

text \<open>The record is \<^term>\<open>None\<close> until the table \<^verbatim>\<open>schema_migrations\<close> exists, then its rows in insertion order.\<close>

record 's SchemaDb =
  sm_schema :: 's
  sm_applied :: "(int \<times> string) list option"
  sm_fault :: "nat \<Rightarrow> err option"
  sm_calls :: nat

type_synonym ('s, 'a) Mig = "('s SchemaDb, err + 'a) state"

definition mig_call :: "string \<Rightarrow> ('s, unit) Mig" where
  "mig_call msg = State (\<lambda>d. (case sm_fault d (sm_calls d) of Some e \<Rightarrow> Inl (Wrapped msg e) | None \<Rightarrow> Inr (), d\<lparr>sm_calls := Suc (sm_calls d)\<rparr>))"

definition create_table :: "('s, unit) Mig" where
  "create_table = try_do (mig_call ''create schema_migrations table'') (\<lambda>_. do {
     modify (\<lambda>d. d\<lparr>sm_applied := Some (case sm_applied d of None \<Rightarrow> [] | Some rows \<Rightarrow> rows)\<rparr>);
     ret (Inr ())
   })"

definition appliedMigrationVersions :: "('s, int list) Mig" where
  "appliedMigrationVersions =
     try_do (mig_call ''query applied migrations'') (\<lambda>_. do {
       rows \<leftarrow> gets (\<lambda>d. case sm_applied d of None \<Rightarrow> [] | Some rows \<Rightarrow> rows);
       try_do (mig_call ''iterate applied migrations'') (\<lambda>_. ret (Inr (map fst rows)))
     })"

text \<open>The body of the transaction, and the transaction: a failure restores schema and record.\<close>

definition run_script :: "(string \<Rightarrow> 's \<Rightarrow> err + 's) \<Rightarrow> migration \<Rightarrow> ('s, unit) Mig" where
  "run_script apply_sql m =
     try_do (mig_call ''execute migration sql'') (\<lambda>_. do {
       s \<leftarrow> gets sm_schema;
       case apply_sql (mi_sql m) s of
         Inl e \<Rightarrow> ret (Inl (Wrapped ''execute migration sql'' e))
       | Inr t \<Rightarrow> do { modify (\<lambda>d. d\<lparr>sm_schema := t\<rparr>); ret (Inr ()) }
     })"

definition record_migration :: "migration \<Rightarrow> ('s, unit) Mig" where
  "record_migration m =
     try_do (mig_call ''record migration'') (\<lambda>_. do {
       rows \<leftarrow> gets (\<lambda>d. case sm_applied d of None \<Rightarrow> [] | Some rows \<Rightarrow> rows);
       if mi_version m \<in> fst ` set rows then ret (Inl (Wrapped ''record migration'' primary_key_error))
       else do { modify (\<lambda>d. d\<lparr>sm_applied := Some (rows @ [(mi_version m, mi_name m)])\<rparr>); ret (Inr ()) }
     })"

definition applyMigration :: "(string \<Rightarrow> 's \<Rightarrow> err + 's) \<Rightarrow> migration \<Rightarrow> ('s, unit) Mig" where
  "applyMigration apply_sql m =
     try_do (mig_call ''begin transaction'') (\<lambda>_. do {
       before \<leftarrow> gets (\<lambda>d. d);
       r \<leftarrow> try_do (run_script apply_sql m) (\<lambda>_. try_do (record_migration m) (\<lambda>_. mig_call ''commit migration''));
       case r of
         Inl e \<Rightarrow> do { modify (\<lambda>d. d\<lparr>sm_schema := sm_schema before, sm_applied := sm_applied before\<rparr>); ret (Inl e) }
       | Inr _ \<Rightarrow> ret (Inr ())
     })"

definition mig_label :: "migration \<Rightarrow> string" where
  "mig_label m = ''apply migration '' @ pad0 4 (nat (mi_version m)) @ ''_'' @ mi_name m"

primrec apply_each :: "(string \<Rightarrow> 's \<Rightarrow> err + 's) \<Rightarrow> int list \<Rightarrow> migration list \<Rightarrow> ('s, unit) Mig" where
  "apply_each apply_sql applied [] = ret (Inr ())"
| "apply_each apply_sql applied (m # ms) =
     (if mi_version m \<in> set applied then apply_each apply_sql applied ms
      else do {
        r \<leftarrow> applyMigration apply_sql m;
        case r of
          Inl e \<Rightarrow> ret (Inl (Wrapped (mig_label m) e))
        | Inr _ \<Rightarrow> apply_each apply_sql applied ms
      })"

definition Migrate :: "(string \<Rightarrow> 's \<Rightarrow> err + 's) \<Rightarrow> err + Entry list \<Rightarrow> ('s, unit) Mig" where
  "Migrate apply_sql dir =
     try_do create_table (\<lambda>_.
       case loadMigrations dir of
         Inl e \<Rightarrow> ret (Inl e)
       | Inr migrations \<Rightarrow> try_do appliedMigrationVersions (\<lambda>applied. apply_each apply_sql applied migrations))"

section \<open>The schema is what the record says\<close>

primrec run_all :: "(string \<Rightarrow> 's \<Rightarrow> err + 's) \<Rightarrow> migration list \<Rightarrow> 's \<Rightarrow> err + 's" where
  "run_all apply_sql [] s = Inr s"
| "run_all apply_sql (m # ms) s = (case apply_sql (mi_sql m) s of Inl e \<Rightarrow> Inl e | Inr t \<Rightarrow> run_all apply_sql ms t)"

lemma run_all_append:
  "run_all apply_sql (xs @ ys) s = (case run_all apply_sql xs s of Inl e \<Rightarrow> Inl e | Inr t \<Rightarrow> run_all apply_sql ys t)"
  by (induction xs arbitrary: s) (auto split: sum.split)

text \<open>The first \<open>k\<close> migrations are recorded, in order, and the schema is the result of exactly those.\<close>

definition at_version :: "(string \<Rightarrow> 's \<Rightarrow> err + 's) \<Rightarrow> 's \<Rightarrow> migration list \<Rightarrow> nat \<Rightarrow> 's SchemaDb \<Rightarrow> bool" where
  "at_version apply_sql base ms k d \<longleftrightarrow> k \<le> length ms \<and>
     (case sm_applied d of None \<Rightarrow> k = 0 | Some rows \<Rightarrow> rows = map (\<lambda>m. (mi_version m, mi_name m)) (take k ms)) \<and>
     run_all apply_sql (take k ms) base = Inr (sm_schema d)"

lemma run_mig_call [run_simps]:
  "run_state (mig_call msg) d =
     (case sm_fault d (sm_calls d) of Some e \<Rightarrow> Inl (Wrapped msg e) | None \<Rightarrow> Inr (), d\<lparr>sm_calls := Suc (sm_calls d)\<rparr>)"
  by (simp add: mig_call_def)

lemma at_version_calls [simp]: "at_version f e ms k (d\<lparr>sm_calls := n\<rparr>) = at_version f e ms k d"
  by (simp add: at_version_def)

lemma apply_migration_step:
  assumes "at_version f e ms k d" "sm_applied d \<noteq> None" "k < length ms" "distinct (map mi_version ms)"
    and "run_state (applyMigration f (ms ! k)) d = (r, d')"
  shows "case r of Inl x \<Rightarrow> at_version f e ms k d' \<and> sm_applied d' \<noteq> None | Inr _ \<Rightarrow> at_version f e ms (Suc k) d' \<and> sm_applied d' \<noteq> None"
proof -
  obtain rows where rows: "sm_applied d = Some rows" using assms(2) by auto
  have r: "rows = map (\<lambda>m. (mi_version m, mi_name m)) (take k ms)" and s: "run_all f (take k ms) e = Inr (sm_schema d)"
    using assms(1) rows by (simp_all add: at_version_def)
  have next_step: "run_all f (take (Suc k) ms) e = (case f (mi_sql (ms ! k)) (sm_schema d) of Inl x \<Rightarrow> Inl x | Inr t \<Rightarrow> Inr t)"
    using assms(3) s by (simp add: take_Suc_conv_app_nth run_all_append split: sum.split)
  show ?thesis
    using assms(5,3) r s next_step rows
    by (auto simp: applyMigration_def run_script_def record_migration_def run_try_do run_mig_call at_version_def
        take_Suc_conv_app_nth split: option.splits sum.splits if_splits)
qed

lemma applied_skips:
  assumes "distinct (map mi_version ms)" "k \<le> length ms"
  shows "apply_each f (map mi_version (take k ms)) ms = apply_each f (map mi_version (take k ms)) (drop k ms)"
proof -
  have "set xs \<subseteq> set (take k ms) \<Longrightarrow> apply_each f (map mi_version (take k ms)) (xs @ ys) = apply_each f (map mi_version (take k ms)) ys" for xs ys
    by (induction xs) auto
  from this [of "take k ms" "drop k ms"] show ?thesis by simp
qed

lemma apply_rest:
  assumes "at_version f e ms k d" "sm_applied d \<noteq> None" "distinct (map mi_version ms)" "n \<le> k"
    and "run_state (apply_each f (map mi_version (take n ms)) (drop k ms)) d = (r, d')"
  shows "\<exists>k' \<ge> k. at_version f e ms k' d' \<and> (r = Inr () \<longrightarrow> k' = length ms)"
  using assms
proof (induction "length ms - k" arbitrary: k d)
  case 0
  then have "k = length ms" by (auto simp: at_version_def)
  with 0 show ?case by (intro exI [of _ k]) auto
next
  case (Suc m)
  then have k: "k < length ms" by simp
  then have drop: "drop k ms = ms ! k # drop (Suc k) ms" by (simp add: Cons_nth_drop_Suc)
  have "mi_version (ms ! k) \<notin> set (map mi_version (take n ms))"
  proof
    assume "mi_version (ms ! k) \<in> set (map mi_version (take n ms))"
    then obtain i where "i < n" "i < length ms" "mi_version (ms ! i) = mi_version (ms ! k)"
      by (auto simp: in_set_conv_nth)
    with k Suc.prems(3,4) show False by (auto simp: distinct_conv_nth)
  qed
  then have fresh: "\<not> mi_version (ms ! k) \<in> set (map mi_version (take n ms))" .
  obtain r1 d1 where one: "run_state (applyMigration f (ms ! k)) d = (r1, d1)" by fastforce
  note step = apply_migration_step [OF Suc.prems(1,2) k Suc.prems(3) one]
  show ?case
  proof (cases r1)
    case (Inl x)
    with Suc.prems(5) fresh one step show ?thesis by (intro exI [of _ k]) (auto simp: drop)
  next
    case (Inr u)
    have rest: "run_state (apply_each f (map mi_version (take n ms)) (drop (Suc k) ms)) d1 = (r, d')"
      using Suc.prems(5) fresh one Inr by (simp add: drop)
    have "\<exists>k' \<ge> Suc k. at_version f e ms k' d' \<and> (r = Inr () \<longrightarrow> k' = length ms)"
      by (rule Suc.hyps(1) [OF _ _ _ Suc.prems(3) _ rest]) (use Suc.hyps(2) step Inr Suc.prems(4) in auto)
    then show ?thesis using Suc_leD by blast
  qed
qed

lemma migrate_at_version:
  assumes "loadMigrations dir = Inr ms" and "distinct (map mi_version ms)" and "at_version f base ms k d"
    and "run_state (Migrate f dir) d = (r, d')"
  shows "\<exists>k' \<ge> k. at_version f base ms k' d' \<and> (r = Inr () \<longrightarrow> k' = length ms) \<and> (k = length ms \<longrightarrow> sm_schema d' = sm_schema d)"
proof -
  obtain d1 r1 where c: "run_state create_table d = (r1, d1)" by fastforce
  have d1: "at_version f base ms k d1" "r1 = Inr () \<Longrightarrow> sm_applied d1 = Some (map (\<lambda>m. (mi_version m, mi_name m)) (take k ms))"
    using c assms(3) by (auto simp: create_table_def run_try_do run_mig_call at_version_def split: option.splits)
  have same: "k' = k \<Longrightarrow> at_version f base ms k' x \<Longrightarrow> sm_schema x = sm_schema d" for k' x
    using assms(3) by (simp add: at_version_def)
  have "\<exists>k' \<ge> k. at_version f base ms k' d' \<and> (r = Inr () \<longrightarrow> k' = length ms)"
  proof (cases r1)
    case (Inl x)
    with assms(4) c d1(1) show ?thesis by (intro exI [of _ k]) (auto simp: Migrate_def run_try_do)
  next
    case (Inr u)
    obtain r2 d2 where q: "run_state appliedMigrationVersions d1 = (r2, d2)" by fastforce
    have d2: "at_version f base ms k d2" "sm_applied d2 = sm_applied d1"
      "\<And>vs. r2 = Inr vs \<Longrightarrow> vs = map mi_version (take k ms)"
      using q d1 Inr by (auto simp: appliedMigrationVersions_def run_try_do run_mig_call comp_def split: option.splits)
    show ?thesis
    proof (cases r2)
      case (Inl x)
      with assms(1,4) c q Inr d2(1) show ?thesis by (intro exI [of _ k]) (auto simp: Migrate_def run_try_do)
    next
      case vs: (Inr vs)
      have "run_state (apply_each f (map mi_version (take k ms)) (drop k ms)) d2 = (r, d')"
        using assms(1,4) c q Inr vs d2(3) [OF vs] applied_skips [OF assms(2), of k f] assms(3)
        by (simp add: Migrate_def run_try_do at_version_def)
      then show ?thesis using apply_rest [OF d2(1) _ assms(2)] d2(2) d1(2) Inr by auto
    qed
  qed
  then obtain k' where k': "k \<le> k'" "at_version f base ms k' d'" "r = Inr () \<longrightarrow> k' = length ms" by blast
  moreover have "k = length ms \<longrightarrow> sm_schema d' = sm_schema d"
    using k' same [of k' d'] by (auto simp: at_version_def)
  ultimately show ?thesis by blast
qed

text \<open>Nothing is left to do on a database that is up to date.\<close>

lemma migrate_up_to_date:
  assumes "loadMigrations dir = Inr ms" and "distinct (map mi_version ms)" and "at_version f base ms (length ms) d"
  shows "sm_schema (snd (run_state (Migrate f dir) d)) = sm_schema d"
  using migrate_at_version [OF assms, of "fst (run_state (Migrate f dir) d)" "snd (run_state (Migrate f dir) d)"] by auto

text \<open>C13: The schema is always what the record says. Let the database hold the result of the first k
  migrations and their records (k is zero for a new one). Whatever call of Migrate fails, it ends
  with the result of the first k' migrations, k' at least k, and exactly their records, in version
  order; when it reports success, all migrations are applied, and when they all were before,
  nothing changes.\<close>

theorem migrate_keeps_record_and_schema:
  assumes "loadMigrations dir = Inr ms" and "distinct (map mi_version ms)" and "at_version f base ms k d"
    and "run_state (Migrate f dir) d = (r, d')"
  shows "\<exists>k' \<ge> k. at_version f base ms k' d' \<and> (r = Inr () \<longrightarrow> k' = length ms) \<and> (k = length ms \<longrightarrow> sm_schema d' = sm_schema d)"
  by (rule migrate_at_version [OF assms])

text \<open>Two migrations on a new database whose third driver call (the begin of the first one) works and whose commit of the second fails.\<close>

definition two_migrations :: "Entry list" where
  "two_migrations = [MigrationFile ''0002_b.sql'' (Inr ''B''), Directory ''old'', MigrationFile ''0001_a.sql'' (Inr ''A'')]"

definition new_schema_db :: "string SchemaDb" where
  "new_schema_db = \<lparr>sm_schema = [], sm_applied = None, sm_fault = (\<lambda>n. if n = 10 then Some EndOfFile else None), sm_calls = 0\<rparr>"

lemma two_migrations_load: "loadMigrations (Inr two_migrations) =
   Inr [\<lparr>mi_version = 1, mi_name = ''a'', mi_sql = ''A''\<rparr>, \<lparr>mi_version = 2, mi_name = ''b'', mi_sql = ''B''\<rparr>]"
  by (simp add: loadMigrations_def two_migrations_def parseMigrationFileName_def trim_suffix_def has_prefix_def parse_int_def parse_unsigned_def
    char_digit_def int64_range_def Let_def)

lemma migrate_witness:
  "\<exists>k'. at_version (\<lambda>sql s. Inr (s @ sql)) []
     [\<lparr>mi_version = 1, mi_name = ''a'', mi_sql = ''A''\<rparr>, \<lparr>mi_version = 2, mi_name = ''b'', mi_sql = ''B''\<rparr>] k'
     (snd (run_state (Migrate (\<lambda>sql s. Inr (s @ sql)) (Inr two_migrations)) new_schema_db))"
proof -
  obtain r d' where run: "run_state (Migrate (\<lambda>sql s. Inr (s @ sql)) (Inr two_migrations)) new_schema_db = (r, d')" by fastforce
  have start: "at_version (\<lambda>sql s. Inr (s @ sql)) [] ms 0 new_schema_db" for ms by (simp add: at_version_def new_schema_db_def)
  show ?thesis using migrate_keeps_record_and_schema [OF two_migrations_load _ start run] by (auto simp: run)
qed

lemma migrate_witness_state:
  "sm_schema (snd (run_state (Migrate (\<lambda>sql s. Inr (s @ sql)) (Inr two_migrations)) new_schema_db)) = ''A''"
  by (simp add: Migrate_def two_migrations_load create_table_def appliedMigrationVersions_def applyMigration_def run_script_def
    record_migration_def run_try_do run_mig_call new_schema_db_def)

end
