(* ===== verification/Boot.thy ===== *)
theory Boot
  imports Data_Dir Startup Store_Migrate
begin

text \<open>
  The start of the service (\<^verbatim>\<open>startup\<close> and the start half of \<^verbatim>\<open>buildApp\<close> in
  \<^verbatim>\<open>cmd/vpsbackupservice/wire.go\<close>, \<^verbatim>\<open>Open\<close> in \<^verbatim>\<open>internal/store/db.go\<close>): directories, log, database,
  migrations, recovery, then the three goroutines; on every failing path what was opened is closed.
\<close>

section \<open>The code\<close>

datatype Resource = LogHandle | DbHandle
datatype Launched = DispatcherLoop | MissedRuns | PipeServer
datatype ServiceState = StartPending | ServiceRunning | StopPending | ServiceStopped int

text \<open>
  Open handles and launched goroutines, newest first, and the one database file: the tables with
  their rows, which the repositories use, everything else that a migration may change (columns,
  indexes), and the table of the applied migrations, absent in a new file.
\<close>

record 's Boot =
  bt_handles :: "Resource list"
  bt_launched :: "Launched list"
  bt_db :: Db
  bt_shape :: 's
  bt_applied :: "(int \<times> string) list option"

record 's BootEnv =
  bv_fs :: FileSys
  bv_sql_open :: "string \<Rightarrow> err option"
  bv_ping :: "err option"
  bv_apply_sql :: "string \<Rightarrow> Tables \<times> 's \<Rightarrow> err + Tables \<times> 's"
  bv_migrations :: "err + Entry list"
  bv_parser :: TimeParser
  bv_now :: Time

type_synonym ('s, 'a) Booting = "('s Boot, err + 'a) state"

definition lift_err :: "err + 'a \<Rightarrow> ('s, 'a) Booting" where
  "lift_err r = ret r"

definition opened :: "Resource \<Rightarrow> ('s Boot, unit) state" where
  "opened h = modify (\<lambda>b. b\<lparr>bt_handles := h # bt_handles b\<rparr>)"

definition close_handle :: "Resource \<Rightarrow> ('s Boot, unit) state" where
  "close_handle h = modify (\<lambda>b. b\<lparr>bt_handles := filter (\<lambda>x. x \<noteq> h) (bt_handles b)\<rparr>)"

definition launch :: "Launched \<Rightarrow> ('s Boot, unit) state" where
  "launch c = modify (\<lambda>b. b\<lparr>bt_launched := c # bt_launched b\<rparr>)"

text \<open>\<^verbatim>\<open>if err != nil { close...; return nil, fmt.Errorf(...) }\<close>\<close>

definition or_close :: "Resource list \<Rightarrow> (err \<Rightarrow> err) \<Rightarrow> ('s, 'a) Booting \<Rightarrow> ('s, 'a) Booting" where
  "or_close hs wrap m = do {
     r \<leftarrow> m;
     case r of
       Inl e \<Rightarrow> do { for_each close_handle hs; ret (Inl (wrap e)) }
     | Inr x \<Rightarrow> ret (Inr x)
   }"

definition busyTimeoutMillis :: int where
  "busyTimeoutMillis = 5000"

definition dsn :: "string \<Rightarrow> string" where
  "dsn path = ''file:'' @ path @ ''?_pragma=busy_timeout('' @ itoa busyTimeoutMillis @ '')&_pragma=foreign_keys(1)&_pragma=journal_mode(WAL)''"

definition Open :: "'s BootEnv \<Rightarrow> string \<Rightarrow> ('s, unit) Booting" where
  "Open env path =
     (case bv_sql_open env (dsn path) of
        Some e \<Rightarrow> ret (Inl (Wrapped (''open database '' @ go_quote path) e))
      | None \<Rightarrow> do {
          opened DbHandle;
          case bv_ping env of
            Some e \<Rightarrow> do { close_handle DbHandle; ret (Inl (Wrapped (''ping database '' @ go_quote path) e)) }
          | None \<Rightarrow> ret (Inr ())
        })"

text \<open>The database as the migrations see it. They write into the same tables, by the same connection.\<close>

definition database :: "'s Boot \<Rightarrow> (Tables \<times> 's) SchemaDb" where
  "database b = \<lparr>sm_schema = (db_tables (bt_db b), bt_shape b), sm_applied = bt_applied b,
     sm_fault = db_fault (bt_db b), sm_calls = db_calls (bt_db b)\<rparr>"

definition tables_of :: "(Tables \<times> 's) SchemaDb \<Rightarrow> Db" where
  "tables_of d = \<lparr>db_tables = fst (sm_schema d), db_fault = sm_fault d, db_calls = sm_calls d\<rparr>"

definition on_schema :: "(Tables \<times> 's, 'a) Mig \<Rightarrow> ('s, 'a) Booting" where
  "on_schema m = State (\<lambda>b. case run_state m (database b) of
     (r, d) \<Rightarrow> (r, b\<lparr>bt_db := tables_of d, bt_shape := snd (sm_schema d), bt_applied := sm_applied d\<rparr>))"

definition on_tables :: "(Db, 'a) state \<Rightarrow> ('s Boot, 'a) state" where
  "on_tables m = State (\<lambda>b. case run_state m (bt_db b) of (r, d) \<Rightarrow> (r, b\<lparr>bt_db := d\<rparr>))"

text \<open>An error with text on both sides of the cause; nothing looks into its chain.\<close>

definition cannot_start :: "string \<Rightarrow> err \<Rightarrow> err" where
  "cannot_start what e = ErrorText (what @ '': '' @ Error e @ '' (the service cannot start until this is resolved)'')"

definition buildApp :: "'s BootEnv \<Rightarrow> ('s Boot, unit) state" where
  "buildApp env = do {
     on_tables releaseStaleLocks;
     on_tables (recoverInterruptedRuns (bv_parser env) (bv_now env));
     launch DispatcherLoop;
     launch MissedRuns;
     launch PipeServer
   }"

definition startup :: "'s BootEnv \<Rightarrow> ('s, unit) Booting" where
  "startup env =
     try_do (or_close [] (Wrapped ''resolve application data directory'') (lift_err (DataDir (bv_fs env)))) (\<lambda>dataDir.
     try_do (or_close [] (Wrapped ''set up logging'') (lift_err (NewAppLogger (bv_fs env) dataDir))) (\<lambda>service_log. do {
       opened LogHandle;
       let dbPath = DatabasePath dataDir;
       try_do (or_close [LogHandle] (cannot_start (''open database '' @ go_quote dbPath)) (Open env dbPath)) (\<lambda>_.
       try_do (or_close [DbHandle, LogHandle] (cannot_start (''migrate database '' @ go_quote dbPath))
          (on_schema (Migrate (bv_apply_sql env) (bv_migrations env)))) (\<lambda>_.
       try_do (or_close [DbHandle, LogHandle] (Wrapped ''create secrets directory'') (lift_err (SecretsDir (bv_fs env) dataDir))) (\<lambda>secretsDir. do {
         buildApp env;
         ret (Inr ())
       })))
     }))"

text \<open>The end of \<^verbatim>\<open>App.Shutdown\<close>: database, then log.\<close>

definition close_app :: "('s Boot, unit) state" where
  "close_app = do { close_handle DbHandle; close_handle LogHandle }"

text \<open>The service handler: what it reports to the service manager, for the requests it receives.\<close>

datatype ServiceRequest = Interrogate ServiceState | StopRequest | OtherRequest

fun service_loop :: "ServiceRequest list \<Rightarrow> ('s Boot, ServiceState list) state" where
  "service_loop [] = ret []"
| "service_loop (Interrogate current # rs) = do { states \<leftarrow> service_loop rs; ret (current # states) }"
| "service_loop (StopRequest # rs) = do { close_app; ret [StopPending] }"
| "service_loop (OtherRequest # rs) = service_loop rs"

definition Execute :: "'s BootEnv \<Rightarrow> ServiceRequest list \<Rightarrow> ('s Boot, ServiceState list) state" where
  "Execute env requests = do {
     r \<leftarrow> startup env;
     case r of
       Inl e \<Rightarrow> ret [StartPending, ServiceStopped 1]
     | Inr u \<Rightarrow> do {
         states \<leftarrow> service_loop requests;
         ret ([StartPending, ServiceRunning] @ states @ [ServiceStopped 0])
       }
   }"

text \<open>Console mode, which waits for a signal, and the choice between the two; the exit code of the process.\<close>

definition runConsole :: "'s BootEnv \<Rightarrow> ('s Boot, err option) state" where
  "runConsole env = do {
     r \<leftarrow> startup env;
     case r of
       Inl e \<Rightarrow> ret (Some e)
     | Inr u \<Rightarrow> do { close_app; ret None }
   }"

definition program_main :: "bool \<Rightarrow> err + bool \<Rightarrow> err option \<Rightarrow> 's BootEnv \<Rightarrow> ServiceRequest list \<Rightarrow> ('s Boot, int) state" where
  "program_main console isService runFault env requests =
     (case isService of
        Inl e \<Rightarrow> ret 1
      | Inr service \<Rightarrow>
          if console \<or> \<not> service then do {
            r \<leftarrow> runConsole env;
            ret (if r = None then 0 else 1)
          }
          else (case runFault of
                  Some e \<Rightarrow> ret 1
                | None \<Rightarrow> do { states \<leftarrow> Execute env requests; ret 0 }))"

section \<open>All or nothing\<close>

lemma run_boot [run_simps]:
  "run_state (lift_err r) b = (r, b)"
  "run_state (opened h) b = ((), b\<lparr>bt_handles := h # bt_handles b\<rparr>)"
  "run_state (close_handle h) b = ((), b\<lparr>bt_handles := filter (\<lambda>x. x \<noteq> h) (bt_handles b)\<rparr>)"
  "run_state (launch c) b = ((), b\<lparr>bt_launched := c # bt_launched b\<rparr>)"
  "run_state (on_schema m) b =
     (case run_state m (database b) of
        (r, d) \<Rightarrow> (r, b\<lparr>bt_db := tables_of d, bt_shape := snd (sm_schema d), bt_applied := sm_applied d\<rparr>))"
  "run_state (on_tables k) b = (fst (run_state k (bt_db b)), b\<lparr>bt_db := snd (run_state k (bt_db b))\<rparr>)"
  by (simp_all add: lift_err_def opened_def close_handle_def launch_def on_schema_def on_tables_def case_prod_unfold)

lemma run_or_close [run_simps]:
  "run_state (or_close hs wrap m) b =
     (case run_state m b of
        (Inl e, b1) \<Rightarrow> (Inl (wrap e), b1\<lparr>bt_handles := filter (\<lambda>h. h \<notin> set hs) (bt_handles b1)\<rparr>)
      | (Inr x, b1) \<Rightarrow> (Inr x, b1))"
proof -
  have "run_state (for_each close_handle hs) b1 = ((), b1\<lparr>bt_handles := filter (\<lambda>h. h \<notin> set hs) (bt_handles b1)\<rparr>)" for b1 :: "'b Boot"
    by (induction hs arbitrary: b1) (auto simp: run_boot)
  then show ?thesis by (auto simp: or_close_def split: sum.split prod.split)
qed

lemma run_Open:
  "run_state (Open env path) b =
     (case bv_sql_open env (dsn path) of
        Some e \<Rightarrow> (Inl (Wrapped (''open database '' @ go_quote path) e), b)
      | None \<Rightarrow>
          (case bv_ping env of
             Some e \<Rightarrow> (Inl (Wrapped (''ping database '' @ go_quote path) e), b\<lparr>bt_handles := filter (\<lambda>x. x \<noteq> DbHandle) (bt_handles b)\<rparr>)
           | None \<Rightarrow> (Inr (), b\<lparr>bt_handles := DbHandle # bt_handles b\<rparr>)))"
  by (simp add: Open_def run_boot split: option.split)

lemma run_buildApp:
  "run_state (buildApp env) b =
     ((), b\<lparr>bt_db := snd (run_state (startup_recovery (bv_parser env) (bv_now env)) (bt_db b)),
        bt_launched := PipeServer # MissedRuns # DispatcherLoop # bt_launched b\<rparr>)"
  by (simp add: buildApp_def run_boot startup_recovery_def case_prod_unfold)

lemma run_close_app [run_simps]:
  "run_state close_app b = ((), b\<lparr>bt_handles := filter (\<lambda>h. h \<noteq> LogHandle) (filter (\<lambda>h. h \<noteq> DbHandle) (bt_handles b))\<rparr>)"
  by (simp add: close_app_def run_boot)

lemma service_loop_handles:
  "bt_handles b = [DbHandle, LogHandle] \<Longrightarrow>
   bt_handles (snd (run_state (service_loop rs) b)) = (if StopRequest \<in> set rs then [] else [DbHandle, LogHandle])"
  by (induction rs rule: service_loop.induct) (simp_all add: run_close_app case_prod_unfold)

lemma run_Execute:
  "run_state (Execute env rs) b =
     (case run_state (startup env) b of
        (Inl e, b1) \<Rightarrow> ([StartPending, ServiceStopped 1], b1)
      | (Inr u, b1) \<Rightarrow> ([StartPending, ServiceRunning] @ fst (run_state (service_loop rs) b1) @ [ServiceStopped 0],
          snd (run_state (service_loop rs) b1)))"
  by (simp add: Execute_def case_prod_unfold split: prod.split sum.split)

lemma database_simps [simp]:
  "database (b\<lparr>bt_handles := hs\<rparr>) = database b"
  "database (b\<lparr>bt_launched := cs\<rparr>) = database b"
  "database (b\<lparr>bt_db := tables_of d, bt_shape := snd (sm_schema d), bt_applied := sm_applied d\<rparr>) = d"
  by (simp_all add: database_def tables_of_def)

text \<open>The steps before the migrations: directories, log and database are open.\<close>

definition opened_up :: "'s BootEnv \<Rightarrow> string \<Rightarrow> bool" where
  "opened_up env dataDir \<longleftrightarrow> DataDir (bv_fs env) = Inr dataDir \<and> (\<exists>log. NewAppLogger (bv_fs env) dataDir = Inr log) \<and>
     bv_sql_open env (dsn (DatabasePath dataDir)) = None \<and> bv_ping env = None"

definition secrets_ready :: "'s BootEnv \<Rightarrow> string \<Rightarrow> bool" where
  "secrets_ready env dataDir \<longleftrightarrow> (\<exists>dir. SecretsDir (bv_fs env) dataDir = Inr dir)"

lemma startup_result:
  assumes "bt_handles b = []" and "bt_launched b = []"
    and "run_state (Migrate (bv_apply_sql env) (bv_migrations env)) (database b) = (m, d)"
  shows "case run_state (startup env) b of
      (Inl e, b') \<Rightarrow> bt_handles b' = [] \<and> bt_launched b' = [] \<and>
        (if \<exists>dataDir. opened_up env dataDir then database b' = d \<and> ((\<exists>e. m = Inl e) \<or> \<not> (\<exists>dataDir. opened_up env dataDir \<and> secrets_ready env dataDir))
         else database b' = database b)
    | (Inr _, b') \<Rightarrow> (\<exists>dataDir. opened_up env dataDir \<and> secrets_ready env dataDir) \<and> m = Inr () \<and>
        bt_handles b' = [DbHandle, LogHandle] \<and> rev (bt_launched b') = [DispatcherLoop, MissedRuns, PipeServer] \<and>
        bt_db b' = snd (run_state (startup_recovery (bv_parser env) (bv_now env)) (tables_of d)) \<and>
        bt_shape b' = snd (sm_schema d) \<and> bt_applied b' = sm_applied d"
  using assms
  by (cases m) (auto simp: startup_def run_try_do run_or_close run_boot run_Open run_buildApp opened_up_def secrets_ready_def Let_def
      split: sum.splits option.splits)


text \<open>The process ends with code 0 in console mode exactly when the service could start, and with nothing open.\<close>

lemma console_exit_code:
  assumes "bt_handles b = []" and "bt_launched b = []"
  shows "fst (run_state (program_main True (Inr service) f env requests) b) = 0 \<longleftrightarrow> (\<exists>u. fst (run_state (startup env) b) = Inr u)"
    and "bt_handles (snd (run_state (program_main True (Inr service) f env requests) b)) = []"
  using startup_result [OF assms surjective_pairing, of env]
  by (auto simp: program_main_def runConsole_def run_close_app split: prod.splits sum.splits)

text \<open>An installation without a database yet; each environment fails at another step, or nowhere.\<close>

definition sample_boot_env :: "(string \<Rightarrow> err option) \<Rightarrow> err option \<Rightarrow> string BootEnv" where
  "sample_boot_env mkdir ping = \<lparr>bv_fs = \<lparr>fs_getenv = (\<lambda>_. ''C:''), fs_mkdir = mkdir, fs_append = (\<lambda>_. None)\<rparr>,
     bv_sql_open = (\<lambda>_. None), bv_ping = ping, bv_apply_sql = (\<lambda>sql (t, s). Inr (t, s @ sql)),
     bv_migrations = Inr two_migrations, bv_parser = (\<lambda>_. Inl EndOfFile), bv_now = epoch\<rparr>"

definition sample_boot :: "string Boot" where
  "sample_boot = \<lparr>bt_handles = [], bt_launched = [], bt_db = run_db, bt_shape = [], bt_applied = None\<rparr>"

definition no_secrets_dir :: "string \<Rightarrow> err option" where
  "no_secrets_dir dir = (if dir = path_join (path_join ''C:'' AppDirName) ''secrets'' then Some EndOfFile else None)"

lemma sample_migrate:
  "run_state (Migrate (bv_apply_sql (sample_boot_env mkdir ping)) (bv_migrations (sample_boot_env mkdir ping))) (database sample_boot) =
     (Inr (), \<lparr>sm_schema = (db_tables run_db, ''AB''), sm_applied = Some [(1, ''a''), (2, ''b'')], sm_fault = (\<lambda>_. None), sm_calls = 11\<rparr>)"
  by (simp add: sample_boot_env_def sample_boot_def run_db_def database_def Migrate_def two_migrations_load create_table_def
    appliedMigrationVersions_def applyMigration_def run_script_def record_migration_def run_try_do run_mig_call)

lemma sample_open: "opened_up (sample_boot_env no_secrets_dir None) (path_join ''C:'' AppDirName)"
  "\<not> (\<exists>dataDir. opened_up (sample_boot_env no_secrets_dir None) dataDir \<and> secrets_ready (sample_boot_env no_secrets_dir None) dataDir)"
  "\<exists>dataDir. opened_up (sample_boot_env (\<lambda>_. None) None) dataDir \<and> secrets_ready (sample_boot_env (\<lambda>_. None) None) dataDir"
  "\<not> (\<exists>dataDir. opened_up (sample_boot_env (\<lambda>_. None) (Some EndOfFile)) dataDir)"
  by (auto simp: opened_up_def secrets_ready_def sample_boot_env_def no_secrets_dir_def DataDir_def EnsureDataDir_def SecretsDir_def
      make_dir_def NewAppLogger_def path_join_def AppDirName_def Let_def)


end
