(* ===== verification/Pipe_Server.thy ===== *)
theory Pipe_Server
  imports Ipc_Session
begin

text \<open>
  \<^verbatim>\<open>internal/ipc/pipeserver.go\<close>: the accept loop of \<^verbatim>\<open>Serve\<close>, the closing of the listener and the
  sessions of all connections, which share one router with the state behind it and one event hub.
  The listener and the connections are the other side of the pipe: what they deliver is arbitrary.
\<close>

section \<open>The code\<close>

text \<open>
  A connection is what its client sends and its session. \<open>sv_result\<close> is what \<^verbatim>\<open>Serve\<close> returned, once it
  has: \<^term>\<open>Some None\<close> is \<^verbatim>\<open>nil\<close>. The fields \<open>ss_hub\<close> and \<open>ss_backend\<close> of the sessions are not used: the
  session works on the shared ones.
\<close>

record 's ServerState =
  sv_listening :: bool
  sv_cancelled :: bool
  sv_result :: "err option option"
  sv_hub :: EventHub
  sv_backend :: 's
  sv_conns :: "(Incoming list \<times> 's SessionState) list"

definition NewServer_state :: "'s \<Rightarrow> 's ServerState" where
  "NewServer_state b = \<lparr>sv_listening = False, sv_cancelled = False, sv_result = None, sv_hub = NewEventHub, sv_backend = b, sv_conns = []\<rparr>"

definition pipe_listen :: "string \<Rightarrow> err option \<Rightarrow> 's ServerState \<Rightarrow> 's ServerState" where
  "pipe_listen pipeName r sv =
     (case r of
        Some e \<Rightarrow> sv\<lparr>sv_result := Some (Some (Wrapped (''listen on named pipe '' @ go_quote pipeName) e))\<rparr>
      | None \<Rightarrow> sv\<lparr>sv_listening := True\<rparr>)"

text \<open>One turn of the accept loop; a failing accept ends it, without an error when the context was cancelled.\<close>

definition accept_one :: "err + Incoming list \<Rightarrow> 's ServerState \<Rightarrow> 's ServerState" where
  "accept_one r sv =
     (case r of
        Inl e \<Rightarrow> sv\<lparr>sv_result := Some (if sv_cancelled sv then None else Some (Wrapped ''accept pipe connection'' e))\<rparr>
      | Inr inbox \<Rightarrow>
          (let s = serve_start inbox (sv_hub sv) (sv_backend sv)
           in sv\<lparr>sv_hub := ss_hub s, sv_conns := sv_conns sv @ [(inbox, s)]\<rparr>))"

definition close_listener :: "'s ServerState \<Rightarrow> 's ServerState" where
  "close_listener sv = sv\<lparr>sv_listening := False\<rparr>"

text \<open>The session of a connection as it sees the shared state, and its work put back.\<close>

definition view :: "'s ServerState \<Rightarrow> 's SessionState \<Rightarrow> 's SessionState" where
  "view sv s = s\<lparr>ss_hub := sv_hub sv, ss_backend := sv_backend sv\<rparr>"

definition put_back :: "nat \<Rightarrow> 's SessionState \<Rightarrow> 's ServerState \<Rightarrow> 's ServerState" where
  "put_back i t sv = sv\<lparr>sv_hub := ss_hub t, sv_backend := ss_backend t, sv_conns := (sv_conns sv)[i := (fst (sv_conns sv ! i), t)]\<rparr>"

definition IsClosed :: "err \<Rightarrow> bool" where
  "IsClosed e = is_err (\<lambda>x. x = EndOfFile) e"

text \<open>The end of \<^verbatim>\<open>handleConn\<close>: whether the end of the session is worth a warning.\<close>

definition warns_of :: "err \<Rightarrow> bool" where
  "warns_of e \<longleftrightarrow> \<not> IsClosed e \<and> \<not> is_err (\<lambda>x. x = Canceled) e"

text \<open>An accept on an open listener may succeed or fail, on a closed one it fails.\<close>

inductive server_step :: "('s, 'p) Conn \<Rightarrow> 's ServerState \<Rightarrow> 's ServerState \<Rightarrow> bool" for c where
  sv_listen: "sv_result sv = None \<Longrightarrow> \<not> sv_listening sv \<Longrightarrow> sv_conns sv = [] \<Longrightarrow> server_step c sv (pipe_listen pipeName r sv)"
| sv_accept: "sv_result sv = None \<Longrightarrow> sv_listening sv \<Longrightarrow> server_step c sv (accept_one (Inr inbox) sv)"
| sv_accept_fails: "sv_result sv = None \<Longrightarrow> server_step c sv (accept_one (Inl e) sv)"
| sv_session: "i < length (sv_conns sv) \<Longrightarrow> own_step c (view sv (snd (sv_conns sv ! i))) t \<Longrightarrow> server_step c sv (put_back i t sv)"
| sv_cancel: "server_step c sv (sv\<lparr>sv_cancelled := True\<rparr>)"
| sv_close: "server_step c sv (close_listener sv)"
| sv_publish: "server_step c sv (sv\<lparr>sv_hub := Publish (NewEvent (cn_marshal c) n p) (sv_hub sv)\<rparr>)"
| sv_elsewhere: "server_step c sv (sv\<lparr>sv_backend := b\<rparr>)"

inductive server_reachable :: "('s, 'p) Conn \<Rightarrow> 's ServerState \<Rightarrow> bool" for c where
  server_init: "server_reachable c (NewServer_state b)"
| server_next: "server_reachable c sv \<Longrightarrow> server_step c sv sv' \<Longrightarrow> server_reachable c sv'"

section \<open>A session among others\<close>

lemma view_simps [simp]:
  "ss_hub (view sv s) = sv_hub sv" "ss_backend (view sv s) = sv_backend sv" "ss_channel (view sv s) = ss_channel s"
  by (simp_all add: view_def)

lemma own_step_channels:
  assumes "own_step c s t"
  shows "ss_channel t = ss_channel s" "hub_next (ss_hub t) = hub_next (ss_hub s)"
    and "ch \<noteq> ss_channel s \<Longrightarrow> hub_subs (ss_hub t) ch = hub_subs (ss_hub s) ch"
    and "ch \<noteq> ss_channel s \<Longrightarrow> hub_left (ss_hub t) ch = hub_left (ss_hub s) ch"
    and "hub_bounded (ss_hub s) \<Longrightarrow> hub_bounded (ss_hub t)"
proof -
  have ret: "ss_channel (serve_return e u) = ss_channel u" "hub_next (ss_hub (serve_return e u)) = hub_next (ss_hub u)"
    "ch \<noteq> ss_channel u \<Longrightarrow> hub_subs (ss_hub (serve_return e u)) ch = hub_subs (ss_hub u) ch"
    "ch \<noteq> ss_channel u \<Longrightarrow> hub_left (ss_hub (serve_return e u)) ch = hub_left (ss_hub u) ch"
    "hub_bounded (ss_hub u) \<Longrightarrow> hub_bounded (ss_hub (serve_return e u))" for e and u :: "'a SessionState"
    using hub_bounded_ops(3) [of "ss_hub u" "ss_channel u"]
    by (simp_all add: serve_return_def) (simp_all add: Unsubscribe_def split: option.split)
  have rcv: "hub_bounded (ss_hub s) \<Longrightarrow> hub_bounded (snd (Receive (ss_channel s) (ss_hub s)))" by (rule receive_bounded)
  note defs = ret serve_read_def serve_dispatch_def serve_write_def serve_check_def push_event_def Receive_def case_prod_unfold
  show "ss_channel t = ss_channel s"
    using assms by (cases rule: own_step.cases) (auto simp: defs split: sum.split option.split list.split prod.split)
  show "hub_next (ss_hub t) = hub_next (ss_hub s)"
    using assms by (cases rule: own_step.cases) (auto simp: defs split: sum.split option.split list.split prod.split)
  show "ch \<noteq> ss_channel s \<Longrightarrow> hub_subs (ss_hub t) ch = hub_subs (ss_hub s) ch"
    using assms by (cases rule: own_step.cases) (auto simp: defs split: sum.split option.split list.split prod.split)
  show "ch \<noteq> ss_channel s \<Longrightarrow> hub_left (ss_hub t) ch = hub_left (ss_hub s) ch"
    using assms by (cases rule: own_step.cases) (auto simp: defs split: sum.split option.split list.split prod.split)
  show "hub_bounded (ss_hub s) \<Longrightarrow> hub_bounded (ss_hub t)"
    using assms rcv
    by (cases rule: own_step.cases) (auto simp: defs split: sum.splits option.splits list.splits prod.splits)
qed

text \<open>
  Every connection is a session, the channels are numbered apart, and no buffer is over-full.
\<close>

definition server_inv :: "('s, 'p) Conn \<Rightarrow> 's ServerState \<Rightarrow> bool" where
  "server_inv c sv \<longleftrightarrow>
     (\<forall>i < length (sv_conns sv). session_reachable c (fst (sv_conns sv ! i)) (view sv (snd (sv_conns sv ! i)))) \<and>
     distinct (map (ss_channel \<circ> snd) (sv_conns sv)) \<and>
     list_all (\<lambda>ch. ch < hub_next (sv_hub sv)) (map (ss_channel \<circ> snd) (sv_conns sv)) \<and>
     hub_bounded (sv_hub sv)"

lemma session_elsewhere:
  assumes "session_reachable c inbox (view sv s)" and "hub_bounded (sv_hub sv')"
    and "hub_subs (sv_hub sv') (ss_channel s) = hub_subs (sv_hub sv) (ss_channel s)"
    and "hub_left (sv_hub sv') (ss_channel s) = hub_left (sv_hub sv) (ss_channel s)"
  shows "session_reachable c inbox (view sv' s)"
proof -
  have "session_reachable c inbox ((view sv s)\<lparr>ss_hub := sv_hub sv'\<rparr>)"
    by (rule session_next [OF assms(1)]) (rule step_others, use assms(2-4) in simp_all)
  then have "session_reachable c inbox ((view sv s)\<lparr>ss_hub := sv_hub sv'\<rparr>\<lparr>ss_backend := sv_backend sv'\<rparr>)"
    by (rule session_next) (rule step_elsewhere)
  then show ?thesis by (simp add: view_def)
qed

lemma inv_own_session:
  assumes inv: "server_inv c sv" and i: "i < length (sv_conns sv)" and own: "own_step c (view sv (snd (sv_conns sv ! i))) t"
  shows "server_inv c (put_back i t sv)"
proof -
  let ?sv = "put_back i t sv" and ?ch = "ss_channel (snd (sv_conns sv ! i))"
  note ch = own_step_channels [OF own, simplified]
  have bounded: "hub_bounded (sv_hub ?sv)" using ch(5) inv by (simp add: put_back_def server_inv_def)
  have "session_reachable c (fst (sv_conns ?sv ! j)) (view ?sv (snd (sv_conns ?sv ! j)))" if j: "j < length (sv_conns ?sv)" for j
  proof (cases "j = i")
    case True
    have "session_reachable c (fst (sv_conns sv ! i)) (view sv (snd (sv_conns sv ! i)))"
      using inv i by (simp add: server_inv_def)
    then have "session_reachable c (fst (sv_conns sv ! i)) t"
      by (rule session_next) (rule step_own, rule own)
    moreover have "view ?sv t = t" by (simp add: view_def put_back_def)
    ultimately show ?thesis using True i by (simp add: put_back_def)
  next
    case False
    have j': "j < length (sv_conns sv)" using j by (simp add: put_back_def)
    then have other: "ss_channel (snd (sv_conns sv ! j)) \<noteq> ?ch"
      using inv i False by (auto simp: server_inv_def distinct_conv_nth)
    have "session_reachable c (fst (sv_conns sv ! j)) (view sv (snd (sv_conns sv ! j)))"
      using inv j' by (simp add: server_inv_def)
    then have "session_reachable c (fst (sv_conns sv ! j)) (view ?sv (snd (sv_conns sv ! j)))"
      by (rule session_elsewhere [OF _ bounded]) (simp_all add: put_back_def ch(3,4) other)
    then show ?thesis using False by (simp add: put_back_def)
  qed
  moreover have "map (ss_channel \<circ> snd) (sv_conns ?sv) = map (ss_channel \<circ> snd) (sv_conns sv)"
    using i ch(1) by (simp add: put_back_def map_update) (metis list_update_id comp_apply length_map nth_map)
  ultimately show ?thesis
    using inv bounded ch(2) by (simp add: server_inv_def put_back_def)
qed

lemma inv_accept:
  assumes inv: "server_inv c sv"
  shows "server_inv c (accept_one (Inr inbox) sv)"
proof -
  let ?s = "serve_start inbox (sv_hub sv) (sv_backend sv)" and ?sv = "accept_one (Inr inbox) sv"
  have sv: "sv_hub ?sv = ss_hub ?s" "sv_conns ?sv = sv_conns sv @ [(inbox, ?s)]" "sv_backend ?sv = sv_backend sv"
    by (simp_all add: accept_one_def Let_def)
  have new: "ss_channel ?s = hub_next (sv_hub sv)" "hub_next (ss_hub ?s) = Suc (hub_next (sv_hub sv))"
    "ch \<noteq> hub_next (sv_hub sv) \<Longrightarrow> hub_subs (ss_hub ?s) ch = hub_subs (sv_hub sv) ch"
    "ch \<noteq> hub_next (sv_hub sv) \<Longrightarrow> hub_left (ss_hub ?s) ch = hub_left (sv_hub sv) ch" for ch
    by (simp_all add: serve_start_def Subscribe_def)
  have bounded: "hub_bounded (sv_hub ?sv)"
    using inv hub_bounded_ops(2) [of "sv_hub sv"] by (simp add: sv server_inv_def serve_start_def Subscribe_def)
  have old: "ss_channel (snd x) < hub_next (sv_hub sv)" if "x \<in> set (sv_conns sv)" for x
    using inv that by (auto simp: server_inv_def list_all_iff)
  have "session_reachable c (fst (sv_conns ?sv ! j)) (view ?sv (snd (sv_conns ?sv ! j)))" if j: "j < length (sv_conns ?sv)" for j
  proof (cases "j < length (sv_conns sv)")
    case True
    have "ss_channel (snd (sv_conns sv ! j)) < hub_next (sv_hub sv)" using old True nth_mem by blast
    moreover have "session_reachable c (fst (sv_conns sv ! j)) (view sv (snd (sv_conns sv ! j)))"
      using inv True by (simp add: server_inv_def)
    ultimately have "session_reachable c (fst (sv_conns sv ! j)) (view ?sv (snd (sv_conns sv ! j)))"
      by (intro session_elsewhere [OF _ bounded]) (simp_all add: sv new(3,4))
    then show ?thesis using True by (simp add: sv nth_append)
  next
    case False
    then have "sv_conns ?sv ! j = (inbox, ?s)" using j by (simp add: sv nth_append)
    moreover have "view ?sv ?s = ?s" by (simp add: view_def sv) (simp add: serve_start_def Subscribe_def)
    moreover have "session_reachable c inbox ?s" using inv by (intro session_init) (simp add: server_inv_def)
    ultimately show ?thesis by simp
  qed
  moreover have "distinct (map (ss_channel \<circ> snd) (sv_conns ?sv))"
    using inv old by (simp add: sv server_inv_def new(1)) (metis (no_types, lifting) imageE comp_apply less_irrefl)
  moreover have "list_all (\<lambda>ch. ch < hub_next (sv_hub ?sv)) (map (ss_channel \<circ> snd) (sv_conns ?sv))"
    using old by (auto simp: sv(1,2) new(1,2) list_all_iff less_Suc_eq)
  ultimately show ?thesis using bounded by (simp add: server_inv_def)
qed

lemma inv_server_publish:
  assumes inv: "server_inv c sv"
  shows "server_inv c (sv\<lparr>sv_hub := Publish (NewEvent (cn_marshal c) n p) (sv_hub sv)\<rparr>)"
proof -
  let ?sv = "sv\<lparr>sv_hub := Publish (NewEvent (cn_marshal c) n p) (sv_hub sv)\<rparr>"
  have "session_reachable c inbox (view ?sv s)" if "session_reachable c inbox (view sv s)" for inbox s
  proof -
    from that have "session_reachable c inbox ((view sv s)\<lparr>ss_hub := Publish (NewEvent (cn_marshal c) n p) (ss_hub (view sv s))\<rparr>)"
      by (rule session_next) (rule step_publish)
    moreover have "(view sv s)\<lparr>ss_hub := Publish (NewEvent (cn_marshal c) n p) (ss_hub (view sv s))\<rparr> = view ?sv s"
      by (cases s) (simp add: view_def)
    ultimately show ?thesis by simp
  qed
  moreover have "hub_next (sv_hub ?sv) = hub_next (sv_hub sv)" by (simp add: Publish_def)
  ultimately show ?thesis using inv hub_bounded_ops(4) by (simp add: server_inv_def)
qed

lemma inv_same_shared:
  assumes "server_inv c sv" "sv_hub sv' = sv_hub sv" "sv_conns sv' = sv_conns sv"
  shows "server_inv c sv'"
  using assms session_elsewhere [of c _ sv _ sv'] by (simp add: server_inv_def)

lemma server_invariant: "server_reachable c sv \<Longrightarrow> server_inv c sv"
proof (induction rule: server_reachable.induct)
  case (server_init b)
  show ?case by (simp add: server_inv_def NewServer_state_def hub_bounded_ops(1))
next
  case (server_next sv sv')
  from server_next(2) show ?case
  proof (cases rule: server_step.cases)
    case (sv_session i t)
    with server_next(3) show ?thesis by (simp add: inv_own_session)
  next
    case (sv_accept inbox)
    with server_next(3) show ?thesis by (simp add: inv_accept)
  next
    case (sv_publish n p)
    with server_next(3) show ?thesis by (simp add: inv_server_publish)
  qed (rule inv_same_shared [OF server_next(3)]; simp add: pipe_listen_def accept_one_def close_listener_def split: option.split)+
qed

text \<open>C11: Connections do not disturb each other. Whatever clients send, however the sessions of all
  connections, the events of the engine, the rest of the service, a cancellation and the closing of
  the listener interleave on the shared state and the shared event hub, every connection is, seen
  alone, in a state that a single session reaches: the responses on its own wire belong, in order and one
  each, to the requests of its own input, and at most the newest one is still open. No two
  connections share an event channel.\<close>

theorem connections_do_not_disturb:
  assumes "server_reachable c sv" and "i < length (sv_conns sv)"
  shows "let inbox = fst (sv_conns sv ! i); s = view sv (snd (sv_conns sv ! i))
    in session_reachable c inbox s \<and>
       (\<exists>answered pending consumed. inbox = consumed @ ss_inbox s \<and> answered @ pending = concat (map (request_in c) consumed) \<and>
          list_all2 (answers c) answered (filter is_response (ss_wire s)) \<and> length pending \<le> 1) \<and>
       distinct (map (ss_channel \<circ> snd) (sv_conns sv))"
proof -
  let ?s = "view sv (snd (sv_conns sv ! i))"
  have inv: "server_inv c sv" by (rule server_invariant [OF assms(1)])
  then have s: "session_reachable c (fst (sv_conns sv ! i)) ?s" using assms(2) by (simp add: server_inv_def)
  obtain consumed answered pending where x: "fst (sv_conns sv ! i) = consumed @ ss_inbox ?s" "ss_requests ?s = concat (map (request_in c) consumed)"
    "ss_requests ?s = answered @ pending" "open_requests c (ss_phase ?s) pending"
    "list_all2 (answers c) answered (filter is_response (ss_wire ?s))"
    by (rule session_invE [OF session_invariant [OF s]])
  from x(4) have "length pending \<le> 1" by (auto simp: open_requests_def split: Phase.splits)
  with x inv s show ?thesis unfolding Let_def server_inv_def by metis
qed

text \<open>Two clients, one of which has sent a request that the other one does not see.\<close>

definition two_clients :: "unit ServerState" where
  "two_clients =
     (let sv = accept_one (Inr []) (accept_one (Inr [Line ''1'']) (pipe_listen ''p'' None (NewServer_state ())))
      in put_back 0 (serve_read echo_conn (view sv (snd (sv_conns sv ! 0)))) sv)"

lemma two_clients_witness:
  "let s = view two_clients (snd (sv_conns two_clients ! 1)) in
    session_reachable echo_conn [] s \<and>
    (\<exists>answered pending consumed. [] = consumed @ ss_inbox s \<and> answered @ pending = concat (map (request_in echo_conn) consumed) \<and>
       list_all2 (answers echo_conn) answered (filter is_response (ss_wire s)) \<and> length pending \<le> 1) \<and>
    distinct (map (ss_channel \<circ> snd) (sv_conns two_clients))"
proof -
  let ?s0 = "NewServer_state ()"
  let ?s1 = "pipe_listen ''p'' None ?s0"
  let ?s2 = "accept_one (Inr [Line ''1'']) ?s1"
  let ?s3 = "accept_one (Inr []) ?s2"
  note defs = NewServer_state_def pipe_listen_def accept_one_def Let_def serve_start_def Subscribe_def view_def
  have "server_reachable echo_conn ?s1"
    by (rule server_next [OF server_init]) (rule sv_listen, simp_all add: defs)
  then have "server_reachable echo_conn ?s2"
    by (rule server_next) (rule sv_accept, simp_all add: defs)
  then have "server_reachable echo_conn ?s3"
    by (rule server_next) (rule sv_accept, simp_all add: defs)
  then have "server_reachable echo_conn two_clients"
    unfolding two_clients_def Let_def by (rule server_next) (rule sv_session, simp add: defs, rule own_read, simp add: defs)
  moreover have "length (sv_conns two_clients) = 2" "fst (sv_conns two_clients ! 1) = []"
    by (simp_all add: two_clients_def put_back_def defs)
  ultimately show ?thesis using connections_do_not_disturb [of echo_conn two_clients 1] by simp
qed

section \<open>The end of the server\<close>

lemma result_nil_after_cancel:
  "server_reachable c sv \<Longrightarrow> sv_result sv = Some None \<Longrightarrow> sv_cancelled sv"
proof (induction rule: server_reachable.induct)
  case (server_next sv sv')
  from server_next(2) show ?case
    using server_next(3,4)
    by (cases rule: server_step.cases)
      (auto simp: pipe_listen_def accept_one_def close_listener_def put_back_def Let_def split: option.splits if_splits)
qed (simp add: NewServer_state_def)

text \<open>
  The shutdown closes the listener before it cancels the context: an accept that fails in between makes
  \<^verbatim>\<open>Serve\<close> return an error although nothing went wrong.
\<close>

lemma close_before_cancel_is_reported:
  assumes "\<not> sv_cancelled sv" "sv_result sv = None"
  shows "server_step c (close_listener sv) (accept_one (Inl e) (close_listener sv))"
    and "sv_result (accept_one (Inl e) (close_listener sv)) = Some (Some (Wrapped ''accept pipe connection'' e))"
proof -
  show "server_step c (close_listener sv) (accept_one (Inl e) (close_listener sv))"
    by (rule sv_accept_fails) (simp add: close_listener_def assms(2))
  show "sv_result (accept_one (Inl e) (close_listener sv)) = Some (Some (Wrapped ''accept pipe connection'' e))"
    using assms(1) by (simp add: close_listener_def accept_one_def)
qed

lemma closed_connections_are_quiet: "\<not> warns_of (Wrapped ''read line'' EndOfFile)" "\<not> warns_of Canceled" "warns_of DeadlineExceeded"
  by (simp_all add: warns_of_def IsClosed_def)

end
