(* ===== verification/Event_Hub.thy ===== *)
theory Event_Hub
  imports Ipc_Router "HOL-Library.Sublist"
begin

text \<open>
  What a subscriber of \<^verbatim>\<open>internal/ipc/eventhub.go\<close> can rely on. A locale states the laws of the hub as
  one channel sees them; the hub of the code is its interpretation.
\<close>

section \<open>The contract of a channel\<close>

locale event_channels =
  fixes pub :: "'e \<Rightarrow> 'h \<Rightarrow> 'h"
    and sub :: "'h \<Rightarrow> nat \<times> 'h"
    and unsub :: "nat \<Rightarrow> 'h \<Rightarrow> 'h"
    and recv :: "nat \<Rightarrow> 'h \<Rightarrow> 'e option \<times> 'h"
    and held :: "'h \<Rightarrow> nat \<Rightarrow> 'e list option"
    and rest :: "'h \<Rightarrow> nat \<Rightarrow> 'e list"
    and made :: "'h \<Rightarrow> nat"
    and room :: nat
  assumes pub_held: "held (pub e h) ch = map_option (\<lambda>b. if length b < room then b @ [e] else b) (held h ch)"
    and pub_rest: "rest (pub e h) = rest h"
    and pub_made: "made (pub e h) = made h"
    and sub_fresh: "fst (sub h) = made h"
    and sub_held: "held (snd (sub h)) ch = (if ch = made h then Some [] else held h ch)"
    and sub_rest: "rest (snd (sub h)) ch = (if ch = made h then [] else rest h ch)"
    and sub_made: "made (snd (sub h)) = Suc (made h)"
    and unsub_held: "held (unsub c h) ch = (if ch = c then None else held h ch)"
    and unsub_rest: "rest (unsub c h) ch = (if ch = c then case_option (rest h c) (\<lambda>b. b) (held h c) else rest h ch)"
    and unsub_made: "made (unsub c h) = made h"
    and recv_result: "fst (recv c h) = (case case_option (rest h c) (\<lambda>b. b) (held h c) of e # es \<Rightarrow> Some e | [] \<Rightarrow> None)"
    and recv_held: "held (snd (recv c h)) ch = (if ch = c then map_option tl (held h ch) else held h ch)"
    and recv_rest: "rest (snd (recv c h)) ch = (if ch = c \<and> held h c = None then tl (rest h ch) else rest h ch)"
    and recv_made: "made (snd (recv c h)) = made h"
begin

text \<open>The events that wait in a channel; those of a closed channel can still be received.\<close>

abbreviation waits :: "'h \<Rightarrow> nat \<Rightarrow> 'e list" where
  "waits h ch \<equiv> case_option (rest h ch) (\<lambda>b. b) (held h ch)"

lemma pub_waits: "subseq (waits (pub e h) ch) (waits h ch @ [e])"
  by (auto simp: pub_held pub_rest prefix_imp_subseq split: option.split)

lemma sub_waits: "ch < made h \<Longrightarrow> waits (snd (sub h)) ch = waits h ch"
  by (simp add: sub_held sub_rest split: option.split)

lemma unsub_waits: "waits (unsub c h) ch = waits h ch"
  by (simp add: unsub_held unsub_rest split: option.split)

lemma recv_takes:
  "waits h ch = case_option [] (\<lambda>e. [e]) (fst (recv ch h)) @ waits (snd (recv ch h)) ch"
  by (simp add: recv_result recv_held recv_rest split: option.split list.split)

lemma recv_other: "c \<noteq> ch \<Longrightarrow> waits (snd (recv c h)) ch = waits h ch"
  by (simp add: recv_held recv_rest split: option.split)

lemma sub_keeps: "ch < made h \<Longrightarrow> held (snd (sub h)) ch = held h ch"
  by (simp add: sub_held)

lemma pub_fits: "held h ch = Some b \<Longrightarrow> length b < room \<Longrightarrow> held (pub e h) ch = Some (b @ [e])"
  by (simp add: pub_held)

lemma recv_open: "held h ch = Some b \<Longrightarrow> held (snd (recv c h)) ch = Some (if ch = c then tl b else b)"
  by (auto simp: recv_held)

end

interpretation hub: event_channels Publish Subscribe Unsubscribe Receive hub_subs hub_left hub_next eventBufferSize
  by unfold_locales
    (auto simp: Publish_def Subscribe_def Unsubscribe_def Receive_def offer_def [abs_def] split: option.split list.split)

section \<open>A subscriber among others\<close>

datatype HubOp = OpPublish Envelope | OpSubscribe | OpUnsubscribe nat | OpReceive nat

text \<open>What the channel \<open>ch\<close> delivers while the operations are done, and the hub after them.\<close>

fun hub_run :: "nat \<Rightarrow> HubOp list \<Rightarrow> EventHub \<Rightarrow> Envelope list \<times> EventHub" where
  "hub_run ch [] h = ([], h)"
| "hub_run ch (OpPublish e # ops) h = hub_run ch ops (Publish e h)"
| "hub_run ch (OpSubscribe # ops) h = hub_run ch ops (snd (Subscribe h))"
| "hub_run ch (OpUnsubscribe c # ops) h = hub_run ch ops (Unsubscribe c h)"
| "hub_run ch (OpReceive c # ops) h =
     (case hub_run ch ops (snd (Receive c h)) of
        (got, h') \<Rightarrow> ((if c = ch then case_option [] (\<lambda>e. [e]) (fst (Receive c h)) else []) @ got, h'))"

definition published :: "HubOp list \<Rightarrow> Envelope list" where
  "published ops = concat (map (\<lambda>x. case x of OpPublish e \<Rightarrow> [e] | _ \<Rightarrow> []) ops)"

lemma published_simps [simp]:
  "published [] = []" "published (OpPublish e # ops) = e # published ops" "published (OpSubscribe # ops) = published ops"
  "published (OpUnsubscribe c # ops) = published ops" "published (OpReceive c # ops) = published ops"
  by (simp_all add: published_def)

lemma run_in_order:
  "ch < hub_next h \<Longrightarrow> hub_run ch ops h = (got, h') \<Longrightarrow>
   subseq got (case_option (hub_left h ch) (\<lambda>b. b) (hub_subs h ch) @ published ops)"
proof (induction ch ops h arbitrary: got h' rule: hub_run.induct)
  case (2 ch e ops h)
  let ?w = "\<lambda>h. case_option (hub_left h ch) (\<lambda>b. b) (hub_subs h ch)"
  from 2 have "subseq got (?w (Publish e h) @ published ops)" by (simp add: hub.pub_made)
  moreover have "subseq (?w (Publish e h) @ published ops) ((?w h @ [e]) @ published ops)"
    by (rule list_emb_append_mono [OF hub.pub_waits]) simp
  ultimately have "subseq got ((?w h @ [e]) @ published ops)" by (rule subseq_order.order_trans)
  then show ?case by simp
next
  case (3 ch ops h)
  then show ?case by (simp only: hub_run.simps published_simps hub.sub_made hub.sub_waits less_SucI)
next
  case (4 ch c ops h)
  then show ?case by (simp only: hub_run.simps published_simps hub.unsub_made hub.unsub_waits)
next
  case (5 ch c ops h)
  let ?w = "\<lambda>h. case_option (hub_left h ch) (\<lambda>b. b) (hub_subs h ch)"
  obtain g h'' where g: "hub_run ch ops (snd (Receive c h)) = (g, h'')" by fastforce
  with 5 have ih: "subseq g (?w (snd (Receive c h)) @ published ops)" by (simp add: hub.recv_made)
  show ?case
  proof (cases "c = ch")
    case True
    with 5(3) g have "got = case_option [] (\<lambda>e. [e]) (fst (Receive ch h)) @ g" by simp
    moreover have "subseq (case_option [] (\<lambda>e. [e]) (fst (Receive ch h)) @ g)
        (case_option [] (\<lambda>e. [e]) (fst (Receive ch h)) @ ?w (snd (Receive ch h)) @ published ops)"
      by (rule list_emb_append_mono [OF subseq_order.order_refl ih [unfolded True]])
    ultimately show ?thesis using hub.recv_takes [of h ch] by simp
  next
    case False
    with 5(3) g have got: "got = g" by simp
    show ?thesis unfolding got published_simps by (rule ih [unfolded hub.recv_other [OF False]])
  qed
qed simp

lemma run_loses_nothing:
  "ch < hub_next h \<Longrightarrow> hub_subs h ch = Some b \<Longrightarrow> length b + length (published ops) \<le> eventBufferSize \<Longrightarrow> OpUnsubscribe ch \<notin> set ops \<Longrightarrow>
   hub_run ch ops h = (got, h') \<Longrightarrow> \<exists>b'. hub_subs h' ch = Some b' \<and> got @ b' = b @ published ops"
proof (induction ch ops h arbitrary: got h' b rule: hub_run.induct)
  case (2 ch e ops h)
  have "hub_subs (Publish e h) ch = Some (b @ [e])" using 2(3,4) by (intro hub.pub_fits) simp_all
  then have "\<exists>b'. hub_subs h' ch = Some b' \<and> got @ b' = (b @ [e]) @ published ops"
    by (intro 2(1)) (use 2(2-6) in \<open>auto simp: hub.pub_made\<close>)
  then show ?case by simp
next
  case (3 ch ops h)
  then show ?case by (simp add: hub.sub_made hub.sub_keeps)
next
  case (4 ch c ops h)
  then show ?case by (simp add: hub.unsub_made hub.unsub_held)
next
  case (5 ch c ops h)
  obtain g h'' where g: "hub_run ch ops (snd (Receive c h)) = (g, h'')" by fastforce
  have "\<exists>b'. hub_subs h'' ch = Some b' \<and> g @ b' = (if ch = c then tl b else b) @ published ops"
    by (rule 5(1)) (use 5(2-5) g hub.recv_open [OF 5(3), of c] in \<open>auto simp: hub.recv_made\<close>)
  with 5(3,6) g show ?case by (cases b) (auto simp: hub.recv_result)
qed simp

text \<open>C32: A subscriber sees the events in the order in which they were published. Whatever the other
  subscribers do, whether the subscriber itself has been closed and is drained, and however
  publishing and receiving interleave, what a new subscriber receives is a subsequence of what is published after it subscribed: nothing twice, nothing out of order and
  nothing from before. While no more than 64 events are published, nothing is lost either: what was
  received and what still waits are together exactly what was published.\<close>

theorem subscriber_sees_in_order:
  assumes "Subscribe h = (ch, h0)" and "hub_run ch ops h0 = (got, h')"
  shows "subseq got (published ops) \<and>
    (length (published ops) \<le> 64 \<and> OpUnsubscribe ch \<notin> set ops \<longrightarrow>
       (\<exists>waiting. hub_subs h' ch = Some waiting \<and> got @ waiting = published ops))"
proof -
  have ch: "ch = hub_next h" "hub_next h0 = Suc (hub_next h)" "hub_subs h0 ch = Some []"
    using hub.sub_fresh [of h] hub.sub_made [of h] hub.sub_held [of h ch] assms(1) by simp_all
  then show ?thesis
    using run_in_order [OF _ assms(2)] run_loses_nothing [OF _ ch(3) _ _ assms(2)] by (simp add: eventBufferSize_def)
qed

lemma subscriber_witness:
  "fst (hub_run 0 [OpPublish (NewEvent (\<lambda>_. []) ''a'' ()), OpSubscribe, OpReceive 1, OpReceive 0] (snd (Subscribe NewEventHub))) =
     [NewEvent (\<lambda>_. []) ''a'' ()]"
proof -
  let ?ops = "[OpPublish (NewEvent (\<lambda>_. []) ''a'' ()), OpSubscribe, OpReceive 1, OpReceive 0]"
  have sub: "Subscribe NewEventHub = (0, snd (Subscribe NewEventHub))" by (simp add: Subscribe_def NewEventHub_def)
  obtain got h' where run: "hub_run 0 ?ops (snd (Subscribe NewEventHub)) = (got, h')" by fastforce
  then have "hub_subs h' 0 = Some []"
    by (auto simp: Subscribe_def NewEventHub_def Publish_def Receive_def offer_def eventBufferSize_def split: if_splits)
  with subscriber_sees_in_order [OF sub run] run show ?thesis by simp
qed

end
