(* ===== verification/Notify_Session.thy ===== *)
theory Notify_Session
  imports Notify Prelude
begin

text \<open>
  The delivery of a notification: \<^verbatim>\<open>internal/notify/session.go\<close> and \<^verbatim>\<open>Notify\<close> in \<^verbatim>\<open>toast.go\<close>. The
  command line is built as the code builds it and read as Windows documents it for
  \<^verbatim>\<open>CommandLineToArgvW\<close>; the Windows calls are parameters that may fail, and the handles they give
  are tracked.
\<close>

section \<open>The command line\<close>

abbreviation dquote :: char where "dquote \<equiv> CHR 0x22"
abbreviation bslash :: char where "bslash \<equiv> CHR 0x5C"

definition is_blank :: "char \<Rightarrow> bool" where
  "is_blank c \<longleftrightarrow> c = CHR '' '' \<or> c = CHR 0x09"

text \<open>The loop of \<^verbatim>\<open>syscall.EscapeArg\<close> with its count of backslashes: the text, and the count at the end.\<close>

fun escape_loop :: "nat \<Rightarrow> string \<Rightarrow> string \<times> nat" where
  "escape_loop n [] = ([], n)"
| "escape_loop n (c # s) =
     (if c = bslash then (case escape_loop (Suc n) s of (t, k) \<Rightarrow> (c # t, k))
      else if c = dquote then (case escape_loop 0 s of (t, k) \<Rightarrow> (replicate n bslash @ [bslash, c] @ t, k))
      else (case escape_loop 0 s of (t, k) \<Rightarrow> (c # t, k)))"

definition EscapeArg :: "string \<Rightarrow> string" where
  "EscapeArg s =
     (let needsBackslash = (dquote \<in> set s \<or> bslash \<in> set s);
          hasSpace = list_ex is_blank s
      in if s = [] then [dquote, dquote]
         else if \<not> needsBackslash \<and> \<not> hasSpace then s
         else if \<not> needsBackslash then [dquote] @ s @ [dquote]
         else (case escape_loop 0 s of
                 (t, k) \<Rightarrow> if hasSpace then [dquote] @ t @ replicate k bslash @ [dquote] else t))"

definition buildCommandLine :: "string \<Rightarrow> string list \<Rightarrow> err + string" where
  "buildCommandLine exe args =
     (let line = EscapeArg exe @ concat (map (\<lambda>a. CHR '' '' # EscapeArg a) args)
      in if line = [] then Inl (ErrorText ''empty command line'') else Inr line)"

section \<open>How Windows reads a command line\<close>

text \<open>
  One argument: \<open>q\<close> says that it stands in quotation marks, \<open>n\<close> counts the backslashes just before.
  Before a quotation mark, two backslashes are one and an odd one makes the mark literal;
  everywhere else a backslash is itself. A blank outside quotation marks ends the argument.
\<close>

fun arg_rest :: "bool \<Rightarrow> nat \<Rightarrow> string \<Rightarrow> string \<times> string" where
  "arg_rest q n [] = (replicate n bslash, [])"
| "arg_rest q n (c # s) =
     (if c = bslash then arg_rest q (Suc n) s
      else if c = dquote then
        (if odd n then (case arg_rest q 0 s of (a, r) \<Rightarrow> (replicate (n div 2) bslash @ [dquote] @ a, r))
         else if q \<and> take 1 s = [dquote] then (case arg_rest q 0 (tl s) of (a, r) \<Rightarrow> (replicate (n div 2) bslash @ [dquote] @ a, r))
         else (case arg_rest (\<not> q) 0 s of (a, r) \<Rightarrow> (replicate (n div 2) bslash @ a, r)))
      else if is_blank c \<and> \<not> q then (replicate n bslash, s)
      else (case arg_rest q 0 s of (a, r) \<Rightarrow> (replicate n bslash @ [c] @ a, r)))"

lemma arg_rest_shorter: "length (snd (arg_rest q n s)) \<le> length s"
proof (induction q n s rule: arg_rest.induct)
  case (2 q n c s)
  show ?case
    using 2 by (cases "c = bslash"; cases "c = dquote"; cases "odd n") (simp_all add: case_prod_unfold, (force intro: le_SucI)+)
qed simp

function argv_tail :: "string \<Rightarrow> string list" where
  "argv_tail [] = []"
| "argv_tail (c # s) =
     (if is_blank c then argv_tail s
      else (case arg_rest False 0 (c # s) of (a, r) \<Rightarrow> a # argv_tail r))"
  by pat_completeness auto

lemma arg_rest_progress: "\<not> is_blank c \<Longrightarrow> length (snd (arg_rest False 0 (c # s))) < Suc (length s)"
  by (cases "c = bslash"; cases "c = dquote") (simp_all add: case_prod_unfold less_Suc_eq_le arg_rest_shorter)

termination argv_tail
  by (relation "measure length") (simp_all del: arg_rest.simps, metis arg_rest_progress snd_conv)

text \<open>The name of the program has no escapes: up to its closing quotation mark, or to a blank.\<close>

definition command_argv :: "string \<Rightarrow> string list" where
  "command_argv line =
     (case line of
        [] \<Rightarrow> []
      | c # s \<Rightarrow>
          if c = dquote then takeWhile (\<lambda>x. x \<noteq> dquote) s # argv_tail (drop 1 (dropWhile (\<lambda>x. x \<noteq> dquote) s))
          else takeWhile (\<lambda>x. \<not> is_blank x) line # argv_tail (dropWhile (\<lambda>x. \<not> is_blank x) line))"

section \<open>The arguments arrive\<close>

lemma arg_rest_backslashes: "arg_rest q m (replicate n bslash @ z) = arg_rest q (n + m) z"
  by (induction n arbitrary: m) (simp_all add: replicate_app_Cons_same)

lemma blank_no_quote [simp]: "\<not> is_blank dquote" "\<not> is_blank bslash" "is_blank (CHR '' '')"
  by (simp_all add: is_blank_def)

text \<open>Reading what the loop wrote gives the text back, up to the backslashes that are still counted.\<close>

lemma escape_loop_read:
  assumes "escape_loop n s = (t, k)" and "q \<or> \<not> list_ex is_blank s"
  obtains u where "replicate n bslash @ s = u @ replicate k bslash"
    and "\<And>z. arg_rest q n (t @ z) = (case arg_rest q k z of (a, r) \<Rightarrow> (u @ a, r))"
proof -
  have "\<exists>u. replicate n bslash @ s = u @ replicate k bslash \<and>
      (\<forall>z. arg_rest q n (t @ z) = (case arg_rest q k z of (a, r) \<Rightarrow> (u @ a, r)))"
    using assms
  proof (induction n s arbitrary: t k rule: escape_loop.induct)
    case (1 n)
    then show ?case by (intro exI [of _ "[]"]) simp
  next
    case (2 n c s)
    consider (bs) "c = bslash" | (quote) "c = dquote" | (other) "c \<noteq> bslash" "c \<noteq> dquote" by blast
    then show ?case
    proof cases
      case bs
      obtain t' where t: "escape_loop (Suc n) s = (t', k)" "t = c # t'"
        using 2(4) bs by (auto split: prod.splits)
      from 2(1) [OF bs t(1)] 2(5) obtain u where u: "replicate (Suc n) bslash @ s = u @ replicate k bslash"
        "\<And>z. arg_rest q (Suc n) (t' @ z) = (case arg_rest q k z of (a, r) \<Rightarrow> (u @ a, r))" by auto
      have "replicate n bslash @ c # s = u @ replicate k bslash"
        using u(1) bs by (simp add: replicate_app_Cons_same)
      with u(2) t(2) bs show ?thesis by (intro exI [of _ u]) simp
    next
      case quote
      obtain t' where t: "escape_loop 0 s = (t', k)" "t = replicate n bslash @ [bslash, dquote] @ t'"
        using 2(4) quote by (auto split: prod.splits)
      from 2(2) [OF _ quote t(1)] 2(5) quote obtain u where u: "s = u @ replicate k bslash"
        "\<And>z. arg_rest q 0 (t' @ z) = (case arg_rest q k z of (a, r) \<Rightarrow> (u @ a, r))" by auto
      have "arg_rest q n (t @ z) = (case arg_rest q k z of (a, r) \<Rightarrow> ((replicate n bslash @ dquote # u) @ a, r))" for z
        by (simp add: t(2) arg_rest_backslashes u(2) case_prod_unfold)
      then show ?thesis using u(1) quote by (intro exI [of _ "replicate n bslash @ dquote # u"]) simp
    next
      case other
      obtain t' where t: "escape_loop 0 s = (t', k)" "t = c # t'"
        using 2(4) other by (auto split: prod.splits)
      from 2(3) [OF other t(1)] 2(5) obtain u where u: "s = u @ replicate k bslash"
        "\<And>z. arg_rest q 0 (t' @ z) = (case arg_rest q k z of (a, r) \<Rightarrow> (u @ a, r))" by auto
      have "q \<or> \<not> is_blank c" using 2(5) by auto
      then have "arg_rest q n (t @ z) = (case arg_rest q k z of (a, r) \<Rightarrow> ((replicate n bslash @ c # u) @ a, r))" for z
        using other by (auto simp: t(2) u(2) case_prod_unfold)
      then show ?thesis using u(1) by (intro exI [of _ "replicate n bslash @ c # u"]) simp
    qed
  qed
  then show ?thesis using that by blast
qed

lemma escape_loop_plain: "dquote \<notin> set s \<Longrightarrow> bslash \<notin> set s \<Longrightarrow> escape_loop 0 s = (s, 0)"
  by (induction s) auto

text \<open>All four cases of \<^verbatim>\<open>EscapeArg\<close> for a text that is not empty.\<close>

lemma EscapeArg_loop:
  "s \<noteq> [] \<Longrightarrow> EscapeArg s =
     (case escape_loop 0 s of (t, k) \<Rightarrow> if list_ex is_blank s then [dquote] @ t @ replicate k bslash @ [dquote] else t)"
  using escape_loop_plain [of s] by (auto simp: EscapeArg_def Let_def)

definition ends_argument :: "string \<Rightarrow> bool" where
  "ends_argument z \<longleftrightarrow> z = [] \<or> is_blank (hd z)"

lemma arg_rest_end: "ends_argument z \<Longrightarrow> arg_rest False n z = (replicate n bslash, tl z)"
  by (cases z) (auto simp: ends_argument_def)

lemma escaped_argument:
  assumes "ends_argument z"
  shows "arg_rest False 0 (EscapeArg s @ z) = (s, tl z)"
proof (cases "s = []")
  case True
  have "take 1 z \<noteq> [dquote]" using assms by (cases z) (auto simp: ends_argument_def)
  with True show ?thesis using arg_rest_end [OF assms] by (simp add: EscapeArg_def)
next
  case False
  obtain t k where t: "escape_loop 0 s = (t, k)" by fastforce
  show ?thesis
  proof (cases "list_ex is_blank s")
    case True
    obtain u where u: "s = u @ replicate k bslash" "\<And>z. arg_rest True 0 (t @ z) = (case arg_rest True k z of (a, r) \<Rightarrow> (u @ a, r))"
      using escape_loop_read [OF t, of True] by auto
    have "take 1 z \<noteq> [dquote]" using assms by (cases z) (auto simp: ends_argument_def)
    then have "arg_rest True k (replicate k bslash @ dquote # z) = (replicate k bslash, tl z)"
      by (simp add: arg_rest_backslashes arg_rest_end [OF assms] flip: mult_2)
    then have body: "arg_rest True 0 (t @ replicate k bslash @ dquote # z) = (s, tl z)"
      using u by simp
    with body False True t show ?thesis by (simp add: EscapeArg_loop)
  next
    case False
    obtain u where u: "s = u @ replicate k bslash" "\<And>z. arg_rest False 0 (t @ z) = (case arg_rest False k z of (a, r) \<Rightarrow> (u @ a, r))"
      using escape_loop_read [OF t, of False] False by auto
    with \<open>s \<noteq> []\<close> False t show ?thesis by (simp add: EscapeArg_loop arg_rest_end [OF assms])
  qed
qed

lemma escape_loop_nonempty: "escape_loop n s = (t, k) \<Longrightarrow> s \<noteq> [] \<Longrightarrow> \<not> list_ex is_blank s \<Longrightarrow> t \<noteq> [] \<and> \<not> is_blank (hd t)"
  by (cases s; cases n) (auto split: prod.splits if_splits)

lemma EscapeArg_start: "EscapeArg s \<noteq> [] \<and> \<not> is_blank (hd (EscapeArg s))"
proof (cases "s = []")
  case False
  obtain t k where t: "escape_loop 0 s = (t, k)" by fastforce
  with False show ?thesis using escape_loop_nonempty [OF t] by (auto simp: EscapeArg_loop)
qed (simp add: EscapeArg_def)

lemma argv_tail_arguments: "argv_tail (concat (map (\<lambda>a. CHR '' '' # EscapeArg a) args)) = args"
proof (induction args)
  case (Cons a args)
  let ?z = "concat (map (\<lambda>a. CHR '' '' # EscapeArg a) args)"
  have z: "ends_argument ?z" by (cases args) (simp_all add: ends_argument_def)
  obtain c s where cs: "EscapeArg a = c # s" "\<not> is_blank c"
    using EscapeArg_start [of a] by (cases "EscapeArg a") auto
  have "arg_rest False 0 ((c # s) @ ?z) = (a, tl ?z)" using escaped_argument [OF z, of a] cs by simp
  moreover have "argv_tail (tl ?z) = argv_tail ?z" using z by (cases ?z) (auto simp: ends_argument_def)
  ultimately have "argv_tail ((c # s) @ ?z) = a # args" using cs(2) Cons.IH
    by (simp del: arg_rest.simps)
  then show ?case by (simp add: cs(1))
qed simp

text \<open>The name of the program is read without escapes, so it must not need any.\<close>

definition plain_program :: "string \<Rightarrow> bool" where
  "plain_program exe \<longleftrightarrow> exe \<noteq> [] \<and> dquote \<notin> set exe \<and> bslash \<notin> set exe"

lemma takeWhile_until: "x \<notin> set xs \<Longrightarrow> takeWhile (\<lambda>y. y \<noteq> x) (xs @ x # ys) = xs" "x \<notin> set xs \<Longrightarrow> dropWhile (\<lambda>y. y \<noteq> x) (xs @ x # ys) = x # ys"
  by (induction xs) auto

lemma command_line_read:
  assumes "plain_program exe" and "buildCommandLine exe args = Inr line"
  shows "command_argv line = exe # args"
proof -
  let ?z = "concat (map (\<lambda>a. CHR '' '' # EscapeArg a) args)"
  have line: "line = EscapeArg exe @ ?z"
    using assms(2) by (simp add: buildCommandLine_def Let_def split: if_splits)
  have z: "ends_argument ?z" by (cases args) (simp_all add: ends_argument_def)
  have exe: "exe \<noteq> []" "dquote \<notin> set exe" "bslash \<notin> set exe" using assms(1) by (simp_all add: plain_program_def)
  show ?thesis
  proof (cases "list_ex is_blank exe")
    case True
    then have "line = dquote # exe @ dquote # ?z" using exe by (simp add: line EscapeArg_def Let_def)
    then show ?thesis using exe(2) by (simp add: command_argv_def takeWhile_until argv_tail_arguments)
  next
    case False
    obtain c e where ce: "exe = c # e" using exe(1) by (cases exe) auto
    have no_blank: "\<forall>x \<in> set exe. \<not> is_blank x" using False by (simp add: list_ex_iff)
    have l: "line = exe @ ?z" using exe False by (simp add: line EscapeArg_def Let_def)
    have "takeWhile (\<lambda>x. \<not> is_blank x) ?z = [] \<and> dropWhile (\<lambda>x. \<not> is_blank x) ?z = ?z"
      using z by (cases ?z) (auto simp: ends_argument_def)
    then have "takeWhile (\<lambda>x. \<not> is_blank x) line = exe" "dropWhile (\<lambda>x. \<not> is_blank x) line = ?z"
      using no_blank by (simp_all add: l takeWhile_append2 dropWhile_append2)
    moreover have "c \<noteq> dquote" using exe(2) ce by auto
    ultimately show ?thesis by (simp add: command_argv_def argv_tail_arguments l ce)
  qed
qed

section \<open>Bytes and runes\<close>

text \<open>
  How many bytes follow the first byte of an encoded rune, and the range of the first of them (the
  table of \<^verbatim>\<open>unicode/utf8\<close>; the conversion for Windows also keeps the encoding of a surrogate).
\<close>

definition byte_at :: "char \<Rightarrow> nat" where "byte_at c = of_char c"

definition is_ascii :: "char \<Rightarrow> bool" where "is_ascii c \<longleftrightarrow> byte_at c < 0x80"

definition rune_shape :: "nat \<Rightarrow> (nat \<times> nat \<times> nat) option" where
  "rune_shape b =
     (if b < 0x80 then Some (0, 0, 0)
      else if 0xC2 \<le> b \<and> b \<le> 0xDF then Some (1, 0x80, 0xBF)
      else if b = 0xE0 then Some (2, 0xA0, 0xBF)
      else if 0xE1 \<le> b \<and> b \<le> 0xEF then Some (2, 0x80, 0xBF)
      else if b = 0xF0 then Some (3, 0x90, 0xBF)
      else if 0xF1 \<le> b \<and> b \<le> 0xF3 then Some (3, 0x80, 0xBF)
      else if b = 0xF4 then Some (3, 0x80, 0x8F)
      else None)"

fun continues :: "nat \<Rightarrow> nat \<Rightarrow> nat \<Rightarrow> string \<Rightarrow> bool" where
  "continues 0 lo hi s = True"
| "continues (Suc k) lo hi [] = False"
| "continues (Suc k) lo hi (c # s) = (lo \<le> byte_at c \<and> byte_at c \<le> hi \<and> continues k 0x80 0xBF s)"

text \<open>The number of bytes after \<open>c\<close> that belong to its rune, if it begins one.\<close>

definition rune_tail :: "char \<Rightarrow> string \<Rightarrow> nat option" where
  "rune_tail c s =
     (case rune_shape (byte_at c) of
        None \<Rightarrow> None
      | Some (k, lo, hi) \<Rightarrow> if continues k lo hi s then Some k else None)"

definition replacement_rune :: string where
  "replacement_rune = [CHR 0xEF, CHR 0xBF, CHR 0xBD]"

text \<open>The loop over the runes of a text, which reads a byte that begins none as U+FFFD.\<close>

function utf8_replaced :: "string \<Rightarrow> string" where
  "utf8_replaced [] = []"
| "utf8_replaced (c # s) =
     (case rune_tail c s of
        None \<Rightarrow> replacement_rune @ utf8_replaced s
      | Some k \<Rightarrow> c # take k s @ utf8_replaced (drop k s))"
  by pat_completeness auto
termination by (relation "measure length") (auto simp: less_Suc_eq_le)

declare utf8_replaced.simps(2) [simp del]

lemma rune_shape_low: "rune_shape b = Some (k, lo, hi) \<Longrightarrow> k = 0 \<or> 0x80 \<le> lo"
  by (auto simp: rune_shape_def split: if_splits)

lemma continues_until: "is_ascii a \<Longrightarrow> k = 0 \<or> 0x80 \<le> lo \<Longrightarrow> continues k lo hi (s @ a # y) = continues k lo hi s"
  by (induction k lo hi s rule: continues.induct) (auto simp: is_ascii_def)

lemma continues_tail: "continues k lo hi s \<Longrightarrow> k = 0 \<or> 0x80 \<le> lo \<Longrightarrow> k \<le> length s \<and> (\<forall>c \<in> set (take k s). \<not> is_ascii c)"
  by (induction k lo hi s rule: continues.induct) (auto simp: is_ascii_def)

lemma rune_tail_until: "is_ascii a \<Longrightarrow> rune_tail c (s @ a # y) = rune_tail c s"
  by (auto simp: rune_tail_def continues_until dest!: rune_shape_low split: option.split)

lemma rune_tail_some:
  assumes "rune_tail c s = Some k"
  shows "k \<le> length s \<and> (\<forall>c \<in> set (take k s). \<not> is_ascii c)"
proof -
  from assms obtain lo hi where shape: "rune_shape (byte_at c) = Some (k, lo, hi)" "continues k lo hi s"
    by (auto simp: rune_tail_def split: option.splits if_splits prod.splits)
  show ?thesis by (rule continues_tail [OF shape(2) rune_shape_low [OF shape(1)]])
qed

lemma rune_tail_ascii: "is_ascii c \<Longrightarrow> rune_tail c s = Some 0"
  by (simp add: rune_tail_def rune_shape_def is_ascii_def)

lemma replaced_Cons_ascii [simp]: "is_ascii c \<Longrightarrow> utf8_replaced (c # s) = c # utf8_replaced s"
  by (simp add: utf8_replaced.simps(2) rune_tail_ascii)

lemma replaced_until: "is_ascii a \<Longrightarrow> utf8_replaced (x @ a # y) = utf8_replaced x @ a # utf8_replaced y"
proof (induction x rule: utf8_replaced.induct)
  case 1
  then show ?case by simp
next
  case (2 c s)
  show ?case
  proof (cases "rune_tail c s")
    case None
    with 2 show ?thesis by (simp add: utf8_replaced.simps(2) rune_tail_until)
  next
    case (Some k)
    with rune_tail_some [OF Some] 2(2) [OF Some 2(3)] 2(3) show ?thesis
      by (simp add: utf8_replaced.simps(2) rune_tail_until)
  qed
qed

lemma replaced_around:
  "list_all is_ascii l \<Longrightarrow> l \<noteq> [] \<Longrightarrow> utf8_replaced (x @ l @ y) = utf8_replaced x @ l @ utf8_replaced y"
proof (induction l arbitrary: x)
  case (Cons a l)
  show ?case
  proof (cases "l = []")
    case False
    have "utf8_replaced ((x @ [a]) @ l @ y) = utf8_replaced (x @ [a]) @ l @ utf8_replaced y"
      using Cons.IH [of "x @ [a]"] Cons.prems False by simp
    with Cons.prems replaced_until [of a x "[]"] show ?thesis by simp
  qed (use Cons.prems replaced_until in simp)
qed simp

lemma replaced_ascii: "list_all is_ascii s \<Longrightarrow> utf8_replaced s = s"
  using replaced_around [of s "[]" "[]"] by (cases "s = []") simp_all

lemma ascii_in_replaced: "is_ascii a \<Longrightarrow> a \<in> set (utf8_replaced s) \<longleftrightarrow> a \<in> set s"
proof (induction s rule: utf8_replaced.induct)
  case (2 c s)
  have "a \<notin> set replacement_rune" using 2(3) by (auto simp: replacement_rune_def is_ascii_def byte_at_def)
  moreover have "set s = set (take k s) \<union> set (drop k s)" for k by (metis append_take_drop_id set_append)
  ultimately show ?case
    using 2 by (cases "rune_tail c s") (auto dest: rune_tail_some simp: utf8_replaced.simps(2) rune_tail_ascii)
qed simp

lemma replaced_empty: "utf8_replaced s = [] \<longleftrightarrow> s = []"
  by (cases s) (auto simp: utf8_replaced.simps(2) replacement_rune_def split: option.split)

lemma ascii_backslashes [simp]: "list_all is_ascii (replicate n bslash)"
  by (induction n) (simp_all add: is_ascii_def byte_at_def)

text \<open>The text of an escaped argument is the escaped text, with the same runes.\<close>

lemma escape_special_ascii [simp]: "is_ascii dquote" "is_ascii bslash" "is_ascii (CHR '' '')"
  by (simp_all add: is_ascii_def byte_at_def)

lemma escape_loop_skip:
  "x \<noteq> [] \<Longrightarrow> \<forall>c \<in> set x. \<not> is_ascii c \<Longrightarrow> escape_loop n (x @ s) = (case escape_loop 0 s of (t, k) \<Rightarrow> (x @ t, k))"
proof (induction x arbitrary: n)
  case (Cons c x)
  then have "c \<noteq> dquote" "c \<noteq> bslash" by auto
  with Cons show ?case by (cases "x = []") (simp_all add: case_prod_unfold)
qed simp

lemma escape_loop_replaced: "escape_loop n (utf8_replaced s) = (case escape_loop n s of (t, k) \<Rightarrow> (utf8_replaced t, k))"
proof (induction s arbitrary: n rule: length_induct)
  case (1 s)
  define x where "x = takeWhile (\<lambda>c. \<not> is_ascii c) s"
  have x: "\<forall>c \<in> set x. \<not> is_ascii c" using set_takeWhileD unfolding x_def by fastforce
  then have rx: "\<forall>c \<in> set (utf8_replaced x). \<not> is_ascii c" using ascii_in_replaced by blast
  show ?case
  proof (cases "dropWhile (\<lambda>c. \<not> is_ascii c) s")
    case Nil
    then have "s = x" unfolding x_def by (metis append_Nil2 takeWhile_dropWhile_id)
    then show ?thesis
      using escape_loop_skip [OF _ x, of n "[]"] escape_loop_skip [OF _ rx, of n "[]"] replaced_empty [of x] by (cases "x = []") simp_all
  next
    case (Cons a y)
    then have s: "s = x @ a # y" unfolding x_def by (metis takeWhile_dropWhile_id)
    have a: "is_ascii a" using Cons by (metis dropWhile_eq_Cons_conv)
    have y: "escape_loop m (utf8_replaced y) = (case escape_loop m y of (t, k) \<Rightarrow> (utf8_replaced t, k))" for m
      using 1 s by simp
    have tail: "escape_loop m (a # utf8_replaced y) = (case escape_loop m (a # y) of (t, k) \<Rightarrow> (utf8_replaced t, k))"
      and start: "\<exists>b r. fst (escape_loop m (a # y)) = b # r \<and> is_ascii b" for m
    proof -
      have q: "utf8_replaced (replicate m bslash @ [bslash, dquote] @ t) = replicate m bslash @ [bslash, dquote] @ utf8_replaced t" for t
        using replaced_around [of "replicate m bslash @ [bslash, dquote]" "[]" t] by simp
      show "escape_loop m (a # utf8_replaced y) = (case escape_loop m (a # y) of (t, k) \<Rightarrow> (utf8_replaced t, k))"
        using q a by (simp add: y case_prod_unfold)
      show "\<exists>b r. fst (escape_loop m (a # y)) = b # r \<and> is_ascii b"
        using a by (cases m) (auto simp: case_prod_unfold)
    qed
    show ?thesis
    proof (cases "x = []")
      case True
      with tail [of n] a show ?thesis by (simp add: s del: escape_loop.simps)
    next
      case False
      obtain b r where b: "fst (escape_loop 0 (a # y)) = b # r" "is_ascii b" using start [of 0] by blast
      have "utf8_replaced (x @ fst (escape_loop 0 (a # y))) = utf8_replaced x @ utf8_replaced (fst (escape_loop 0 (a # y)))"
        unfolding b(1) using replaced_until [OF b(2), of x r] b(2) by simp
      with False tail [of 0] show ?thesis
        by (simp add: s replaced_until [OF a] escape_loop_skip [OF False x] escape_loop_skip [OF _ rx] replaced_empty case_prod_unfold
            del: escape_loop.simps replaced_Cons_ascii)
    qed
  qed
qed

lemma blanks_replaced: "list_ex is_blank (utf8_replaced s) = list_ex is_blank s"
proof -
  have "is_blank c \<Longrightarrow> is_ascii c" for c by (auto simp: is_blank_def is_ascii_def byte_at_def)
  then show ?thesis unfolding list_ex_iff by (metis ascii_in_replaced)
qed

lemma EscapeArg_replaced: "utf8_replaced (EscapeArg s) = EscapeArg (utf8_replaced s)"
proof (cases "s = []")
  case True
  then show ?thesis by (simp add: EscapeArg_def replaced_ascii)
next
  case False
  obtain t k where t: "escape_loop 0 s = (t, k)" by fastforce
  have "utf8_replaced ([dquote] @ t @ (replicate k bslash @ [dquote]) @ []) = [dquote] @ utf8_replaced t @ replicate k bslash @ [dquote]"
    using replaced_around [of "replicate k bslash @ [dquote]" "[dquote] @ t" "[]"] replaced_until [of dquote "[]" t]
    by simp
  with False t escape_loop_replaced [of 0 s] show ?thesis
    by (simp add: EscapeArg_loop replaced_empty blanks_replaced)
qed

lemma command_line_replaced:
  assumes "buildCommandLine exe args = Inr line"
  shows "buildCommandLine (utf8_replaced exe) (map utf8_replaced args) = Inr (utf8_replaced line)"
proof -
  have "utf8_replaced (x @ concat (map (\<lambda>a. CHR '' '' # EscapeArg a) args)) =
      utf8_replaced x @ concat (map (\<lambda>a. CHR '' '' # EscapeArg (utf8_replaced a)) args)" for x
  proof (induction args arbitrary: x)
    case (Cons a args)
    from Cons.IH [of "x @ CHR '' '' # EscapeArg a"] show ?case by (simp add: replaced_until EscapeArg_replaced)
  qed simp
  with assms show ?thesis
    using replaced_empty [of line] by (auto simp: buildCommandLine_def Let_def EscapeArg_replaced comp_def split: if_splits)
qed

section \<open>The process in the user's session\<close>

datatype WinHandle = UserToken | PrimaryToken | EnvBlock | ProcessHandle | ThreadHandle

text \<open>What is open, newest first, and the command lines of the processes that were started.\<close>

record Console =
  cs_open :: "WinHandle list"
  cs_started :: "string list"

record WinEnv =
  we_session :: int
  we_query_token :: "int \<Rightarrow> err option"
  we_duplicate_token :: "err option"
  we_environment :: "err option"
  we_create :: "string \<Rightarrow> err option"

type_synonym 'a Win = "(Console, err + 'a) state"

definition invalidSessionID :: int where
  "invalidSessionID = 0xFFFFFFFF"

definition opens :: "WinHandle \<Rightarrow> (Console, unit) state" where
  "opens h = modify (\<lambda>s. s\<lparr>cs_open := h # cs_open s\<rparr>)"

definition closes :: "WinHandle \<Rightarrow> (Console, unit) state" where
  "closes h = modify (\<lambda>s. s\<lparr>cs_open := remove1 h (cs_open s)\<rparr>)"

text \<open>\<^verbatim>\<open>if err := acquire(&h); err != nil { return ... }; defer release(h)\<close> around the rest of the function.\<close>

definition with_handle :: "err option \<Rightarrow> (err \<Rightarrow> err) \<Rightarrow> WinHandle \<Rightarrow> 'a Win \<Rightarrow> 'a Win" where
  "with_handle r wrap h rest =
     (case r of
        Some e \<Rightarrow> ret (Inl (wrap e))
      | None \<Rightarrow> do { opens h; x \<leftarrow> rest; closes h; ret x })"

text \<open>
  \<^verbatim>\<open>windows.UTF16PtrFromString\<close> refuses a text with a NUL byte. The text it gives stands here by its
  encoding in bytes; what was not an encoding of a rune has become U+FFFD.
\<close>

definition utf16_text :: "string \<Rightarrow> err + string" where
  "utf16_text s = (if CHR 0x00 \<in> set s then Inl (ErrorText ''invalid argument'') else Inr (utf8_replaced s))"

definition create_process :: "WinEnv \<Rightarrow> string \<Rightarrow> unit Win" where
  "create_process env line =
     (case we_create env line of
        Some e \<Rightarrow> ret (Inl (Wrapped (''create process in session '' @ itoa (we_session env)) e))
      | None \<Rightarrow> do {
          modify (\<lambda>s. s\<lparr>cs_started := line # cs_started s\<rparr>);
          opens ProcessHandle; opens ThreadHandle;
          closes ProcessHandle; closes ThreadHandle;
          ret (Inr ())
        })"

definition runInActiveConsoleSession :: "WinEnv \<Rightarrow> string \<Rightarrow> string list \<Rightarrow> unit Win" where
  "runInActiveConsoleSession env exe args =
     (let sessionID = we_session env
      in if sessionID = invalidSessionID then ret (Inl (ErrorText ''no active console session (no user logged in)''))
         else
           with_handle (we_query_token env sessionID) (Wrapped (''query user token for session '' @ itoa sessionID)) UserToken
          (with_handle (we_duplicate_token env) (Wrapped ''duplicate user token'') PrimaryToken
          (with_handle (we_environment env) (Wrapped ''create environment block'') EnvBlock
          (try_do (ret (buildCommandLine exe args)) (\<lambda>cmdLine.
           try_do (ret (case utf16_text cmdLine of Inl e \<Rightarrow> Inl (Wrapped ''encode command line'' e) | Inr t \<Rightarrow> Inr t)) (\<lambda>text.
             create_process env text))))))"

definition NotifyToast :: "WinEnv \<Rightarrow> string \<Rightarrow> Notification \<Rightarrow> (Console, err option) state" where
  "NotifyToast env appID n = do {
     let script = buildToastScript (if appID \<noteq> [] then appID else DefaultAppID) (no_title n) (no_body n);
     r \<leftarrow> runInActiveConsoleSession env ''powershell.exe''
        [''-NoProfile'', ''-NonInteractive'', ''-WindowStyle'', ''Hidden'', ''-Command'', script];
     ret (case r of Inl e \<Rightarrow> Some (Wrapped ''show toast notification'' e) | Inr u \<Rightarrow> None)
   }"

text \<open>A computation that leaves the open handles as they were, whatever it does.\<close>

definition settled :: "'a Win \<Rightarrow> bool" where
  "settled m \<longleftrightarrow> (\<forall>s. cs_open (snd (run_state m s)) = cs_open s)"

lemma settled_intros:
  "settled (ret r)"
  "settled (create_process env line)"
  "settled m \<Longrightarrow> settled (with_handle a wrap h m)"
  "(\<And>x. settled (f x)) \<Longrightarrow> settled (try_do (ret r) f)"
  by (auto simp: settled_def with_handle_def create_process_def opens_def closes_def run_try_do case_prod_unfold
      split: option.split sum.split)

lemma session_settles: "settled (runInActiveConsoleSession env exe args)"
  unfolding runInActiveConsoleSession_def Let_def by (auto intro!: settled_intros)

lemma session_starts:
  assumes "run_state (runInActiveConsoleSession env exe args) s = (r, s')"
  shows "case r of
      Inl e \<Rightarrow> cs_started s' = cs_started s
    | Inr _ \<Rightarrow> \<exists>line. buildCommandLine exe args = Inr line \<and> cs_started s' = utf8_replaced line # cs_started s"
  using assms
  by (auto simp: runInActiveConsoleSession_def with_handle_def create_process_def opens_def closes_def utf16_text_def
      run_try_do Let_def split: if_splits option.splits sum.splits)

text \<open>C33: The toast's process gets the script as it was written. When a notification is delivered, exactly one
  process was started, and Windows reads its command line as powershell.exe with the five
  options and the whole script as one last argument, whatever quotation marks, backslashes, blanks or
  line breaks the job's name and the error message have; only a byte that belongs to no UTF-8 encoding
  arrives as U+FFFD, so a script in ASCII arrives as it is. When it is not delivered, no process was
  started; and on every path all tokens, blocks and handles are closed again.\<close>

theorem toast_process_gets_its_script:
  assumes "run_state (NotifyToast env appID n) s = (r, s')"
  shows "cs_open s' = cs_open s \<and> (let script = buildToastScript (if appID = [] then DefaultAppID else appID) (no_title n) (no_body n) in
    (case r of
       Some e \<Rightarrow> cs_started s' = cs_started s
     | None \<Rightarrow> \<exists>line. cs_started s' = line # cs_started s \<and>
         command_argv line = [''powershell.exe'', ''-NoProfile'', ''-NonInteractive'', ''-WindowStyle'', ''Hidden'', ''-Command'', utf8_replaced script] \<and>
         (list_all is_ascii script \<longrightarrow> utf8_replaced script = script)))"
proof -
  let ?script = "buildToastScript (if appID = [] then DefaultAppID else appID) (no_title n) (no_body n)"
  let ?args = "[''-NoProfile'', ''-NonInteractive'', ''-WindowStyle'', ''Hidden'', ''-Command'', ?script]"
  obtain r' where run: "run_state (runInActiveConsoleSession env ''powershell.exe'' ?args) s = (r', s')"
    and r: "r = (case r' of Inl e \<Rightarrow> Some (Wrapped ''show toast notification'' e) | Inr u \<Rightarrow> None)"
    using assms by (auto simp: NotifyToast_def Let_def if_distrib split: prod.splits if_splits)
  have "cs_open s' = cs_open s"
    using session_settles [of env "''powershell.exe''" ?args] run by (metis settled_def snd_conv)
  moreover have "plain_program ''powershell.exe''" by (simp add: plain_program_def)
  moreover have names: "utf8_replaced ''powershell.exe'' = ''powershell.exe''" "utf8_replaced ''-NoProfile'' = ''-NoProfile''"
    "utf8_replaced ''-NonInteractive'' = ''-NonInteractive''" "utf8_replaced ''-WindowStyle'' = ''-WindowStyle''"
    "utf8_replaced ''Hidden'' = ''Hidden''" "utf8_replaced ''-Command'' = ''-Command''"
    by (simp_all add: replaced_ascii is_ascii_def byte_at_def)
  ultimately show ?thesis
    using session_starts [OF run] command_line_read [of "''powershell.exe''" "map utf8_replaced ?args"]
      command_line_replaced [of "''powershell.exe''" ?args] r names replaced_ascii [of ?script]
    by (auto simp: Let_def split: sum.splits)
qed

text \<open>A delivery that succeeds, and one that fails when the process is created.\<close>

definition sample_win :: "err option \<Rightarrow> WinEnv" where
  "sample_win fault = \<lparr>we_session = 1, we_query_token = (\<lambda>_. None), we_duplicate_token = None, we_environment = None, we_create = (\<lambda>_. fault)\<rparr>"

definition sample_notification :: Notification where
  "sample_notification = \<lparr>no_kind = KindFailure, no_title = ''t'', no_body = ''b''\<rparr>"

definition no_process :: Console where
  "no_process = \<lparr>cs_open = [], cs_started = []\<rparr>"

lemma no_NUL_escaped: "CHR 0x00 \<notin> set s \<Longrightarrow> CHR 0x00 \<notin> set (EscapeArg s)"
proof -
  have "escape_loop n s = (t, k) \<Longrightarrow> CHR 0x00 \<notin> set s \<Longrightarrow> CHR 0x00 \<notin> set t" for n t k
    by (induction n s arbitrary: t k rule: escape_loop.induct) (auto split: prod.splits if_splits)
  note loop = this
  assume no_NUL: "CHR 0x00 \<notin> set s"
  show "CHR 0x00 \<notin> set (EscapeArg s)"
  proof (cases "s = []")
    case False
    obtain t k where t: "escape_loop 0 s = (t, k)" by fastforce
    with loop [OF t no_NUL] False show ?thesis by (simp add: EscapeArg_loop)
  qed (simp add: EscapeArg_def)
qed

lemma sample_delivered: "fst (run_state (NotifyToast (sample_win None) [] sample_notification) no_process) = None"
proof -
  have "CHR 0x00 \<notin> set (buildToastScript DefaultAppID ''t'' ''b'')"
    by (simp add: buildToastScript_def script_head_def script_tail_def toast_open_def toast_close_def here_open_def here_close_def newline_def
        xmlEscape_def powershellQuote_def DefaultAppID_def)
  then have "CHR 0x00 \<notin> set (EscapeArg (buildToastScript DefaultAppID ''t'' ''b''))" by (rule no_NUL_escaped)
  then show ?thesis
    by (auto simp: NotifyToast_def runInActiveConsoleSession_def with_handle_def create_process_def buildCommandLine_def utf16_text_def
        sample_win_def sample_notification_def opens_def closes_def run_try_do invalidSessionID_def no_NUL_escaped Let_def
        EscapeArg_start case_prod_unfold split: sum.split)
qed

lemma sample_texts: "no_title sample_notification = ''t''" "no_body sample_notification = ''b''" "cs_open no_process = []" "cs_started no_process = []"
  by (simp_all add: sample_notification_def no_process_def)

lemma toast_process_witness:
  "cs_open (snd (run_state (NotifyToast (sample_win None) [] sample_notification) no_process)) = [] \<and>
   (\<exists>line. cs_started (snd (run_state (NotifyToast (sample_win None) [] sample_notification) no_process)) = [line] \<and>
      command_argv line = [''powershell.exe'', ''-NoProfile'', ''-NonInteractive'', ''-WindowStyle'', ''Hidden'', ''-Command'',
        utf8_replaced (buildToastScript DefaultAppID ''t'' ''b'')]) \<and>
   cs_open (snd (run_state (NotifyToast (sample_win (Some EndOfFile)) [] sample_notification) no_process)) = []"
proof -
  obtain s' where ok: "run_state (NotifyToast (sample_win None) [] sample_notification) no_process = (None, s')"
    using sample_delivered by (metis prod.collapse)
  show ?thesis
    using toast_process_gets_its_script [OF ok] toast_process_gets_its_script [of "sample_win (Some EndOfFile)" "[]" sample_notification no_process, OF surjective_pairing]
    by (auto simp: ok sample_texts Let_def)
qed

text \<open>The two hard cases of the command line.\<close>

lemma hard_arguments:
  "EscapeArg (''a b'' @ [bslash]) = [dquote] @ ''a b'' @ [bslash, bslash, dquote]"
  "EscapeArg [] = [dquote, dquote]"
  by (simp_all add: EscapeArg_def is_blank_def)

end
