(* ===== verification/Dpapi.thy ===== *)
theory Dpapi
  imports Secrets "HOL-Library.Word"
begin

text \<open>
  \<^verbatim>\<open>internal/secrets/dpapi.go\<close>: the calls of \<^verbatim>\<open>CryptProtectData\<close> and \<^verbatim>\<open>CryptUnprotectData\<close> with their
  data blobs. What the two procedures answer is a parameter; the buffers they allocate are
  tracked until \<^verbatim>\<open>LocalFree\<close>.
\<close>

section \<open>Blobs\<close>

text \<open>A pointer is \<^term>\<open>None\<close> or gives the bytes that are stored from its address on.\<close>

record dataBlob =
  cbData :: "32 word"
  pbData :: "string option"

definition newBlob :: "string \<Rightarrow> dataBlob" where
  "newBlob b =
     (if b = [] then \<lparr>cbData = 0, pbData = None\<rparr>
      else \<lparr>cbData = of_nat (length b), pbData = Some b\<rparr>)"

definition blob_bytes :: "dataBlob \<Rightarrow> string" where
  "blob_bytes b =
     (case pbData b of
        None \<Rightarrow> []
      | Some mem \<Rightarrow> if cbData b = 0 then [] else take (unat (cbData b)) mem)"

section \<open>Calls\<close>

datatype DpapiProc = CryptProtectData | CryptUnprotectData

text \<open>
  What a procedure answers to a blob and the flags: an error, or the contents of a buffer that it allocates for
  the output. The state numbers the buffers and holds those that are not freed yet.
\<close>

type_synonym CryptApi = "DpapiProc \<Rightarrow> dataBlob \<Rightarrow> nat \<Rightarrow> err + string"

record Buffers =
  bu_live :: "nat set"
  bu_next :: nat

definition cryptProtectLocalMachine :: nat where
  "cryptProtectLocalMachine = 4"

definition proc_Call :: "CryptApi \<Rightarrow> DpapiProc \<Rightarrow> dataBlob \<Rightarrow> (Buffers, err + dataBlob \<times> nat) state" where
  "proc_Call api p blob = State (\<lambda>s.
     case api p blob cryptProtectLocalMachine of
       Inl e \<Rightarrow> (Inl e, s)
     | Inr mem \<Rightarrow> (Inr (\<lparr>cbData = of_nat (length mem), pbData = Some mem\<rparr>, bu_next s),
         s\<lparr>bu_live := insert (bu_next s) (bu_live s), bu_next := Suc (bu_next s)\<rparr>))"

definition LocalFree :: "nat \<Rightarrow> (Buffers, unit) state" where
  "LocalFree k = modify (\<lambda>s. s\<lparr>bu_live := bu_live s - {k}\<rparr>)"

text \<open>\<^verbatim>\<open>make([]byte, n)\<close> and \<^verbatim>\<open>copy\<close>: what the source does not fill stays zero.\<close>

definition copied :: "nat \<Rightarrow> string \<Rightarrow> string" where
  "copied n src = take n src @ replicate (n - length src) (CHR 0x00)"

definition callDPAPI :: "CryptApi \<Rightarrow> DpapiProc \<Rightarrow> string \<Rightarrow> (Buffers, err + string) state" where
  "callDPAPI api p data =
     try_do (proc_Call api p (newBlob data)) (\<lambda>(out, k). do {
       let result = copied (unat (cbData out)) (blob_bytes out);
       LocalFree k;
       ret (Inr result)
     })"

definition dpapiProtect :: "CryptApi \<Rightarrow> string \<Rightarrow> (Buffers, err + string) state" where
  "dpapiProtect api data = do {
     r \<leftarrow> callDPAPI api CryptProtectData data;
     ret (case r of Inl e \<Rightarrow> Inl (Wrapped ''CryptProtectData'' e) | Inr out \<Rightarrow> Inr out)
   }"

definition dpapiUnprotect :: "CryptApi \<Rightarrow> string \<Rightarrow> (Buffers, err + string) state" where
  "dpapiUnprotect api data = do {
     r \<leftarrow> callDPAPI api CryptUnprotectData data;
     ret (case r of Inl e \<Rightarrow> Inl (Wrapped ''CryptUnprotectData'' e) | Inr out \<Rightarrow> Inr out)
   }"

section \<open>The procedures as the credential store uses them\<close>

text \<open>
  What the documentation of the two procedures promises: unprotecting the output of protecting
  gives back the bytes that were protected, whatever the lengths below the limit of a blob.
\<close>

definition documented :: "CryptApi \<Rightarrow> bool" where
  "documented api \<longleftrightarrow>
     (\<forall>blob mem. api CryptProtectData blob cryptProtectLocalMachine = Inr mem \<longrightarrow>
        length mem < 2 ^ 32 \<and>
        api CryptUnprotectData (newBlob mem) cryptProtectLocalMachine = Inr (blob_bytes blob))"

lemma blob_roundtrip: "length b < 2 ^ 32 \<Longrightarrow> blob_bytes (newBlob b) = b"
  by (auto simp: blob_bytes_def newBlob_def unat_of_nat take_bit_nat_eq_self word_of_nat_eq_0_iff dest: dvd_imp_le)

lemma run_callDPAPI:
  assumes "bu_next s \<notin> bu_live s"
  shows "run_state (callDPAPI api p data) s =
    (case api p (newBlob data) cryptProtectLocalMachine of
       Inl e \<Rightarrow> (Inl e, s)
     | Inr mem \<Rightarrow> (Inr (take (length mem mod 2 ^ 32) mem), s\<lparr>bu_next := Suc (bu_next s)\<rparr>))"
proof -
  have "copied (unat (of_nat (length mem) :: 32 word)) (blob_bytes \<lparr>cbData = of_nat (length mem), pbData = Some mem\<rparr>) =
      take (length mem mod 2 ^ 32) mem" for mem
  proof -
    have "unat (of_nat (length mem) :: 32 word) = length mem mod 2 ^ 32"
      by (simp add: unat_of_nat take_bit_eq_mod)
    moreover have "length mem mod 2 ^ 32 \<le> length mem" by simp
    ultimately show ?thesis
      by (auto simp: copied_def blob_bytes_def unat_eq_zero simp flip: unat_eq_zero)
  qed
  moreover have "insert (bu_next s) (bu_live s) - {bu_next s} = bu_live s" using assms by auto
  ultimately show ?thesis
    by (simp add: callDPAPI_def run_try_do proc_Call_def LocalFree_def Let_def split: sum.split)
qed

text \<open>The store's parameters, computed by these calls.\<close>

definition dpapi_env :: "CryptApi \<Rightarrow> Buffers \<Rightarrow> SecretEnv \<Rightarrow> SecretEnv" where
  "dpapi_env api s env = env\<lparr>se_protect := (\<lambda>x. fst (run_state (dpapiProtect api x) s)),
     se_unprotect := (\<lambda>x. fst (run_state (dpapiUnprotect api x) s))\<rparr>"

lemma unprotect_gives_back:
  assumes "documented api" and "length plaintext < 2 ^ 32" and "bu_next s \<notin> bu_live s"
    and "fst (run_state (dpapiProtect api plaintext) s) = Inr protected"
  shows "fst (run_state (dpapiUnprotect api protected) s) = Inr plaintext"
proof -
  note run = run_callDPAPI [OF assms(3)]
  obtain mem where mem: "api CryptProtectData (newBlob plaintext) cryptProtectLocalMachine = Inr mem"
    "protected = take (length mem mod 2 ^ 32) mem"
    using assms(4) by (auto simp: dpapiProtect_def run case_prod_unfold split: sum.splits)
  with assms(1) have d: "length mem < 2 ^ 32"
    "api CryptUnprotectData (newBlob mem) cryptProtectLocalMachine = Inr (blob_bytes (newBlob plaintext))"
    by (auto simp: documented_def)
  have "protected = mem" using d(1) mem(2) by simp
  then show ?thesis
    using d(2) assms(2) by (simp add: dpapiUnprotect_def run blob_roundtrip)
qed

lemma no_buffer_leaks:
  assumes "bu_next s \<notin> bu_live s"
  shows "bu_live (snd (run_state (dpapiProtect api data) s)) = bu_live s"
    and "bu_live (snd (run_state (dpapiUnprotect api data) s)) = bu_live s"
  using run_callDPAPI [OF assms] by (simp_all add: dpapiProtect_def dpapiUnprotect_def case_prod_unfold split: sum.split)

text \<open>C17: A stored secret survives its encryption, and no buffer is leaked. Let the system keep its
  documented promise. Whatever secret of fewer than 2^32 bytes the credential store saves, the empty one
  included, is loaded as exactly what it was, through the blobs, the 32-bit lengths and the copies
  of the output buffers; and every encryption and decryption, failed or not, of any data leaves
  just the buffers alive that were alive before.\<close>

theorem stored_secret_survives_encryption:
  assumes "documented api" and "bu_next s \<notin> bu_live s" and "length plaintext < 2 ^ 32"
    and "se_read_fault env = (\<lambda>_. None)"
    and "SaveSecret (dpapi_env api s env) n plaintext files = (files', Inr reference)"
  shows "LoadSecret (dpapi_env api s env) reference files' = Inr plaintext \<and>
    bu_live (snd (run_state (dpapiProtect api data) s)) = bu_live s \<and>
    bu_live (snd (run_state (dpapiUnprotect api data) s)) = bu_live s"
proof -
  let ?env = "dpapi_env api s env"
  obtain protected where path: "secret_path (se_dir ?env) reference = Inr (path_join (se_dir ?env) reference)"
    and "se_protect ?env plaintext = Inr protected" and files: "files' = put_file (path_join (se_dir ?env) reference) (Some protected) files"
    using save_secret_Inr [OF assms(5)] by blast
  then have "se_unprotect ?env protected = Inr plaintext"
    using unprotect_gives_back [OF assms(1,3,2)] by (simp add: dpapi_env_def)
  moreover have "se_read_fault ?env = (\<lambda>_. None)" by (simp add: dpapi_env_def assms(4))
  ultimately have "LoadSecret ?env reference files' = Inr plaintext"
    by (simp add: LoadSecret_def path files)
  then show ?thesis using no_buffer_leaks [OF assms(2)] by simp
qed

text \<open>A toy system that puts two bytes before the secret.\<close>

definition toy_api :: CryptApi where
  "toy_api p blob flags =
     (case p of
        CryptProtectData \<Rightarrow> if unat (cbData blob) < 2 ^ 31 then Inr (''dp'' @ blob_bytes blob) else Inl EndOfFile
      | CryptUnprotectData \<Rightarrow> Inr (drop 2 (blob_bytes blob)))"

lemma toy_documented: "documented toy_api"
proof -
  have "length (blob_bytes b) \<le> unat (cbData b)" for b by (simp add: blob_bytes_def split: option.split)
  then have "length (''dp'' @ blob_bytes b) < 2 ^ 32" if "unat (cbData b) < 2 ^ 31" for b
    using le_less_trans [OF _ that] by fastforce
  then show ?thesis by (auto simp: documented_def toy_api_def blob_roundtrip split: if_splits)
qed

lemma stored_secret_witness:
  "LoadSecret (dpapi_env toy_api \<lparr>bu_live = {}, bu_next = 0\<rparr> plain_env) (replicate 32 (CHR ''0''))
     (fst (SaveSecret (dpapi_env toy_api \<lparr>bu_live = {}, bu_next = 0\<rparr> plain_env) 0 ''hunter2'' Map.empty)) = Inr ''hunter2''"
proof -
  let ?s = "\<lparr>bu_live = {}, bu_next = 0\<rparr>" let ?env = "dpapi_env toy_api ?s plain_env"
  have id: "NewID (se_rand ?env) 0 = Inr (replicate 32 (CHR ''0''))" by (simp add: dpapi_env_def plain_env_def) code_simp
  have path: "secret_path ''D:'' (replicate 32 (CHR ''0'')) = Inr (path_join ''D:'' (replicate 32 (CHR ''0'')))" by code_simp
  have "\<exists>files. SaveSecret ?env 0 ''hunter2'' Map.empty = (files, Inr (replicate 32 (CHR ''0'')))"
    using id path by (simp add: SaveSecret_def writeProtected_def dpapi_env_def plain_env_def dpapiProtect_def run_callDPAPI toy_api_def newBlob_def)
  then obtain files where save: "SaveSecret ?env 0 ''hunter2'' Map.empty = (files, Inr (replicate 32 (CHR ''0'')))" by blast
  from stored_secret_survives_encryption [OF toy_documented _ _ _ this] save show ?thesis
    by (simp add: plain_env_def)
qed

end
